(* ===== verification/Prelude.thy ===== *)
theory Prelude
  imports Main "HOL-Library.Sublist" "HOL-Library.Char_ord"
begin

text \<open>
  Shared vocabulary of the development: the collections of simplification facts the component
  theories fill, the names of the control characters of the wire protocols, the result type that
  stands for Rust's \<^verbatim>\<open>Result\<close>, and generic lemmas on lists and options that no single
  component owns.
\<close>

named_theorems flow_simps \<open>unfolding facts of the flow-control operations\<close>
named_theorems session_simps \<open>unfolding facts of the session handlers\<close>
named_theorems frame_simps \<open>fields an operation leaves unchanged\<close>

text \<open>
  A byte of the wire and a byte of a Rust \<^verbatim>\<open>String\<close> (which is UTF-8 encoded) is a
  \<^typ>\<open>char\<close>; a \<^verbatim>\<open>Vec<u8>\<close> and a \<^verbatim>\<open>String\<close> are both lists of them.
  \<open>Inl\<close> is the \<^verbatim>\<open>Err\<close> of a Rust \<^verbatim>\<open>Result\<close>.
\<close>

type_synonym bytes = "char list"
type_synonym ('e, 'a) result = "'e + 'a"

abbreviation LF :: char where "LF \<equiv> CHR 0x0A"
abbreviation CR :: char where "CR \<equiv> CHR 0x0D"
abbreviation NUL :: char where "NUL \<equiv> CHR 0x00"

text \<open>A line as it is written to the device: the text followed by a line feed.\<close>

definition with_newline :: "string \<Rightarrow> bytes" where
  "with_newline s = s @ [LF]"

lemma with_newline_not_poll: "with_newline s \<noteq> ''?''"
  by (cases s) (auto simp: with_newline_def)

text \<open>\<^verbatim>\<open>Result::is_ok\<close> and the value or the error a result carries.\<close>

definition is_ok_result :: "('e, 'a) result \<Rightarrow> bool" where
  "is_ok_result r = (case r of Inl _ \<Rightarrow> False | Inr _ \<Rightarrow> True)"

lemma is_ok_result_simps [simp]:
  "is_ok_result (Inr v)" "\<not> is_ok_result (Inl e)"
  by (simp_all add: is_ok_result_def)

subsection \<open>Position of the first element with a property\<close>

text \<open>\<^verbatim>\<open>iter().position(p)\<close> of the standard library.\<close>

fun position :: "('a \<Rightarrow> bool) \<Rightarrow> 'a list \<Rightarrow> nat option" where
  "position P [] = None"
| "position P (x # xs) = (if P x then Some 0 else map_option Suc (position P xs))"

lemma position_None_iff: "position P xs = None \<longleftrightarrow> (\<forall>x \<in> set xs. \<not> P x)"
  by (induction xs) auto

lemma position_Some:
  "position P xs = Some i \<Longrightarrow> i < length xs \<and> P (xs ! i) \<and> (\<forall>j<i. \<not> P (xs ! j))"
proof (induction xs arbitrary: i)
  case Nil
  then show ?case by simp
next
  case (Cons x xs)
  show ?case
  proof (cases "P x")
    case True
    with Cons.prems show ?thesis by simp
  next
    case False
    with Cons.prems obtain k where k: "position P xs = Some k" "i = Suc k" by auto
    from Cons.IH [OF k(1)] False k(2) show ?thesis
      by (auto simp: nth_Cons split: nat.splits)
  qed
qed

lemma position_less [dest]: "position P xs = Some i \<Longrightarrow> i < length xs"
  by (simp add: position_Some)

lemma position_append_hit:
  "\<forall>x \<in> set xs. \<not> P x \<Longrightarrow> P y \<Longrightarrow> position P (xs @ y # ys) = Some (length xs)"
  by (induction xs) auto

lemma position_take_no_hit: "position P xs = Some i \<Longrightarrow> \<forall>x \<in> set (take i xs). \<not> P x"
  using position_Some [of P xs i] by (auto simp: in_set_conv_nth)

lemma split_at_position:
  assumes "position P xs = Some i"
  shows "xs = take i xs @ xs ! i # drop (Suc i) xs"
  using position_less [OF assms] by (rule id_take_nth_drop)

subsection \<open>Generic list facts\<close>

lemma sum_list_drop_le: "sum_list (drop n xs) \<le> (sum_list xs :: nat)"
proof -
  have "sum_list xs = sum_list (take n xs) + sum_list (drop n xs)"
    by (metis append_take_drop_id sum_list_append)
  then show ?thesis by simp
qed

lemma split_at_first_eq:
  "x \<notin> set a \<Longrightarrow> x \<notin> set b \<Longrightarrow> a @ x # c = b @ x # d \<longleftrightarrow> a = b \<and> c = d"
proof (induction a arbitrary: b)
  case Nil
  then show ?case by (cases b) auto
next
  case (Cons y a)
  then show ?case by (cases b) auto
qed

lemma drop_eq_tl_funpow: "drop (Suc n) xs = drop n (tl xs)"
  by (simp add: drop_Suc)

lemma length_filter_concat_le: "length (filter P xs) \<le> length xs"
  by simp

text \<open>\<^verbatim>\<open>Vec::drain(i..j)\<close>: what stays of the vector.\<close>

definition drain_range :: "nat \<Rightarrow> nat \<Rightarrow> 'a list \<Rightarrow> 'a list" where
  "drain_range i j xs = take i xs @ drop j xs"

lemma length_drain_range:
  "i \<le> j \<Longrightarrow> j \<le> length xs \<Longrightarrow> length (drain_range i j xs) = length xs - (j - i)"
  by (simp add: drain_range_def)

lemma drain_range_shorter:
  "i < j \<Longrightarrow> j \<le> length xs \<Longrightarrow> length (drain_range i j xs) < length xs"
  by (simp add: drain_range_def)

lemma set_drain_range_subset: "set (drain_range i j xs) \<subseteq> set xs"
  unfolding drain_range_def using set_take_subset set_drop_subset by fastforce

subsection \<open>Option helpers\<close>

text \<open>\<^verbatim>\<open>Option::or_else\<close>.\<close>

definition or_else :: "'a option \<Rightarrow> 'a option \<Rightarrow> 'a option" where
  "or_else a b = (case a of None \<Rightarrow> b | Some x \<Rightarrow> Some x)"

lemma or_else_simps [simp]: "or_else None b = b" "or_else (Some x) b = Some x"
  by (simp_all add: or_else_def)

text \<open>\<^verbatim>\<open>Iterator::find_map\<close>: the first \<open>Some\<close> a function yields along a list.\<close>

fun find_map :: "('a \<Rightarrow> 'b option) \<Rightarrow> 'a list \<Rightarrow> 'b option" where
  "find_map f [] = None"
| "find_map f (x # xs) = (case f x of None \<Rightarrow> find_map f xs | Some y \<Rightarrow> Some y)"

lemma find_map_None_iff: "find_map f xs = None \<longleftrightarrow> (\<forall>x \<in> set xs. f x = None)"
  by (induction xs) (auto split: option.splits)

lemma find_map_Some: "find_map f xs = Some y \<Longrightarrow> \<exists>x \<in> set xs. f x = Some y"
  by (induction xs) (auto split: option.splits)

end
