(* ===== verification/Rust_Str.thy ===== *)
theory Rust_Str
  imports Prelude
begin

text \<open>
  The operations of Rust's \<^verbatim>\<open>str\<close> and of the integer parsers that the sources use, on the
  UTF-8 bytes of a string. Whitespace is the Unicode property \<^verbatim>\<open>White_Space\<close> that
  \<^verbatim>\<open>str::trim\<close> uses, given by its UTF-8 encodings.
\<close>

definition byte :: "char \<Rightarrow> int" where
  "byte c = of_char c"

definition is_ascii :: "char \<Rightarrow> bool" where
  "is_ascii c = (byte c < 128)"

definition all_ascii :: "string \<Rightarrow> bool" where
  "all_ascii s = list_all is_ascii s"

definition is_digit :: "char \<Rightarrow> bool" where
  "is_digit c = (48 \<le> byte c \<and> byte c \<le> 57)"

subsection \<open>Prefixes, suffixes, searching\<close>

fun strip_prefix :: "'a list \<Rightarrow> 'a list \<Rightarrow> 'a list option" where
  "strip_prefix [] s = Some s"
| "strip_prefix (p # ps) [] = None"
| "strip_prefix (p # ps) (c # cs) = (if p = c then strip_prefix ps cs else None)"

definition starts_with :: "'a list \<Rightarrow> 'a list \<Rightarrow> bool" where
  "starts_with s p = (strip_prefix p s \<noteq> None)"

definition strip_suffix :: "'a list \<Rightarrow> 'a list \<Rightarrow> 'a list option" where
  "strip_suffix p s = map_option rev (strip_prefix (rev p) (rev s))"

definition ends_with :: "'a list \<Rightarrow> 'a list \<Rightarrow> bool" where
  "ends_with s p = (strip_suffix p s \<noteq> None)"

lemma strip_prefix_Some_iff: "strip_prefix p s = Some r \<longleftrightarrow> s = p @ r"
  by (induction p s rule: strip_prefix.induct) auto

lemma strip_prefix_append [simp]: "strip_prefix p (p @ r) = Some r"
  by (simp add: strip_prefix_Some_iff)

lemma strip_prefix_length: "strip_prefix p s = Some r \<Longrightarrow> length s = length p + length r"
  by (simp add: strip_prefix_Some_iff)

lemma starts_with_iff: "starts_with s p \<longleftrightarrow> (\<exists>r. s = p @ r)"
  by (auto simp: starts_with_def strip_prefix_Some_iff)

lemma strip_suffix_Some_iff: "strip_suffix p s = Some r \<longleftrightarrow> s = r @ p"
  unfolding strip_suffix_def by (auto simp: strip_prefix_Some_iff rev_swap)

lemma ends_with_iff: "ends_with s p \<longleftrightarrow> (\<exists>r. s = r @ p)"
  by (auto simp: ends_with_def strip_suffix_Some_iff)

text \<open>
  \<^verbatim>\<open>find_subslice\<close> of \<^verbatim>\<open>src/grbl/flow.rs\<close> and \<^verbatim>\<open>str::find\<close> with a string: the
  first window of the haystack equal to the needle.
\<close>

fun find_window :: "'a list \<Rightarrow> 'a list \<Rightarrow> nat option" where
  "find_window [] p = (if p = [] then Some 0 else None)"
| "find_window (x # xs) p =
     (if starts_with (x # xs) p then Some 0 else map_option Suc (find_window xs p))"

definition contains_str :: "'a list \<Rightarrow> 'a list \<Rightarrow> bool" where
  "contains_str s p = (find_window s p \<noteq> None)"

lemma find_window_Some: "find_window s p = Some i \<Longrightarrow> \<exists>r. s = take i s @ p @ r \<and> i + length p \<le> length s"
proof (induction s arbitrary: i)
  case Nil
  then show ?case by (simp split: if_splits)
next
  case (Cons x xs)
  show ?case
  proof (cases "starts_with (x # xs) p")
    case True
    with Cons.prems have "i = 0" by simp
    moreover from True obtain r where "x # xs = p @ r" by (auto simp: starts_with_iff)
    ultimately show ?thesis by (metis append_Nil length_append le_add1 plus_nat.add_0 take0)
  next
    case False
    with Cons.prems obtain k where k: "find_window xs p = Some k" "i = Suc k" by auto
    with Cons.IH obtain r where "xs = take k xs @ p @ r" "k + length p \<le> length xs" by blast
    with k show ?thesis by auto
  qed
qed

lemma find_window_None_iff: "find_window s p = None \<longleftrightarrow> (\<forall>u v. s \<noteq> u @ p @ v)"
proof (induction s)
  case Nil
  then show ?case by auto
next
  case (Cons x xs)
  have "(\<exists>u v. x # xs = u @ p @ v) \<longleftrightarrow> starts_with (x # xs) p \<or> (\<exists>u v. xs = u @ p @ v)"
    unfolding starts_with_iff
  proof
    assume "\<exists>u v. x # xs = u @ p @ v"
    then obtain u v where uv: "x # xs = u @ p @ v" by blast
    then show "(\<exists>r. x # xs = p @ r) \<or> (\<exists>u v. xs = u @ p @ v)" by (cases u) auto
  next
    assume "(\<exists>r. x # xs = p @ r) \<or> (\<exists>u v. xs = u @ p @ v)"
    then show "\<exists>u v. x # xs = u @ p @ v" by (metis append_Cons append_Nil)
  qed
  with Cons.IH show ?case by (simp add: starts_with_iff) metis
qed

lemma find_window_None_append:
  "find_window (s @ t) p = None \<Longrightarrow> find_window s p = None"
  by (metis append.assoc find_window_None_iff)

lemma find_window_shorter:
  "find_window s p = Some i \<Longrightarrow> p \<noteq> [] \<Longrightarrow> length s - (i + length p) < length s"
  by (drule find_window_Some) (cases s; auto)

text \<open>\<^verbatim>\<open>str::split(c)\<close> always yields at least one piece.\<close>

fun split_char :: "'a \<Rightarrow> 'a list \<Rightarrow> 'a list list" where
  "split_char c [] = [[]]"
| "split_char c (x # xs) =
     (if x = c then [] # split_char c xs
      else (case split_char c xs of [] \<Rightarrow> [[x]] | y # ys \<Rightarrow> (x # y) # ys))"

lemma split_char_not_Nil [simp]: "split_char c s \<noteq> []"
  by (induction s) (auto split: list.splits)

lemma split_char_head: "split_char c s = y # ys \<Longrightarrow> (ys \<noteq> [] \<longrightarrow> (\<exists>b. s = y @ c # b)) \<and> (ys = [] \<longrightarrow> s = y)"
proof (induction s arbitrary: y ys)
  case Nil
  then show ?case by simp
next
  case (Cons x s)
  obtain z zs where z: "split_char c s = z # zs" by (cases "split_char c s") auto
  from Cons.IH [OF z] Cons.prems z show ?case by (auto split: if_splits)
qed

text \<open>Every piece but the last is followed by the separator in the text.\<close>

lemma split_char_segment:
  "seg \<in> set (butlast (split_char c s)) \<Longrightarrow> \<exists>a b. s = a @ seg @ c # b"
proof (induction s arbitrary: seg)
  case Nil
  then show ?case by simp
next
  case (Cons x s)
  obtain y ys where y: "split_char c s = y # ys" by (cases "split_char c s") auto
  show ?case
  proof (cases "x = c")
    case True
    with Cons.prems y have "seg = [] \<or> seg \<in> set (butlast (split_char c s))" by auto
    then show ?thesis
    proof
      assume "seg = []"
      with True show ?thesis by (intro exI [of _ "[]"] exI [of _ s]) simp
    next
      assume "seg \<in> set (butlast (split_char c s))"
      then obtain a b where "s = a @ seg @ c # b" using Cons.IH by blast
      then show ?thesis by (intro exI [of _ "x # a"] exI [of _ b]) simp
    qed
  next
    case False
    with Cons.prems y have "ys \<noteq> []" "seg = x # y \<or> seg \<in> set (butlast ys)"
      by (auto split: if_splits)
    then show ?thesis
    proof (elim disjE)
      assume "seg = x # y" "ys \<noteq> []"
      then have "y \<in> set (butlast (split_char c s))" using y by simp
      moreover have "\<exists>b. s = y @ c # b" using split_char_head [OF y] \<open>ys \<noteq> []\<close> by simp
      ultimately show ?thesis using \<open>seg = x # y\<close> by auto
    next
      assume "seg \<in> set (butlast ys)"
      with y have "seg \<in> set (butlast (split_char c s))" by (cases ys) auto
      then obtain a b where "s = a @ seg @ c # b" using Cons.IH by blast
      then show ?thesis by (intro exI [of _ "x # a"] exI [of _ b]) simp
    qed
  qed
qed

lemma split_char_no_sep: "c \<notin> set s \<Longrightarrow> split_char c s = [s]"
  by (induction s) auto

lemma split_char_sep: "c \<notin> set s \<Longrightarrow> split_char c (s @ c # t) = s # split_char c t"
  by (induction s) auto

lemma split_char_pieces: "p \<in> set (split_char c s) \<Longrightarrow> c \<notin> set p"
  by (induction s arbitrary: p) (auto split: if_splits list.splits)

lemma concat_split_char_subset: "p \<in> set (split_char c s) \<Longrightarrow> set p \<subseteq> set s"
proof (induction s arbitrary: p)
  case Nil
  then show ?case by simp
next
  case (Cons x xs)
  then show ?case by (fastforce split: if_splits list.splits)
qed

text \<open>\<^verbatim>\<open>str::split_once(c)\<close>.\<close>

definition split_once :: "'a \<Rightarrow> 'a list \<Rightarrow> ('a list \<times> 'a list) option" where
  "split_once c s = map_option (\<lambda>i. (take i s, drop (Suc i) s)) (position (\<lambda>x. x = c) s)"

lemma split_once_Some: "split_once c s = Some (a, b) \<Longrightarrow> s = a @ c # b \<and> c \<notin> set a"
  unfolding split_once_def
  by (auto dest: position_take_no_hit) (metis (mono_tags, lifting) position_Some split_at_position)

lemma split_once_hit: "c \<notin> set a \<Longrightarrow> split_once c (a @ c # b) = Some (a, b)"
  by (simp add: split_once_def) (subst position_append_hit; auto)

lemma split_once_None_iff: "split_once c s = None \<longleftrightarrow> c \<notin> set s"
  by (auto simp: split_once_def position_None_iff)

text \<open>\<^verbatim>\<open>str::replace\<close> with a non-empty pattern: non-overlapping occurrences, left to right.\<close>

function replace_all :: "string \<Rightarrow> string \<Rightarrow> string \<Rightarrow> string" where
  "replace_all p r s =
     (if p = [] then s else
      case find_window s p of
        None \<Rightarrow> s
      | Some i \<Rightarrow> take i s @ r @ replace_all p r (drop (i + length p) s))"
  by pat_completeness auto
termination
  by (relation "measure (\<lambda>(p, r, s). length s)") (auto simp: find_window_shorter)

declare replace_all.simps [simp del]

subsection \<open>Trimming\<close>

definition ws_seqs :: "string list" where
  "ws_seqs =
     [[CHR 0x09], [CHR 0x0A], [CHR 0x0B], [CHR 0x0C], [CHR 0x0D], [CHR 0x20],
      [CHR 0xC2, CHR 0x85], [CHR 0xC2, CHR 0xA0], [CHR 0xE1, CHR 0x9A, CHR 0x80],
      [CHR 0xE2, CHR 0x80, CHR 0x80], [CHR 0xE2, CHR 0x80, CHR 0x81],
      [CHR 0xE2, CHR 0x80, CHR 0x82], [CHR 0xE2, CHR 0x80, CHR 0x83],
      [CHR 0xE2, CHR 0x80, CHR 0x84], [CHR 0xE2, CHR 0x80, CHR 0x85],
      [CHR 0xE2, CHR 0x80, CHR 0x86], [CHR 0xE2, CHR 0x80, CHR 0x87],
      [CHR 0xE2, CHR 0x80, CHR 0x88], [CHR 0xE2, CHR 0x80, CHR 0x89],
      [CHR 0xE2, CHR 0x80, CHR 0x8A], [CHR 0xE2, CHR 0x80, CHR 0xA8],
      [CHR 0xE2, CHR 0x80, CHR 0xA9], [CHR 0xE2, CHR 0x80, CHR 0xAF],
      [CHR 0xE2, CHR 0x81, CHR 0x9F], [CHR 0xE3, CHR 0x80, CHR 0x80]]"

text \<open>The rest of the text after the first of the given non-empty sequences it starts with.\<close>

definition strip_any :: "string list \<Rightarrow> string \<Rightarrow> string option" where
  "strip_any ps s = find_map (\<lambda>p. if p = [] then None else strip_prefix p s) ps"

lemma strip_any_shorter: "strip_any ps s = Some r \<Longrightarrow> length r < length s"
  unfolding strip_any_def
  by (drule find_map_Some) (auto split: if_splits dest: strip_prefix_length)

function trim_front :: "string list \<Rightarrow> string \<Rightarrow> string" where
  "trim_front ps s = (case strip_any ps s of None \<Rightarrow> s | Some r \<Rightarrow> trim_front ps r)"
  by pat_completeness auto
termination
  by (relation "measure (\<lambda>(ps, s). length s)") (auto dest: strip_any_shorter)

declare trim_front.simps [simp del]

definition trim_start :: "string \<Rightarrow> string" where
  "trim_start s = trim_front ws_seqs s"

definition trim_end :: "string \<Rightarrow> string" where
  "trim_end s = rev (trim_front (map rev ws_seqs) (rev s))"

definition trim :: "string \<Rightarrow> string" where
  "trim s = trim_end (trim_start s)"

lemma trim_front_suffix: "suffix (trim_front ps s) s"
proof (induction ps s rule: trim_front.induct)
  case (1 ps s)
  show ?case
  proof (cases "strip_any ps s")
    case None
    then show ?thesis by (simp add: trim_front.simps [of ps s])
  next
    case (Some r)
    then have "suffix r s"
      unfolding strip_any_def
      by (auto dest!: find_map_Some simp: strip_prefix_Some_iff suffix_def split: if_splits)
    with 1 [OF Some] Some show ?thesis
      by (simp add: trim_front.simps [of ps s] suffix_order.trans)
  qed
qed

lemma trim_front_done: "strip_any ps (trim_front ps s) = None"
  by (induction ps s rule: trim_front.induct) (auto simp: trim_front.simps split: option.splits)

lemma trim_front_fixed: "strip_any ps s = None \<Longrightarrow> trim_front ps s = s"
  by (simp add: trim_front.simps)

lemma set_trim_start: "set (trim_start s) \<subseteq> set s"
  unfolding trim_start_def using trim_front_suffix set_mono_suffix by blast

lemma prefix_trim_end: "prefix (trim_end s) s"
  unfolding trim_end_def using trim_front_suffix [of "map rev ws_seqs" "rev s"]
  by (simp add: suffix_to_prefix)

lemma set_trim_end: "set (trim_end s) \<subseteq> set s"
  using prefix_trim_end set_mono_prefix by blast

lemma set_trim: "set (trim s) \<subseteq> set s"
  unfolding trim_def using set_trim_end set_trim_start by blast

lemma sublist_trim: "sublist (trim s) s"
proof -
  have "sublist (trim_start s) s"
    unfolding trim_start_def by (simp add: suffix_imp_sublist trim_front_suffix)
  moreover have "sublist (trim s) (trim_start s)"
    unfolding trim_def by (simp add: prefix_imp_sublist prefix_trim_end)
  ultimately show ?thesis by (rule sublist_order.order_trans [rotated])
qed

text \<open>Text that neither starts nor ends with whitespace is left alone.\<close>

definition trimmed :: "string \<Rightarrow> bool" where
  "trimmed s = (strip_any ws_seqs s = None \<and> strip_any (map rev ws_seqs) (rev s) = None)"

lemma trim_trimmed: "trimmed s \<Longrightarrow> trim s = s"
  by (simp add: trimmed_def trim_def trim_start_def trim_end_def trim_front_fixed)

lemma strip_any_None_iff: "strip_any ps s = None \<longleftrightarrow> (\<forall>p \<in> set ps. p = [] \<or> (\<forall>r. s \<noteq> p @ r))"
proof -
  have "strip_prefix p s = None \<longleftrightarrow> (\<forall>r. s \<noteq> p @ r)" for p
    by (metis not_None_eq strip_prefix_Some_iff)
  then show ?thesis by (auto simp: strip_any_def find_map_None_iff)
qed

lemma strip_any_None_prefix: "strip_any ps s = None \<Longrightarrow> prefix t s \<Longrightarrow> strip_any ps t = None"
  by (auto simp: strip_any_None_iff prefix_def)

lemma trimmed_trim: "trimmed (trim s)"
proof -
  have "strip_any ws_seqs (trim s) = None"
    unfolding trim_def trim_start_def
    by (rule strip_any_None_prefix [OF trim_front_done prefix_trim_end])
  moreover have "strip_any (map rev ws_seqs) (rev (trim s)) = None"
    by (simp add: trim_def trim_end_def trim_front_done)
  ultimately show ?thesis by (simp add: trimmed_def)
qed

lemma trim_idem [simp]: "trim (trim s) = trim s"
  by (rule trim_trimmed [OF trimmed_trim])

lemma trim_end_done: "strip_any (map rev ws_seqs) (rev (trim_end s)) = None"
  by (simp add: trim_end_def trim_front_done)

text \<open>Trimming stops at a character that no whitespace sequence holds.\<close>

lemma trim_front_keep:
  "\<forall>p \<in> set ps. c \<notin> set p \<Longrightarrow> \<exists>w'. trim_front ps (w @ c # u) = w' @ c # u"
proof (induction ps "w @ c # u" arbitrary: w rule: trim_front.induct)
  case (1 ps)
  show ?case
  proof (cases "strip_any ps (w @ c # u)")
    case None
    then show ?thesis by (auto simp: trim_front.simps)
  next
    case (Some r)
    then obtain p where p: "p \<in> set ps" "w @ c # u = p @ r"
      unfolding strip_any_def
      by (auto dest!: find_map_Some simp: strip_prefix_Some_iff split: if_splits)
    then obtain w' where "r = w' @ c # u"
      using 1(2) by (auto simp: append_eq_append_conv2 Cons_eq_append_conv)
    with Some have "strip_any ps (w @ c # u) = Some (w' @ c # u)" by simp
    with 1(1) [OF this 1(2)] show ?thesis by (auto simp: trim_front.simps [of ps "w @ c # u"])
  qed
qed

lemma trim_keeps_prefix:
  assumes "c \<notin> (\<Union>p \<in> set ws_seqs. set p)" "strip_any ws_seqs (u @ c # w) = None"
  shows "\<exists>w'. trim (u @ c # w) = u @ c # w'"
proof -
  have "\<forall>p \<in> set (map rev ws_seqs). c \<notin> set p" using assms(1) by auto
  then obtain w' where "trim_front (map rev ws_seqs) (rev w @ c # rev u) = w' @ c # rev u"
    using trim_front_keep by blast
  with assms(2) show ?thesis
    by (auto simp: trim_def trim_start_def trim_end_def trim_front_fixed)
qed

text \<open>A line with its terminator, trimmed, holds no line feed.\<close>

lemma trim_line_no_LF:
  assumes "LF \<notin> set w"
  shows "LF \<notin> set (trim (w @ [LF]))"
proof
  assume LF: "LF \<in> set (trim (w @ [LF]))"
  obtain u where u: "u @ trim_start (w @ [LF]) = w @ [LF]"
    using trim_front_suffix [of ws_seqs "w @ [LF]"] unfolding trim_start_def suffix_def by metis
  obtain v where v: "trim_start (w @ [LF]) = trim (w @ [LF]) @ v"
    using prefix_trim_end by (auto simp: trim_def prefix_def)
  have "v = []"
  proof (rule ccontr)
    assume "v \<noteq> []"
    with u v have "w = u @ trim (w @ [LF]) @ butlast v"
      by (metis append.assoc butlast_append butlast_snoc append_is_Nil_conv)
    with LF assms show False by (metis in_set_conv_decomp append_Cons append.assoc)
  qed
  then obtain t where "trim (w @ [LF]) = t @ [LF]"
    using u v LF by (metis append_Nil2 append_self_conv2 last_appendR list.set(1) emptyE
        append_butlast_last_id last_snoc)
  then have "strip_any (map rev ws_seqs) (rev (trim (w @ [LF]))) \<noteq> None"
    by (simp add: strip_any_def ws_seqs_def)
  then show False using trimmed_trim [of "w @ [LF]"] by (simp add: trimmed_def)
qed

subsection \<open>Lines\<close>

text \<open>
  \<^verbatim>\<open>str::lines\<close>: pieces ended by a line feed, each without its terminator
  (\<^verbatim>\<open>\n\<close> or \<^verbatim>\<open>\r\n\<close>); a final piece with no terminator counts unless it is empty.
\<close>

definition chop_cr :: "string \<Rightarrow> string" where
  "chop_cr s = (case strip_suffix [CR] s of None \<Rightarrow> s | Some r \<Rightarrow> r)"

definition lines :: "string \<Rightarrow> string list" where
  "lines s =
     (let ps = split_char LF s in
      map chop_cr (butlast ps) @ (if last ps = [] then [] else [last ps]))"

lemma lines_single: "LF \<notin> set s \<Longrightarrow> lines s = (if s = [] then [] else [s])"
  by (simp add: lines_def split_char_no_sep)

lemma lines_Nil [simp]: "lines [] = []"
  by (simp add: lines_def)

lemma lines_no_LF: "l \<in> set (lines s) \<Longrightarrow> LF \<notin> set l"
  unfolding lines_def Let_def chop_cr_def
  by (auto split: option.splits if_splits simp: strip_suffix_Some_iff
        dest!: in_set_butlastD split_char_pieces)
     (metis last_in_set split_char_not_Nil split_char_pieces)

subsection \<open>Case mapping on ASCII\<close>

definition to_ascii_uppercase :: "string \<Rightarrow> string" where
  "to_ascii_uppercase s =
     map (\<lambda>c. if 97 \<le> byte c \<and> byte c \<le> 122 then char_of (byte c - 32) else c) s"

definition to_ascii_lowercase :: "string \<Rightarrow> string" where
  "to_ascii_lowercase s =
     map (\<lambda>c. if 65 \<le> byte c \<and> byte c \<le> 90 then char_of (byte c + 32) else c) s"

subsection \<open>Integers as text\<close>

text \<open>Values are \<^typ>\<open>int\<close> throughout, so that the kernel computes with binary numerals.\<close>

definition digit_val :: "char \<Rightarrow> int" where
  "digit_val c = byte c - 48"

fun digits_val :: "int \<Rightarrow> string \<Rightarrow> int" where
  "digits_val acc [] = acc"
| "digits_val acc (c # cs) = digits_val (10 * acc + digit_val c) cs"

lemma digits_val_nonneg: "list_all is_digit s \<Longrightarrow> 0 \<le> acc \<Longrightarrow> 0 \<le> digits_val acc s"
  by (induction s arbitrary: acc) (simp_all add: is_digit_def digit_val_def)

text \<open>
  \<^verbatim>\<open>str::parse\<close> for the integer types: an optional sign (\<^verbatim>\<open>-\<close> for signed types
  only), at least one digit, nothing else, and the value in the type's range.
\<close>

definition parse_digits :: "string \<Rightarrow> int option" where
  "parse_digits s = (if s \<noteq> [] \<and> list_all is_digit s then Some (digits_val 0 s) else None)"

definition parse_signed_digits :: "string \<Rightarrow> int option" where
  "parse_signed_digits s =
     (case s of
        [] \<Rightarrow> None
      | c # cs \<Rightarrow> if c = CHR ''-'' then map_option uminus (parse_digits cs)
                  else if c = CHR ''+'' then parse_digits cs
                  else parse_digits s)"

definition parse_signed :: "int \<Rightarrow> int \<Rightarrow> string \<Rightarrow> int option" where
  "parse_signed lo hi s =
     (case parse_signed_digits s of
        None \<Rightarrow> None
      | Some n \<Rightarrow> if lo \<le> n \<and> n \<le> hi then Some n else None)"

definition parse_i64 :: "string \<Rightarrow> int option" where
  "parse_i64 = parse_signed (- (2 ^ 63)) (2 ^ 63 - 1)"

definition parse_i32 :: "string \<Rightarrow> int option" where
  "parse_i32 = parse_signed (- (2 ^ 31)) (2 ^ 31 - 1)"

definition parse_usize :: "string \<Rightarrow> int option" where
  "parse_usize s =
     (let v = (case s of
                 [] \<Rightarrow> None
               | c # cs \<Rightarrow> if c = CHR ''+'' then parse_digits cs else parse_digits s)
      in case v of None \<Rightarrow> None | Some n \<Rightarrow> if n < 2 ^ 64 then Some n else None)"

lemma parse_signed_range: "parse_signed lo hi s = Some n \<Longrightarrow> lo \<le> n \<and> n \<le> hi"
  by (auto simp: parse_signed_def split: option.splits if_splits)

lemma parse_digits_nonneg: "parse_digits s = Some n \<Longrightarrow> 0 \<le> n"
  by (auto simp: parse_digits_def digits_val_nonneg split: if_splits)

text \<open>Wrap-around of a 64-bit signed value, as release builds compute it.\<close>

definition wrap64 :: "int \<Rightarrow> int" where
  "wrap64 x = (x + 2 ^ 63) mod 2 ^ 64 - 2 ^ 63"

lemma wrap64_id: "- (2 ^ 63) \<le> x \<Longrightarrow> x < 2 ^ 63 \<Longrightarrow> wrap64 x = x"
  by (simp add: wrap64_def)

text \<open>Decimal rendering of integers (\<^verbatim>\<open>Display\<close>).\<close>

definition digit_char :: "int \<Rightarrow> char" where
  "digit_char d = char_of (48 + d)"

function show_pos :: "int \<Rightarrow> string" where
  "show_pos n = (if n < 10 then [digit_char n] else show_pos (n div 10) @ [digit_char (n mod 10)])"
  by pat_completeness auto
termination
  by (relation "measure nat") auto

declare show_pos.simps [simp del]

definition show_int :: "int \<Rightarrow> string" where
  "show_int i = (if i < 0 then CHR ''-'' # show_pos (- i) else show_pos i)"

lemma byte_digit_char: "0 \<le> d \<Longrightarrow> d < 10 \<Longrightarrow> byte (digit_char d) = 48 + d"
  by (simp add: byte_def digit_char_def)

lemma is_digit_digit_char: "0 \<le> d \<Longrightarrow> d < 10 \<Longrightarrow> is_digit (digit_char d)"
  by (simp add: is_digit_def byte_digit_char)

lemma show_pos_digits: "0 \<le> n \<Longrightarrow> list_all is_digit (show_pos n)"
proof (induction n rule: show_pos.induct)
  case (1 n)
  then show ?case
    by (cases "n < 10") (simp_all add: show_pos.simps [of n] is_digit_digit_char)
qed

lemma show_pos_not_Nil [simp]: "show_pos n \<noteq> []"
  by (simp add: show_pos.simps [of n])

lemma digits_val_append: "digits_val acc (xs @ [c]) = 10 * digits_val acc xs + digit_val c"
  by (induction xs arbitrary: acc) auto

lemma digits_val_show_pos: "0 \<le> n \<Longrightarrow> digits_val 0 (show_pos n) = n"
proof (induction n rule: show_pos.induct)
  case (1 n)
  then show ?case
    by (cases "n < 10")
       (simp_all add: show_pos.simps [of n] digits_val_append digit_val_def byte_digit_char)
qed

lemma parse_digits_show_pos: "0 \<le> n \<Longrightarrow> parse_digits (show_pos n) = Some n"
  by (simp add: parse_digits_def show_pos_digits digits_val_show_pos)

lemma digit_not_sign: "is_digit c \<Longrightarrow> c \<noteq> CHR ''-'' \<and> c \<noteq> CHR ''+''"
  by (auto simp: is_digit_def byte_def)

lemma parse_signed_digits_show_int: "parse_signed_digits (show_int i) = Some i"
proof (cases "i < 0")
  case True
  then show ?thesis
    by (simp add: show_int_def parse_signed_digits_def parse_digits_show_pos)
next
  case False
  then obtain c cs where s: "show_pos i = c # cs" and d: "is_digit c"
    using show_pos_digits [of i] show_pos_not_Nil [of i] by (cases "show_pos i") auto
  from s d False show ?thesis
    using parse_digits_show_pos [of i] digit_not_sign [OF d]
    by (simp add: show_int_def parse_signed_digits_def)
qed

lemma parse_signed_show_int: "lo \<le> i \<Longrightarrow> i \<le> hi \<Longrightarrow> parse_signed lo hi (show_int i) = Some i"
  by (simp add: parse_signed_def parse_signed_digits_show_int)

subsection \<open>UTF-8\<close>

text \<open>
  The encoded character at the head of a byte sequence: \<open>Inr k\<close> when the first \<open>k\<close> bytes
  encode one, \<open>Inl k\<close> when they are the maximal ill-formed subpart that
  \<^verbatim>\<open>from_utf8_lossy\<close> replaces by one U+FFFD.
\<close>

definition byte_at :: "bytes \<Rightarrow> nat \<Rightarrow> int" where
  "byte_at s i = (if i < length s then byte (s ! i) else 0)"

definition in_range :: "int \<Rightarrow> int \<Rightarrow> int \<Rightarrow> bool" where
  "in_range lo hi b = (lo \<le> b \<and> b \<le> hi)"

definition utf8_head :: "bytes \<Rightarrow> nat + nat" where
  "utf8_head s =
     (let b0 = byte_at s 0; b1 = byte_at s 1; b2 = byte_at s 2; b3 = byte_at s 3;
          cont = in_range 0x80 0xBF in
      if b0 < 0x80 then Inr 1
      else if in_range 0xC2 0xDF b0 then (if cont b1 then Inr 2 else Inl 1)
      else if in_range 0xE0 0xEF b0 then
        (if \<not> (if b0 = 0xE0 then in_range 0xA0 0xBF b1
               else if b0 = 0xED then in_range 0x80 0x9F b1 else cont b1) then Inl 1
         else if cont b2 then Inr 3 else Inl 2)
      else if in_range 0xF0 0xF4 b0 then
        (if \<not> (if b0 = 0xF0 then in_range 0x90 0xBF b1
               else if b0 = 0xF4 then in_range 0x80 0x8F b1 else cont b1) then Inl 1
         else if \<not> cont b2 then Inl 2
         else if cont b3 then Inr 4 else Inl 3)
      else Inl 1)"

definition utf8_width :: "bytes \<Rightarrow> nat" where
  "utf8_width s = (case utf8_head s of Inl k \<Rightarrow> k | Inr k \<Rightarrow> k)"

lemma utf8_width_pos: "0 < utf8_width s"
  by (auto simp: utf8_width_def utf8_head_def Let_def split: sum.splits if_splits)

text \<open>\<^verbatim>\<open>String::from_utf8(..).is_ok()\<close>.\<close>

function valid_utf8 :: "bytes \<Rightarrow> bool" where
  "valid_utf8 s =
     (if s = [] then True
      else case utf8_head s of Inl _ \<Rightarrow> False | Inr k \<Rightarrow> valid_utf8 (drop (max 1 k) s))"
  by pat_completeness auto
termination
  by (relation "measure length") auto

declare valid_utf8.simps [simp del]

text \<open>\<^verbatim>\<open>String::from_utf8_lossy\<close>.\<close>

function utf8_lossy :: "bytes \<Rightarrow> string" where
  "utf8_lossy s =
     (if s = [] then []
      else case utf8_head s of
             Inl k \<Rightarrow> [CHR 0xEF, CHR 0xBF, CHR 0xBD] @ utf8_lossy (drop (max 1 k) s)
           | Inr k \<Rightarrow> take (max 1 k) s @ utf8_lossy (drop (max 1 k) s))"
  by pat_completeness auto
termination
  by (relation "measure length") auto

declare utf8_lossy.simps [simp del]

text \<open>\<^verbatim>\<open>s.chars().take(n).collect::<String>()\<close> on valid UTF-8.\<close>

fun take_chars :: "nat \<Rightarrow> string \<Rightarrow> string" where
  "take_chars 0 s = []"
| "take_chars (Suc n) s =
     (if s = [] then [] else take (utf8_width s) s @ take_chars n (drop (utf8_width s) s))"

lemma utf8_head_ascii: "s \<noteq> [] \<Longrightarrow> is_ascii (hd s) \<Longrightarrow> utf8_head s = Inr 1"
  by (cases s) (simp_all add: utf8_head_def byte_at_def is_ascii_def)

lemma valid_utf8_Cons_ascii: "is_ascii c \<Longrightarrow> valid_utf8 (c # s) = valid_utf8 s"
  by (simp add: valid_utf8.simps [of "c # s"] utf8_head_ascii)

lemma valid_utf8_Nil [simp]: "valid_utf8 []"
  by (simp add: valid_utf8.simps)

lemma valid_utf8_ascii: "all_ascii s \<Longrightarrow> valid_utf8 s"
  by (induction s) (simp_all add: all_ascii_def valid_utf8_Cons_ascii)

lemma utf8_lossy_valid: "valid_utf8 s \<Longrightarrow> utf8_lossy s = s"
proof (induction s rule: valid_utf8.induct)
  case (1 s)
  show ?case
  proof (cases "s = []")
    case True
    then show ?thesis by (simp add: utf8_lossy.simps)
  next
    case False
    with "1.prems" obtain k where k: "utf8_head s = Inr k" "valid_utf8 (drop (max 1 k) s)"
      by (auto simp: valid_utf8.simps [of s] split: sum.splits)
    with 1 False have "utf8_lossy (drop (max 1 k) s) = drop (max 1 k) s" by blast
    with False k show ?thesis by (simp add: utf8_lossy.simps [of s])
  qed
qed

end
