(* ===== verification/Regex.thy ===== *)
theory Regex
  imports Rust_Str
begin

text \<open>
  The \<^verbatim>\<open>regex\<close> crate is third-party code: every definition that matches a pattern takes
  the crate as an argument of type \<open>regex_crate\<close>, and a property that depends on what a match
  is has the hypothesis \<open>regex_ok\<close>, the documented leftmost-first semantics. That semantics is
  given here for the pattern syntax the sources use, on texts of ASCII characters (the crate's
  \<^verbatim>\<open>\d\<close>, \<^verbatim>\<open>\s\<close> and \<^verbatim>\<open>.\<close> are Unicode classes, about which nothing is assumed beyond
  ASCII) and on arbitrary bytes for the one pattern made of literal bytes only.
\<close>

datatype rx =
    Cls "char \<Rightarrow> bool"      \<comment> \<open>one character of a class\<close>
  | Seq rx rx
  | Alt rx rx              \<comment> \<open>the left alternative is preferred\<close>
  | Star rx                \<comment> \<open>greedy repetition\<close>
  | Lazy rx                \<comment> \<open>reluctant repetition\<close>
  | Group nat rx           \<comment> \<open>a numbered capture group\<close>
  | Eps
  | Eos                    \<comment> \<open>end of text\<close>
  | WordB                  \<comment> \<open>word boundary\<close>

definition Opt :: "rx \<Rightarrow> rx" where "Opt r = Alt r Eps"
definition Plus :: "rx \<Rightarrow> rx" where "Plus r = Seq r (Star r)"
definition Lit :: "char \<Rightarrow> rx" where "Lit c = Cls (\<lambda>x. x = c)"

fun Lits :: "string \<Rightarrow> rx" where
  "Lits [] = Eps"
| "Lits (c # cs) = Seq (Lit c) (Lits cs)"

text \<open>The same, ignoring ASCII case, as under the flag \<^verbatim>\<open>(?i)\<close>.\<close>

definition lower_char :: "char \<Rightarrow> char" where
  "lower_char c = (if 65 \<le> byte c \<and> byte c \<le> 90 then char_of (byte c + 32) else c)"

definition LitI :: "char \<Rightarrow> rx" where "LitI c = Cls (\<lambda>x. lower_char x = lower_char c)"

fun LitsI :: "string \<Rightarrow> rx" where
  "LitsI [] = Eps"
| "LitsI (c # cs) = Seq (LitI c) (LitsI cs)"

fun Seqs :: "rx list \<Rightarrow> rx" where
  "Seqs [] = Eps"
| "Seqs (r # rs) = Seq r (Seqs rs)"

fun Alts :: "rx list \<Rightarrow> rx" where
  "Alts [] = Cls (\<lambda>_. False)"
| "Alts [r] = r"
| "Alts (r # rs) = Alt r (Alts rs)"

subsection \<open>All matches at a position, in order of preference\<close>

type_synonym rx_state = "char option \<times> string \<times> (nat \<times> string) list"

definition rest_of :: "rx_state \<Rightarrow> string" where
  "rest_of st = (case st of (_, s, _) \<Rightarrow> s)"

function star_matches :: "(rx_state \<Rightarrow> rx_state list) \<Rightarrow> bool \<Rightarrow> rx_state \<Rightarrow> rx_state list" where
  "star_matches f greedy st =
     (let more = concat (map (\<lambda>st'. if length (rest_of st') < length (rest_of st)
                                    then star_matches f greedy st' else []) (f st))
      in if greedy then more @ [st] else st # more)"
  by pat_completeness auto
termination
  by (relation "measure (\<lambda>(f, greedy, st). length (rest_of st))") auto

declare star_matches.simps [simp del]

definition is_word :: "char option \<Rightarrow> bool" where
  "is_word c = (case c of None \<Rightarrow> False
     | Some x \<Rightarrow> is_digit x \<or> (65 \<le> byte x \<and> byte x \<le> 90) \<or> (97 \<le> byte x \<and> byte x \<le> 122) \<or> x = CHR ''_'')"

fun head_of :: "string \<Rightarrow> char option" where
  "head_of [] = None"
| "head_of (c # cs) = Some c"

fun matches :: "rx \<Rightarrow> rx_state \<Rightarrow> rx_state list" where
  "matches (Cls P) (p, s, cs) =
     (case s of [] \<Rightarrow> [] | c # t \<Rightarrow> if P c then [(Some c, t, cs)] else [])"
| "matches (Seq r q) st = concat (map (matches q) (matches r st))"
| "matches (Alt r q) st = matches r st @ matches q st"
| "matches (Star r) st = star_matches (matches r) True st"
| "matches (Lazy r) st = star_matches (matches r) False st"
| "matches (Group k r) (p, s, cs) =
     map (\<lambda>(p', s', cs'). (p', s', (k, take (length s - length s') s) # cs')) (matches r (p, s, cs))"
| "matches Eps st = [st]"
| "matches Eos (p, s, cs) = (if s = [] then [(p, s, cs)] else [])"
| "matches WordB (p, s, cs) = (if is_word p \<noteq> is_word (head_of s) then [(p, s, cs)] else [])"

text \<open>
  The preferred match at the leftmost position that has one: its start, its end, and the text of
  each capture group that took part (the last capture of a group counts).
\<close>

record rx_match =
  m_start :: nat
  m_end :: nat
  m_group :: "(nat \<times> string) list"

fun rx_search :: "rx \<Rightarrow> nat \<Rightarrow> char option \<Rightarrow> string \<Rightarrow> rx_match option" where
  "rx_search r i p s =
     (case matches r (p, s, []) of
        (p', s', cs) # _ \<Rightarrow>
          Some \<lparr>m_start = i, m_end = i + (length s - length s'), m_group = cs\<rparr>
      | [] \<Rightarrow> (case s of [] \<Rightarrow> None | c # t \<Rightarrow> rx_search r (Suc i) (Some c) t))"

declare rx_search.simps [simp del]

definition rx_exec :: "rx \<Rightarrow> string \<Rightarrow> rx_match option" where
  "rx_exec r s = rx_search r 0 None s"

text \<open>The text of a capture group (\<^verbatim>\<open>caps.get(k)\<close>).\<close>

definition group_of :: "rx_match \<Rightarrow> nat \<Rightarrow> string option" where
  "group_of m k = map_of (m_group m) k"

text \<open>\<^verbatim>\<open>&caps[k]\<close> of a group every match goes through.\<close>

definition cap :: "rx_match \<Rightarrow> nat \<Rightarrow> string" where
  "cap m k = (case group_of m k of Some t \<Rightarrow> t | None \<Rightarrow> [])"

text \<open>\<^verbatim>\<open>Regex::replace_all\<close> with the empty text: the non-overlapping matches are cut out.\<close>

function rx_remove_all :: "(string \<Rightarrow> rx_match option) \<Rightarrow> string \<Rightarrow> string" where
  "rx_remove_all ex s =
     (case ex s of
        None \<Rightarrow> s
      | Some m \<Rightarrow>
          if m_start m < m_end m \<and> m_end m \<le> length s
          then take (m_start m) s @ rx_remove_all ex (drop (m_end m) s)
          else s)"
  by pat_completeness auto
termination
  by (relation "measure (\<lambda>(ex, s). length s)") auto

declare rx_remove_all.simps [simp del]

subsection \<open>The crate as a parameter\<close>

text \<open>
  \<open>rx_str\<close> stands for \<^verbatim>\<open>regex::Regex\<close> on text, \<open>rx_bytes\<close> for
  \<^verbatim>\<open>regex::bytes::Regex\<close>, \<open>rx_cut\<close> for \<^verbatim>\<open>replace_all(_, "")\<close>.
\<close>

record regex_crate =
  rx_str :: "rx \<Rightarrow> string \<Rightarrow> rx_match option"
  rx_bytes :: "rx \<Rightarrow> bytes \<Rightarrow> rx_match option"
  rx_cut :: "rx \<Rightarrow> string \<Rightarrow> string"

text \<open>Patterns whose classes are single bytes mean the same on any bytes.\<close>

definition OK_ACK_RE :: rx where
  "OK_ACK_RE = Seqs [Lit CHR ''o'', Lit CHR ''k'', Star (Lit CR), Lit LF]"

definition regex_ok :: "regex_crate \<Rightarrow> bool" where
  "regex_ok X \<longleftrightarrow>
     (\<forall>r s. all_ascii s \<longrightarrow> rx_str X r s = rx_exec r s) \<and>
     (\<forall>r s. all_ascii s \<longrightarrow> rx_bytes X r s = rx_exec r s) \<and>
     (\<forall>s. rx_bytes X OK_ACK_RE s = rx_exec OK_ACK_RE s) \<and>
     (\<forall>r s. all_ascii s \<longrightarrow> rx_cut X r s = rx_remove_all (rx_exec r) s)"

text \<open>The reference instance, with which witnesses are evaluated.\<close>

definition std_regex :: regex_crate where
  "std_regex = \<lparr>rx_str = rx_exec, rx_bytes = rx_exec, rx_cut = (\<lambda>r. rx_remove_all (rx_exec r))\<rparr>"

lemma regex_ok_std: "regex_ok std_regex"
  by (simp add: regex_ok_def std_regex_def)

lemma std_regex_simps [simp]:
  "rx_str std_regex = rx_exec"
  "rx_bytes std_regex = rx_exec"
  "rx_cut std_regex r = rx_remove_all (rx_exec r)"
  by (simp_all add: std_regex_def)

subsection \<open>Facts about matching\<close>

text \<open>A match leaves a suffix of what it started from.\<close>

lemma star_matches_suffix:
  assumes "st' \<in> set (star_matches f g st)"
    and "\<And>st st'. st' \<in> set (f st) \<Longrightarrow> suffix (rest_of st') (rest_of st)"
  shows "suffix (rest_of st') (rest_of st)"
  using assms
proof (induction f g st arbitrary: st' rule: star_matches.induct)
  case (1 f g st)
  from "1.prems"(1) consider "st' = st"
    | u where "u \<in> set (f st)" "length (rest_of u) < length (rest_of st)"
        "st' \<in> set (star_matches f g u)"
    unfolding star_matches.simps [of f g st] Let_def by (auto split: if_splits)
  then show ?case
  proof cases
    case 1
    then show ?thesis by simp
  next
    case 2
    then have "suffix (rest_of st') (rest_of u)" using "1.IH" "1.prems"(2) by blast
    moreover from 2 have "suffix (rest_of u) (rest_of st)" using "1.prems"(2) by blast
    ultimately show ?thesis by (rule suffix_order.trans)
  qed
qed

lemma matches_suffix: "st' \<in> set (matches r st) \<Longrightarrow> suffix (rest_of st') (rest_of st)"
proof (induction r arbitrary: st st')
  case (Cls P)
  then show ?case
    by (cases st) (auto simp: rest_of_def suffix_Cons split: list.splits if_splits)
next
  case (Seq r q)
  then obtain u where "u \<in> set (matches r st)" "st' \<in> set (matches q u)" by auto
  with Seq.IH show ?case by (meson suffix_order.trans)
next
  case (Star r)
  then show ?case by (auto intro: star_matches_suffix)
next
  case (Lazy r)
  then show ?case by (auto intro: star_matches_suffix)
next
  case (Group k r)
  then show ?case by (cases st) (force simp: rest_of_def)
next
  case (Alt r q)
  from Alt.prems have "st' \<in> set (matches r st) \<or> st' \<in> set (matches q st)" by simp
  then show ?case using Alt.IH by blast
qed (cases st; auto simp: rest_of_def split: if_splits)+

text \<open>A match lies inside the text, and its end is not before its start.\<close>

lemma rx_search_bounds:
  "rx_search r i p s = Some m \<Longrightarrow> i \<le> m_start m \<and> m_start m \<le> m_end m \<and> m_end m \<le> i + length s"
proof (induction s arbitrary: i p)
  case Nil
  then show ?case by (auto simp: rx_search.simps [of r i p] split: list.splits)
next
  case (Cons c t)
  then show ?case
    by (fastforce simp: rx_search.simps [of r i p "c # t"] split: list.splits)
qed

lemma rx_exec_bounds: "rx_exec r s = Some m \<Longrightarrow> m_start m \<le> m_end m \<and> m_end m \<le> length s"
  using rx_search_bounds [of r 0 None s m] by (simp add: rx_exec_def)

subsection \<open>The acknowledgement pattern\<close>

text \<open>What \<^verbatim>\<open>ok\r*\n\<close> leaves of a text that starts with a match of it.\<close>

definition ok_ack_rest :: "bytes \<Rightarrow> bytes option" where
  "ok_ack_rest s =
     (case strip_prefix ''ok'' s of
        None \<Rightarrow> None
      | Some t \<Rightarrow> strip_prefix [LF] (dropWhile (\<lambda>c. c = CR) t))"

lemma cr_star_then_lf:
  "concat (map (matches (Lit LF)) (star_matches (matches (Lit CR)) True (p, s, cs))) =
     (case strip_prefix [LF] (dropWhile (\<lambda>c. c = CR) s) of
        None \<Rightarrow> [] | Some t \<Rightarrow> [(Some LF, t, cs)])"
proof (induction s arbitrary: p)
  case Nil
  then show ?case by (simp add: star_matches.simps [of _ _ "(p, [], cs)"] Lit_def)
next
  case (Cons c s)
  show ?case
  proof (cases "c = CR")
    case True
    with Cons.IH [of "Some CR"] show ?thesis
      by (simp add: star_matches.simps [of _ _ "(p, CR # s, cs)"] Lit_def rest_of_def)
  next
    case False
    then show ?thesis
      by (simp add: star_matches.simps [of _ _ "(p, c # s, cs)"] Lit_def)
  qed
qed

lemma matches_lits: "matches (Lit c) (p, s, cs) = (case strip_prefix [c] s of None \<Rightarrow> [] | Some t \<Rightarrow> [(Some c, t, cs)])"
  by (cases s) (auto simp: Lit_def)

lemma matches_Seq_Eps: "matches (Seq r Eps) = matches r"
proof
  fix st
  have "matches Eps = (\<lambda>st. [st])" by (rule ext) simp
  then show "matches (Seq r Eps) st = matches r st" by simp
qed

lemma matches_OK_ACK_RE:
  "matches OK_ACK_RE (p, s, []) = (case ok_ack_rest s of None \<Rightarrow> [] | Some t \<Rightarrow> [(Some LF, t, [])])"
  unfolding OK_ACK_RE_def Seqs.simps matches.simps ok_ack_rest_def
  using cr_star_then_lf by (cases s; cases "tl s") (auto simp: matches_lits matches_Seq_Eps)

subsection \<open>A calculus of preferred matches\<close>

text \<open>The preferred match, computed along the pattern, for patterns that need no backtracking.\<close>

definition first_match :: "rx \<Rightarrow> rx_state \<Rightarrow> rx_state option" where
  "first_match r st = (case matches r st of [] \<Rightarrow> None | a # _ \<Rightarrow> Some a)"

named_theorems rx_first \<open>preferred matches of the pattern constructors\<close>

lemma first_match_iff: "first_match r st = Some a \<longleftrightarrow> (\<exists>as. matches r st = a # as)"
  by (auto simp: first_match_def split: list.splits)

lemma first_Seq [rx_first]:
  "first_match r st = Some a \<Longrightarrow> first_match q a = Some b \<Longrightarrow> first_match (Seq r q) st = Some b"
  by (auto simp: first_match_iff)

lemma first_Cls [rx_first]: "P c \<Longrightarrow> first_match (Cls P) (p, c # t, cs) = Some (Some c, t, cs)"
  by (simp add: first_match_iff)

lemma first_Lit [rx_first]: "first_match (Lit c) (p, c # t, cs) = Some (Some c, t, cs)"
  by (simp add: Lit_def first_Cls)

lemma first_Eps [rx_first]: "first_match Eps st = Some st"
  by (simp add: first_match_iff)

lemma first_Group [rx_first]:
  "first_match r (p, s, cs) = Some (p', s', cs') \<Longrightarrow>
   first_match (Group k r) (p, s, cs) = Some (p', s', (k, take (length s - length s') s) # cs')"
  by (auto simp: first_match_iff)

lemma first_Alt_left: "first_match r st = Some a \<Longrightarrow> first_match (Alt r q) st = Some a"
  by (auto simp: first_match_iff)

text \<open>Greedy repetition of a class takes the whole run.\<close>

lemma first_Star_Cls:
  "list_all P w \<Longrightarrow> (case t of [] \<Rightarrow> True | c # _ \<Rightarrow> \<not> P c) \<Longrightarrow>
   \<exists>p'. first_match (Star (Cls P)) (p, w @ t, cs) = Some (p', t, cs)"
proof (induction w arbitrary: p)
  case Nil
  then show ?case
    by (cases t) (simp_all add: first_match_def star_matches.simps [of _ _ "(p, _, cs)"])
next
  case (Cons c w)
  then obtain p' where "first_match (Star (Cls P)) (Some c, w @ t, cs) = Some (p', t, cs)" by auto
  then obtain as where "star_matches (matches (Cls P)) True (Some c, w @ t, cs) = (p', t, cs) # as"
    by (auto simp: first_match_iff)
  with Cons.prems(1) show ?case
    by (auto simp: first_match_def star_matches.simps [of _ _ "(p, c # w @ t, cs)"] rest_of_def)
qed

lemma first_Plus_Cls:
  assumes "w \<noteq> []" "list_all P w" "case t of [] \<Rightarrow> True | c # _ \<Rightarrow> \<not> P c"
  shows "\<exists>p'. first_match (Plus (Cls P)) (p, w @ t, cs) = Some (p', t, cs)"
proof -
  from assms(1) obtain c v where w: "w = c # v" by (cases w) auto
  with assms obtain p' where st: "first_match (Star (Cls P)) (Some c, v @ t, cs) = Some (p', t, cs)"
    using first_Star_Cls [of P v t "Some c" cs] by auto
  from w assms(2) have "first_match (Cls P) (p, w @ t, cs) = Some (Some c, v @ t, cs)"
    by (simp add: first_Cls)
  with st show ?thesis unfolding Plus_def by (blast intro: first_Seq)
qed

lemma first_Lits [rx_first]: "\<exists>p'. first_match (Lits w) (p, w @ t, cs) = Some (p', t, cs)"
proof (induction w arbitrary: p)
  case Nil
  show ?case by (simp add: first_Eps)
next
  case (Cons c w)
  from Cons [of "Some c"] obtain p' where
    "first_match (Lits w) (Some c, w @ t, cs) = Some (p', t, cs)" by blast
  with first_Lit [of c p "w @ t" cs] show ?case by (auto intro: first_Seq)
qed

text \<open>A capture of a run of class characters.\<close>

lemma first_Group_Plus_Cls:
  assumes "w \<noteq> []" "list_all P w" "case t of [] \<Rightarrow> True | c # _ \<Rightarrow> \<not> P c"
  shows "\<exists>p'. first_match (Group k (Plus (Cls P))) (p, w @ t, cs) = Some (p', t, (k, w) # cs)"
proof -
  obtain p' where "first_match (Plus (Cls P)) (p, w @ t, cs) = Some (p', t, cs)"
    using first_Plus_Cls [OF assms] by blast
  from first_Group [OF this, of k] show ?thesis by auto
qed

lemma rx_exec_first:
  assumes "first_match r (None, s, []) = Some (p', t, cs)"
  shows "rx_exec r s = Some \<lparr>m_start = 0, m_end = length s - length t, m_group = cs\<rparr>"
  using assms by (auto simp: rx_exec_def rx_search.simps first_match_iff)

text \<open>A pattern that must begin with a character the text does not hold matches nowhere.\<close>

lemma rx_search_no_head:
  "c \<notin> set s \<Longrightarrow> rx_search (Seq (Lit c) q) i p s = None"
proof (induction s arbitrary: i p)
  case Nil
  show ?case by (simp add: rx_search.simps [of _ i p "[]"] Lit_def)
next
  case (Cons d s)
  then have "c \<notin> set s" and "d \<noteq> c" by auto
  with Cons.IH show ?case by (simp add: rx_search.simps [of _ i p "d # s"] Lit_def)
qed

lemma rx_exec_no_head: "c \<notin> set s \<Longrightarrow> rx_exec (Seq (Lit c) q) s = None"
  by (simp add: rx_exec_def rx_search_no_head)

lemma rx_search_skip:
  "c \<notin> set w \<Longrightarrow> rx_search (Seq (Lit c) q) i p (w @ s) =
     rx_search (Seq (Lit c) q) (i + length w) (if w = [] then p else Some (last w)) s"
proof (induction w arbitrary: i p)
  case Nil
  show ?case by simp
next
  case (Cons d w)
  then have w: "c \<notin> set w" and "d \<noteq> c" by auto
  then have "rx_search (Seq (Lit c) q) i p (d # w @ s) =
      rx_search (Seq (Lit c) q) (Suc i) (Some d) (w @ s)"
    by (subst rx_search.simps) (simp add: Lit_def)
  with Cons.IH [OF w] show ?case by simp
qed

subsection \<open>Where the acknowledgement pattern matches\<close>

lemma takeWhile_replicate_CR:
  "takeWhile (\<lambda>c. c = CR) u = replicate (length (takeWhile (\<lambda>c. c = CR) u)) CR"
  by (induction u) simp_all

lemma ok_ack_rest_Some:
  "ok_ack_rest s = Some t \<longleftrightarrow> (\<exists>n. s = ''ok'' @ replicate n CR @ LF # t)"
proof
  assume "ok_ack_rest s = Some t"
  then obtain u where u: "s = ''ok'' @ u" "dropWhile (\<lambda>c. c = CR) u = LF # t"
    by (auto simp: ok_ack_rest_def strip_prefix_Some_iff split: option.splits)
  have "takeWhile (\<lambda>c. c = CR) u = replicate (length (takeWhile (\<lambda>c. c = CR) u)) CR"
    by (rule takeWhile_replicate_CR)
  moreover have "u = takeWhile (\<lambda>c. c = CR) u @ LF # t"
    using takeWhile_dropWhile_id [of "\<lambda>c. c = CR" u] u(2) by simp
  ultimately have "u = replicate (length (takeWhile (\<lambda>c. c = CR) u)) CR @ LF # t" by simp
  with u(1) show "\<exists>n. s = ''ok'' @ replicate n CR @ LF # t" by blast
next
  assume "\<exists>n. s = ''ok'' @ replicate n CR @ LF # t"
  then obtain n where "s = ''ok'' @ replicate n CR @ LF # t" ..
  moreover have "dropWhile (\<lambda>c. c = CR) (replicate n CR @ LF # t) = LF # t"
    by (induction n) simp_all
  ultimately show "ok_ack_rest s = Some t" by (simp add: ok_ack_rest_def)
qed

lemma rx_search_OK_ACK:
  "rx_search OK_ACK_RE i p s =
     (case ok_ack_rest s of
        Some t \<Rightarrow> Some \<lparr>m_start = i, m_end = i + (length s - length t), m_group = []\<rparr>
      | None \<Rightarrow> (case s of [] \<Rightarrow> None | c # t \<Rightarrow> rx_search OK_ACK_RE (Suc i) (Some c) t))"
  by (subst rx_search.simps) (simp add: matches_OK_ACK_RE split: option.splits list.splits)

lemma rx_search_OK_ACK_Some:
  "rx_search OK_ACK_RE i p s = Some m \<Longrightarrow>
     \<exists>u n v. s = u @ ''ok'' @ replicate n CR @ LF # v \<and>
       m_start m = i + length u \<and> m_end m = i + length u + n + 3"
proof (induction s arbitrary: i p)
  case Nil
  then show ?case by (subst (asm) rx_search_OK_ACK) (simp add: ok_ack_rest_def)
next
  case (Cons c s)
  show ?case
  proof (cases "ok_ack_rest (c # s)")
    case (Some t)
    then obtain n where "c # s = ''ok'' @ replicate n CR @ LF # t" by (auto simp: ok_ack_rest_Some)
    moreover from Cons.prems Some
    have "m = \<lparr>m_start = i, m_end = i + (length (c # s) - length t), m_group = []\<rparr>"
      by (subst (asm) rx_search_OK_ACK) simp
    ultimately show ?thesis by (intro exI [of _ "[]"] exI [of _ n] exI [of _ t]) simp
  next
    case None
    with Cons.prems have "rx_search OK_ACK_RE (Suc i) (Some c) s = Some m"
      by (subst (asm) rx_search_OK_ACK) simp
    from Cons.IH [OF this] obtain u n v where
      "s = u @ ''ok'' @ replicate n CR @ LF # v"
      "m_start m = Suc i + length u" "m_end m = Suc i + length u + n + 3" by blast
    then show ?thesis by (intro exI [of _ "c # u"] exI [of _ n] exI [of _ v]) simp
  qed
qed

lemma rx_search_OK_ACK_None:
  "rx_search OK_ACK_RE i p s = None \<longleftrightarrow> (\<forall>u n v. s \<noteq> u @ ''ok'' @ replicate n CR @ LF # v)"
proof (induction s arbitrary: i p)
  case Nil
  show ?case by (subst rx_search_OK_ACK) (simp add: ok_ack_rest_def)
next
  case (Cons c s)
  have "(\<exists>u n v. c # s = u @ ''ok'' @ replicate n CR @ LF # v) \<longleftrightarrow>
      ok_ack_rest (c # s) \<noteq> None \<or> (\<exists>u n v. s = u @ ''ok'' @ replicate n CR @ LF # v)"
    (is "?L \<longleftrightarrow> ?A \<or> ?B")
  proof
    assume ?L
    then obtain u n v where "c # s = u @ ''ok'' @ replicate n CR @ LF # v" by blast
    then show "?A \<or> ?B"
    proof (cases u)
      case Nil
      with \<open>c # s = u @ _\<close> have "ok_ack_rest (c # s) = Some v"
        by (auto simp: ok_ack_rest_Some simp del: append.simps)
      then show ?thesis by simp
    next
      case (Cons d u')
      with \<open>c # s = u @ _\<close> show ?thesis by auto
    qed
  next
    assume "?A \<or> ?B"
    then show ?L
    proof
      assume ?A
      then obtain t where "ok_ack_rest (c # s) = Some t" by blast
      then obtain n where "c # s = [] @ ''ok'' @ replicate n CR @ LF # t"
        by (auto simp: ok_ack_rest_Some)
      then show ?L by blast
    next
      assume ?B
      then show ?L by (metis append_Cons)
    qed
  qed
  moreover have "rx_search OK_ACK_RE i p (c # s) = None \<longleftrightarrow>
      ok_ack_rest (c # s) = None \<and> rx_search OK_ACK_RE (Suc i) (Some c) s = None"
    by (subst rx_search_OK_ACK) (simp split: option.splits)
  ultimately show ?case
    by (simp only: Cons.IH [of "Suc i" "Some c"]) (use not_None_eq in metis)
qed

end
