(* ===== verification/F64.thy ===== *)
theory F64
  imports Rust_Str
begin

text \<open>
  Rust's \<^verbatim>\<open>f64\<close>: IEEE 754 binary64 with round-to-nearest, ties to even. \<open>Fin s m e\<close> is
  the number \<open>(-1)\<^sup>s \<cdot> m \<cdot> 2\<^sup>e\<close> in canonical form (\<open>m < 2\<^sup>5\<^sup>3\<close>, \<open>-1074 \<le> e \<le> 971\<close>, and
  \<open>2\<^sup>5\<^sup>2 \<le> m\<close> unless \<open>e = -1074\<close>). Every operation computes the exact rational
  result and rounds it once. Parsing and the two formatting modes the sources use
  (\<^verbatim>\<open>{}\<close>, the shortest decimal that reads back, and \<^verbatim>\<open>{:.N}\<close>) are included.
\<close>

datatype f64 = NaN | FInf bool | Fin bool int int

definition canonical :: "f64 \<Rightarrow> bool" where
  "canonical x =
     (case x of
        Fin s m e \<Rightarrow> 0 \<le> m \<and> m < 2 ^ 53 \<and> -1074 \<le> e \<and> e \<le> 971 \<and> (2 ^ 52 \<le> m \<or> e = -1074)
      | _ \<Rightarrow> True)"

subsection \<open>Rounding\<close>

function bitlen :: "int \<Rightarrow> int" where
  "bitlen n = (if n \<le> 0 then 0 else 1 + bitlen (n div 2))"
  by pat_completeness auto
termination
  by (relation "measure nat") auto

declare bitlen.simps [simp del]

text \<open>The exponent of the leading bit of \<open>n / d\<close>.\<close>

definition ilog2_ratio :: "int \<Rightarrow> int \<Rightarrow> int" where
  "ilog2_ratio n d =
     (let k = bitlen n - bitlen d;
          ge = (if 0 \<le> k then d * 2 ^ nat k \<le> n else d \<le> n * 2 ^ nat (- k))
      in if ge then k else k - 1)"

definition round_half_even :: "int \<Rightarrow> int \<Rightarrow> int" where
  "round_half_even a b =
     (let q = a div b; r = a mod b
      in if b < 2 * r \<or> (2 * r = b \<and> odd q) then q + 1 else q)"

lemma round_half_even_exact: "0 < b \<Longrightarrow> round_half_even (q * b) b = q"
  by (simp add: round_half_even_def)

lemma round_half_even_error:
  assumes "0 < b"
  shows "2 * \<bar>round_half_even a b * b - a\<bar> \<le> b"
proof -
  have a: "a = a div b * b + a mod b" by simp
  have r: "0 \<le> a mod b" "a mod b < b" using assms by simp_all
  have "round_half_even a b * b - a =
      (if b < 2 * (a mod b) \<or> (2 * (a mod b) = b \<and> odd (a div b)) then b - a mod b else - (a mod b))"
    unfolding round_half_even_def Let_def by (subst (5 6) a) (simp add: algebra_simps)
  with r show ?thesis by (auto simp: abs_le_iff)
qed

text \<open>The binary64 value nearest to \<open>n / d\<close>, with sign \<open>s\<close>.\<close>

definition round64 :: "bool \<Rightarrow> int \<Rightarrow> int \<Rightarrow> f64" where
  "round64 s n d =
     (if n = 0 then Fin s 0 (- 1074)
      else
        let e = max (ilog2_ratio n d - 52) (- 1074);
            q = (if 0 \<le> e then round_half_even n (d * 2 ^ nat e)
                 else round_half_even (n * 2 ^ nat (- e)) d);
            q' = (if q = 2 ^ 53 then 2 ^ 52 else q);
            e' = (if q = 2 ^ 53 then e + 1 else e)
        in if 971 < e' then FInf s else Fin s q' e')"

definition round_dyadic :: "bool \<Rightarrow> int \<Rightarrow> int \<Rightarrow> f64" where
  "round_dyadic s m e =
     (if 0 \<le> e then round64 s (m * 2 ^ nat e) 1 else round64 s m (2 ^ nat (- e)))"

subsection \<open>Arithmetic\<close>

definition signed :: "bool \<Rightarrow> int \<Rightarrow> int" where
  "signed s m = (if s then - m else m)"

fun fneg :: "f64 \<Rightarrow> f64" where
  "fneg NaN = NaN"
| "fneg (FInf s) = FInf (\<not> s)"
| "fneg (Fin s m e) = Fin (\<not> s) m e"

fun fabs :: "f64 \<Rightarrow> f64" where
  "fabs NaN = NaN"
| "fabs (FInf s) = FInf False"
| "fabs (Fin s m e) = Fin False m e"

text \<open>Both significands of a pair of finite numbers over their smaller exponent.\<close>

definition align :: "bool \<Rightarrow> int \<Rightarrow> int \<Rightarrow> int \<Rightarrow> int" where
  "align s m e e0 = signed s m * 2 ^ nat (e - e0)"

fun fadd :: "f64 \<Rightarrow> f64 \<Rightarrow> f64" where
  "fadd NaN y = NaN"
| "fadd x NaN = NaN"
| "fadd (FInf s) (FInf t) = (if s = t then FInf s else NaN)"
| "fadd (FInf s) (Fin _ _ _) = FInf s"
| "fadd (Fin _ _ _) (FInf t) = FInf t"
| "fadd (Fin s m e) (Fin t n f) =
     (let e0 = min e f; z = align s m e e0 + align t n f e0
      in if z = 0 then Fin (s \<and> t) 0 (- 1074) else round_dyadic (z < 0) \<bar>z\<bar> e0)"

definition fsub :: "f64 \<Rightarrow> f64 \<Rightarrow> f64" where
  "fsub x y = fadd x (fneg y)"

fun fmul :: "f64 \<Rightarrow> f64 \<Rightarrow> f64" where
  "fmul NaN y = NaN"
| "fmul x NaN = NaN"
| "fmul (FInf s) (FInf t) = FInf (s \<noteq> t)"
| "fmul (FInf s) (Fin t n f) = (if n = 0 then NaN else FInf (s \<noteq> t))"
| "fmul (Fin s m e) (FInf t) = (if m = 0 then NaN else FInf (s \<noteq> t))"
| "fmul (Fin s m e) (Fin t n f) = round_dyadic (s \<noteq> t) (m * n) (e + f)"

subsection \<open>Comparison and conversion\<close>

text \<open>\<^verbatim>\<open>==\<close>: NaN differs from everything, the two zeros are equal.\<close>

fun feq :: "f64 \<Rightarrow> f64 \<Rightarrow> bool" where
  "feq (FInf s) (FInf t) = (s = t)"
| "feq (Fin s m e) (Fin t n f) = (let e0 = min e f in align s m e e0 = align t n f e0)"
| "feq _ _ = False"

fun flt :: "f64 \<Rightarrow> f64 \<Rightarrow> bool" where
  "flt (FInf s) (FInf t) = (s \<and> \<not> t)"
| "flt (FInf s) (Fin _ _ _) = s"
| "flt (Fin _ _ _) (FInf t) = (\<not> t)"
| "flt (Fin s m e) (Fin t n f) = (let e0 = min e f in align s m e e0 < align t n f e0)"
| "flt _ _ = False"

definition fle :: "f64 \<Rightarrow> f64 \<Rightarrow> bool" where
  "fle x y = (flt x y \<or> feq x y)"

lemma feq_refl: "x \<noteq> NaN \<Longrightarrow> feq x x"
  by (cases x) (simp_all add: Let_def)

definition is_finite :: "f64 \<Rightarrow> bool" where
  "is_finite x = (case x of Fin _ _ _ \<Rightarrow> True | _ \<Rightarrow> False)"

definition f64_zero :: f64 where "f64_zero = Fin False 0 (- 1074)"

text \<open>\<^verbatim>\<open>v.fract() == 0.0\<close>.\<close>

fun fract_zero :: "f64 \<Rightarrow> bool" where
  "fract_zero (Fin s m e) = (0 \<le> e \<or> m mod 2 ^ nat (- e) = 0)"
| "fract_zero _ = False"

text \<open>\<^verbatim>\<open>v as i64\<close>: towards zero, saturating, NaN to 0.\<close>

definition saturate64 :: "int \<Rightarrow> int" where
  "saturate64 i = max (- (2 ^ 63)) (min (2 ^ 63 - 1) i)"

fun f64_to_i64 :: "f64 \<Rightarrow> int" where
  "f64_to_i64 NaN = 0"
| "f64_to_i64 (FInf s) = (if s then - (2 ^ 63) else 2 ^ 63 - 1)"
| "f64_to_i64 (Fin s m e) =
     saturate64 (signed s (if 0 \<le> e then m * 2 ^ nat e else m div 2 ^ nat (- e)))"

definition f64_of_int :: "int \<Rightarrow> f64" where
  "f64_of_int i = round64 (i < 0) \<bar>i\<bar> 1"

text \<open>A decimal literal \<open>n / 10\<^sup>k\<close> of the source.\<close>

definition f64_lit :: "int \<Rightarrow> nat \<Rightarrow> f64" where
  "f64_lit n k = round64 False n (10 ^ k)"

text \<open>
  \<^verbatim>\<open>f64::max\<close> (a NaN operand is ignored) and \<^verbatim>\<open>f64::clamp\<close>, which panics
  (\<open>None\<close>) unless \<open>min \<le> max\<close> with both bounds numbers.
\<close>

definition fmax :: "f64 \<Rightarrow> f64 \<Rightarrow> f64" where
  "fmax x y = (if x = NaN then y else if y = NaN then x else if flt x y then y else x)"

definition fclamp :: "f64 \<Rightarrow> f64 \<Rightarrow> f64 \<Rightarrow> f64 option" where
  "fclamp x lo hi =
     (if fle lo hi then Some (if flt x lo then lo else if flt hi x then hi else x) else None)"

subsection \<open>Reading\<close>

text \<open>
  \<^verbatim>\<open>str::parse::<f64>\<close>: an optional sign, then \<^verbatim>\<open>inf\<close>, \<^verbatim>\<open>infinity\<close> or
  \<^verbatim>\<open>nan\<close> in any case, or decimal digits with at most one point and at least one digit,
  and an optional exponent.
\<close>

definition parse_mantissa :: "string \<Rightarrow> (int \<times> nat) option" where
  "parse_mantissa s =
     (let (ip, fp) = (case split_once CHR ''.'' s of None \<Rightarrow> (s, []) | Some (a, b) \<Rightarrow> (a, b))
      in if (ip \<noteq> [] \<or> fp \<noteq> []) \<and> list_all is_digit ip \<and> list_all is_digit fp
         then Some (digits_val 0 (ip @ fp), length fp) else None)"

definition is_exp_char :: "char \<Rightarrow> bool" where
  "is_exp_char c = (c = CHR ''e'' \<or> c = CHR ''E'')"

definition scale10 :: "bool \<Rightarrow> int \<Rightarrow> int \<Rightarrow> f64" where
  "scale10 s n x =
     (if 0 \<le> x then round64 s (n * 10 ^ nat x) 1 else round64 s n (10 ^ nat (- x)))"

definition parse_unsigned_f64 :: "bool \<Rightarrow> string \<Rightarrow> f64 option" where
  "parse_unsigned_f64 s t =
     (let u = to_ascii_lowercase t in
      if u = ''inf'' \<or> u = ''infinity'' then Some (FInf s)
      else if u = ''nan'' then Some NaN
      else case position is_exp_char t of
             None \<Rightarrow> map_option (\<lambda>(n, k). scale10 s n (- int k)) (parse_mantissa t)
           | Some i \<Rightarrow>
               (case (parse_mantissa (take i t), parse_signed_digits (drop (Suc i) t)) of
                  (Some (n, k), Some x) \<Rightarrow> Some (scale10 s n (x - int k))
                | _ \<Rightarrow> None))"

definition parse_f64 :: "string \<Rightarrow> f64 option" where
  "parse_f64 t =
     (case t of
        [] \<Rightarrow> None
      | c # cs \<Rightarrow> if c = CHR ''-'' then parse_unsigned_f64 True cs
                  else if c = CHR ''+'' then parse_unsigned_f64 False cs
                  else parse_unsigned_f64 False t)"

subsection \<open>Printing\<close>

definition show_sign :: "bool \<Rightarrow> string" where
  "show_sign s = (if s then ''-'' else [])"

definition pad_left :: "nat \<Rightarrow> string \<Rightarrow> string" where
  "pad_left n s = replicate (n - length s) CHR ''0'' @ s"

text \<open>\<open>d\<close> units of \<open>10\<^sup>-\<^sup>k\<close> in positional notation with \<open>k\<close> fraction digits.\<close>

definition show_scaled :: "int \<Rightarrow> nat \<Rightarrow> string" where
  "show_scaled d k =
     (let ds = pad_left (Suc k) (show_pos d); i = length ds - k
      in if k = 0 then ds else take i ds @ CHR ''.'' # drop i ds)"

text \<open>\<^verbatim>\<open>format!("{v:.k}")\<close>: the exact value rounded half to even.\<close>

fun show_fixed :: "nat \<Rightarrow> f64 \<Rightarrow> string" where
  "show_fixed k NaN = ''NaN''"
| "show_fixed k (FInf s) = show_sign s @ ''inf''"
| "show_fixed k (Fin s m e) =
     show_sign s @
     show_scaled
       (if 0 \<le> e then m * 2 ^ nat e * 10 ^ k
        else round_half_even (m * 10 ^ k) (2 ^ nat (- e))) k"

text \<open>
  \<^verbatim>\<open>format!("{v}")\<close>: the shortest decimal that reads back as \<open>v\<close>, in positional
  notation. The candidates with \<open>k\<close> significant digits are the two neighbours of \<open>v\<close>
  on the grid of \<open>10\<^sup>x\<^sup>-\<^sup>k\<close>, where \<open>10\<^sup>x\<^sup>-\<^sup>1 \<le> v < 10\<^sup>x\<close>; 17 digits always suffice.
\<close>

definition ratio_of :: "int \<Rightarrow> int \<Rightarrow> int \<times> int" where
  "ratio_of m e = (if 0 \<le> e then (m * 2 ^ nat e, 1) else (m, 2 ^ nat (- e)))"

fun frac_exp :: "nat \<Rightarrow> int \<Rightarrow> int \<Rightarrow> int" where
  "frac_exp 0 n d = 0"
| "frac_exp (Suc fuel) n d = (if d \<le> 10 * n then 0 else frac_exp fuel (10 * n) d - 1)"

definition dec_exp :: "int \<Rightarrow> int \<Rightarrow> int" where
  "dec_exp n d = (if d \<le> n then int (length (show_pos (n div d))) else frac_exp 400 n d)"

definition grid_floor :: "int \<Rightarrow> int \<Rightarrow> int \<Rightarrow> int" where
  "grid_floor n d p = (if 0 \<le> p then n div (d * 10 ^ nat p) else (n * 10 ^ nat (- p)) div d)"

text \<open>Whether the lower neighbour is at least as close as the upper one.\<close>

definition lower_closer :: "int \<Rightarrow> int \<Rightarrow> int \<Rightarrow> bool" where
  "lower_closer n d p =
     (if 0 \<le> p then 2 * (n mod (d * 10 ^ nat p)) \<le> d * 10 ^ nat p
      else 2 * ((n * 10 ^ nat (- p)) mod d) \<le> d)"

fun shortest_from :: "nat \<Rightarrow> int \<Rightarrow> int \<Rightarrow> f64 \<Rightarrow> nat \<Rightarrow> int \<times> int" where
  "shortest_from 0 n d v k = (grid_floor n d (dec_exp n d - int k), dec_exp n d - int k)"
| "shortest_from (Suc fuel) n d v k =
     (let p = dec_exp n d - int k; lo = grid_floor n d p;
          lo_ok = (scale10 False lo p = v); hi_ok = (scale10 False (lo + 1) p = v)
      in if lo_ok \<and> (\<not> hi_ok \<or> lower_closer n d p) then (lo, p)
         else if hi_ok then (lo + 1, p)
         else shortest_from fuel n d v (Suc k))"

definition strip_zero_fraction :: "string \<Rightarrow> string" where
  "strip_zero_fraction s =
     (if CHR ''.'' \<in> set s
      then (let t = rev (dropWhile (\<lambda>c. c = CHR ''0'') (rev s))
            in case strip_suffix ''.'' t of None \<Rightarrow> t | Some u \<Rightarrow> u)
      else s)"

definition show_decimal :: "int \<Rightarrow> int \<Rightarrow> string" where
  "show_decimal d p =
     (if 0 \<le> p then show_pos (d * 10 ^ nat p)
      else strip_zero_fraction (show_scaled d (nat (- p))))"

fun show_f64 :: "f64 \<Rightarrow> string" where
  "show_f64 NaN = ''NaN''"
| "show_f64 (FInf s) = show_sign s @ ''inf''"
| "show_f64 (Fin s m e) =
     (if m = 0 then show_sign s @ ''0''
      else let (n, d) = ratio_of m e; (c, p) = shortest_from 17 n d (Fin False m e) 1
           in show_sign s @ show_decimal c p)"

end
