(* ===== verification/Core_Types.thy ===== *)
theory Core_Types
  imports F64
begin

text \<open>
  The value types of \<^verbatim>\<open>src/core/types.rs\<close>: device status, device errors, the device state
  with its positions, transport status and unit system.
\<close>

datatype DeviceStatus =
    Unknown | Idle | Run | Hold | Jog | Alarm | Door | Check | Home | Sleep
  | Tool | Queue | Lock | Unlock | Cycle | Test

definition from_name :: "string \<Rightarrow> DeviceStatus" where
  "from_name name =
     (let n = to_ascii_uppercase name in
      if n = ''IDLE'' then Idle
      else if n = ''RUN'' then Run
      else if n = ''HOLD'' then Hold
      else if n = ''JOG'' then Jog
      else if n = ''ALARM'' then Alarm
      else if n = ''DOOR'' then Door
      else if n = ''CHECK'' then Check
      else if n = ''HOME'' then Home
      else if n = ''SLEEP'' then Sleep
      else if n = ''TOOL'' then Tool
      else if n = ''QUEUE'' then Queue
      else if n = ''LOCK'' then Lock
      else if n = ''UNLOCK'' then Unlock
      else if n = ''CYCLE'' then Cycle
      else if n = ''TEST'' then Test
      else Unknown)"

fun status_name :: "DeviceStatus \<Rightarrow> string" where
  "status_name Unknown = ''Unknown''"
| "status_name Idle = ''Idle''"
| "status_name Run = ''Run''"
| "status_name Hold = ''Hold''"
| "status_name Jog = ''Jog''"
| "status_name Alarm = ''Alarm''"
| "status_name Door = ''Door''"
| "status_name Check = ''Check''"
| "status_name Home = ''Home''"
| "status_name Sleep = ''Sleep''"
| "status_name Tool = ''Tool''"
| "status_name Queue = ''Queue''"
| "status_name Lock = ''Lock''"
| "status_name Unlock = ''Unlock''"
| "status_name Cycle = ''Cycle''"
| "status_name Test = ''Test''"

record DeviceError =
  err_code :: int
  err_title :: string
  err_description :: string

definition DeviceError_new :: "int \<Rightarrow> string \<Rightarrow> string \<Rightarrow> DeviceError" where
  "DeviceError_new c t d = \<lparr>err_code = c, err_title = t, err_description = d\<rparr>"

lemma DeviceError_new_simps [simp]:
  "err_code (DeviceError_new c t d) = c"
  "err_title (DeviceError_new c t d) = t"
  "err_description (DeviceError_new c t d) = d"
  by (simp_all add: DeviceError_new_def)

type_synonym Pos = "f64 option list"

record DeviceState =
  status :: DeviceStatus
  dev_error :: "DeviceError option"
  machine_pos :: Pos
  work_pos :: Pos
  wco :: Pos
  feed_rate :: "int option"
  spindle_speed :: "int option"
  buffer_available :: "int option"
  buffer_rx_available :: "int option"

definition DeviceState_default :: DeviceState where
  "DeviceState_default =
     \<lparr>status = Unknown, dev_error = None,
      machine_pos = [None, None, None],
      work_pos = [None, None, None],
      wco = [Some f64_zero, Some f64_zero, Some f64_zero],
      feed_rate = None, spindle_speed = None,
      buffer_available = None, buffer_rx_available = None\<rparr>"

text \<open>The derived \<^verbatim>\<open>PartialEq\<close>: floating-point equality on the positions.\<close>

fun opt_feq :: "f64 option \<Rightarrow> f64 option \<Rightarrow> bool" where
  "opt_feq None None = True"
| "opt_feq (Some x) (Some y) = feq x y"
| "opt_feq _ _ = False"

definition pos_eq :: "Pos \<Rightarrow> Pos \<Rightarrow> bool" where
  "pos_eq p q = list_all2 opt_feq p q"

definition state_eq :: "DeviceState \<Rightarrow> DeviceState \<Rightarrow> bool" where
  "state_eq a b =
     (status a = status b \<and> dev_error a = dev_error b \<and>
      pos_eq (machine_pos a) (machine_pos b) \<and>
      pos_eq (work_pos a) (work_pos b) \<and>
      pos_eq (wco a) (wco b) \<and>
      feed_rate a = feed_rate b \<and> spindle_speed a = spindle_speed b \<and>
      buffer_available a = buffer_available b \<and>
      buffer_rx_available a = buffer_rx_available b)"

datatype TransportStatus =
    T_Unknown | T_Idle | T_Connecting | T_Connected | T_Error | T_Closing | T_Disconnected | T_Sleeping

fun transport_status_name :: "TransportStatus \<Rightarrow> string" where
  "transport_status_name T_Unknown = ''UNKNOWN''"
| "transport_status_name T_Idle = ''IDLE''"
| "transport_status_name T_Connecting = ''CONNECTING''"
| "transport_status_name T_Connected = ''CONNECTED''"
| "transport_status_name T_Error = ''ERROR''"
| "transport_status_name T_Closing = ''CLOSING''"
| "transport_status_name T_Disconnected = ''DISCONNECTED''"
| "transport_status_name T_Sleeping = ''SLEEPING''"

datatype UnitSystem = Metric | Imperial

definition MM_PER_INCH :: f64 where
  "MM_PER_INCH = f64_lit 254 1"

definition inches_to_mm :: "f64 \<Rightarrow> f64" where
  "inches_to_mm v = fmul v MM_PER_INCH"

text \<open>Reading a status name back gives the status, for every status a device can report.\<close>

lemma from_name_status_name: "from_name (status_name st) = st"
  by (induction st; code_simp)

text \<open>The transport status names are pairwise different.\<close>

lemma transport_status_name_inj: "transport_status_name a = transport_status_name b \<Longrightarrow> a = b"
  by (cases a; cases b) simp_all

lemma opt_feq_sym: "opt_feq a b \<Longrightarrow> opt_feq b a"
proof (cases a; cases b)
  fix x y
  assume "opt_feq a b" "a = Some x" "b = Some y"
  moreover have "feq x y \<Longrightarrow> feq y x" by (cases x; cases y) (simp_all add: Let_def min.commute)
  ultimately show ?thesis by simp
qed simp_all

end
