(* ===== verification/Grbl_Errors.thy ===== *)
theory Grbl_Errors
  imports Core_Types
begin

text \<open>
  The code tables of \<^verbatim>\<open>src/grbl/errors.rs\<close>: each arm of the two \<^verbatim>\<open>match\<close> expressions
  is one entry, and a code or text the tables do not hold falls back to the unknown error or alarm.
\<close>

definition em_dash :: string where
  "em_dash = [CHR 0xE2, CHR 0x80, CHR 0x94]"

definition grbl_errors_1_to_20 :: "(int \<times> DeviceError) list" where
  "grbl_errors_1_to_20 = [
     (1, DeviceError_new 1 (''Missing Command Letter'')
        (''G-code commands need a letter followed by a value. The command letter was not found.'')),
     (2, DeviceError_new 2 (''Invalid Number Format'')
        (''The value is missing or not in the correct numeric format. Check your G-code syntax.'')),
     (3, DeviceError_new 3 (''Unknown Command'')
        (''This Grbl setting command is not recognized or supported. Check the command syntax.'')),
     (4, DeviceError_new 4 (''Negative Value'')
        (''A positive number is required here, but a negative value was received.'')),
     (5, DeviceError_new 5 (''Homing Disabled'')
        (''Homing is not enabled in settings. Enable homing ($22=1) to use this feature.'')),
     (6, DeviceError_new 6 (''Pulse Time Too Short'')
        (''Minimum step pulse time must be greater than 3 microseconds. Check setting $0.'')),
     (7, DeviceError_new 7 (''Memory Error'')
        (''Settings reset to defaults due to a memory read failure. Reconfigure your settings if needed.'')),
     (8, DeviceError_new 8 (''Machine Busy'')
        (''This command can only be used when the machine is idle. Wait for the current job to finish.'')),
     (9, DeviceError_new 9 (''Commands Locked'')
        (''Cannot send commands while in alarm or jog mode. Clear the alarm state first.'')),
     (10, DeviceError_new 10 (''Homing Required'')
        (''Soft limits cannot be enabled without homing also enabled. Enable homing first ($22=1).'')),
     (11, DeviceError_new 11 (''Line Too Long'')
        (''The command line has too many characters and was ignored. Check your file formatting.'')),
     (12, DeviceError_new 12 (''Setting Too High'')
        (''This setting exceeds the maximum step rate supported. Use a lower value.'')),
     (13, DeviceError_new 13 (''Door Open'')
        (''The safety door was detected as open. Close the door and resume operation.'')),
     (14, DeviceError_new 14 (''Line Too Long'')
        (''Build info or startup line exceeds storage limit. Shorten the line.'')),
     (15, DeviceError_new 15 (''Target Out of Range'')
        (''Jog target is beyond the machine's travel limits. Move to a position within range.'')),
     (16, DeviceError_new 16 (''Invalid Jog Command'')
        (''Jog command is missing '=' or contains prohibited G-code. Check the jog syntax.'')),
     (17, DeviceError_new 17 (''Laser Mode Error'')
        (''Laser mode requires PWM output to work. Check your hardware configuration.'')),
     (18, DeviceError_new 18 (''Spindle Not Running'')
        (''A motion command was issued but the spindle is not running. Start the spindle before motion.'')),
     (19, DeviceError_new 19 (''Spindle Speed Mismatch'')
        (''The current spindle speed does not match the speed required by the command. Wait for the spindle to reach the target speed.'')),
     (20, DeviceError_new 20 (''Unsupported Command'')
        (''This G-code command is not supported by the machine. Check your post-processor settings.''))]"

definition grbl_errors_21_to_38 :: "(int \<times> DeviceError) list" where
  "grbl_errors_21_to_38 = [
     (21, DeviceError_new 21 (''Conflicting Commands'')
        (''Multiple commands from the same group found on one line. Remove the duplicate command.'')),
     (22, DeviceError_new 22 (''Feed Rate Missing'')
        (''Set a feed rate before using motion commands. Add an F command to specify speed.'')),
     (23, DeviceError_new 23 (''Integer Required'')
        (''This command requires a whole number value. Remove any decimal points.'')),
     (24, DeviceError_new 24 (''Axis Conflict'')
        (''Multiple commands trying to use the same axis. Simplify the command.'')),
     (25, DeviceError_new 25 (''Duplicate Word'')
        (''The same G-code word appears more than once. Remove the duplicate.'')),
     (26, DeviceError_new 26 (''Missing Axis'')
        (''This command requires XYZ axis coordinates. Add the missing axis values.'')),
     (27, DeviceError_new 27 (''Line Number Out of Range'')
        (''Line number must be between 1 and 9,999,999. Use a valid line number.'')),
     (28, DeviceError_new 28 (''Missing Value'')
        (''This command requires a P or L value. Add the missing parameter.'')),
     (29, DeviceError_new 29 (''Unsupported Coordinate'')
        (''Only G54-G59 coordinate systems are supported. Use one of these instead.'')),
     (30, DeviceError_new 30 (''Wrong Motion Mode'')
        (''G53 command requires G0 or G1 motion mode. Set the correct motion mode first.'')),
     (31, DeviceError_new 31 (''Unused Axis Words'')
        (''Axis words present but G80 cancel is active. Remove the unused axis words.'')),
     (32, DeviceError_new 32 (''Missing Arc Data'')
        (''G2/G3 arc command needs XYZ coordinates. Add the axis values for the selected plane.'')),
     (33, DeviceError_new 33 (''Invalid Target'')
        (''Cannot create this arc or probe to current position. Check the target coordinates.'')),
     (34, DeviceError_new 34 (''Arc Geometry Error'')
        (''Arc calculation failed. Try breaking the arc into smaller pieces or use IJK offset instead.'')),
     (35, DeviceError_new 35 (''Missing Arc Offset'')
        (''G2/G3 arc command needs IJK offset values. Add the missing offset for the selected plane.'')),
     (36, DeviceError_new 36 (''Unused Words'')
        (''Some G-code words in this line are not used by any command. Remove the unused words.'')),
     (37, DeviceError_new 37 (''Wrong Axis for Offset'')
        (''Tool length offset only works on the configured axis (usually Z-axis). Check your settings.'')),
     (38, DeviceError_new 38 (''Tool Number Too High'')
        (''Tool number exceeds the maximum supported value. Use a valid tool number.''))]"


definition grbl_error_table :: "(int \<times> DeviceError) list" where
  "grbl_error_table = grbl_errors_1_to_20 @ grbl_errors_21_to_38"

lemmas grbl_error_table_all = grbl_error_table_def grbl_errors_1_to_20_def grbl_errors_21_to_38_def
definition grbl_alarm_table :: "(int \<times> DeviceError) list" where
  "grbl_alarm_table = [
     (1, DeviceError_new 1 (''Hard Limit'')
        (''A hard limit switch was triggered. The machine has stopped and needs to be reset. Check for obstructions and verify your limit switches.'')),
     (2, DeviceError_new 2 (''Soft Limit'')
        (''The machine would move beyond its configured travel limits. Check that your work area and coordinate offsets are correct.'')),
     (3, DeviceError_new 3 (''Abort Cycle'')
        (''The currently running job was cancelled while in motion. Reset the machine to continue.'')),
     (4, DeviceError_new 4 (''Probe Fail '' @ em_dash @ '' Initial'')
        (''The probe did not make contact before the maximum travel distance was reached. Check the probe wiring and positioning.'')),
     (5, DeviceError_new 5 (''Probe Fail '' @ em_dash @ '' Final'')
        (''The probe failed to retract to the target position after contact. Check the probe configuration.'')),
     (6, DeviceError_new 6 (''Homing Fail '' @ em_dash @ '' Reset'')
        (''Homing was not able to complete because the machine is in an alarm state. Clear the alarm and try again.'')),
     (7, DeviceError_new 7 (''Homing Fail '' @ em_dash @ '' Approach'')
        (''The homing cycle failed to find the switch within the configured travel distance. Check your switch wiring and pull-off settings.'')),
     (8, DeviceError_new 8 (''Homing Fail '' @ em_dash @ '' Pulloff'')
        (''The homing cycle failed to successfully pull off the switch after contact. Increase the pull-off distance or check the switch.'')),
     (9, DeviceError_new 9 (''Home Without Limits'')
        (''Homing was commanded but limit switches are not configured. Enable limit switches first.'')),
     (10, DeviceError_new 10 (''Homing Fail '' @ em_dash @ '' Dual Axis'')
        (''Homing failed on a dual-axis configuration. One or both axes did not reach their limit switches. Check your limit switch wiring and configuration.''))]"

definition grbl_error_for_code :: "int \<Rightarrow> DeviceError option" where
  "grbl_error_for_code code = map_of grbl_error_table code"

definition grbl_alarm_for_code :: "int \<Rightarrow> DeviceError option" where
  "grbl_alarm_for_code code = map_of grbl_alarm_table code"

definition error_code_to_device_error :: "string \<Rightarrow> DeviceError" where
  "error_code_to_device_error error_code =
     (case parse_i32 error_code of
        None \<Rightarrow> DeviceError_new (- 1) ''Unknown Error'' ''Invalid error code reported by machine.''
      | Some code \<Rightarrow>
          (case grbl_error_for_code code of
             Some e \<Rightarrow> e
           | None \<Rightarrow> DeviceError_new code ''Unknown Error''
               ''The machine reported an unrecognized error code. Check your machine and firmware documentation.''))"

definition alarm_code_to_device_error :: "string \<Rightarrow> DeviceError" where
  "alarm_code_to_device_error alarm_code =
     (case parse_i32 alarm_code of
        None \<Rightarrow> DeviceError_new (- 1) ''Unknown Alarm'' ''Invalid alarm code reported by machine.''
      | Some code \<Rightarrow>
          (case grbl_alarm_for_code code of
             Some e \<Rightarrow> e
           | None \<Rightarrow> DeviceError_new code ''Unknown Alarm''
               ''The machine reported an unrecognized alarm code. Check your machine and firmware documentation.''))"

lemma grbl_error_table_keys:
  "list_all (\<lambda>(k, e). err_code e = k) grbl_error_table"
  "map fst grbl_error_table = [1..38]"
  by (simp_all add: grbl_error_table_all upto.simps)

lemma grbl_alarm_table_keys:
  "list_all (\<lambda>(k, e). err_code e = k) grbl_alarm_table"
  "map fst grbl_alarm_table = [1..10]"
  by (simp_all add: grbl_alarm_table_def upto.simps)

lemma map_of_code:
  assumes "list_all (\<lambda>(k, e). err_code e = k) t" and "map_of t c = Some e"
  shows "err_code e = c"
  using assms by (auto simp: list_all_iff dest!: map_of_SomeD)

lemma grbl_error_for_code_dom: "grbl_error_for_code c = None \<longleftrightarrow> c \<notin> {1..38}"
proof -
  have "fst ` set grbl_error_table = {1..38}"
    by (metis grbl_error_table_keys(2) list.set_map set_upto)
  then show ?thesis by (simp add: grbl_error_for_code_def map_of_eq_None_iff)
qed

lemma grbl_alarm_for_code_dom: "grbl_alarm_for_code c = None \<longleftrightarrow> c \<notin> {1..10}"
proof -
  have "fst ` set grbl_alarm_table = {1..10}"
    by (metis grbl_alarm_table_keys(2) list.set_map set_upto)
  then show ?thesis by (simp add: grbl_alarm_for_code_def map_of_eq_None_iff)
qed

text \<open>The error of a numeric code carries that code, known to the table or not.\<close>

lemma error_code_carried:
  "err_code (error_code_to_device_error (show_int c)) = c" if "- (2 ^ 31) \<le> c" "c < 2 ^ 31"
  using that map_of_code [OF grbl_error_table_keys(1), of c]
  by (auto simp: error_code_to_device_error_def parse_i32_def parse_signed_show_int
        grbl_error_for_code_def split: option.splits)

lemma alarm_code_carried:
  "err_code (alarm_code_to_device_error (show_int c)) = c" if "- (2 ^ 31) \<le> c" "c < 2 ^ 31"
  using that map_of_code [OF grbl_alarm_table_keys(1), of c]
  by (auto simp: alarm_code_to_device_error_def parse_i32_def parse_signed_show_int
        grbl_alarm_for_code_def split: option.splits)

end
