(* ===== verification/Grbl_Parser.thy ===== *)
theory Grbl_Parser
  imports Regex Grbl_Errors
begin

text \<open>
  The response parsers of \<^verbatim>\<open>src/grbl/parser.rs\<close>. The patterns are the source's regular
  expressions; the crate that matches them is the parameter \<open>X\<close>.
\<close>

definition GRBL_REALTIME_COMMANDS :: "string list" where
  "GRBL_REALTIME_COMMANDS = [''?'', ''~'', ''!'']"

subsection \<open>Patterns\<close>

definition D_RE :: rx where "D_RE = Cls is_digit"

definition NUM_RE :: rx where
  "NUM_RE = Seqs [Opt (Lit CHR ''-''), Plus D_RE, Opt (Lit CHR ''.''), Star D_RE]"

definition VAL_RE :: rx where
  "VAL_RE = Plus (Cls (\<lambda>c. is_digit c \<or> c = CHR ''.'' \<or> c = CHR ''-''))"

definition POS_RE :: rx where
  "POS_RE = Seqs [Lit CHR '':'', Group 1 NUM_RE, Lit CHR '','', Group 2 NUM_RE,
     Opt (Seq (Lit CHR '','') (Group 3 NUM_RE)), Opt (Seq (Lit CHR '','') (Group 4 NUM_RE))]"

definition FS_RE :: rx where
  "FS_RE = Seqs [Lits ''FS:'', Group 1 (Plus D_RE), Lit CHR '','', Group 2 (Plus D_RE)]"

definition BF_RE :: rx where
  "BF_RE = Seqs [Lits ''Bf:'', Group 1 (Plus D_RE), Lit CHR '','', Group 2 (Plus D_RE)]"

definition GRBL_SETTING_RE :: rx where
  "GRBL_SETTING_RE = Seqs [Lit CHR ''$'', Group 1 (Plus D_RE), Lit CHR ''='', Group 2 VAL_RE]"

definition G5x_RE :: rx where
  "G5x_RE = Seqs [Lits ''G5'', Cls (\<lambda>c. 52 \<le> byte c \<and> byte c \<le> 57)]"

definition WCS_RE :: rx where
  "WCS_RE = Seqs [Lit CHR ''['', Group 1 G5x_RE, Lit CHR '':'', Group 2 VAL_RE, Lit CHR '','',
     Group 3 VAL_RE, Opt (Seq (Lit CHR '','') (Group 4 VAL_RE)), Lit CHR '']'']"

definition PRB_RE :: rx where
  "PRB_RE = Seqs [Lits ''[PRB:'', Group 1 VAL_RE, Lit CHR '','', Group 2 VAL_RE, Lit CHR '','',
     Group 3 VAL_RE, Lit CHR '':'', Group 4 D_RE, Lit CHR '']'']"

definition DOT_RE :: rx where "DOT_RE = Cls (\<lambda>c. c \<noteq> LF)"

definition GRBL_PARSER_STATE_RE :: rx where
  "GRBL_PARSER_STATE_RE = Seqs [Star DOT_RE, Group 1 G5x_RE, Star DOT_RE]"

definition GRBL_OPT_RE :: rx where
  "GRBL_OPT_RE = Seqs [Lits ''[OPT:'', Group 1 (Plus (Cls (\<lambda>c. 65 \<le> byte c \<and> byte c \<le> 90))),
     Lit CHR '','', Group 2 (Plus D_RE), Lit CHR '','', Group 3 (Plus D_RE), Lit CHR '']'']"

definition GCODE_COMMENT_RE :: rx where
  "GCODE_COMMENT_RE = Seqs [Lit CHR ''('', Star (Cls (\<lambda>c. c \<noteq> CHR '')'')), Lit CHR '')'']"

definition GRBL_DISCOVERY_RE :: rx where
  "GRBL_DISCOVERY_RE = Alts
     [Seqs [WordB, LitsI ''grbl'', Opt (LitsI ''hal''), WordB],
      Seqs [Lit CHR ''<'', Alts [LitsI ''Idle'', LitsI ''Run'', LitsI ''Hold'', LitsI ''Alarm'', LitsI ''Home''],
            Cls (\<lambda>c. c = CHR '','' \<or> c = CHR ''|'' \<or> c = CHR ''>'')],
      Seqs [Lit CHR ''['', Alts [LitsI ''VER'', LitsI ''OPT'', LitsI ''MSG'', LitsI ''GC''], Lit CHR '':'']]"

subsection \<open>Command lines\<close>

definition is_grbl_output :: "regex_crate \<Rightarrow> bytes \<Rightarrow> bool" where
  "is_grbl_output X data = (rx_bytes X GRBL_DISCOVERY_RE data \<noteq> None)"

fun split_realtime_commands :: "string list \<Rightarrow> string list \<times> string list" where
  "split_realtime_commands [] = ([], [])"
| "split_realtime_commands (l # ls) =
     (case split_realtime_commands ls of (gcode, realtime) \<Rightarrow>
        if l \<in> set GRBL_REALTIME_COMMANDS then (gcode, l # realtime) else (l # gcode, realtime))"

definition truncate_at :: "char \<Rightarrow> string \<Rightarrow> string" where
  "truncate_at c s = (case position (\<lambda>x. x = c) s of Some i \<Rightarrow> take i s | None \<Rightarrow> s)"

definition strip_gcode_comments :: "regex_crate \<Rightarrow> string \<Rightarrow> string" where
  "strip_gcode_comments X line = trim (truncate_at CHR '';'' (rx_cut X GCODE_COMMENT_RE line))"

definition gcode_to_p_number :: "string \<Rightarrow> int option" where
  "gcode_to_p_number wcs_slot =
     (case strip_prefix ''G'' wcs_slot of
        None \<Rightarrow> None
      | Some rest \<Rightarrow>
          (case parse_i64 rest of
             None \<Rightarrow> None
           | Some num \<Rightarrow>
               (let p_num = wrap64 (num - 53) in if 1 \<le> p_num \<and> p_num \<le> 6 then Some p_num else None)))"

subsection \<open>Build information and settings\<close>

definition trim_end_matches :: "char list \<Rightarrow> string \<Rightarrow> string" where
  "trim_end_matches cs s = rev (dropWhile (\<lambda>c. c \<in> set cs) (rev s))"

definition parse_ver :: "string \<Rightarrow> (string \<times> string option) option" where
  "parse_ver line =
     (case strip_prefix ''[VER:'' line of
        None \<Rightarrow> None
      | Some c \<Rightarrow>
          (let content = trim_end_matches '':]'' c in
           if content = [] then None
           else case split_once CHR '','' content of
             Some (version, _) \<Rightarrow> Some (version, None)
           | None \<Rightarrow>
               (case split_char CHR ''.'' content of
                  p0 # p1 # p2 # _ \<Rightarrow> Some (p0 @ ''.'' @ p1, Some p2)
                | [p0, p1] \<Rightarrow> Some (p0 @ ''.'' @ p1, None)
                | _ \<Rightarrow> Some (content, None))))"

definition parse_version :: "string list \<Rightarrow> string option" where
  "parse_version response_lines = find_map (\<lambda>line. map_option fst (parse_ver line)) response_lines"

fun parse_setting_pairs :: "regex_crate \<Rightarrow> string list \<Rightarrow> (string \<times> string) list" where
  "parse_setting_pairs X [] = []"
| "parse_setting_pairs X (line # ls) =
     (case rx_str X GRBL_SETTING_RE line of
        None \<Rightarrow> parse_setting_pairs X ls
      | Some m \<Rightarrow> (cap m 1, cap m 2) # parse_setting_pairs X ls)"

fun insert_settings :: "(string \<rightharpoonup> f64) \<Rightarrow> (string \<times> string) list \<Rightarrow> (string \<rightharpoonup> f64)" where
  "insert_settings m [] = m"
| "insert_settings m ((key, value) # ps) =
     insert_settings (case parse_f64 value of Some v \<Rightarrow> m(key \<mapsto> v) | None \<Rightarrow> m) ps"

definition parse_grbl_settings :: "regex_crate \<Rightarrow> string list \<Rightarrow> (string \<rightharpoonup> f64)" where
  "parse_grbl_settings X ls = insert_settings Map.empty (parse_setting_pairs X ls)"

definition detect_unit_system_from_settings :: "regex_crate \<Rightarrow> string list \<Rightarrow> UnitSystem option" where
  "detect_unit_system_from_settings X settings_lines =
     (case parse_grbl_settings X settings_lines ''13'' of
        None \<Rightarrow> None
      | Some v \<Rightarrow> if f64_to_i64 v \<noteq> 0 then Some Imperial else Some Metric)"

definition is_report_in_inches :: "regex_crate \<Rightarrow> string list \<Rightarrow> bool" where
  "is_report_in_inches X settings_lines =
     (case parse_grbl_settings X settings_lines ''13'' of
        None \<Rightarrow> False
      | Some v \<Rightarrow> f64_to_i64 v \<noteq> 0)"

definition parse_msg :: "string \<Rightarrow> (string \<times> string) option" where
  "parse_msg line =
     (case strip_prefix ''[MSG:'' line of
        None \<Rightarrow> None
      | Some c \<Rightarrow>
          map_option (\<lambda>(key, val). (trim key, trim val)) (split_once CHR '':'' (trim_end_matches '']'' c)))"

definition machine_msg :: "string \<Rightarrow> string option" where
  "machine_msg line =
     (case parse_msg line of
        None \<Rightarrow> None
      | Some (key, val) \<Rightarrow>
          (let k = to_ascii_lowercase key in if k = ''machine'' \<or> k = ''mechine'' then Some val else None))"

definition unknown_device :: string where "unknown_device = ''Unknown Grbl Device''"

definition extract_device_name :: "string list \<Rightarrow> string" where
  "extract_device_name build_info =
     (case find_map machine_msg build_info of
        Some name \<Rightarrow> name
      | None \<Rightarrow>
          (case find_map (\<lambda>line. Option.bind (parse_ver line) snd) build_info of
             Some name \<Rightarrow> name
           | None \<Rightarrow> unknown_device))"

definition is_grbl_ack :: "string \<Rightarrow> bool" where
  "is_grbl_ack line =
     (let stripped = dropWhile (\<lambda>c. c = NUL) (trim_front [[CHR 0xEF, CHR 0xBF, CHR 0xBD]] line)
      in stripped = ''ok'' \<or> starts_with stripped ''error:'')"

fun extract_grbl_banner :: "string list \<Rightarrow> string option" where
  "extract_grbl_banner [] = None"
| "extract_grbl_banner (raw # ls) =
     (let line = trim raw in
      if line = [] \<or> is_grbl_ack line then extract_grbl_banner ls
      else if starts_with line ''<'' \<and> ends_with line ''>'' then extract_grbl_banner ls
      else Some (take_chars 80 line))"

definition extract_device_name_from_output :: "bytes \<Rightarrow> string option" where
  "extract_device_name_from_output data =
     (let ls = lines (utf8_lossy data); name = extract_device_name ls in
      if name \<noteq> unknown_device then Some name else extract_grbl_banner ls)"

text \<open>Byte-wise lexicographic order, as Rust compares strings.\<close>

fun str_le :: "string \<Rightarrow> string \<Rightarrow> bool" where
  "str_le [] t = True"
| "str_le (c # s) [] = False"
| "str_le (c # s) (d # t) = (byte c < byte d \<or> (c = d \<and> str_le s t))"

definition F64_EPSILON :: f64 where "F64_EPSILON = round64 False 1 (2 ^ 52)"

definition version_supports_single_axis_homing :: "f64 \<Rightarrow> string \<Rightarrow> bool" where
  "version_supports_single_axis_homing version_num version_letter =
     (let v11 = f64_lit 11 1 in
      if flt v11 version_num then True
      else if flt (fabs (fsub version_num v11)) F64_EPSILON
      then version_letter \<noteq> [] \<and> str_le ''g'' (to_ascii_lowercase version_letter)
      else False)"

definition parse_opt_info :: "regex_crate \<Rightarrow> string \<Rightarrow> int option" where
  "parse_opt_info X line = Option.bind (rx_str X GRBL_OPT_RE line) (\<lambda>m. parse_i64 (cap m 3))"

definition parse_opt_flags :: "regex_crate \<Rightarrow> string \<Rightarrow> string option" where
  "parse_opt_flags X line = map_option (\<lambda>m. cap m 1) (rx_str X GRBL_OPT_RE line)"

definition parse_grbl_parser_state :: "regex_crate \<Rightarrow> string list \<Rightarrow> string option" where
  "parse_grbl_parser_state X response_lines =
     find_map (\<lambda>line. map_option (\<lambda>m. cap m 1) (rx_str X GRBL_PARSER_STATE_RE line)) response_lines"

definition parse_wcs_line :: "regex_crate \<Rightarrow> string \<Rightarrow> (string \<times> f64 \<times> f64 \<times> f64) option" where
  "parse_wcs_line X line =
     (case rx_str X WCS_RE line of
        None \<Rightarrow> None
      | Some m \<Rightarrow>
          (case (parse_f64 (cap m 2), parse_f64 (cap m 3),
                 case group_of m 4 of Some t \<Rightarrow> parse_f64 t | None \<Rightarrow> Some f64_zero) of
             (Some x, Some y, Some z) \<Rightarrow> Some (cap m 1, x, y, z)
           | _ \<Rightarrow> None))"

definition parse_probe_line :: "regex_crate \<Rightarrow> string \<Rightarrow> ((f64 \<times> f64 \<times> f64) \<times> bool) option" where
  "parse_probe_line X line =
     (case rx_str X PRB_RE line of
        None \<Rightarrow> None
      | Some m \<Rightarrow>
          (case (parse_f64 (cap m 1), parse_f64 (cap m 2), parse_f64 (cap m 3)) of
             (Some x, Some y, Some z) \<Rightarrow> Some ((x, y, z), cap m 4 = ''1'')
           | _ \<Rightarrow> None))"

subsection \<open>Status reports\<close>

definition parse_status_part :: "string \<Rightarrow> DeviceStatus \<times> string option" where
  "parse_status_part status_part =
     (let (status_name, sub) = (case split_once CHR '':'' status_part of
                                  Some (a, b) \<Rightarrow> (a, Some b) | None \<Rightarrow> (status_part, None));
          st = from_name status_name
      in (st, if st = Alarm then sub else None))"

text \<open>The value of one coordinate group: a missing group counts as zero.\<close>

definition pos_group :: "rx_match \<Rightarrow> nat \<Rightarrow> f64 option" where
  "pos_group m k = (case group_of m k of Some t \<Rightarrow> parse_f64 t | None \<Rightarrow> Some f64_zero)"

definition parse_position_attribute :: "regex_crate \<Rightarrow> string \<Rightarrow> string \<Rightarrow> Pos option" where
  "parse_position_attribute X attrib pos_type =
     (if \<not> starts_with attrib (pos_type @ '':'') then None
      else case rx_str X POS_RE attrib of
        None \<Rightarrow> None
      | Some m \<Rightarrow>
          (case (pos_group m 1, pos_group m 2, pos_group m 3, pos_group m 4) of
             (Some a, Some b, Some c, Some d) \<Rightarrow>
               Some (if group_of m 4 = None then [Some a, Some b, Some c]
                     else [Some a, Some b, Some c, Some d])
           | _ \<Rightarrow> None))"

definition parse_feed_rate :: "regex_crate \<Rightarrow> string \<Rightarrow> int option" where
  "parse_feed_rate X attrib = Option.bind (rx_str X FS_RE attrib) (\<lambda>m. parse_i64 (cap m 1))"

definition parse_buffer_state :: "regex_crate \<Rightarrow> string \<Rightarrow> (int \<times> int) option" where
  "parse_buffer_state X attrib =
     (case rx_str X BF_RE attrib of
        None \<Rightarrow> None
      | Some m \<Rightarrow>
          (case (parse_i64 (cap m 1), parse_i64 (cap m 2)) of
             (Some available, Some rx_available) \<Rightarrow> Some (available, rx_available)
           | _ \<Rightarrow> None))"

definition pos_from_inches :: "Pos \<Rightarrow> Pos" where
  "pos_from_inches pos = map (map_option inches_to_mm) pos"

definition pad_pos :: "Pos \<Rightarrow> nat \<Rightarrow> f64 \<Rightarrow> Pos" where
  "pad_pos pos n dflt = pos @ replicate (n - length pos) (Some dflt)"

definition all_known :: "Pos \<Rightarrow> bool" where
  "all_known pos = list_all (\<lambda>v. v \<noteq> None) pos"

text \<open>\<^verbatim>\<open>(0..n).map(|i| Some(op(a[i].unwrap(), b[i].unwrap())))\<close> on known positions.\<close>

definition pos_op :: "(f64 \<Rightarrow> f64 \<Rightarrow> f64) \<Rightarrow> Pos \<Rightarrow> Pos \<Rightarrow> Pos" where
  "pos_op f a b = map2 (\<lambda>x y. Some (f (the x) (the y))) a b"

definition recalculate_positions ::
  "Pos \<Rightarrow> Pos \<Rightarrow> Pos \<Rightarrow> bool \<Rightarrow> bool \<Rightarrow> bool \<Rightarrow> Pos \<times> Pos \<times> Pos" where
  "recalculate_positions mp wp wc mpos_found wpos_found wco_found =
     (let n = max (max (max (length mp) (length wp)) (length wc)) 3;
          mp = pad_pos mp n f64_zero;
          wp = pad_pos wp n f64_zero;
          wc0 = pad_pos wc n f64_zero;
          wc = (if mpos_found \<and> wpos_found \<and> \<not> wco_found \<and> all_known mp \<and> all_known wp
                then pos_op fsub mp wp else wc0)
      in if mpos_found \<and> all_known mp \<and> all_known wc then (mp, pos_op fsub mp wc, wc)
         else if wpos_found \<and> all_known wp \<and> all_known wc then (pos_op fadd wp wc, wp, wc)
         else (mp, wp, wc))"

text \<open>What the attribute loop of \<^verbatim>\<open>parse_state\<close> carries: the state and three flags.\<close>

record report_acc =
  ra_state :: DeviceState
  ra_mpos :: bool
  ra_wpos :: bool
  ra_wco :: bool

definition first_known :: "Pos \<Rightarrow> bool" where
  "first_known p = (case p of [] \<Rightarrow> False | v # _ \<Rightarrow> v \<noteq> None)"

definition apply_attrib :: "regex_crate \<Rightarrow> report_acc \<Rightarrow> string \<Rightarrow> report_acc" where
  "apply_attrib X acc attrib =
     (case parse_position_attribute X attrib ''MPos'' of
        Some parsed \<Rightarrow>
          acc\<lparr>ra_mpos := first_known parsed, ra_state := (ra_state acc)\<lparr>machine_pos := parsed\<rparr>\<rparr>
      | None \<Rightarrow>
     (case parse_position_attribute X attrib ''WPos'' of
        Some parsed \<Rightarrow>
          acc\<lparr>ra_wpos := first_known parsed, ra_state := (ra_state acc)\<lparr>work_pos := parsed\<rparr>\<rparr>
      | None \<Rightarrow>
     (case parse_position_attribute X attrib ''WCO'' of
        Some parsed \<Rightarrow> acc\<lparr>ra_wco := True, ra_state := (ra_state acc)\<lparr>wco := parsed\<rparr>\<rparr>
      | None \<Rightarrow>
          if starts_with attrib ''FS:'' then
            (case parse_feed_rate X attrib of
               Some r \<Rightarrow> acc\<lparr>ra_state := (ra_state acc)\<lparr>feed_rate := Some r\<rparr>\<rparr>
             | None \<Rightarrow> acc)
          else if starts_with attrib ''Bf:'' then
            (case parse_buffer_state X attrib of
               Some (a, rx) \<Rightarrow>
                 acc\<lparr>ra_state := (ra_state acc)\<lparr>buffer_available := Some a, buffer_rx_available := Some rx\<rparr>\<rparr>
             | None \<Rightarrow> acc)
          else acc)))"

definition apply_status_part :: "DeviceState \<Rightarrow> string \<Rightarrow> DeviceState" where
  "apply_status_part st status_part =
     (if status_part = [] then st
      else case parse_status_part status_part of (s, error_code) \<Rightarrow>
        (case error_code of
           None \<Rightarrow> st\<lparr>status := s\<rparr>
         | Some code \<Rightarrow>
             st\<lparr>status := s,
                dev_error := Some (if s = Alarm then alarm_code_to_device_error code
                                   else error_code_to_device_error code)\<rparr>))"

definition convert_inches :: "report_acc \<Rightarrow> DeviceState" where
  "convert_inches acc =
     (let st = ra_state acc;
          st = (if ra_mpos acc then st\<lparr>machine_pos := pos_from_inches (machine_pos st)\<rparr> else st);
          st = (if ra_wpos acc then st\<lparr>work_pos := pos_from_inches (work_pos st)\<rparr> else st)
      in if ra_wco acc then st\<lparr>wco := pos_from_inches (wco st)\<rparr> else st)"

definition report_inner :: "string \<Rightarrow> string option" where
  "report_inner s = Option.bind (strip_prefix ''<'' s) (strip_suffix ''>'')"

definition parse_state :: "regex_crate \<Rightarrow> string \<Rightarrow> DeviceState \<Rightarrow> bool \<Rightarrow> DeviceState" where
  "parse_state X state_str dflt report_in_inches =
     (case report_inner state_str of
        None \<Rightarrow> dflt
      | Some inner \<Rightarrow>
          (let parts = filter (\<lambda>p. p \<noteq> []) (split_char CHR ''|'' inner);
               status_part = (case parts of [] \<Rightarrow> [] | p # _ \<Rightarrow> p);
               acc = foldl (apply_attrib X)
                       \<lparr>ra_state = apply_status_part dflt status_part,
                        ra_mpos = False, ra_wpos = False, ra_wco = False\<rparr> (drop 1 parts);
               st = (if report_in_inches then convert_inches acc else ra_state acc);
               (mp, wp, wc) = recalculate_positions (machine_pos st) (work_pos st) (wco st)
                                (ra_mpos acc) (ra_wpos acc) (ra_wco acc)
           in st\<lparr>machine_pos := mp, work_pos := wp, wco := wc\<rparr>))"

definition get_error :: "string \<Rightarrow> DeviceError" where
  "get_error error_code = error_code_to_device_error error_code"

end
