(* ===== verification/Flow.thy ===== *)
theory Flow
  imports Regex
begin

text \<open>
  Character-counting flow control, \<^verbatim>\<open>src/grbl/flow.rs\<close>. \<open>FlowInner\<close> is the state behind
  the mutex, \<open>FlowControl\<close> adds the two \<^verbatim>\<open>Notify\<close> objects. A critical section of the code is
  one function of the model: it takes the state and returns it updated. A \<^verbatim>\<open>Notify\<close> is the
  number of times it was signalled: a waiter that registered at count \<open>n\<close> is woken once the count
  exceeds \<open>n\<close>, which is what \<^verbatim>\<open>notify_waiters\<close> followed by \<^verbatim>\<open>notify_one\<close> promises.
  \<open>usize\<close> counters are natural numbers: what they count are bytes of strings held in memory.
\<close>

section \<open>State\<close>

record PendingCommand =
  pc_length :: nat
  pc_op_index :: "int option"
  pc_command :: string

datatype GrblResponseType = R_Ok | R_Error | R_Line

record GrblResponse =
  rtype :: GrblResponseType
  r_text :: string
  r_pending :: "PendingCommand option"

record FlowInner =
  rx_count :: nat
  rx_size :: "nat option"
  status_buffer :: bytes
  pending :: "PendingCommand list"
  acked_since_flush :: bool
  drained_since_flush :: bool

record FlowControl = FlowInner +
  space_available :: nat
  pending_drained :: nat

definition DEFAULT_GRBL_RX_BUFFER_SIZE :: nat where
  "DEFAULT_GRBL_RX_BUFFER_SIZE = 127"

definition FlowControl_new :: FlowControl where
  "FlowControl_new = \<lparr>rx_count = 0, rx_size = None, status_buffer = [], pending = [],
     acked_since_flush = False, drained_since_flush = False,
     space_available = 0, pending_drained = 0\<rparr>"

definition rx_buffer_size :: "FlowControl \<Rightarrow> nat" where
  "rx_buffer_size fc = (case rx_size fc of None \<Rightarrow> DEFAULT_GRBL_RX_BUFFER_SIZE | Some n \<Rightarrow> n)"

definition buffer_count :: "FlowControl \<Rightarrow> nat" where
  "buffer_count fc = rx_count fc"

definition needs_space :: "FlowControl \<Rightarrow> nat \<Rightarrow> bool" where
  "needs_space fc needed = (rx_count fc + needed > rx_buffer_size fc)"

definition set_rx_buffer_size :: "nat \<Rightarrow> FlowControl \<Rightarrow> FlowControl" where
  "set_rx_buffer_size sz fc = (if sz > 0 then fc\<lparr>rx_size := Some sz\<rparr> else fc)"

section \<open>Acknowledgements\<close>

definition ack_ok_locked :: "FlowControl \<Rightarrow> PendingCommand option \<times> FlowControl" where
  "ack_ok_locked fc =
     (case pending fc of
        [] \<Rightarrow> (None, fc)
      | p # ps \<Rightarrow> (Some p, fc\<lparr>pending := ps, rx_count := rx_count fc - pc_length p\<rparr>))"

text \<open>
  The three lines that follow every acknowledgement in the source: the flags for
  \<open>flush_notifications\<close>.
\<close>

definition mark_acked :: "FlowControl \<Rightarrow> FlowControl" where
  "mark_acked fc = fc\<lparr>acked_since_flush := True,
     drained_since_flush := (drained_since_flush fc \<or> pending fc = [])\<rparr>"

definition ok_response :: "FlowControl \<Rightarrow> GrblResponse \<times> FlowControl" where
  "ok_response fc =
     (let (p, fc') = ack_ok_locked fc
      in (\<lparr>rtype = R_Ok, r_text = ''ok'', r_pending = p\<rparr>, mark_acked fc'))"

definition error_response :: "string \<Rightarrow> FlowControl \<Rightarrow> GrblResponse \<times> FlowControl" where
  "error_response tx fc =
     (let (_, fc') = ack_ok_locked fc
      in (\<lparr>rtype = R_Error, r_text = tx, r_pending = None\<rparr>, mark_acked fc'))"

lemma status_buffer_responses [simp]:
  "status_buffer (snd (ok_response fc)) = status_buffer fc"
  "status_buffer (snd (error_response tx fc)) = status_buffer fc"
  by (simp_all add: ok_response_def error_response_def ack_ok_locked_def mark_acked_def
      split: list.splits)

section \<open>Extraction of acknowledgements from the raw bytes\<close>

text \<open>\<^verbatim>\<open>while let Some(m) = OK_ACK_RE.find(..)\<close>\<close>

function extract_ok_loop :: "regex_crate \<Rightarrow> FlowControl \<Rightarrow> GrblResponse list \<Rightarrow> GrblResponse list \<times> FlowControl" where
  "extract_ok_loop X fc rs =
     (case rx_bytes X OK_ACK_RE (status_buffer fc) of
        None \<Rightarrow> (rs, fc)
      | Some m \<Rightarrow>
          if m_start m < m_end m \<and> m_end m \<le> length (status_buffer fc) then
            let (r, fc') = ok_response
                  (fc\<lparr>status_buffer := drain_range (m_start m) (m_end m) (status_buffer fc)\<rparr>)
            in extract_ok_loop X fc' (rs @ [r])
          else (rs, fc))"
  by pat_completeness auto
termination
proof (relation "measure (\<lambda>(X, fc, rs). length (status_buffer fc))", simp)
  fix X :: regex_crate and fc rs m x r fc'
  assume m: "m_start m < m_end m \<and> m_end m \<le> length (status_buffer fc)"
    and x: "x = ok_response (fc\<lparr>status_buffer := drain_range (m_start m) (m_end m) (status_buffer fc)\<rparr>)"
    and p: "(r, fc') = x"
  from x p have "status_buffer fc' = drain_range (m_start m) (m_end m) (status_buffer fc)"
    using status_buffer_responses(1)
      [of "fc\<lparr>status_buffer := drain_range (m_start m) (m_end m) (status_buffer fc)\<rparr>"]
    by (metis FlowInner.select_convs(3) FlowInner.surjective FlowInner.update_convs(3) snd_conv)
  with m show "((X, fc', rs @ [r]), X, fc, rs) \<in> measure (\<lambda>(X, fc, rs). length (status_buffer fc))"
    by (simp add: drain_range_shorter)
qed

declare extract_ok_loop.simps [simp del]

text \<open>
  \<open>find_null_corrupted_ok\<close>: the scan for \<^verbatim>\<open>o\0+k\r*\n\<close>. \<open>null_ok_at\<close> is one round of the outer
  loop (the number of bytes the pattern takes from its \<^verbatim>\<open>o\<close> on), the recursion is the loop
  over \<open>i\<close>.
\<close>

definition null_ok_at :: "bytes \<Rightarrow> nat option" where
  "null_ok_at s =
     (case s of
        [] \<Rightarrow> None
      | c # t \<Rightarrow>
          if c \<noteq> CHR ''o'' then None
          else let nuls = takeWhile (\<lambda>b. b = NUL) t; u = dropWhile (\<lambda>b. b = NUL) t
               in (case u of
                     [] \<Rightarrow> None
                   | k # v \<Rightarrow>
                       if k = CHR ''k'' \<and> nuls \<noteq> [] then
                         let crs = takeWhile (\<lambda>b. b = CR) v
                         in (case dropWhile (\<lambda>b. b = CR) v of
                               [] \<Rightarrow> None
                             | l # _ \<Rightarrow> if l = LF then Some (length nuls + length crs + 3) else None)
                       else None))"

fun find_null_corrupted_ok_from :: "nat \<Rightarrow> bytes \<Rightarrow> (nat \<times> nat) option" where
  "find_null_corrupted_ok_from i [] = None"
| "find_null_corrupted_ok_from i (c # t) =
     (case null_ok_at (c # t) of
        Some n \<Rightarrow> Some (i, i + n)
      | None \<Rightarrow> find_null_corrupted_ok_from (Suc i) t)"

definition find_null_corrupted_ok :: "bytes \<Rightarrow> (nat \<times> nat) option" where
  "find_null_corrupted_ok buf = find_null_corrupted_ok_from 0 buf"

lemma null_ok_at_Some:
  "null_ok_at s = Some n \<longleftrightarrow>
     (\<exists>a b t. a > 0 \<and> s = CHR ''o'' # replicate a NUL @ CHR ''k'' # replicate b CR @ LF # t \<and> n = a + b + 3)"
  (is "?L \<longleftrightarrow> ?R")
proof
  assume ?L
  then obtain t v w where s: "s = CHR ''o'' # t" "dropWhile (\<lambda>b. b = NUL) t = CHR ''k'' # v"
      "takeWhile (\<lambda>b. b = NUL) t \<noteq> []" "dropWhile (\<lambda>b. b = CR) v = LF # w"
      "n = length (takeWhile (\<lambda>b. b = NUL) t) + length (takeWhile (\<lambda>b. b = CR) v) + 3"
    by (auto simp: null_ok_at_def Let_def split: list.splits if_splits)
  have "t = takeWhile (\<lambda>b. b = NUL) t @ CHR ''k'' # v"
    using takeWhile_dropWhile_id [of "\<lambda>b. b = NUL" t] s(2) by simp
  moreover have "takeWhile (\<lambda>b. b = NUL) t = replicate (length (takeWhile (\<lambda>b. b = NUL) t)) NUL"
    by (induction t) simp_all
  moreover have "v = takeWhile (\<lambda>b. b = CR) v @ LF # w"
    using takeWhile_dropWhile_id [of "\<lambda>b. b = CR" v] s(4) by simp
  ultimately have "s = CHR ''o'' # replicate (length (takeWhile (\<lambda>b. b = NUL) t)) NUL @ CHR ''k'' #
      replicate (length (takeWhile (\<lambda>b. b = CR) v)) CR @ LF # w"
    using s(1) takeWhile_replicate_CR [of v] by simp
  with s(3,5) show ?R by blast
next
  assume ?R
  then obtain a b t where s: "a > 0" "n = a + b + 3"
      "s = CHR ''o'' # replicate a NUL @ CHR ''k'' # replicate b CR @ LF # t" by blast
  have "takeWhile (\<lambda>c. c = NUL) (replicate a NUL @ CHR ''k'' # u) = replicate a NUL"
       "dropWhile (\<lambda>c. c = NUL) (replicate a NUL @ CHR ''k'' # u) = CHR ''k'' # u" for u
    by (induction a) simp_all
  moreover have "takeWhile (\<lambda>c. c = CR) (replicate b CR @ LF # t) = replicate b CR"
       "dropWhile (\<lambda>c. c = CR) (replicate b CR @ LF # t) = LF # t"
    by (induction b) simp_all
  ultimately show ?L using s by (simp add: null_ok_at_def)
qed

lemma find_null_from_Some:
  "find_null_corrupted_ok_from i s = Some (a, b) \<Longrightarrow>
     \<exists>u v n. s = u @ v \<and> a = i + length u \<and> null_ok_at v = Some n \<and> b = a + n \<and> n \<le> length v"
proof (induction s arbitrary: i)
  case Nil
  then show ?case by simp
next
  case (Cons c s)
  show ?case
  proof (cases "null_ok_at (c # s)")
    case (Some n)
    then have "n \<le> length (c # s)" by (auto simp: null_ok_at_Some)
    with Cons.prems Some show ?thesis
      by (intro exI [of _ "[]"] exI [of _ "c # s"] exI [of _ n]) simp
  next
    case None
    with Cons.prems obtain u v n where "s = u @ v" "a = Suc i + length u" "null_ok_at v = Some n"
        "b = a + n" "n \<le> length v" using Cons.IH [of "Suc i"] by auto
    then show ?thesis by (intro exI [of _ "c # u"] exI [of _ v] exI [of _ n]) simp
  qed
qed

lemma find_null_bounds:
  assumes "find_null_corrupted_ok s = Some (a, b)"
  shows "a < b" "b \<le> length s"
  using find_null_from_Some [of 0 s a b] assms
  by (auto simp: find_null_corrupted_ok_def null_ok_at_Some)

function extract_null_loop :: "FlowControl \<Rightarrow> GrblResponse list \<Rightarrow> GrblResponse list \<times> FlowControl" where
  "extract_null_loop fc rs =
     (case find_null_corrupted_ok (status_buffer fc) of
        None \<Rightarrow> (rs, fc)
      | Some (i, j) \<Rightarrow>
          let (r, fc') = ok_response (fc\<lparr>status_buffer := drain_range i j (status_buffer fc)\<rparr>)
          in extract_null_loop fc' (rs @ [r]))"
  by pat_completeness auto
termination
proof (relation "measure (\<lambda>(fc, rs). length (status_buffer fc))", simp)
  fix fc rs q i j x r fc'
  assume "find_null_corrupted_ok (status_buffer fc) = Some q" "(i, j) = q"
    and x: "x = ok_response (fc\<lparr>status_buffer := drain_range i j (status_buffer fc)\<rparr>)" "(r, fc') = x"
  then have "i < j" "j \<le> length (status_buffer fc)" by (auto dest: find_null_bounds)
  moreover from x have "status_buffer fc' = drain_range i j (status_buffer fc)"
    using status_buffer_responses(1) [of "fc\<lparr>status_buffer := drain_range i j (status_buffer fc)\<rparr>"]
    by (metis FlowInner.select_convs(3) FlowInner.surjective FlowInner.update_convs(3) snd_conv)
  ultimately show "((fc', rs @ [r]), fc, rs) \<in> measure (\<lambda>(fc, rs). length (status_buffer fc))"
    by (simp add: drain_range_shorter)
qed

declare extract_null_loop.simps [simp del]

text \<open>\<open>find_subslice\<close>: the first window of the haystack that equals the needle.\<close>

definition find_subslice :: "bytes \<Rightarrow> bytes \<Rightarrow> nat option" where
  "find_subslice haystack needle =
     (if needle = [] \<or> length haystack < length needle then None else find_window haystack needle)"

definition ERROR_MARKER :: bytes where
  "ERROR_MARKER = ''error:''"

lemma find_subslice_bound: "find_subslice h n = Some i \<Longrightarrow> i < length h"
  by (cases n) (auto simp: find_subslice_def dest: find_window_Some split: if_splits)

function extract_error_loop :: "nat \<Rightarrow> FlowControl \<Rightarrow> GrblResponse list \<Rightarrow> GrblResponse list \<times> FlowControl" where
  "extract_error_loop search_from fc rs =
     (case find_subslice (drop search_from (status_buffer fc)) ERROR_MARKER of
        None \<Rightarrow> (rs, fc)
      | Some rel \<Rightarrow>
          let start = search_from + rel
          in (case position (\<lambda>b. b = LF) (drop start (status_buffer fc)) of
                None \<Rightarrow> (rs, fc)
              | Some end_rel \<Rightarrow>
                  let error_bytes = take (end_rel + 1) (drop start (status_buffer fc));
                      fc1 = fc\<lparr>status_buffer := drain_range start (start + end_rel + 1) (status_buffer fc)\<rparr>
                  in if \<not> valid_utf8 error_bytes then extract_error_loop search_from fc1 rs
                     else let (r, fc2) = error_response (trim error_bytes) fc1
                          in extract_error_loop start fc2 (rs @ [r])))"
  by pat_completeness auto
termination
proof (relation "measure (\<lambda>(k, fc, rs). length (status_buffer fc))", simp)
  fix k rel start end_rel eb and rs :: "GrblResponse list" and fc fc1 :: FlowControl
  assume d: "start = k + rel" "position (\<lambda>b. b = LF) (drop start (status_buffer fc)) = Some end_rel"
    and fc1: "fc1 = fc\<lparr>status_buffer := drain_range start (start + end_rel + 1) (status_buffer fc)\<rparr>"
  then have "start + end_rel < length (status_buffer fc)" by (auto dest: position_less)
  with fc1 have less: "length (status_buffer fc1) < length (status_buffer fc)"
    by (simp add: drain_range_shorter)
  then show "((k, fc1, rs), k, fc, rs) \<in> measure (\<lambda>(k, fc, rs). length (status_buffer fc))" by simp
  fix x r fc2
  assume "x = error_response (trim eb) fc1" "(r, fc2) = x"
  then have "status_buffer fc2 = status_buffer fc1"
    using status_buffer_responses(2) [of "trim eb" fc1] by (metis snd_conv)
  with less show "((start, fc2, rs @ [r]), k, fc, rs) \<in> measure (\<lambda>(k, fc, rs). length (status_buffer fc))"
    by simp
qed

declare extract_error_loop.simps [simp del]

definition extract_acks_from_buffer :: "regex_crate \<Rightarrow> FlowControl \<Rightarrow> GrblResponse list \<Rightarrow> GrblResponse list \<times> FlowControl" where
  "extract_acks_from_buffer X fc rs =
     (let (rs1, fc1) = extract_ok_loop X fc rs;
          (rs2, fc2) = extract_null_loop fc1 rs1
      in extract_error_loop 0 fc2 rs2)"

section \<open>Line parsing\<close>

text \<open>The body of \<^verbatim>\<open>for line in message.trim().lines()\<close>.\<close>

definition parse_line :: "string \<Rightarrow> FlowControl \<Rightarrow> GrblResponse list \<times> FlowControl" where
  "parse_line line fc =
     (if line = [] then ([], fc)
      else if line = ''ok'' then (let (r, fc') = ok_response fc in ([r], fc'))
      else if starts_with line ''error:'' then (let (r, fc') = error_response line fc in ([r], fc'))
      else ([\<lparr>rtype = R_Line, r_text = line, r_pending = None\<rparr>], fc))"

fun parse_lines :: "string list \<Rightarrow> FlowControl \<Rightarrow> GrblResponse list \<times> FlowControl" where
  "parse_lines [] fc = ([], fc)"
| "parse_lines (l # ls) fc =
     (let (rs, fc1) = parse_line l fc; (rs', fc2) = parse_lines ls fc1 in (rs @ rs', fc2))"

lemma status_buffer_parse_line [simp]: "status_buffer (snd (parse_line l fc)) = status_buffer fc"
  by (simp add: parse_line_def case_prod_unfold Let_def)

lemma status_buffer_parse_lines [simp]: "status_buffer (snd (parse_lines ls fc)) = status_buffer fc"
proof (induction ls arbitrary: fc)
  case Nil
  show ?case by simp
next
  case (Cons l ls)
  then show ?case using status_buffer_parse_line [of l fc] by (simp add: case_prod_unfold Let_def)
qed

function line_loop :: "FlowControl \<Rightarrow> GrblResponse list \<Rightarrow> GrblResponse list \<times> FlowControl" where
  "line_loop fc rs =
     (case position (\<lambda>b. b = LF) (status_buffer fc) of
        None \<Rightarrow> (rs, fc)
      | Some nl \<Rightarrow>
          let message_bytes = take (nl + 1) (status_buffer fc);
              fc1 = fc\<lparr>status_buffer := drop (nl + 1) (status_buffer fc)\<rparr>
          in if \<not> valid_utf8 message_bytes then line_loop fc1 rs
             else let (rs', fc2) = parse_lines (lines (trim message_bytes)) fc1
                  in line_loop fc2 (rs @ rs'))"
  by pat_completeness auto
termination
proof (relation "measure (\<lambda>(fc, rs). length (status_buffer fc))", simp)
  fix nl mb and rs :: "GrblResponse list" and fc fc1 :: FlowControl
  assume d: "position (\<lambda>b. b = LF) (status_buffer fc) = Some nl"
    and fc1: "fc1 = fc\<lparr>status_buffer := drop (nl + 1) (status_buffer fc)\<rparr>"
  then have less: "length (status_buffer fc1) < length (status_buffer fc)"
    by (auto dest: position_less)
  then show "((fc1, rs), fc, rs) \<in> measure (\<lambda>(fc, rs). length (status_buffer fc))" by simp
  fix x rs' fc2
  assume "x = parse_lines (lines (trim mb)) fc1" "(rs', fc2) = x"
  then have "status_buffer fc2 = status_buffer fc1"
    using status_buffer_parse_lines [of "lines (trim mb)" fc1] by (metis snd_conv)
  with less show "((fc2, rs @ rs'), fc, rs) \<in> measure (\<lambda>(fc, rs). length (status_buffer fc))"
    by simp
qed

declare line_loop.simps [simp del]

definition parse_incoming :: "regex_crate \<Rightarrow> bytes \<Rightarrow> FlowControl \<Rightarrow> GrblResponse list \<times> FlowControl" where
  "parse_incoming X data fc =
     (let fc0 = fc\<lparr>status_buffer := status_buffer fc @ data\<rparr>;
          (rs, fc1) = extract_acks_from_buffer X fc0 []
      in line_loop fc1 rs)"

section \<open>Notification, tracking and reset\<close>

definition notify_drained :: "FlowControl \<Rightarrow> FlowControl" where
  "notify_drained fc = fc\<lparr>pending_drained := Suc (pending_drained fc)\<rparr>"

definition signal_space_available :: "FlowControl \<Rightarrow> FlowControl" where
  "signal_space_available fc = fc\<lparr>space_available := Suc (space_available fc)\<rparr>"

definition flush_notifications :: "FlowControl \<Rightarrow> FlowControl" where
  "flush_notifications fc =
     (let fc0 = fc\<lparr>acked_since_flush := False, drained_since_flush := False\<rparr>;
          fc1 = (if acked_since_flush fc then signal_space_available fc0 else fc0)
      in if drained_since_flush fc then notify_drained fc1 else fc1)"

definition track_command :: "nat \<Rightarrow> int option \<Rightarrow> string \<Rightarrow> FlowControl \<Rightarrow> FlowControl" where
  "track_command len op cmd fc =
     fc\<lparr>pending := pending fc @ [\<lparr>pc_length = len, pc_op_index = op, pc_command = cmd\<rparr>],
        rx_count := rx_count fc + len\<rparr>"

definition reset_flow_control :: "FlowControl \<Rightarrow> FlowControl" where
  "reset_flow_control fc =
     signal_space_available (notify_drained (fc\<lparr>rx_count := 0, pending := []\<rparr>))"

definition reset :: "FlowControl \<Rightarrow> FlowControl" where
  "reset fc = (reset_flow_control fc)\<lparr>status_buffer := []\<rparr>"

section \<open>The byte accounting\<close>

text \<open>
  The interface of a queue of outstanding commands with a byte counter, and what follows from it for
  every sequence of operations. The client sends a command by \<open>enq\<close>, an acknowledgement from the
  device is \<open>ack\<close>.
\<close>

definition bytes_of :: "PendingCommand list \<Rightarrow> nat" where
  "bytes_of ps = sum_list (map pc_length ps)"

lemma bytes_of_simps [simp]:
  "bytes_of [] = 0" "bytes_of (p # ps) = pc_length p + bytes_of ps"
  "bytes_of (ps @ qs) = bytes_of ps + bytes_of qs"
  by (simp_all add: bytes_of_def)

lemma bytes_of_drop_le: "bytes_of (drop n ps) \<le> bytes_of ps"
  unfolding bytes_of_def drop_map [symmetric] by (rule sum_list_drop_le)

datatype acct_op = Enq PendingCommand | Ack

locale ack_queue =
  fixes queue :: "'s \<Rightarrow> PendingCommand list"
    and counter :: "'s \<Rightarrow> nat"
    and enq :: "PendingCommand \<Rightarrow> 's \<Rightarrow> 's"
    and ack :: "'s \<Rightarrow> PendingCommand option \<times> 's"
  assumes queue_enq: "queue (enq p s) = queue s @ [p]"
    and counter_enq: "counter (enq p s) = counter s + pc_length p"
    and queue_ack: "queue (snd (ack s)) = tl (queue s)"
    and value_ack: "fst (ack s) = (case queue s of [] \<Rightarrow> None | p # _ \<Rightarrow> Some p)"
    and counter_ack: "counter (snd (ack s)) =
      (case queue s of [] \<Rightarrow> counter s | p # _ \<Rightarrow> counter s - pc_length p)"
begin

definition balanced :: "'s \<Rightarrow> bool" where
  "balanced s \<longleftrightarrow> counter s = bytes_of (queue s)"

lemma balanced_enq: "balanced s \<Longrightarrow> balanced (enq p s)"
  by (simp add: balanced_def queue_enq counter_enq)

lemma balanced_ack: "balanced s \<Longrightarrow> balanced (snd (ack s))"
  by (cases "queue s") (simp_all add: balanced_def queue_ack counter_ack)

text \<open>One operation and a run of them: the acknowledged commands and the state.\<close>

fun acct_step :: "acct_op \<Rightarrow> PendingCommand list \<times> 's \<Rightarrow> PendingCommand list \<times> 's" where
  "acct_step (Enq p) (out, s) = (out, enq p s)"
| "acct_step Ack (out, s) =
     (case ack s of (None, s') \<Rightarrow> (out, s') | (Some p, s') \<Rightarrow> (out @ [p], s'))"

definition acct_run :: "acct_op list \<Rightarrow> 's \<Rightarrow> PendingCommand list \<times> 's" where
  "acct_run ops s = fold acct_step ops ([], s)"

lemma acct_step_balanced: "balanced s \<Longrightarrow> balanced (snd (acct_step op (out, s)))"
  using balanced_enq [of s] balanced_ack [of s]
  by (cases op) (auto split: prod.splits option.splits)

lemma acct_step_fifo:
  "fst (acct_step op (out, s)) @ queue (snd (acct_step op (out, s))) =
     out @ queue s @ (case op of Enq p \<Rightarrow> [p] | Ack \<Rightarrow> [])"
  using queue_ack [of s] value_ack [of s]
  by (cases op; cases "queue s") (auto simp: queue_enq split: prod.splits option.splits)

lemma fold_acct_step_balanced: "balanced (snd st) \<Longrightarrow> balanced (snd (fold acct_step ops st))"
proof (induction ops arbitrary: st)
  case Nil
  then show ?case by simp
next
  case (Cons op ops)
  then show ?case using acct_step_balanced [of "snd st" op "fst st"] by simp
qed

lemma fold_acct_step_fifo:
  "fst (fold acct_step ops st) @ queue (snd (fold acct_step ops st)) =
     fst st @ queue (snd st) @ concat (map (\<lambda>op. case op of Enq p \<Rightarrow> [p] | Ack \<Rightarrow> []) ops)"
proof (induction ops arbitrary: st)
  case Nil
  show ?case by simp
next
  case (Cons op ops)
  then show ?case using acct_step_fifo [of op "fst st" "snd st"] by simp
qed

text \<open>
  The counter always equals the bytes of the commands not yet acknowledged, and commands are
  acknowledged in the order they were sent: nothing is lost, nothing is acknowledged twice.
\<close>

lemma acct_run_balanced: "balanced s \<Longrightarrow> balanced (snd (acct_run ops s))"
  by (simp add: acct_run_def fold_acct_step_balanced)

lemma acct_run_fifo:
  "fst (acct_run ops s) @ queue (snd (acct_run ops s)) =
     queue s @ concat (map (\<lambda>op. case op of Enq p \<Rightarrow> [p] | Ack \<Rightarrow> []) ops)"
  by (simp add: acct_run_def fold_acct_step_fifo)

end

definition track_pending :: "PendingCommand \<Rightarrow> FlowControl \<Rightarrow> FlowControl" where
  "track_pending p = track_command (pc_length p) (pc_op_index p) (pc_command p)"

interpretation fq: ack_queue pending rx_count track_pending ack_ok_locked
  by unfold_locales
    (auto simp: track_pending_def track_command_def ack_ok_locked_def split: list.splits)

abbreviation balanced :: "FlowControl \<Rightarrow> bool" where
  "balanced \<equiv> fq.balanced"

section \<open>Parsing is independent of the accounting\<close>

text \<open>
  The abstract reading of \<open>parse_incoming\<close>: a scan of the bytes, which never looks at the pending
  queue, yields the kinds and texts of the responses and the bytes that stay; then the responses are
  charged to the queue one by one.
\<close>

type_synonym reply = "GrblResponseType \<times> string"

definition respond1 :: "reply \<Rightarrow> FlowControl \<Rightarrow> GrblResponse \<times> FlowControl" where
  "respond1 k fc =
     (case fst k of
        R_Ok \<Rightarrow> ok_response fc
      | R_Error \<Rightarrow> error_response (snd k) fc
      | R_Line \<Rightarrow> (\<lparr>rtype = R_Line, r_text = snd k, r_pending = None\<rparr>, fc))"

fun respond :: "reply list \<Rightarrow> FlowControl \<Rightarrow> GrblResponse list \<times> FlowControl" where
  "respond [] fc = ([], fc)"
| "respond (k # ks) fc =
     (let (r, fc1) = respond1 k fc; (rs, fc2) = respond ks fc1 in (r # rs, fc2))"

lemma respond_append:
  "respond (ks @ ls) fc =
     (let (rs, fc1) = respond ks fc; (rs', fc2) = respond ls fc1 in (rs @ rs', fc2))"
  by (induction ks arbitrary: fc) (simp_all add: case_prod_unfold Let_def)

lemma respond1_buffer:
  "respond1 k (fc\<lparr>status_buffer := b\<rparr>) =
     (fst (respond1 k fc), snd (respond1 k fc)\<lparr>status_buffer := b\<rparr>)"
  by (auto simp: respond1_def ok_response_def error_response_def ack_ok_locked_def mark_acked_def
      split: GrblResponseType.splits list.splits)

lemma respond_buffer:
  "respond ks (fc\<lparr>status_buffer := b\<rparr>) = (fst (respond ks fc), snd (respond ks fc)\<lparr>status_buffer := b\<rparr>)"
  by (induction ks arbitrary: fc) (simp_all add: respond1_buffer case_prod_unfold Let_def)

lemma status_buffer_respond1 [simp]: "status_buffer (snd (respond1 k fc)) = status_buffer fc"
  by (auto simp: respond1_def split: GrblResponseType.splits)

lemma status_buffer_respond [simp]: "status_buffer (snd (respond ks fc)) = status_buffer fc"
  by (induction ks arbitrary: fc) (simp_all add: case_prod_unfold Let_def)

function scan_ok :: "regex_crate \<Rightarrow> bytes \<Rightarrow> nat \<times> bytes" where
  "scan_ok X b =
     (case rx_bytes X OK_ACK_RE b of
        None \<Rightarrow> (0, b)
      | Some m \<Rightarrow>
          if m_start m < m_end m \<and> m_end m \<le> length b
          then (let (n, b') = scan_ok X (drain_range (m_start m) (m_end m) b) in (Suc n, b'))
          else (0, b))"
  by pat_completeness auto
termination
  by (relation "measure (\<lambda>(X, b). length b)") (auto simp: drain_range_shorter)

function scan_null :: "bytes \<Rightarrow> nat \<times> bytes" where
  "scan_null b =
     (case find_null_corrupted_ok b of
        None \<Rightarrow> (0, b)
      | Some (i, j) \<Rightarrow> (let (n, b') = scan_null (drain_range i j b) in (Suc n, b')))"
  by pat_completeness auto
termination
  by (relation "measure length") (auto intro!: drain_range_shorter dest: find_null_bounds)

function scan_errors :: "nat \<Rightarrow> bytes \<Rightarrow> string list \<times> bytes" where
  "scan_errors k b =
     (case find_subslice (drop k b) ERROR_MARKER of
        None \<Rightarrow> ([], b)
      | Some rel \<Rightarrow>
          (case position (\<lambda>c. c = LF) (drop (k + rel) b) of
             None \<Rightarrow> ([], b)
           | Some e \<Rightarrow>
               let eb = take (e + 1) (drop (k + rel) b);
                   b1 = drain_range (k + rel) (k + rel + e + 1) b
               in if \<not> valid_utf8 eb then scan_errors k b1
                  else (let (es, b2) = scan_errors (k + rel) b1 in (trim eb # es, b2))))"
  by pat_completeness auto
termination
  by (relation "measure (\<lambda>(k, b). length b)") (auto simp: drain_range_shorter dest!: position_less)

definition kind_of_line :: "string \<Rightarrow> reply list" where
  "kind_of_line l =
     (if l = [] then [] else if l = ''ok'' then [(R_Ok, ''ok'')]
      else if starts_with l ''error:'' then [(R_Error, l)] else [(R_Line, l)])"

function scan_lines :: "bytes \<Rightarrow> reply list \<times> bytes" where
  "scan_lines b =
     (case position (\<lambda>c. c = LF) b of
        None \<Rightarrow> ([], b)
      | Some nl \<Rightarrow>
          let mb = take (nl + 1) b; (ks, b') = scan_lines (drop (nl + 1) b)
          in ((if valid_utf8 mb then concat (map kind_of_line (lines (trim mb))) else []) @ ks, b'))"
  by pat_completeness auto
termination
  by (relation "measure length") (auto dest: position_less)

declare scan_ok.simps [simp del] scan_null.simps [simp del] scan_errors.simps [simp del]
  scan_lines.simps [simp del]

definition scan :: "regex_crate \<Rightarrow> bytes \<Rightarrow> reply list \<times> bytes" where
  "scan X b =
     (let (n, b1) = scan_ok X b; (m, b2) = scan_null b1; (es, b3) = scan_errors 0 b2;
          (ks, b4) = scan_lines b3
      in (replicate (n + m) (R_Ok, ''ok'') @ map (Pair R_Error) es @ ks, b4))"

text \<open>Appending the replies of a scan to the responses collected so far.\<close>

definition replying :: "GrblResponse list \<Rightarrow> reply list \<Rightarrow> FlowControl \<Rightarrow> GrblResponse list \<times> FlowControl" where
  "replying rs ks fc = (rs @ fst (respond ks fc), snd (respond ks fc))"

lemma replying_Nil [simp]: "replying rs [] fc = (rs, fc)"
  by (simp add: replying_def)

lemma replying_Cons:
  "replying rs (k # ks) fc = replying (rs @ [fst (respond1 k fc)]) ks (snd (respond1 k fc))"
  by (simp add: replying_def case_prod_unfold Let_def)

lemma replying_append:
  "replying (fst (replying rs ks fc)) ls (snd (replying rs ks fc)) = replying rs (ks @ ls) fc"
  by (simp add: replying_def respond_append case_prod_unfold Let_def)

lemma replying_buffer:
  "replying rs ks (fc\<lparr>status_buffer := b\<rparr>) =
     (fst (replying rs ks fc), snd (replying rs ks fc)\<lparr>status_buffer := b\<rparr>)"
  by (simp add: replying_def respond_buffer)

lemma status_buffer_replying [simp]: "status_buffer (snd (replying rs ks fc)) = status_buffer fc"
  by (simp add: replying_def)

lemma extract_ok_loop_scan:
  "extract_ok_loop X fc rs =
     replying rs (replicate (fst (scan_ok X (status_buffer fc))) (R_Ok, ''ok''))
       (fc\<lparr>status_buffer := snd (scan_ok X (status_buffer fc))\<rparr>)"
proof (induction X fc rs rule: extract_ok_loop.induct)
  case (1 X fc rs)
  show ?case
  proof (cases "rx_bytes X OK_ACK_RE (status_buffer fc)")
    case None
    then show ?thesis by (simp add: extract_ok_loop.simps [of X fc] scan_ok.simps [of X "status_buffer fc"])
  next
    case (Some m)
    note IH = "1.IH" [OF Some]
    show ?thesis
    proof (cases "m_start m < m_end m \<and> m_end m \<le> length (status_buffer fc)")
      case True
      define b where "b = drain_range (m_start m) (m_end m) (status_buffer fc)"
      have ok: "ok_response = respond1 (R_Ok, ''ok'')" by (rule ext) (simp add: respond1_def)
      have "extract_ok_loop X fc rs = extract_ok_loop X (snd (ok_response (fc\<lparr>status_buffer := b\<rparr>)))
          (rs @ [fst (ok_response (fc\<lparr>status_buffer := b\<rparr>))])"
        using Some True by (simp add: extract_ok_loop.simps [of X fc] b_def case_prod_unfold Let_def)
      also have "\<dots> = replying (rs @ [fst (ok_response (fc\<lparr>status_buffer := b\<rparr>))])
          (replicate (fst (scan_ok X b)) (R_Ok, ''ok''))
          ((snd (ok_response (fc\<lparr>status_buffer := b\<rparr>)))\<lparr>status_buffer := snd (scan_ok X b)\<rparr>)"
        using IH [OF True refl prod.collapse] by (simp add: b_def)
      also have "\<dots> = replying rs ((R_Ok, ''ok'') # replicate (fst (scan_ok X b)) (R_Ok, ''ok''))
          (fc\<lparr>status_buffer := snd (scan_ok X b)\<rparr>)"
        by (simp add: replying_Cons ok respond1_buffer)
      finally show ?thesis using Some True
        by (simp add: scan_ok.simps [of X "status_buffer fc"] b_def case_prod_unfold Let_def)
    next
      case False
      with Some show ?thesis
        by (auto simp: extract_ok_loop.simps [of X fc] scan_ok.simps [of X "status_buffer fc"])
    qed
  qed
qed

lemma extract_null_loop_scan:
  "extract_null_loop fc rs =
     replying rs (replicate (fst (scan_null (status_buffer fc))) (R_Ok, ''ok''))
       (fc\<lparr>status_buffer := snd (scan_null (status_buffer fc))\<rparr>)"
proof (induction fc rs rule: extract_null_loop.induct)
  case (1 fc rs)
  show ?case
  proof (cases "find_null_corrupted_ok (status_buffer fc)")
    case None
    then show ?thesis by (simp add: extract_null_loop.simps [of fc] scan_null.simps [of "status_buffer fc"])
  next
    case (Some q)
    then obtain i j where q: "find_null_corrupted_ok (status_buffer fc) = Some (i, j)" by (cases q) auto
    define b where "b = drain_range i j (status_buffer fc)"
    have ok: "ok_response = respond1 (R_Ok, ''ok'')" by (rule ext) (simp add: respond1_def)
    have "extract_null_loop fc rs = extract_null_loop (snd (ok_response (fc\<lparr>status_buffer := b\<rparr>)))
        (rs @ [fst (ok_response (fc\<lparr>status_buffer := b\<rparr>))])"
      using q by (simp add: extract_null_loop.simps [of fc] b_def case_prod_unfold Let_def)
    also have "\<dots> = replying (rs @ [fst (ok_response (fc\<lparr>status_buffer := b\<rparr>))])
        (replicate (fst (scan_null b)) (R_Ok, ''ok''))
        ((snd (ok_response (fc\<lparr>status_buffer := b\<rparr>)))\<lparr>status_buffer := snd (scan_null b)\<rparr>)"
      using "1.IH" [OF q refl refl prod.collapse] by (simp add: b_def)
    also have "\<dots> = replying rs ((R_Ok, ''ok'') # replicate (fst (scan_null b)) (R_Ok, ''ok''))
        (fc\<lparr>status_buffer := snd (scan_null b)\<rparr>)"
      by (simp add: replying_Cons ok respond1_buffer)
    finally show ?thesis using q
      by (simp add: scan_null.simps [of "status_buffer fc"] b_def case_prod_unfold Let_def)
  qed
qed

lemma extract_error_loop_scan:
  "extract_error_loop k fc rs =
     replying rs (map (Pair R_Error) (fst (scan_errors k (status_buffer fc))))
       (fc\<lparr>status_buffer := snd (scan_errors k (status_buffer fc))\<rparr>)"
proof (induction k fc rs rule: extract_error_loop.induct)
  case (1 k fc rs)
  show ?case
  proof (cases "find_subslice (drop k (status_buffer fc)) ERROR_MARKER")
    case None
    then show ?thesis
      by (simp add: extract_error_loop.simps [of k fc] scan_errors.simps [of k "status_buffer fc"])
  next
    case (Some rel)
    show ?thesis
    proof (cases "position (\<lambda>c. c = LF) (drop (k + rel) (status_buffer fc))")
      case None
      with Some show ?thesis
        by (simp add: extract_error_loop.simps [of k fc] scan_errors.simps [of k "status_buffer fc"])
    next
      case (Some e)
      note hit = \<open>find_subslice _ _ = Some rel\<close> Some
      define eb where "eb = take (e + 1) (drop (k + rel) (status_buffer fc))"
      define b where "b = drain_range (k + rel) (k + rel + e + 1) (status_buffer fc)"
      note IH = "1.IH" [OF hit(1) refl hit(2) refl refl]
      show ?thesis
      proof (cases "valid_utf8 eb")
        case False
        with hit IH(1) show ?thesis
          by (simp add: extract_error_loop.simps [of k fc] scan_errors.simps [of k "status_buffer fc"]
              eb_def b_def Let_def)
      next
        case True
        have er: "error_response tx = respond1 (R_Error, tx)" for tx
          by (rule ext) (simp add: respond1_def)
        have "extract_error_loop k fc rs =
            extract_error_loop (k + rel) (snd (error_response (trim eb) (fc\<lparr>status_buffer := b\<rparr>)))
              (rs @ [fst (error_response (trim eb) (fc\<lparr>status_buffer := b\<rparr>))])"
          using hit True
          by (simp add: extract_error_loop.simps [of k fc] eb_def b_def case_prod_unfold Let_def)
        also have "\<dots> = replying (rs @ [fst (error_response (trim eb) (fc\<lparr>status_buffer := b\<rparr>))])
            (map (Pair R_Error) (fst (scan_errors (k + rel) b)))
            ((snd (error_response (trim eb) (fc\<lparr>status_buffer := b\<rparr>)))\<lparr>status_buffer := snd (scan_errors (k + rel) b)\<rparr>)"
          using IH(2) [OF _ refl prod.collapse] True by (simp add: b_def eb_def)
        also have "\<dots> = replying rs ((R_Error, trim eb) # map (Pair R_Error) (fst (scan_errors (k + rel) b)))
            (fc\<lparr>status_buffer := snd (scan_errors (k + rel) b)\<rparr>)"
          by (simp add: replying_Cons er respond1_buffer)
        finally show ?thesis using hit True
          by (simp add: scan_errors.simps [of k "status_buffer fc"] b_def eb_def case_prod_unfold Let_def)
      qed
    qed
  qed
qed

lemma parse_line_respond: "parse_line l fc = respond (kind_of_line l) fc"
  by (simp add: parse_line_def kind_of_line_def respond1_def case_prod_unfold Let_def)

lemma parse_lines_respond: "parse_lines ls fc = respond (concat (map kind_of_line ls)) fc"
  by (induction ls arbitrary: fc)
    (simp_all add: parse_line_respond respond_append case_prod_unfold Let_def)

lemma line_loop_scan:
  "line_loop fc rs =
     replying rs (fst (scan_lines (status_buffer fc))) (fc\<lparr>status_buffer := snd (scan_lines (status_buffer fc))\<rparr>)"
proof (induction fc rs rule: line_loop.induct)
  case (1 fc rs)
  show ?case
  proof (cases "position (\<lambda>c. c = LF) (status_buffer fc)")
    case None
    then show ?thesis by (simp add: line_loop.simps [of fc] scan_lines.simps [of "status_buffer fc"])
  next
    case (Some nl)
    define mb where "mb = take (nl + 1) (status_buffer fc)"
    define b where "b = drop (nl + 1) (status_buffer fc)"
    note IH = "1.IH" [OF Some refl refl]
    show ?thesis
    proof (cases "valid_utf8 mb")
      case False
      with Some IH(1) show ?thesis
        by (simp add: line_loop.simps [of fc] scan_lines.simps [of "status_buffer fc"] mb_def b_def
            case_prod_unfold Let_def)
    next
      case True
      define ks where "ks = concat (map kind_of_line (lines (trim mb)))"
      have "line_loop fc rs = line_loop (snd (respond ks (fc\<lparr>status_buffer := b\<rparr>)))
          (rs @ fst (respond ks (fc\<lparr>status_buffer := b\<rparr>)))"
        using Some True by (simp add: line_loop.simps [of fc] parse_lines_respond ks_def mb_def b_def
            case_prod_unfold Let_def)
      also have "\<dots> = replying (rs @ fst (respond ks (fc\<lparr>status_buffer := b\<rparr>))) (fst (scan_lines b))
          ((snd (respond ks (fc\<lparr>status_buffer := b\<rparr>)))\<lparr>status_buffer := snd (scan_lines b)\<rparr>)"
        using IH(2) [OF _ prod.collapse] True by (simp add: parse_lines_respond ks_def mb_def b_def)
      also have "\<dots> = replying rs (ks @ fst (scan_lines b)) (fc\<lparr>status_buffer := snd (scan_lines b)\<rparr>)"
        by (simp add: replying_def respond_append respond_buffer case_prod_unfold Let_def)
      finally show ?thesis using Some True
        by (simp add: scan_lines.simps [of "status_buffer fc"] ks_def mb_def b_def case_prod_unfold Let_def)
    qed
  qed
qed

lemma parse_incoming_scan:
  "parse_incoming X data fc =
     respond (fst (scan X (status_buffer fc @ data)))
       (fc\<lparr>status_buffer := snd (scan X (status_buffer fc @ data))\<rparr>)"
  by (simp add: parse_incoming_def extract_acks_from_buffer_def scan_def extract_ok_loop_scan
      extract_null_loop_scan extract_error_loop_scan line_loop_scan replying_def respond_append
      respond_buffer replicate_add case_prod_unfold Let_def)

section \<open>What the responses do to the accounting\<close>

definition is_ack :: "reply \<Rightarrow> bool" where
  "is_ack k \<longleftrightarrow> fst k \<noteq> R_Line"

definition acks_in :: "reply list \<Rightarrow> nat" where
  "acks_in ks = length (filter is_ack ks)"

lemma acks_in_simps [simp]:
  "acks_in [] = 0" "acks_in (k # ks) = (if is_ack k then Suc (acks_in ks) else acks_in ks)"
  "acks_in (ks @ ls) = acks_in ks + acks_in ls"
  "acks_in (replicate n k) = (if is_ack k then n else 0)"
  by (simp_all add: acks_in_def)

text \<open>The responses a list of replies gives against a queue of pending commands.\<close>

fun charge :: "reply list \<Rightarrow> PendingCommand list \<Rightarrow> GrblResponse list" where
  "charge [] q = []"
| "charge (k # ks) q =
     \<lparr>rtype = fst k, r_text = (if fst k = R_Ok then ''ok'' else snd k),
      r_pending = (if fst k = R_Ok then (case q of [] \<Rightarrow> None | p # _ \<Rightarrow> Some p) else None)\<rparr>
     # charge ks (if is_ack k then tl q else q)"

lemma respond1_frame:
  "rx_size (snd (respond1 k fc)) = rx_size fc"
  "space_available (snd (respond1 k fc)) = space_available fc"
  "pending_drained (snd (respond1 k fc)) = pending_drained fc"
  "pending (snd (respond1 k fc)) = (if is_ack k then tl (pending fc) else pending fc)"
  "acked_since_flush (snd (respond1 k fc)) = (acked_since_flush fc \<or> is_ack k)"
  by (auto simp: respond1_def ok_response_def error_response_def ack_ok_locked_def mark_acked_def
      is_ack_def split: GrblResponseType.splits list.splits)

lemma respond1_balanced: "balanced fc \<Longrightarrow> balanced (snd (respond1 k fc))"
  by (auto simp: respond1_def ok_response_def error_response_def ack_ok_locked_def mark_acked_def
      fq.balanced_def split: GrblResponseType.splits list.splits)

lemma respond1_fst: "fst (respond1 k fc) = hd (charge [k] (pending fc))"
  by (auto simp: respond1_def ok_response_def error_response_def ack_ok_locked_def
      split: GrblResponseType.splits list.splits)

lemma respond_frame [frame_simps]:
  "rx_size (snd (respond ks fc)) = rx_size fc"
  "space_available (snd (respond ks fc)) = space_available fc"
  "pending_drained (snd (respond ks fc)) = pending_drained fc"
  "pending (snd (respond ks fc)) = drop (acks_in ks) (pending fc)"
  "acked_since_flush (snd (respond ks fc)) = (acked_since_flush fc \<or> acks_in ks > 0)"
  by (induction ks arbitrary: fc)
    (simp_all add: respond1_frame case_prod_unfold Let_def drop_Suc)

lemma respond_balanced: "balanced fc \<Longrightarrow> balanced (snd (respond ks fc))"
  by (induction ks arbitrary: fc) (simp_all add: respond1_balanced case_prod_unfold Let_def)

lemma respond_fst: "fst (respond ks fc) = charge ks (pending fc)"
  by (induction ks arbitrary: fc)
    (simp_all add: respond1_fst respond1_frame case_prod_unfold Let_def)

lemma respond_drained:
  "drained_since_flush (snd (respond ks fc)) =
     (drained_since_flush fc \<or> (acks_in ks > 0 \<and> length (pending fc) \<le> acks_in ks))"
proof (induction ks arbitrary: fc)
  case Nil
  show ?case by simp
next
  case (Cons k ks)
  have d: "drained_since_flush (snd (respond1 k fc)) =
      (drained_since_flush fc \<or> (is_ack k \<and> tl (pending fc) = []))"
    by (auto simp: respond1_def ok_response_def error_response_def ack_ok_locked_def mark_acked_def
        is_ack_def split: GrblResponseType.splits list.splits)
  have "tl (pending fc) = [] \<longleftrightarrow> length (pending fc) \<le> 1" by (cases "pending fc") auto
  with Cons [of "snd (respond1 k fc)"] d show ?case
    by (auto simp: respond1_frame case_prod_unfold Let_def)
qed

lemma balanced_buffer [simp]: "balanced (fc\<lparr>status_buffer := b\<rparr>) = balanced fc"
  by (simp add: fq.balanced_def)

end
