(* ===== verification/Async.thy ===== *)
theory Async
  imports Prelude
begin

text \<open>
  The asynchronous tasks of the sessions. A task runs without interruption between two suspension
  points (\<^verbatim>\<open>.await\<close>); while it is suspended, the rest of the system acts. What the rest
  of the system does is a script, a list of events, and a function \<open>step\<close> that says what an event
  does to the session. A task is a function of the session and the script: it returns a value with
  the session and the script that is left, or it is still suspended when the script ends. Every
  theorem over all scripts is a theorem over all interleavings at suspension points, and a task that
  is aborted while it waits is one whose script ends there.

  Deadlines are chosen by the environment: \<open>EvTimer\<close> is the moment the deadline of the wait in
  progress passes, so no statement depends on the length of a time-out.
\<close>

datatype env_event =
    EvRx bytes             \<comment> \<open>the reader task hands a chunk to the session\<close>
  | EvTimer                \<comment> \<open>the deadline of the wait in progress passes\<close>
  | EvCancel               \<comment> \<open>another task starts \<^verbatim>\<open>cancel\<close>\<close>
  | EvLinkDown             \<comment> \<open>the transport is closed by another task\<close>
  | EvTask bool            \<comment> \<open>a helper task of the session runs to its next suspension point; what the
                                flag says is up to the session\<close>
  | EvLockTaken            \<comment> \<open>another task takes the command lock\<close>
  | EvLockFreed            \<comment> \<open>another task drops the command lock\<close>

text \<open>The command lock, as the task under consideration sees it.\<close>

datatype lock = Free | Mine | Theirs

text \<open>\<open>Panicked\<close> is a task that unwound: nothing after the panic runs.\<close>

datatype ('a, 'w) outcome = Ret 'a 'w "env_event list" | Blocked 'w | Panicked 'w "env_event list"

fun world_of :: "('a, 'w) outcome \<Rightarrow> 'w" where
  "world_of (Ret a w es) = w"
| "world_of (Blocked w) = w"
| "world_of (Panicked w es) = w"

definition bindA ::
  "('a, 'w) outcome \<Rightarrow> ('a \<Rightarrow> 'w \<Rightarrow> env_event list \<Rightarrow> ('b, 'w) outcome) \<Rightarrow> ('b, 'w) outcome" where
  "bindA m k = (case m of Ret a w es \<Rightarrow> k a w es | Blocked w \<Rightarrow> Blocked w | Panicked w es \<Rightarrow> Panicked w es)"

lemma bindA_simps [simp]:
  "bindA (Ret a w es) k = k a w es" "bindA (Blocked w) k = Blocked w" "bindA (Panicked w es) k = Panicked w es"
  by (simp_all add: bindA_def)

text \<open>The operator \<^verbatim>\<open>?\<close> of Rust: an error ends the task with that error.\<close>

definition tryA ::
  "(('e, 'a) result, 'w) outcome \<Rightarrow> ('a \<Rightarrow> 'w \<Rightarrow> env_event list \<Rightarrow> (('e, 'b) result, 'w) outcome) \<Rightarrow>
   (('e, 'b) result, 'w) outcome" where
  "tryA m k = bindA m (\<lambda>r w es. case r of Inl e \<Rightarrow> Ret (Inl e) w es | Inr a \<Rightarrow> k a w es)"

lemma tryA_simps [simp]:
  "tryA (Ret (Inl e) w es) k = Ret (Inl e) w es"
  "tryA (Ret (Inr a) w es) k = k a w es"
  "tryA (Blocked w) k = Blocked w"
  "tryA (Panicked w es) k = Panicked w es"
  by (simp_all add: tryA_def)

lemma bindA_cong [fundef_cong]:
  "m = m' \<Longrightarrow> (\<And>a w es. m' = Ret a w es \<Longrightarrow> k a w es = k' a w es) \<Longrightarrow> bindA m k = bindA m' k'"
  by (cases m') simp_all

lemma tryA_cong [fundef_cong]:
  "m = m' \<Longrightarrow> (\<And>a w es. m' = Ret (Inr a) w es \<Longrightarrow> k a w es = k' a w es) \<Longrightarrow> tryA m k = tryA m' k'"
  by (cases m') (auto simp: tryA_def split: sum.splits)

lemma bindA_congD:
  "bindA m k = Ret b w' es' \<Longrightarrow> \<exists>a w es. m = Ret a w es \<and> k a w es = Ret b w' es'"
  by (cases m) auto

lemma tryA_congD:
  "tryA m k = Ret (Inr b) w' es' \<Longrightarrow> \<exists>a w es. m = Ret (Inr a) w es \<and> k a w es = Ret (Inr b) w' es'"
  by (cases m) (auto simp: tryA_def split: sum.splits)

text \<open>
  Suspended until a condition holds, with a deadline (\<open>True\<close>: the condition was met, \<open>False\<close>:
  the deadline passed first) and without one. The condition is tested after each event.
\<close>

fun await_timeout ::
  "(env_event \<Rightarrow> 'w \<Rightarrow> 'w) \<Rightarrow> ('w \<Rightarrow> bool) \<Rightarrow> 'w \<Rightarrow> env_event list \<Rightarrow> (bool, 'w) outcome" where
  "await_timeout step ready w es =
     (if ready w then Ret True w es
      else case es of
             [] \<Rightarrow> Blocked w
           | e # es' \<Rightarrow> if e = EvTimer then Ret False w es'
                        else await_timeout step ready (step e w) es')"

fun await ::
  "(env_event \<Rightarrow> 'w \<Rightarrow> 'w) \<Rightarrow> ('w \<Rightarrow> bool) \<Rightarrow> 'w \<Rightarrow> env_event list \<Rightarrow> (unit, 'w) outcome" where
  "await step ready w es =
     (if ready w then Ret () w es
      else case es of
             [] \<Rightarrow> Blocked w
           | e # es' \<Rightarrow> await step ready (step e w) es')"

text \<open>\<^verbatim>\<open>sleep\<close>: the events up to the timer happen.\<close>

fun sleep :: "(env_event \<Rightarrow> 'w \<Rightarrow> 'w) \<Rightarrow> 'w \<Rightarrow> env_event list \<Rightarrow> (unit, 'w) outcome" where
  "sleep step w [] = Blocked w"
| "sleep step w (e # es) = (if e = EvTimer then Ret () w es else sleep step (step e w) es)"

declare await_timeout.simps [simp del] await.simps [simp del]

lemma await_timeout_True:
  "await_timeout step ready w es = Ret True w' es' \<Longrightarrow> ready w'"
proof (induction es arbitrary: w)
  case Nil
  then show ?case by (simp add: await_timeout.simps split: if_splits)
next
  case (Cons e es)
  then show ?case by (auto simp: await_timeout.simps [of _ _ w "e # es"] split: if_splits)
qed

lemma await_ready: "await step ready w es = Ret u w' es' \<Longrightarrow> ready w'"
proof (induction es arbitrary: w)
  case Nil
  then show ?case by (simp add: await.simps split: if_splits)
next
  case (Cons e es)
  then show ?case by (auto simp: await.simps [of _ _ w "e # es"] split: if_splits)
qed

text \<open>Executable tests of how a task ended, for concrete runs.\<close>

definition ret_ok :: "(('e, 'a) result, 'w) outcome \<Rightarrow> bool" where
  "ret_ok m = (case m of Ret r _ _ \<Rightarrow> is_ok_result r | _ \<Rightarrow> False)"

definition returned :: "('a, 'w) outcome \<Rightarrow> bool" where
  "returned m = (case m of Ret _ _ _ \<Rightarrow> True | _ \<Rightarrow> False)"

lemma ret_okD: "ret_ok m \<Longrightarrow> \<exists>a w es. m = Ret (Inr a) w es"
  by (auto simp: ret_ok_def is_ok_result_def split: outcome.splits sum.splits)

lemma returnedD: "returned m \<Longrightarrow> \<exists>a w es. m = Ret a w es"
  by (auto simp: returned_def split: outcome.splits)

text \<open>A wait never lengthens the script, and a deadline that passes is one event of it.\<close>

fun events_left :: "('a, 'w) outcome \<Rightarrow> env_event list" where
  "events_left (Ret a w es) = es"
| "events_left (Blocked w) = []"
| "events_left (Panicked w es) = es"

lemma await_timeout_le: "length (events_left (await_timeout step ready w es)) \<le> length es"
proof (induction es arbitrary: w)
  case Nil
  show ?case by (simp add: await_timeout.simps)
next
  case (Cons e es)
  from Cons [of "step e w"] show ?case by (simp add: await_timeout.simps [of _ _ w "e # es"])
qed

lemma await_le: "length (events_left (await step ready w es)) \<le> length es"
proof (induction es arbitrary: w)
  case Nil
  show ?case by (simp add: await.simps)
next
  case (Cons e es)
  from Cons [of "step e w"] show ?case by (simp add: await.simps [of _ _ w "e # es"])
qed

lemma sleep_le: "length (events_left (sleep step w es)) \<le> length es"
proof (induction es arbitrary: w)
  case Nil
  show ?case by simp
next
  case (Cons e es)
  from Cons [of "step e w"] show ?case by simp
qed

lemma sleep_shorter: "sleep step w es = Ret u w' es' \<Longrightarrow> length es' < length es"
proof (induction es arbitrary: w)
  case Nil
  then show ?case by simp
next
  case (Cons e es)
  from Cons.prems show ?case using Cons.IH [of "step e w"] by (auto split: if_splits)
qed

lemma await_timeout_False_shorter:
  "await_timeout step ready w es = Ret False w' es' \<Longrightarrow> length es' < length es"
proof (induction es arbitrary: w)
  case Nil
  then show ?case by (simp add: await_timeout.simps split: if_splits)
next
  case (Cons e es)
  from Cons.prems show ?case
    using Cons.IH [of "step e w"] by (auto simp: await_timeout.simps [of _ _ w "e # es"] split: if_splits)
qed

lemma bindA_le:
  "length (events_left m) \<le> n \<Longrightarrow>
   (\<And>a w es. length es \<le> n \<Longrightarrow> length (events_left (k a w es)) \<le> n) \<Longrightarrow>
   length (events_left (bindA m k)) \<le> n"
  by (cases m) auto

lemma tryA_le:
  "length (events_left m) \<le> n \<Longrightarrow>
   (\<And>a w es. length es \<le> n \<Longrightarrow> length (events_left (k a w es)) \<le> n) \<Longrightarrow>
   length (events_left (tryA m k)) \<le> n"
  unfolding tryA_def by (rule bindA_le) (auto split: sum.splits)

text \<open>
  What every event of a kind preserves, every wait under a script of such events preserves: the contract
  of an environment with an invariant of the session. \<open>A\<close> says which events may occur.
\<close>

locale env_invariant =
  fixes step :: "env_event \<Rightarrow> 'w \<Rightarrow> 'w" and A :: "env_event \<Rightarrow> bool" and P :: "'w \<Rightarrow> bool"
  assumes step_keeps: "A e \<Longrightarrow> P w \<Longrightarrow> P (step e w)"
begin

definition kept :: "('a, 'w) outcome \<Rightarrow> bool" where
  "kept m \<longleftrightarrow> P (world_of m) \<and> list_all A (events_left m)"

lemma kept_simps [simp]:
  "kept (Ret a w es) \<longleftrightarrow> P w \<and> list_all A es"
  "kept (Blocked w) \<longleftrightarrow> P w"
  "kept (Panicked w es) \<longleftrightarrow> P w \<and> list_all A es"
  by (simp_all add: kept_def)

lemma kept_world: "kept m \<Longrightarrow> P (world_of m)"
  by (simp add: kept_def)

lemma await_timeout_kept: "P w \<Longrightarrow> list_all A es \<Longrightarrow> kept (await_timeout step ready w es)"
proof (induction es arbitrary: w)
  case Nil
  then show ?case by (simp add: await_timeout.simps)
next
  case (Cons e es)
  then show ?case by (simp add: await_timeout.simps [of _ _ w "e # es"] step_keeps)
qed

lemma await_kept: "P w \<Longrightarrow> list_all A es \<Longrightarrow> kept (await step ready w es)"
proof (induction es arbitrary: w)
  case Nil
  then show ?case by (simp add: await.simps)
next
  case (Cons e es)
  then show ?case by (simp add: await.simps [of _ _ w "e # es"] step_keeps)
qed

lemma sleep_kept: "P w \<Longrightarrow> list_all A es \<Longrightarrow> kept (sleep step w es)"
  by (induction es arbitrary: w) (simp_all add: step_keeps)

lemma bindA_kept:
  "kept m \<Longrightarrow> (\<And>a w es. P w \<Longrightarrow> list_all A es \<Longrightarrow> kept (k a w es)) \<Longrightarrow> kept (bindA m k)"
  by (cases m) auto

lemma tryA_kept:
  "kept m \<Longrightarrow> (\<And>a w es. P w \<Longrightarrow> list_all A es \<Longrightarrow> kept (k a w es)) \<Longrightarrow> kept (tryA m k)"
  unfolding tryA_def by (rule bindA_kept) (auto split: sum.splits)

end

end
