(* ===== verification/Flow_Wait.thy ===== *)
theory Flow_Wait
  imports Flow Async
begin

text \<open>
  The two waits of \<^verbatim>\<open>FlowControl\<close>. \<open>fl\<close> reads the flow-control state off the session the
  task runs in. A waiter registers with the \<^verbatim>\<open>Notify\<close> before it tests the condition again,
  and only a later signal or the deadline wakes it.
\<close>

datatype TimedOut = TimedOut

fun space_wait ::
  "(env_event \<Rightarrow> 'w \<Rightarrow> 'w) \<Rightarrow> ('w \<Rightarrow> FlowControl) \<Rightarrow> nat \<Rightarrow> nat \<Rightarrow> 'w \<Rightarrow> env_event list \<Rightarrow>
   ((TimedOut, unit) result, 'w) outcome" where
  "space_wait step fl needed registered w [] = Blocked w"
| "space_wait step fl needed registered w (e # es) =
     (if e = EvTimer
      then Ret (if needs_space (fl w) needed then Inl TimedOut else Inr ()) w es
      else let w' = step e w in
           if space_available (fl w') > registered then
             (if needs_space (fl w') needed
              then space_wait step fl needed (space_available (fl w')) w' es
              else Ret (Inr ()) w' es)
           else space_wait step fl needed registered w' es)"

definition wait_for_space ::
  "(env_event \<Rightarrow> 'w \<Rightarrow> 'w) \<Rightarrow> ('w \<Rightarrow> FlowControl) \<Rightarrow> nat \<Rightarrow> 'w \<Rightarrow> env_event list \<Rightarrow>
   ((TimedOut, unit) result, 'w) outcome" where
  "wait_for_space step fl needed w es =
     (if needs_space (fl w) needed
      then space_wait step fl needed (space_available (fl w)) w es
      else Ret (Inr ()) w es)"

text \<open>\<open>bounded\<close> says whether the caller gave a time-out.\<close>

fun drain_wait ::
  "(env_event \<Rightarrow> 'w \<Rightarrow> 'w) \<Rightarrow> ('w \<Rightarrow> FlowControl) \<Rightarrow> bool \<Rightarrow> nat \<Rightarrow> 'w \<Rightarrow> env_event list \<Rightarrow>
   ((TimedOut, unit) result, 'w) outcome" where
  "drain_wait step fl bounded registered w [] = Blocked w"
| "drain_wait step fl bounded registered w (e # es) =
     (if e = EvTimer \<and> bounded
      then Ret (if pending (fl w) = [] then Inr () else Inl TimedOut) w es
      else let w' = step e w in
           if pending_drained (fl w') > registered then
             (if pending (fl w') = [] then Ret (Inr ()) w' es
              else drain_wait step fl bounded (pending_drained (fl w')) w' es)
           else drain_wait step fl bounded registered w' es)"

definition wait_pending_empty ::
  "(env_event \<Rightarrow> 'w \<Rightarrow> 'w) \<Rightarrow> ('w \<Rightarrow> FlowControl) \<Rightarrow> bool \<Rightarrow> 'w \<Rightarrow> env_event list \<Rightarrow>
   ((TimedOut, unit) result, 'w) outcome" where
  "wait_pending_empty step fl bounded w es =
     (if pending (fl w) = [] then Ret (Inr ()) w es
      else drain_wait step fl bounded (pending_drained (fl w)) w es)"

text \<open>A wait that reports success found what it waited for.\<close>

lemma space_wait_Ok: "space_wait step fl needed n w es = Ret (Inr u) w' es' \<Longrightarrow> \<not> needs_space (fl w') needed"
  by (induction step fl needed n w es rule: space_wait.induct) (auto simp: Let_def split: if_splits)

lemma wait_for_space_Ok:
  "wait_for_space step fl needed w es = Ret (Inr u) w' es' \<Longrightarrow> \<not> needs_space (fl w') needed"
  by (auto simp: wait_for_space_def dest: space_wait_Ok split: if_splits)

lemma space_wait_TimedOut:
  "space_wait step fl needed n w es = Ret (Inl e) w' es' \<Longrightarrow> needs_space (fl w') needed"
  by (induction step fl needed n w es rule: space_wait.induct) (auto simp: Let_def split: if_splits)

lemma drain_wait_Ok: "drain_wait step fl b n w es = Ret (Inr u) w' es' \<Longrightarrow> pending (fl w') = []"
  by (induction step fl b n w es rule: drain_wait.induct) (auto simp: Let_def split: if_splits)

lemma wait_pending_empty_Ok:
  "wait_pending_empty step fl b w es = Ret (Inr u) w' es' \<Longrightarrow> pending (fl w') = []"
  by (auto simp: wait_pending_empty_def dest: drain_wait_Ok split: if_splits)

lemma space_wait_le: "length (events_left (space_wait step fl needed n w es)) \<le> length es"
proof (induction es arbitrary: w n)
  case Nil
  show ?case by simp
next
  case (Cons e es)
  from Cons [of _ "step e w"] show ?case by (simp add: Let_def le_SucI)
qed

lemma space_wait_shorter: "space_wait step fl needed n w es = Ret r w' es' \<Longrightarrow> length es' < length es"
proof (induction es arbitrary: w n)
  case Nil
  then show ?case by simp
next
  case (Cons e es)
  from Cons.prems show ?case
    by (auto simp: Let_def less_SucI split: if_splits dest: Cons.IH)
qed

lemma wait_for_space_le: "length (events_left (wait_for_space step fl needed w es)) \<le> length es"
  by (simp add: wait_for_space_def space_wait_le)

lemma wait_for_space_shorter:
  "wait_for_space step fl needed w es = Ret (Inl e) w' es' \<Longrightarrow> length es' < length es"
  by (auto simp: wait_for_space_def dest: space_wait_shorter split: if_splits)

lemma drain_wait_shorter: "drain_wait step fl b n w es = Ret r w' es' \<Longrightarrow> length es' < length es"
proof (induction es arbitrary: w n)
  case Nil
  then show ?case by simp
next
  case (Cons e es)
  from Cons.prems show ?case
    by (auto simp: Let_def less_SucI split: if_splits dest: Cons.IH)
qed

lemma drain_wait_le: "length (events_left (drain_wait step fl b n w es)) \<le> length es"
proof (induction es arbitrary: w n)
  case Nil
  show ?case by simp
next
  case (Cons e es)
  from Cons [of _ "step e w"] show ?case by (simp add: Let_def le_SucI)
qed

lemma wait_pending_empty_le: "length (events_left (wait_pending_empty step fl b w es)) \<le> length es"
  by (simp add: wait_pending_empty_def drain_wait_le)

lemma wait_pending_empty_shorter:
  "wait_pending_empty step fl b w es = Ret (Inl e) w' es' \<Longrightarrow> length es' < length es"
  by (auto simp: wait_pending_empty_def dest: drain_wait_shorter split: if_splits)

context env_invariant
begin

lemma space_wait_kept: "P w \<Longrightarrow> list_all A es \<Longrightarrow> kept (space_wait step fl needed n w es)"
  by (induction es arbitrary: w n) (simp_all add: step_keeps Let_def)

lemma wait_for_space_kept: "P w \<Longrightarrow> list_all A es \<Longrightarrow> kept (wait_for_space step fl needed w es)"
  by (simp add: wait_for_space_def space_wait_kept)

lemma drain_wait_kept: "P w \<Longrightarrow> list_all A es \<Longrightarrow> kept (drain_wait step fl b n w es)"
  by (induction es arbitrary: w n) (simp_all add: step_keeps Let_def)

lemma wait_pending_empty_kept: "P w \<Longrightarrow> list_all A es \<Longrightarrow> kept (wait_pending_empty step fl b w es)"
  by (simp add: wait_pending_empty_def drain_wait_kept)

end

end
