(* ===== verification/Core_Session.thy ===== *)
theory Core_Session
  imports Core_Types
begin

text \<open>
  The session primitives of \<^verbatim>\<open>src/core/session.rs\<close> and the transport errors of
  \<^verbatim>\<open>src/core/transport/mod.rs\<close>. A session notifies its embedder through the trait
  \<^verbatim>\<open>SessionEvents\<close>; in the model each call appends one \<open>event\<close> to the session's event
  log, so that what is reported, and in which order, is part of the state.
\<close>

datatype event =
    StateChanged DeviceState
  | ConnectionStatus TransportStatus "string option"
  | CommandStatus TransportStatus "string option"
  | JobFinished
  | ProbeStatus string
  | WcsUpdated "string \<rightharpoonup> f64 \<times> f64 \<times> f64"
  | ConfigChanged string int
  | CommandDone int
  | RawRx string
  | RawTx string

datatype TransportError = TE_Connection string | TE_NotConnected

fun transport_error_msg :: "TransportError \<Rightarrow> string" where
  "transport_error_msg (TE_Connection m) = ''connection error: '' @ m"
| "transport_error_msg TE_NotConnected = ''not connected''"

datatype SessionError =
    Err_Connection string | Err_Timeout | Err_Device string | Err_BufferStall string | Err_Other string

fun session_error_msg :: "SessionError \<Rightarrow> string" where
  "session_error_msg (Err_Connection m) = m"
| "session_error_msg Err_Timeout = ''operation timed out''"
| "session_error_msg (Err_Device m) = m"
| "session_error_msg (Err_BufferStall m) = ''buffer stall: '' @ m"
| "session_error_msg (Err_Other m) = m"

fun session_error_from_transport :: "TransportError \<Rightarrow> SessionError" where
  "session_error_from_transport (TE_Connection m) = Err_Connection m"
| "session_error_from_transport TE_NotConnected = Err_Connection ''not connected''"

text \<open>
  \<^verbatim>\<open>AsyncEvent\<close> is a latch: the flag is the whole of what its clients can observe
  (\<^verbatim>\<open>wait\<close> returns only when the flag is set; that no wake-up is lost is shown in \<open>Latch\<close>).
\<close>

record AsyncEvent =
  ae_flag :: bool

definition AsyncEvent_new :: AsyncEvent where
  "AsyncEvent_new = \<lparr>ae_flag = False\<rparr>"

definition AsyncEvent_set :: "AsyncEvent \<Rightarrow> AsyncEvent" where
  "AsyncEvent_set e = e\<lparr>ae_flag := True\<rparr>"

definition AsyncEvent_clear :: "AsyncEvent \<Rightarrow> AsyncEvent" where
  "AsyncEvent_clear e = e\<lparr>ae_flag := False\<rparr>"

definition AsyncEvent_is_set :: "AsyncEvent \<Rightarrow> bool" where
  "AsyncEvent_is_set e = ae_flag e"

lemma AsyncEvent_simps [simp]:
  "\<not> AsyncEvent_is_set AsyncEvent_new"
  "AsyncEvent_is_set (AsyncEvent_set e)"
  "\<not> AsyncEvent_is_set (AsyncEvent_clear e)"
  by (simp_all add: AsyncEvent_new_def AsyncEvent_set_def AsyncEvent_clear_def AsyncEvent_is_set_def)

lemma AsyncEvent_set_idem [simp]:
  "AsyncEvent_is_set e \<Longrightarrow> AsyncEvent_set e = e"
  by (simp add: AsyncEvent_set_def AsyncEvent_is_set_def)

text \<open>The notifications of one kind in an event log.\<close>

definition commands_done :: "event list \<Rightarrow> int list" where
  "commands_done evs = List.map_filter (\<lambda>e. case e of CommandDone i \<Rightarrow> Some i | _ \<Rightarrow> None) evs"

definition jobs_finished :: "event list \<Rightarrow> nat" where
  "jobs_finished evs = length (filter (\<lambda>e. e = JobFinished) evs)"

lemma commands_done_append [simp]: "commands_done (a @ b) = commands_done a @ commands_done b"
  by (simp add: commands_done_def map_filter_def)

lemma commands_done_simps [simp]:
  "commands_done [] = []"
  "commands_done (CommandDone i # evs) = i # commands_done evs"
  "\<forall>i. e \<noteq> CommandDone i \<Longrightarrow> commands_done (e # evs) = commands_done evs"
  by (auto simp: commands_done_def map_filter_simps split: event.splits)

lemma commands_done_map_CommandDone [simp]: "commands_done (map CommandDone is) = is"
  by (induction "is") simp_all

lemma jobs_finished_append [simp]: "jobs_finished (a @ b) = jobs_finished a + jobs_finished b"
  by (simp add: jobs_finished_def)

lemma jobs_finished_simps [simp]:
  "jobs_finished [] = 0"
  "jobs_finished (JobFinished # evs) = Suc (jobs_finished evs)"
  "e \<noteq> JobFinished \<Longrightarrow> jobs_finished (e # evs) = jobs_finished evs"
  by (simp_all add: jobs_finished_def)

lemma jobs_finished_0: "JobFinished \<notin> set evs \<Longrightarrow> jobs_finished evs = 0"
  by (auto simp: jobs_finished_def filter_empty_conv)

end
