(* ===== verification/Transport.thy ===== *)
theory Transport
  imports Core_Session
begin

text \<open>
  The byte transports of \<^verbatim>\<open>src/core/transport/\<close>. What the operating system answers to an
  open or a write is environment: each stream transport carries the list of the answers its next
  calls get (\<open>None\<close> success, \<open>Some e\<close> an I/O error; an exhausted list means success), and a
  log of the chunks it has handed over, the wire. \<open>transport_iface\<close> is the contract the sessions
  rely on; the three transports and their dispatcher satisfy it.
\<close>

definition next_os :: "string option list \<Rightarrow> string option \<times> string option list" where
  "next_os os = (case os of [] \<Rightarrow> (None, []) | a # as \<Rightarrow> (a, as))"

subsection \<open>Serial port\<close>

record SerialTransport =
  ser_port :: string
  ser_baudrate :: int
  ser_open :: bool
  ser_writer :: bool
  ser_reader :: bool
  ser_wire :: "bytes list"
  ser_os :: "string option list"

definition serial_new :: "string \<Rightarrow> int \<Rightarrow> SerialTransport" where
  "serial_new port baudrate =
     \<lparr>ser_port = port, ser_baudrate = baudrate, ser_open = False, ser_writer = False,
      ser_reader = False, ser_wire = [], ser_os = []\<rparr>"

definition serial_open ::
  "SerialTransport \<Rightarrow> (TransportError, unit) result \<times> SerialTransport" where
  "serial_open t =
     (case next_os (ser_os t) of
        (Some e, os) \<Rightarrow> (Inl (TE_Connection e), t\<lparr>ser_os := os\<rparr>)
      | (None, os) \<Rightarrow>
          (Inr (), t\<lparr>ser_os := os, ser_writer := True, ser_reader := True, ser_open := True\<rparr>))"

definition serial_close :: "SerialTransport \<Rightarrow> SerialTransport" where
  "serial_close t = t\<lparr>ser_open := False, ser_reader := False, ser_writer := False\<rparr>"

definition serial_write ::
  "bytes \<Rightarrow> SerialTransport \<Rightarrow> (TransportError, unit) result \<times> SerialTransport" where
  "serial_write data t =
     (if \<not> ser_writer t then (Inl TE_NotConnected, t)
      else case next_os (ser_os t) of
        (None, os) \<Rightarrow> (Inr (), t\<lparr>ser_os := os, ser_wire := ser_wire t @ [data]\<rparr>)
      | (Some e, os) \<Rightarrow> (Inl (TE_Connection e), t\<lparr>ser_os := os, ser_open := False\<rparr>))"

definition serial_uri :: "SerialTransport \<Rightarrow> string" where
  "serial_uri t = ''serial://'' @ ser_port t"

text \<open>
  The reader task: it delivers what each read returns until a read returns nothing or an error,
  or the receiving session is gone. \<open>Inr d\<close> is a read of the bytes \<open>d\<close>, \<open>Inl e\<close> an error;
  the flag says whether the send of that chunk finds its receiver alive.
\<close>

fun serial_reader_loop :: "((string, bytes) result \<times> bool) list \<Rightarrow> bytes list" where
  "serial_reader_loop [] = []"
| "serial_reader_loop ((Inl e, alive) # reads) = []"
| "serial_reader_loop ((Inr d, alive) # reads) =
     (if d = [] then [] else if alive then d # serial_reader_loop reads else [])"

subsection \<open>Raw TCP\<close>

record TelnetTransport =
  tel_host :: string
  tel_port :: int
  tel_open :: bool
  tel_writer :: bool
  tel_reader :: bool
  tel_wire :: "bytes list"
  tel_os :: "string option list"

definition telnet_new :: "string \<Rightarrow> int \<Rightarrow> TelnetTransport" where
  "telnet_new host port =
     \<lparr>tel_host = host, tel_port = port, tel_open = False, tel_writer = False,
      tel_reader = False, tel_wire = [], tel_os = []\<rparr>"

definition telnet_open ::
  "TelnetTransport \<Rightarrow> (TransportError, unit) result \<times> TelnetTransport" where
  "telnet_open t =
     (case next_os (tel_os t) of
        (Some e, os) \<Rightarrow> (Inl (TE_Connection e), t\<lparr>tel_os := os\<rparr>)
      | (None, os) \<Rightarrow>
          (Inr (), t\<lparr>tel_os := os, tel_writer := True, tel_reader := True, tel_open := True\<rparr>))"

definition telnet_close :: "TelnetTransport \<Rightarrow> TelnetTransport" where
  "telnet_close t = t\<lparr>tel_open := False, tel_reader := False, tel_writer := False\<rparr>"

definition telnet_write ::
  "bytes \<Rightarrow> TelnetTransport \<Rightarrow> (TransportError, unit) result \<times> TelnetTransport" where
  "telnet_write data t =
     (if \<not> tel_writer t then (Inl TE_NotConnected, t)
      else case next_os (tel_os t) of
        (None, os) \<Rightarrow> (Inr (), t\<lparr>tel_os := os, tel_wire := tel_wire t @ [data]\<rparr>)
      | (Some e, os) \<Rightarrow> (Inl (TE_Connection e), t\<lparr>tel_os := os, tel_open := False\<rparr>))"

definition telnet_uri :: "TelnetTransport \<Rightarrow> string" where
  "telnet_uri t = ''tcp://'' @ tel_host t @ '':'' @ show_int (tel_port t)"

fun telnet_reader_loop :: "((string, bytes) result \<times> bool) list \<Rightarrow> bytes list" where
  "telnet_reader_loop [] = []"
| "telnet_reader_loop ((Inl e, alive) # reads) = []"
| "telnet_reader_loop ((Inr d, alive) # reads) =
     (if d = [] then [] else if alive then d # telnet_reader_loop reads else [])"

subsection \<open>Mock\<close>

record MockInner =
  mk_open :: bool
  mk_tx :: "bytes list option"    \<comment> \<open>the channel to the session with the chunks sent into it\<close>
  mk_sent :: "bytes list"
  mk_cursor :: nat
  mk_write_error :: "string option"

definition mock_new :: MockInner where
  "mock_new = \<lparr>mk_open = False, mk_tx = None, mk_sent = [], mk_cursor = 0, mk_write_error = None\<rparr>"

definition mock_push :: "bytes \<Rightarrow> MockInner \<Rightarrow> MockInner" where
  "mock_push data m = (case mk_tx m of None \<Rightarrow> m | Some q \<Rightarrow> m\<lparr>mk_tx := Some (q @ [data])\<rparr>)"

text \<open>The slice \<^verbatim>\<open>sent[cursor..]\<close> panics (\<open>None\<close>) when the cursor is past the end.\<close>

definition mock_take_new_sent :: "MockInner \<Rightarrow> (bytes list \<times> MockInner) option" where
  "mock_take_new_sent m =
     (if mk_cursor m \<le> length (mk_sent m)
      then Some (drop (mk_cursor m) (mk_sent m), m\<lparr>mk_cursor := length (mk_sent m)\<rparr>)
      else None)"

definition mock_clear_sent :: "MockInner \<Rightarrow> MockInner" where
  "mock_clear_sent m = m\<lparr>mk_sent := [], mk_cursor := 0\<rparr>"

definition mock_set_open :: "bool \<Rightarrow> MockInner \<Rightarrow> MockInner" where
  "mock_set_open b m = m\<lparr>mk_open := b\<rparr>"

definition mock_set_write_error :: "string option \<Rightarrow> MockInner \<Rightarrow> MockInner" where
  "mock_set_write_error e m = m\<lparr>mk_write_error := e\<rparr>"

definition mock_open :: "MockInner \<Rightarrow> (TransportError, unit) result \<times> MockInner" where
  "mock_open m = (Inr (), m\<lparr>mk_tx := Some [], mk_open := True\<rparr>)"

definition mock_close :: "MockInner \<Rightarrow> MockInner" where
  "mock_close m = m\<lparr>mk_open := False, mk_tx := None\<rparr>"

definition mock_write :: "bytes \<Rightarrow> MockInner \<Rightarrow> (TransportError, unit) result \<times> MockInner" where
  "mock_write data m =
     (if \<not> mk_open m then (Inl TE_NotConnected, m)
      else case mk_write_error m of
        Some e \<Rightarrow> (Inl (TE_Connection e), m\<lparr>mk_open := False\<rparr>)
      | None \<Rightarrow> (Inr (), m\<lparr>mk_sent := mk_sent m @ [data]\<rparr>))"

subsection \<open>Dispatch\<close>

datatype TransportKind =
    Serial string int | Telnet string int | Mock MockInner

datatype Transport = TSerial SerialTransport | TTelnet TelnetTransport | TMock MockInner

fun build :: "TransportKind \<Rightarrow> Transport" where
  "build (Serial port baudrate) = TSerial (serial_new port baudrate)"
| "build (Telnet host port) = TTelnet (telnet_new host port)"
| "build (Mock inner) = TMock inner"

definition via :: "('a \<Rightarrow> Transport) \<Rightarrow> 'r \<times> 'a \<Rightarrow> 'r \<times> Transport" where
  "via C p = (case p of (r, a) \<Rightarrow> (r, C a))"

fun tr_open :: "Transport \<Rightarrow> (TransportError, unit) result \<times> Transport" where
  "tr_open (TSerial t) = via TSerial (serial_open t)"
| "tr_open (TTelnet t) = via TTelnet (telnet_open t)"
| "tr_open (TMock m) = via TMock (mock_open m)"

fun tr_close :: "Transport \<Rightarrow> Transport" where
  "tr_close (TSerial t) = TSerial (serial_close t)"
| "tr_close (TTelnet t) = TTelnet (telnet_close t)"
| "tr_close (TMock m) = TMock (mock_close m)"

fun tr_write :: "bytes \<Rightarrow> Transport \<Rightarrow> (TransportError, unit) result \<times> Transport" where
  "tr_write d (TSerial t) = via TSerial (serial_write d t)"
| "tr_write d (TTelnet t) = via TTelnet (telnet_write d t)"
| "tr_write d (TMock m) = via TMock (mock_write d m)"

fun tr_is_open :: "Transport \<Rightarrow> bool" where
  "tr_is_open (TSerial t) = ser_open t"
| "tr_is_open (TTelnet t) = tel_open t"
| "tr_is_open (TMock m) = mk_open m"

fun resource_uri :: "Transport \<Rightarrow> string option" where
  "resource_uri (TSerial t) = Some (serial_uri t)"
| "resource_uri (TTelnet t) = Some (telnet_uri t)"
| "resource_uri (TMock m) = None"

text \<open>The chunks handed to the device so far.\<close>

fun tr_wire :: "Transport \<Rightarrow> bytes list" where
  "tr_wire (TSerial t) = ser_wire t"
| "tr_wire (TTelnet t) = tel_wire t"
| "tr_wire (TMock m) = mk_sent m"

text \<open>An open stream transport holds a writer; the mock's cursor stays inside its log.\<close>

definition serial_inv :: "SerialTransport \<Rightarrow> bool" where
  "serial_inv t = (ser_open t \<longrightarrow> ser_writer t)"

definition telnet_inv :: "TelnetTransport \<Rightarrow> bool" where
  "telnet_inv t = (tel_open t \<longrightarrow> tel_writer t)"

definition mock_inv :: "MockInner \<Rightarrow> bool" where
  "mock_inv m = (mk_cursor m \<le> length (mk_sent m))"

fun tr_inv :: "Transport \<Rightarrow> bool" where
  "tr_inv (TSerial t) = serial_inv t"
| "tr_inv (TTelnet t) = telnet_inv t"
| "tr_inv (TMock m) = mock_inv m"

text \<open>
  Best-effort transmission of a list of chunks: stop when the link is down, otherwise write and
  go on whatever the write returned. Every safety shutdown is such a loop.
\<close>

fun write_each ::
  "('t \<Rightarrow> bool) \<Rightarrow> (bytes \<Rightarrow> 't \<Rightarrow> (TransportError, unit) result \<times> 't) \<Rightarrow> bytes list \<Rightarrow> 't \<Rightarrow> 't"
where
  "write_each is_open wr [] t = t"
| "write_each is_open wr (d # ds) t =
     (if \<not> is_open t then t else write_each is_open wr ds (snd (wr d t)))"

subsection \<open>The contract\<close>

locale transport_iface =
  fixes is_open :: "'t \<Rightarrow> bool"
    and wr :: "bytes \<Rightarrow> 't \<Rightarrow> (TransportError, unit) result \<times> 't"
    and op :: "'t \<Rightarrow> (TransportError, unit) result \<times> 't"
    and cl :: "'t \<Rightarrow> 't"
    and wire :: "'t \<Rightarrow> bytes list"
    and inv :: "'t \<Rightarrow> bool"
  assumes write_ok: "inv t \<Longrightarrow> wr d t = (Inr u, t') \<Longrightarrow>
            wire t' = wire t @ [d] \<and> is_open t' = is_open t \<and> inv t'"
    and write_err: "inv t \<Longrightarrow> wr d t = (Inl e, t') \<Longrightarrow> wire t' = wire t \<and> \<not> is_open t' \<and> inv t'"
    and open_ok: "inv t \<Longrightarrow> op t = (Inr u, t') \<Longrightarrow> is_open t' \<and> wire t' = wire t \<and> inv t'"
    and open_err: "inv t \<Longrightarrow> op t = (Inl e, t') \<Longrightarrow>
            is_open t' = is_open t \<and> wire t' = wire t \<and> inv t'"
    and close_closed: "\<not> is_open (cl t)"
    and close_frame: "inv t \<Longrightarrow> wire (cl t) = wire t \<and> inv (cl t)"
    and write_closed: "wr d (cl t) = (Inl TE_NotConnected, cl t)"
begin

lemma write_cases:
  assumes "inv t"
  shows "inv (snd (wr d t)) \<and>
    ((fst (wr d t) = Inr () \<and> wire (snd (wr d t)) = wire t @ [d] \<and> is_open (snd (wr d t)) = is_open t)
     \<or> (\<exists>e. fst (wr d t) = Inl e \<and> wire (snd (wr d t)) = wire t \<and> \<not> is_open (snd (wr d t))))"
proof (cases "wr d t")
  case (Pair r t')
  show ?thesis
  proof (cases r)
    case (Inl e)
    with Pair write_err [OF assms, of d e t'] show ?thesis by simp
  next
    case (Inr u)
    with Pair write_ok [OF assms, of d u t'] show ?thesis by simp
  qed
qed

lemma write_each_stopped: "\<not> is_open t \<Longrightarrow> write_each is_open wr ds t = t"
  by (cases ds) simp_all

lemma write_each_inv: "inv t \<Longrightarrow> inv (write_each is_open wr ds t)"
  by (induction ds arbitrary: t) (auto simp: write_cases)

text \<open>Whatever fails on the way, the device receives a prefix of the list, in order.\<close>

lemma write_each_prefix:
  "inv t \<Longrightarrow> \<exists>k. wire (write_each is_open wr ds t) = wire t @ take k ds"
proof (induction ds arbitrary: t)
  case Nil
  show ?case by simp
next
  case (Cons d ds)
  show ?case
  proof (cases "is_open t")
    case False
    then show ?thesis by (auto intro: exI [of _ 0])
  next
    case True
    let ?t = "snd (wr d t)"
    from write_cases [OF Cons.prems, of d] have inv: "inv ?t" by simp
    from Cons.IH [OF inv] obtain k where
      k: "wire (write_each is_open wr ds ?t) = wire ?t @ take k ds" by blast
    from write_cases [OF Cons.prems, of d] consider
      "wire ?t = wire t @ [d]" | "wire ?t = wire t" "\<not> is_open ?t" by auto
    then show ?thesis
    proof cases
      case 1
      with k True show ?thesis by (auto intro: exI [of _ "Suc k"])
    next
      case 2
      with True show ?thesis by (auto simp: write_each_stopped intro: exI [of _ 0])
    qed
  qed
qed

text \<open>If the link is still up afterwards, the device received all of it.\<close>

lemma write_each_all:
  "inv t \<Longrightarrow> is_open (write_each is_open wr ds t) \<Longrightarrow>
     wire (write_each is_open wr ds t) = wire t @ ds"
proof (induction ds arbitrary: t)
  case Nil
  show ?case by simp
next
  case (Cons d ds)
  let ?t = "snd (wr d t)"
  from Cons.prems have open_t: "is_open t" by (auto split: if_splits)
  from write_cases [OF Cons.prems(1), of d] have inv: "inv ?t" by simp
  from Cons.prems open_t have up: "is_open (write_each is_open wr ds ?t)" by simp
  then have "is_open ?t" using write_each_stopped by fastforce
  with write_cases [OF Cons.prems(1), of d] have "wire ?t = wire t @ [d]" by auto
  with Cons.IH [OF inv up] open_t show ?case by simp
qed

end

lemma serial_iface: "transport_iface ser_open serial_write serial_open serial_close ser_wire serial_inv"
  by unfold_locales
     (auto simp: serial_write_def serial_open_def serial_close_def serial_inv_def next_os_def
           split: if_splits list.splits option.splits)

lemma telnet_iface: "transport_iface tel_open telnet_write telnet_open telnet_close tel_wire telnet_inv"
  by unfold_locales
     (auto simp: telnet_write_def telnet_open_def telnet_close_def telnet_inv_def next_os_def
           split: if_splits list.splits option.splits)

lemma mock_iface: "transport_iface mk_open mock_write mock_open mock_close mk_sent mock_inv"
  by unfold_locales
     (auto simp: mock_write_def mock_open_def mock_close_def mock_inv_def
           split: if_splits option.splits)

interpretation serial: transport_iface ser_open serial_write serial_open serial_close ser_wire serial_inv
  by (rule serial_iface)

interpretation telnet: transport_iface tel_open telnet_write telnet_open telnet_close tel_wire telnet_inv
  by (rule telnet_iface)

interpretation mock: transport_iface mk_open mock_write mock_open mock_close mk_sent mock_inv
  by (rule mock_iface)

text \<open>The dispatcher inherits the contract from whichever transport it holds.\<close>

lemma via_eq: "via C p = (r, t) \<longleftrightarrow> (\<exists>a. p = (r, a) \<and> t = C a)"
  by (cases p) (auto simp: via_def)

interpretation tr: transport_iface tr_is_open tr_write tr_open tr_close tr_wire tr_inv
proof
  fix t t' :: Transport and d e and u :: unit
  show "tr_inv t \<Longrightarrow> tr_write d t = (Inr u, t') \<Longrightarrow>
      tr_wire t' = tr_wire t @ [d] \<and> tr_is_open t' = tr_is_open t \<and> tr_inv t'"
    by (cases t) (auto simp: via_eq dest: serial.write_ok telnet.write_ok mock.write_ok)
  show "tr_inv t \<Longrightarrow> tr_write d t = (Inl e, t') \<Longrightarrow>
      tr_wire t' = tr_wire t \<and> \<not> tr_is_open t' \<and> tr_inv t'"
    by (cases t) (auto simp: via_eq dest: serial.write_err telnet.write_err mock.write_err)
  show "tr_inv t \<Longrightarrow> tr_open t = (Inr u, t') \<Longrightarrow> tr_is_open t' \<and> tr_wire t' = tr_wire t \<and> tr_inv t'"
    by (cases t) (auto simp: via_eq dest: serial.open_ok telnet.open_ok mock.open_ok)
  show "tr_inv t \<Longrightarrow> tr_open t = (Inl e, t') \<Longrightarrow>
      tr_is_open t' = tr_is_open t \<and> tr_wire t' = tr_wire t \<and> tr_inv t'"
    by (cases t) (auto simp: via_eq dest: serial.open_err telnet.open_err mock.open_err)
  show "\<not> tr_is_open (tr_close t)"
    by (cases t) (simp_all add: serial.close_closed telnet.close_closed mock.close_closed)
  show "tr_inv t \<Longrightarrow> tr_wire (tr_close t) = tr_wire t \<and> tr_inv (tr_close t)"
    by (cases t) (simp_all add: serial.close_frame telnet.close_frame mock.close_frame)
  show "tr_write d (tr_close t) = (Inl TE_NotConnected, tr_close t)"
    by (cases t) (simp_all add: via_def serial.write_closed telnet.write_closed mock.write_closed)
qed

lemma tr_inv_build: "(\<And>m. k = Mock m \<Longrightarrow> mock_inv m) \<Longrightarrow> tr_inv (build k)"
  by (cases k) (auto simp: serial_inv_def telnet_inv_def serial_new_def telnet_new_def)

end
