(* ===== verification/Dialect.thy ===== *)
theory Dialect
  imports F64 "HOL-Library.AList"
begin

text \<open>
  Dialect command templates (\<^verbatim>\<open>src/core/dialect.rs\<close>): the template record, its construction
  from a dictionary, argument rendering and template formatting. A formatting error is the
  \<^verbatim>\<open>Err\<close> string of the source; the \<^verbatim>\<open>expect\<close> of \<open>format_wcs_offset\<close> is a panic,
  the value \<open>None\<close>.
\<close>

record Dialect =
  home_all :: string
  home_axis :: string
  move_to_tmpl :: string
  jog_tmpl :: string
  clear_alarm :: string
  laser_on :: string
  laser_off :: string
  focus_laser_on :: string
  tool_change :: string
  set_wcs_offset_tmpl :: string
  probe_cycle :: string
  safety_off_commands :: "string list"
  emergency_stop :: "string option"

definition Dialect_default :: Dialect where
  "Dialect_default =
     \<lparr>home_all = ''$H'',
      home_axis = ''$H{axis_letter}'',
      move_to_tmpl = ''$J=G90 G21 F{speed} X{x} Y{y}'',
      jog_tmpl = ''$J=G91 G21 F{speed}'',
      clear_alarm = ''$X'',
      laser_on = ''M4 S{power:.0f}'',
      laser_off = ''M5'',
      focus_laser_on = ''M3 S{power:.0f}'',
      tool_change = ''T{tool_number}'',
      set_wcs_offset_tmpl = ''G10 L2 P{p_num} X{x} Y{y} Z{z}'',
      probe_cycle = ''G38.2 {axis_letter}{max_travel} F{feed_rate}'',
      safety_off_commands = [''M5''],
      emergency_stop = None\<rparr>"

text \<open>One \<^verbatim>\<open>if let Some(v) = get(key)\<close> of \<^verbatim>\<open>from_map\<close>.\<close>

definition override :: "(string \<rightharpoonup> string) \<Rightarrow> string \<Rightarrow> string \<Rightarrow> string" where
  "override m key dflt = (case m key of Some v \<Rightarrow> v | None \<Rightarrow> dflt)"

definition from_map :: "(string \<rightharpoonup> string) \<Rightarrow> Dialect" where
  "from_map m =
     (let d = Dialect_default in
      d\<lparr>home_all := override m ''home_all'' (home_all d),
        home_axis := override m ''home_axis'' (home_axis d),
        move_to_tmpl := override m ''move_to'' (move_to_tmpl d),
        jog_tmpl := override m ''jog'' (jog_tmpl d),
        clear_alarm := override m ''clear_alarm'' (clear_alarm d),
        laser_on := override m ''laser_on'' (laser_on d),
        laser_off := override m ''laser_off'' (laser_off d),
        focus_laser_on := override m ''focus_laser_on'' (focus_laser_on d),
        tool_change := override m ''tool_change'' (tool_change d),
        set_wcs_offset_tmpl := override m ''set_wcs_offset'' (set_wcs_offset_tmpl d),
        probe_cycle := override m ''probe_cycle'' (probe_cycle d),
        emergency_stop := (case m ''emergency_stop'' of Some v \<Rightarrow> Some v | None \<Rightarrow> emergency_stop d)\<rparr>)"

subsection \<open>Arguments\<close>

datatype Arg = Length f64 | Speed f64 | IntArg int | StrArg string

definition f64_1e16 :: f64 where
  "f64_1e16 = f64_of_int (10 ^ 16)"

text \<open>\<^verbatim>\<open>v.is_finite() && v.fract() == 0.0 && v.abs() < 1e16\<close>.\<close>

definition whole_number :: "f64 \<Rightarrow> bool" where
  "whole_number v = (is_finite v \<and> fract_zero v \<and> flt (fabs v) f64_1e16)"

definition python_float_repr :: "f64 \<Rightarrow> string" where
  "python_float_repr v = (if whole_number v then show_fixed 1 v else show_f64 v)"

fun render_plain :: "Arg \<Rightarrow> string" where
  "render_plain (Length v) = python_float_repr v"
| "render_plain (Speed v) = (if whole_number v then show_int (f64_to_i64 v) else show_f64 v)"
| "render_plain (IntArg v) = show_int v"
| "render_plain (StrArg v) = v"

text \<open>The digits of a \<^verbatim>\<open>.Nf\<close> specification, if it has that shape.\<close>

definition fixed_spec :: "string \<Rightarrow> string option" where
  "fixed_spec spec = Option.bind (strip_prefix ''.'' spec) (strip_suffix ''f'')"

definition render_num :: "string \<Rightarrow> f64 \<Rightarrow> string" where
  "render_num spec num =
     (case fixed_spec spec of
        Some digits \<Rightarrow>
          (case parse_usize digits of
             Some n \<Rightarrow> show_fixed (nat n) num
           | None \<Rightarrow> show_f64 num)
      | None \<Rightarrow> show_f64 num)"

fun render :: "Arg \<Rightarrow> string option \<Rightarrow> string" where
  "render a None = render_plain a"
| "render (Length v) (Some spec) = render_num spec v"
| "render (Speed v) (Some spec) = render_num spec v"
| "render (IntArg v) (Some spec) = render_num spec (f64_of_int v)"
| "render (StrArg v) (Some spec) = []"

subsection \<open>Templates\<close>

text \<open>
  \<^verbatim>\<open>{template:?}\<close> in the error message: quotes, backslashes and control characters escaped
  (exact on ASCII; other bytes are copied).
\<close>

definition debug_char :: "char \<Rightarrow> string" where
  "debug_char c =
     (if c = CHR 0x22 then [CHR 0x5C, CHR 0x22]
      else if c = CHR 0x5C then [CHR 0x5C, CHR 0x5C]
      else if c = LF then [CHR 0x5C, CHR ''n'']
      else if c = CR then [CHR 0x5C, CHR ''r'']
      else if c = CHR 0x09 then [CHR 0x5C, CHR ''t'']
      else if c = NUL then [CHR 0x5C, CHR ''0'']
      else [c])"

definition debug_str :: "string \<Rightarrow> string" where
  "debug_str s = CHR 0x22 # concat (map debug_char s) @ [CHR 0x22]"

definition unterminated_msg :: "string \<Rightarrow> string" where
  "unterminated_msg template = ''unterminated placeholder in template '' @ debug_str template"

definition no_value_msg :: "string \<Rightarrow> string" where
  "no_value_msg name = ''no value for placeholder {'' @ name @ ''}''"

definition placeholder_parts :: "string \<Rightarrow> string \<times> string option" where
  "placeholder_parts p = (case split_once CHR '':'' p of Some (n, s) \<Rightarrow> (n, Some s) | None \<Rightarrow> (p, None))"

text \<open>The loop of \<^verbatim>\<open>format_template\<close>: what is still to be formatted, and what is out.\<close>

function format_loop :: "string \<Rightarrow> (string \<times> Arg) list \<Rightarrow> string \<Rightarrow> string \<Rightarrow> (string, string) result" where
  "format_loop template args rest out =
     (case split_once CHR ''{'' rest of
        None \<Rightarrow> Inr (out @ rest)
      | Some (before, after) \<Rightarrow>
          (case split_once CHR ''}'' after of
             None \<Rightarrow> Inl (unterminated_msg template)
           | Some (placeholder, rest') \<Rightarrow>
               (case map_of args (fst (placeholder_parts placeholder)) of
                  None \<Rightarrow> Inl (no_value_msg (fst (placeholder_parts placeholder)))
                | Some arg \<Rightarrow>
                    format_loop template args rest'
                      (out @ before @ render arg (snd (placeholder_parts placeholder))))))"
  by pat_completeness auto
termination
  by (relation "measure (\<lambda>(template, args, rest, out). length rest)")
     (auto dest!: split_once_Some)

declare format_loop.simps [simp del]

definition format_template :: "string \<Rightarrow> (string \<times> Arg) list \<Rightarrow> (string, string) result" where
  "format_template template args = format_loop template args template []"

definition wcs_template :: "Dialect \<Rightarrow> f64 option \<Rightarrow> string" where
  "wcs_template d z =
     (if z = None
      then trim (replace_all ''Z{z}'' '' '' (replace_all '' Z{z}'' [] (set_wcs_offset_tmpl d)))
      else set_wcs_offset_tmpl d)"

definition format_wcs_offset :: "Dialect \<Rightarrow> int \<Rightarrow> f64 \<Rightarrow> f64 \<Rightarrow> f64 option \<Rightarrow> string option" where
  "format_wcs_offset d p_num x y z =
     (case format_template (wcs_template d z)
             [(''p_num'', IntArg p_num), (''x'', Length x), (''y'', Length y),
              (''z'', Length (case z of Some v \<Rightarrow> v | None \<Rightarrow> f64_zero))] of
        Inr cmd \<Rightarrow> Some cmd
      | Inl _ \<Rightarrow> None)"

subsection \<open>What formatting means\<close>

text \<open>
  The abstract view of a template: literal text and placeholders. Formatting is the homomorphism
  that keeps the text and renders the placeholders.
\<close>

datatype seg = Text string | Hole string "string option"

fun seg_src :: "seg \<Rightarrow> string" where
  "seg_src (Text t) = t"
| "seg_src (Hole n None) = ''{'' @ n @ ''}''"
| "seg_src (Hole n (Some s)) = ''{'' @ n @ '':'' @ s @ ''}''"

fun seg_wf :: "seg \<Rightarrow> bool" where
  "seg_wf (Text t) = (CHR ''{'' \<notin> set t)"
| "seg_wf (Hole n s) =
     (CHR ''}'' \<notin> set n \<and> CHR '':'' \<notin> set n \<and>
      (case s of None \<Rightarrow> True | Some t \<Rightarrow> CHR ''}'' \<notin> set t))"

fun seg_out :: "(string \<times> Arg) list \<Rightarrow> seg \<Rightarrow> string option" where
  "seg_out args (Text t) = Some t"
| "seg_out args (Hole n s) = map_option (\<lambda>a. render a s) (map_of args n)"

lemma format_loop_no_brace: "CHR ''{'' \<notin> set rest \<Longrightarrow> format_loop t args rest out = Inr (out @ rest)"
  by (simp add: format_loop.simps [of t args rest] split_once_None_iff [THEN iffD2])

lemma format_loop_text:
  assumes "CHR ''{'' \<notin> set w"
  shows "format_loop t args (w @ rest) out = format_loop t args rest (out @ w)"
proof (cases "split_once CHR ''{'' rest")
  case None
  with assms have "CHR ''{'' \<notin> set (w @ rest)" by (simp add: split_once_None_iff)
  with None show ?thesis by (simp add: format_loop_no_brace split_once_None_iff)
next
  case (Some ba)
  then obtain b a where ba: "split_once CHR ''{'' rest = Some (b, a)" by (cases ba) auto
  with assms have "split_once CHR ''{'' (w @ rest) = Some (w @ b, a)"
    using split_once_Some [OF ba] split_once_hit [of "CHR ''{''" "w @ b" a] by simp
  with ba show ?thesis by (simp add: format_loop.simps [of t args rest] format_loop.simps [of t args "w @ rest"]
        split: option.splits)
qed

lemma format_loop_hole:
  assumes "seg_wf (Hole n s)"
  shows "format_loop t args (seg_src (Hole n s) @ rest) out =
    (case map_of args n of None \<Rightarrow> Inl (no_value_msg n)
     | Some a \<Rightarrow> format_loop t args rest (out @ render a s))"
proof -
  define p where "p = (case s of None \<Rightarrow> n | Some q \<Rightarrow> n @ '':'' @ q)"
  have src: "seg_src (Hole n s) @ rest = [] @ CHR ''{'' # (p @ CHR ''}'' # rest)"
    by (cases s) (simp_all add: p_def)
  have no: "CHR ''}'' \<notin> set p" using assms by (auto simp: p_def split: option.splits)
  have parts: "placeholder_parts p = (n, s)"
    using assms split_once_hit [of "CHR '':''" n] split_once_None_iff [of "CHR '':''" n]
    by (cases s) (simp_all add: p_def placeholder_parts_def)
  have s1: "split_once CHR ''{'' (seg_src (Hole n s) @ rest) = Some ([], p @ CHR ''}'' # rest)"
    unfolding src by (rule split_once_hit) simp
  show ?thesis
    using parts by (simp only: format_loop.simps [of t args "seg_src (Hole n s) @ rest"] s1
        split_once_hit [OF no] option.case prod.case) (simp split: option.splits)
qed

text \<open>The name of the first placeholder the arguments do not bind.\<close>

fun first_missing :: "(string \<times> Arg) list \<Rightarrow> seg list \<Rightarrow> string option" where
  "first_missing args [] = None"
| "first_missing args (Text t # segs) = first_missing args segs"
| "first_missing args (Hole n s # segs) =
     (if map_of args n = None then Some n else first_missing args segs)"

text \<open>What formatting the segments, then a tail, comes to.\<close>

definition format_ref :: "(string \<times> Arg) list \<Rightarrow> seg list \<Rightarrow> (string, string) result \<Rightarrow> (string, string) result" where
  "format_ref args segs tail_res =
     (case first_missing args segs of
        Some n \<Rightarrow> Inl (no_value_msg n)
      | None \<Rightarrow> map_sum id (\<lambda>w. concat (map (the \<circ> seg_out args) segs) @ w) tail_res)"

definition tail_ref :: "string \<Rightarrow> string \<Rightarrow> (string, string) result" where
  "tail_ref template u = (if u = [] then Inr [] else Inl (unterminated_msg template))"

definition open_tail :: "string \<Rightarrow> bool" where
  "open_tail u = (u = [] \<or> (\<exists>v. u = CHR ''{'' # v \<and> CHR ''}'' \<notin> set v))"

lemma format_loop_tail:
  "open_tail u \<Longrightarrow> format_loop t args u out = map_sum id (\<lambda>w. out @ w) (tail_ref t u)"
proof (unfold open_tail_def, elim disjE exE conjE)
  assume "u = []"
  then show ?thesis by (simp add: format_loop_no_brace tail_ref_def)
next
  fix v assume u: "u = CHR ''{'' # v" "CHR ''}'' \<notin> set v"
  have "split_once CHR ''{'' u = Some ([], v)" unfolding u using split_once_hit [of "CHR ''{''" "[]" v] by simp
  moreover have "split_once CHR ''}'' v = None" using u(2) by (simp add: split_once_None_iff)
  ultimately show ?thesis by (simp add: u(1) format_loop.simps [of t args "CHR ''{'' # v"] tail_ref_def)
qed

lemma format_loop_ref:
  assumes "open_tail u"
  shows "list_all seg_wf segs \<Longrightarrow>
    format_loop t args (concat (map seg_src segs) @ u) out =
      map_sum id (\<lambda>w. out @ w) (format_ref args segs (tail_ref t u))"
proof (induction segs arbitrary: out)
  case Nil
  with assms show ?case
    by (cases "tail_ref t u") (simp_all add: format_loop_tail format_ref_def)
next
  case (Cons s segs)
  from Cons.prems have wf: "seg_wf s" "list_all seg_wf segs" by simp_all
  note IH = Cons.IH [OF wf(2)]
  have shift: "map_sum id (\<lambda>w. (out @ a) @ w) (format_ref args segs r) =
      map_sum id (\<lambda>w. out @ w) (map_sum id (\<lambda>w. a @ w) (format_ref args segs r))" for a r
    by (cases "format_ref args segs r") simp_all
  show ?case
  proof (cases s)
    case (Text w)
    with wf IH [of "out @ w"] show ?thesis
      by (simp add: format_loop_text shift)
        (simp add: format_ref_def sum.map_comp o_def split: option.splits)
  next
    case (Hole n q)
    with wf format_loop_hole [of n q t args "concat (map seg_src segs) @ u" out]
    have "format_loop t args (concat (map seg_src (s # segs)) @ u) out =
      (case map_of args n of None \<Rightarrow> Inl (no_value_msg n)
       | Some a \<Rightarrow> format_loop t args (concat (map seg_src segs) @ u) (out @ render a q))"
      by simp
    also have "\<dots> = map_sum id (\<lambda>w. out @ w) (format_ref args (s # segs) (tail_ref t u))"
      using Hole IH
      by (cases "map_of args n")
        (simp_all add: shift, simp_all add: format_ref_def sum.map_comp o_def split: option.splits)
    finally show ?thesis .
  qed
qed

text \<open>Every template is well-formed segments followed by an open tail.\<close>

lemma template_decomposes:
  "\<exists>segs u. list_all seg_wf segs \<and> open_tail u \<and> t = concat (map seg_src segs) @ u"
proof (induction "length t" arbitrary: t rule: less_induct)
  case less
  show ?case
  proof (cases "split_once CHR ''{'' t")
    case None
    then have "list_all seg_wf [Text t] \<and> open_tail [] \<and> t = concat (map seg_src [Text t]) @ []"
      by (simp add: split_once_None_iff open_tail_def)
    then show ?thesis by blast
  next
    case (Some ba)
    then obtain b a where t: "t = b @ CHR ''{'' # a" "CHR ''{'' \<notin> set b"
      by (cases ba) (auto dest: split_once_Some)
    show ?thesis
    proof (cases "split_once CHR ''}'' a")
      case None
      with t have "list_all seg_wf [Text b] \<and> open_tail (CHR ''{'' # a) \<and>
          t = concat (map seg_src [Text b]) @ CHR ''{'' # a"
        by (simp add: split_once_None_iff open_tail_def)
      then show ?thesis by blast
    next
      case (Some pr)
      then obtain p r where a: "a = p @ CHR ''}'' # r" "CHR ''}'' \<notin> set p"
        by (cases pr) (auto dest: split_once_Some)
      obtain h where h: "seg_wf h" "seg_src h = ''{'' @ p @ ''}''"
      proof (cases "split_once CHR '':'' p")
        case None
        with a(2) that [of "Hole p None"] show ?thesis by (simp add: split_once_None_iff)
      next
        case (Some ns)
        then obtain n s where "p = n @ CHR '':'' # s" "CHR '':'' \<notin> set n"
          by (cases ns) (auto dest: split_once_Some)
        with a(2) that [of "Hole n (Some s)"] show ?thesis by simp
      qed
      have "length r < length t" using t a by simp
      from less [OF this] obtain segs u where IH: "list_all seg_wf segs" "open_tail u"
        "r = concat (map seg_src segs) @ u" by blast
      then have "list_all seg_wf (Text b # h # segs) \<and> open_tail u \<and>
          t = concat (map seg_src (Text b # h # segs)) @ u"
        using t a h by simp
      then show ?thesis by blast
    qed
  qed
qed

lemma format_template_ref:
  assumes "list_all seg_wf segs" "open_tail u"
  shows "format_template (concat (map seg_src segs) @ u) args =
    format_ref args segs (tail_ref (concat (map seg_src segs) @ u) u)"
  unfolding format_template_def format_loop_ref [OF assms(2,1)]
  by (cases "format_ref args segs (tail_ref (concat (map seg_src segs) @ u) u)") simp_all

text \<open>
  C31: \<open>format_template\<close> is the homomorphism its template describes. Every template is a sequence
  of literal texts and closed placeholders, possibly followed by an opening brace that is never
  closed. For every such decomposition, formatting keeps the texts, renders each placeholder
  with the argument bound to its name and its format specification, and fails exactly on the first
  placeholder no argument binds or, if all are bound, on the unclosed brace.
\<close>

theorem format_template_homomorphic:
  "(\<exists>segs u. list_all seg_wf segs \<and> open_tail u \<and> template = concat (map seg_src segs) @ u) \<and>
   (\<forall>segs u. list_all seg_wf segs \<and> open_tail u \<and> template = concat (map seg_src segs) @ u \<longrightarrow>
     format_template template args = format_ref args segs (tail_ref template u))"
  using template_decomposes format_template_ref by blast

theorem format_template_homomorphic_witness:
  "format_template ''$J=F{speed} X{x:.2f}'' [(''speed'', IntArg 1200), (''x'', StrArg ''a'')] = Inr ''$J=F1200 X'' \<and>
   format_template ''X{x} Y{y}'' [(''x'', IntArg 3)] = Inl ''no value for placeholder {y}''"
proof -
  have a: "format_template ''$J=F{speed} X{x:.2f}'' [(''speed'', IntArg 1200), (''x'', StrArg ''a'')] =
      format_ref [(''speed'', IntArg 1200), (''x'', StrArg ''a'')]
        [Text ''$J=F'', Hole ''speed'' None, Text '' X'', Hole ''x'' (Some ''.2f'')]
        (tail_ref ''$J=F{speed} X{x:.2f}'' [])"
    using format_template_homomorphic
      [of "''$J=F{speed} X{x:.2f}''" "[(''speed'', IntArg 1200), (''x'', StrArg ''a'')]",
       THEN conjunct2, rule_format,
       of "[Text ''$J=F'', Hole ''speed'' None, Text '' X'', Hole ''x'' (Some ''.2f'')]" "[]"]
    by (simp add: open_tail_def)
  have b: "format_template ''X{x} Y{y}'' [(''x'', IntArg 3)] =
      format_ref [(''x'', IntArg 3)] [Text ''X'', Hole ''x'' None, Text '' Y'', Hole ''y'' None]
        (tail_ref ''X{x} Y{y}'' [])"
    using format_template_homomorphic [of "''X{x} Y{y}''" "[(''x'', IntArg 3)]",
       THEN conjunct2, rule_format,
       of "[Text ''X'', Hole ''x'' None, Text '' Y'', Hole ''y'' None]" "[]"]
    by (simp add: open_tail_def)
  show ?thesis unfolding a b by code_simp
qed

end
