(* ===== verification/Grbl_Session.thy ===== *)
theory Grbl_Session
  imports Grbl_Parser Flow_Wait Transport Dialect
begin

text \<open>
  The full GRBL session, \<^verbatim>\<open>src/grbl/session.rs\<close>: its state and the handlers that run when
  bytes arrive. \<open>GrblCore\<close> is \<^verbatim>\<open>SessionCore\<close> with the locks and atomics left out: a handler
  runs between two suspension points and is one function of the model. Requests are shared between
  tasks, so they live in a store (\<open>g_requests\<close>) and are named by their index; the same holds for the
  completion flags of the streaming tasks (\<open>g_stream_done\<close>). Notifications are appended to
  \<open>g_events\<close>, what is written goes to the wire of \<open>g_transport\<close>. Log messages are not modelled.
\<close>

section \<open>Configuration and state\<close>

record SessionConfig =
  cfg_transport :: TransportKind
  cfg_poll_status_while_running :: bool
  cfg_deadlock_detection :: bool
  cfg_rx_buffer_size_override :: int
  cfg_cached_rx_buffer_size :: "int option"
  cfg_stall_timeout_min :: f64
  cfg_stall_timeout_max :: f64
  cfg_stall_timeout_safety_factor :: f64
  cfg_stall_timeout_default :: f64
  cfg_safety_shutdown_delay :: f64
  cfg_unanswered_poll_limit :: nat
  cfg_poll_response_attempts :: nat
  cfg_poll_response_interval :: f64
  cfg_handshake_timeout :: f64
  cfg_handshake_poll_interval :: f64
  cfg_status_poll_interval :: f64
  cfg_reconnect_delay :: f64
  cfg_command_timeout :: f64

definition SessionConfig_new :: "TransportKind \<Rightarrow> SessionConfig" where
  "SessionConfig_new kind =
     \<lparr>cfg_transport = kind, cfg_poll_status_while_running = False, cfg_deadlock_detection = False,
      cfg_rx_buffer_size_override = 0, cfg_cached_rx_buffer_size = None,
      cfg_stall_timeout_min = f64_lit 5 0, cfg_stall_timeout_max = f64_lit 120 0,
      cfg_stall_timeout_safety_factor = f64_lit 3 0, cfg_stall_timeout_default = f64_lit 30 0,
      cfg_safety_shutdown_delay = f64_lit 2 1, cfg_unanswered_poll_limit = 3,
      cfg_poll_response_attempts = 10, cfg_poll_response_interval = f64_lit 1 1,
      cfg_handshake_timeout = f64_lit 6 0, cfg_handshake_poll_interval = f64_lit 5 1,
      cfg_status_poll_interval = f64_lit 5 1, cfg_reconnect_delay = f64_lit 5 0,
      cfg_command_timeout = f64_lit 10 0\<rparr>"

record RequestShared =
  req_command :: string
  req_lines :: "string list"
  req_finished :: AsyncEvent

definition RequestShared_new :: "string \<Rightarrow> RequestShared" where
  "RequestShared_new cmd = \<lparr>req_command = cmd, req_lines = [], req_finished = AsyncEvent_new\<rparr>"

definition add_line :: "string \<Rightarrow> RequestShared \<Rightarrow> RequestShared" where
  "add_line l r = r\<lparr>req_lines := req_lines r @ [l]\<rparr>"

definition finish :: "RequestShared \<Rightarrow> RequestShared" where
  "finish r = r\<lparr>req_finished := AsyncEvent_set (req_finished r)\<rparr>"

definition is_finished :: "RequestShared \<Rightarrow> bool" where
  "is_finished r = AsyncEvent_is_set (req_finished r)"

text \<open>
  Where the command task (\<^verbatim>\<open>command_queue_loop\<close>) is suspended: at the channel, at the lock, in
  \<open>wait_for_space\<close> (with the count it registered at), at the completion of the request it sent, in
  the pause at the end of a round; or it has left its loop.
\<close>

datatype cmd_task = CT_Recv | CT_Lock nat | CT_Space nat nat | CT_Reply nat | CT_Pause | CT_Ended

record GrblCore =
  g_config :: SessionConfig
  g_dialect :: Dialect
  g_events :: "event list"
  g_transport :: Transport
  g_flow :: FlowControl
  g_state :: DeviceState
  g_keep_running :: bool
  g_job_running :: bool
  g_is_cancelled :: bool
  g_is_holding :: bool
  g_raw_grbl_status :: DeviceStatus
  g_device_response_count :: nat
  g_unanswered_polls :: nat
  g_job_exception :: "SessionError option"
  g_current_request :: "nat option"
  g_interactive_request :: "nat option"
  g_queued_requests :: "nat list"
  g_cmd_queue :: "nat list option"    \<comment> \<open>the channel to the command task; \<open>None\<close>: its receiver is gone\<close>
  g_handshake_received :: AsyncEvent
  g_last_connection_status :: TransportStatus
  g_report_in_inches :: bool
  g_last_reported_op_index :: int
  g_stream_task :: "nat option"
  g_cmd_lock :: lock
  g_cmd_task :: cmd_task
  g_requests :: "RequestShared list"
  g_stream_done :: "bool list"

text \<open>\<^verbatim>\<open>as usize\<close> on an \<^verbatim>\<open>i64\<close>.\<close>

definition as_usize :: "int \<Rightarrow> nat" where
  "as_usize i = nat (i mod 2 ^ 64)"

definition GrblCore_new :: "SessionConfig \<Rightarrow> Dialect \<Rightarrow> GrblCore" where
  "GrblCore_new cfg d =
     \<lparr>g_config = cfg, g_dialect = d, g_events = [], g_transport = build (cfg_transport cfg),
      g_flow = (case cfg_cached_rx_buffer_size cfg of
                  Some cached \<Rightarrow> if cached > 0 then set_rx_buffer_size (as_usize cached) FlowControl_new
                                 else FlowControl_new
                | None \<Rightarrow> FlowControl_new),
      g_state = DeviceState_default, g_keep_running = False, g_job_running = False,
      g_is_cancelled = False, g_is_holding = False, g_raw_grbl_status = Unknown,
      g_device_response_count = 0, g_unanswered_polls = 0, g_job_exception = None,
      g_current_request = None, g_interactive_request = None, g_queued_requests = [],
      g_cmd_queue = None, g_handshake_received = AsyncEvent_new,
      g_last_connection_status = T_Unknown, g_report_in_inches = False,
      g_last_reported_op_index = -1, g_stream_task = None, g_cmd_lock = Free, g_cmd_task = CT_Ended,
      g_requests = [], g_stream_done = []\<rparr>"

definition grbl_emit :: "event list \<Rightarrow> GrblCore \<Rightarrow> GrblCore" where
  "grbl_emit evs w = w\<lparr>g_events := g_events w @ evs\<rparr>"

definition update_dialect :: "Dialect \<Rightarrow> GrblCore \<Rightarrow> GrblCore" where
  "update_dialect d w = w\<lparr>g_dialect := d\<rparr>"

definition is_job_running :: "GrblCore \<Rightarrow> bool" where
  "is_job_running w = g_job_running w"

definition pending_commands :: "GrblCore \<Rightarrow> string list" where
  "pending_commands w = map pc_command (pending (g_flow w))"

definition transport_open :: "GrblCore \<Rightarrow> (SessionError, unit) result" where
  "transport_open w =
     (if \<not> tr_is_open (g_transport w) then Inl (Err_Connection ''Serial transport not connected'')
      else Inr ())"

definition note_device_response :: "GrblCore \<Rightarrow> GrblCore" where
  "note_device_response w = w\<lparr>g_device_response_count := g_device_response_count w + 1\<rparr>"

definition update_connection_status :: "TransportStatus \<Rightarrow> string option \<Rightarrow> GrblCore \<Rightarrow> GrblCore" where
  "update_connection_status st msg w =
     grbl_emit [ConnectionStatus st msg] (w\<lparr>g_last_connection_status := st\<rparr>)"

text \<open>\<^verbatim>\<open>self.transport.write(..)\<close>, with the error as a session error.\<close>

definition grbl_write :: "bytes \<Rightarrow> GrblCore \<Rightarrow> (SessionError, unit) result \<times> GrblCore" where
  "grbl_write data w =
     (case tr_write data (g_transport w) of
        (Inl e, t) \<Rightarrow> (Inl (session_error_from_transport e), w\<lparr>g_transport := t\<rparr>)
      | (Inr u, t) \<Rightarrow> (Inr (), w\<lparr>g_transport := t\<rparr>))"

section \<open>Requests\<close>

definition update_request :: "nat \<Rightarrow> (RequestShared \<Rightarrow> RequestShared) \<Rightarrow> GrblCore \<Rightarrow> GrblCore" where
  "update_request i f w = w\<lparr>g_requests := (g_requests w)[i := f (g_requests w ! i)]\<rparr>"

text \<open>The interactive request takes precedence over the one of the command queue.\<close>

definition active_request :: "GrblCore \<Rightarrow> nat option" where
  "active_request w = or_else (g_interactive_request w) (g_current_request w)"

text \<open>A reply closes the active request, unless it is finished already.\<close>

definition complete_request :: "string \<Rightarrow> event \<Rightarrow> GrblCore \<Rightarrow> GrblCore" where
  "complete_request line ev w =
     (case active_request w of
        None \<Rightarrow> w
      | Some i \<Rightarrow>
          if is_finished (g_requests w ! i) then w
          else update_request i finish (grbl_emit [ev] (update_request i (add_line line) w)))"

section \<open>Replies\<close>

definition report_done :: "PendingCommand option \<Rightarrow> GrblCore \<Rightarrow> GrblCore" where
  "report_done p w =
     (if g_job_running w then
        (case Option.bind p pc_op_index of
           None \<Rightarrow> w
         | Some op \<Rightarrow>
             (grbl_emit (map CommandDone [g_last_reported_op_index w + 1..op]) w)
               \<lparr>g_last_reported_op_index := op\<rparr>)
      else w)"

definition handle_ok :: "PendingCommand option \<Rightarrow> GrblCore \<Rightarrow> GrblCore" where
  "handle_ok p w =
     (let w = note_device_response w;
          w = complete_request ''ok'' (CommandStatus T_Idle None) w
      in report_done p w)"

text \<open>First error wins: a recorded error is not replaced.\<close>

definition record_error :: "DeviceError \<Rightarrow> GrblCore \<Rightarrow> GrblCore" where
  "record_error err w =
     (if dev_error (g_state w) = None then
        let st = (g_state w)\<lparr>dev_error := Some err\<rparr>
        in grbl_emit [StateChanged st] (w\<lparr>g_state := st\<rparr>)
      else w)"

definition signal_space :: "GrblCore \<Rightarrow> GrblCore" where
  "signal_space w = w\<lparr>g_flow := signal_space_available (g_flow w)\<rparr>"

text \<open>\<^verbatim>\<open>text.split(':').nth(1).unwrap_or("").trim()\<close>\<close>

definition error_code_of :: "string \<Rightarrow> string" where
  "error_code_of tx =
     trim (let ps = split_char CHR '':'' tx in if length ps > 1 then ps ! 1 else [])"

definition handle_error :: "string \<Rightarrow> GrblCore \<Rightarrow> GrblCore" where
  "handle_error tx w =
     (let w = note_device_response w;
          w = record_error (get_error (error_code_of tx)) w;
          w = complete_request tx (CommandStatus T_Error (Some tx)) w
      in if g_job_running w then
           signal_space ((grbl_emit [CommandStatus T_Error (Some tx)] w)
             \<lparr>g_job_exception := Some (Err_Device (''GRBL error: '' @ tx))\<rparr>)
         else w)"

section \<open>Status reports and other lines\<close>

definition cache_rx_buffer_size :: "int \<Rightarrow> GrblCore \<Rightarrow> GrblCore" where
  "cache_rx_buffer_size sz w = grbl_emit [ConfigChanged ''rx_buffer_size'' sz] w"

definition learn_rx_size :: "DeviceState \<Rightarrow> GrblCore \<Rightarrow> GrblCore" where
  "learn_rx_size st w =
     (case buffer_rx_available st of
        None \<Rightarrow> w
      | Some tot \<Rightarrow>
          if status st = Idle \<and> cfg_rx_buffer_size_override (g_config w) \<le> 0 then
            let n = as_usize tot
            in if n > 0 \<and> n \<noteq> rx_buffer_size (g_flow w)
               then cache_rx_buffer_size (wrap64 (int n)) (w\<lparr>g_flow := set_rx_buffer_size n (g_flow w)\<rparr>)
               else w
          else w)"

text \<open>What the session shows: \<open>Idle\<close> during a job reads as \<open>Run\<close>, a requested hold masks all but \<open>Alarm\<close>.\<close>

definition shown_status :: "bool \<Rightarrow> bool \<Rightarrow> DeviceStatus \<Rightarrow> DeviceStatus" where
  "shown_status job holding s =
     (let s = (if job \<and> s = Idle then Run else s)
      in if holding \<and> s \<noteq> Alarm then Hold else s)"

definition handle_status_report :: "regex_crate \<Rightarrow> string \<Rightarrow> GrblCore \<Rightarrow> GrblCore" where
  "handle_status_report X report w =
     (let w = note_device_response w;
          st = parse_state X report (g_state w) (g_report_in_inches w);
          w = w\<lparr>g_raw_grbl_status := status st\<rparr>;
          w = learn_rx_size st w;
          st = st\<lparr>status := shown_status (g_job_running w) (g_is_holding w) (status st)\<rparr>
      in if \<not> state_eq st (g_state w) then grbl_emit [StateChanged st] (w\<lparr>g_state := st\<rparr>)
         else w)"

definition collect_line :: "string \<Rightarrow> GrblCore \<Rightarrow> GrblCore" where
  "collect_line line w =
     (case active_request w of
        None \<Rightarrow> w
      | Some i \<Rightarrow> if is_finished (g_requests w ! i) then w else update_request i (add_line line) w)"

definition handle_alarm :: "string \<Rightarrow> string \<Rightarrow> GrblCore \<Rightarrow> GrblCore" where
  "handle_alarm line code w =
     (let w = record_error (alarm_code_to_device_error (trim code)) w;
          w = grbl_emit [CommandStatus T_Error (Some line)] w
      in if g_job_running w then
           signal_space (w\<lparr>g_job_exception := Some (Err_Device (''GRBL ALARM: '' @ line))\<rparr>)
         else w)"

definition handle_opt :: "regex_crate \<Rightarrow> string \<Rightarrow> GrblCore \<Rightarrow> GrblCore" where
  "handle_opt X line w =
     (case parse_opt_info X line of
        None \<Rightarrow> w
      | Some sz \<Rightarrow>
          let w = cache_rx_buffer_size sz w
          in if cfg_rx_buffer_size_override (g_config w) \<le> 0
             then w\<lparr>g_flow := set_rx_buffer_size (as_usize sz) (g_flow w)\<rparr> else w)"

definition set_handshake :: "GrblCore \<Rightarrow> GrblCore" where
  "set_handshake w = w\<lparr>g_handshake_received := AsyncEvent_set (g_handshake_received w)\<rparr>"

definition handle_line :: "regex_crate \<Rightarrow> string \<Rightarrow> GrblCore \<Rightarrow> GrblCore" where
  "handle_line X line w =
     (if starts_with line ''<'' \<and> \<not> ends_with line ''>'' then w
      else if contains_str line ''Pos:'' \<and> contains_str line ''|'' \<and> \<not> starts_with line ''<'' then w
      else if starts_with line ''<'' \<and> ends_with line ''>'' then
        handle_status_report X (trim line) (set_handshake w)
      else
        let w = collect_line line w
        in case strip_prefix ''ALARM:'' line of
             Some code \<Rightarrow> handle_alarm line code w
           | None \<Rightarrow>
               if starts_with line ''[VER:'' then w
               else if starts_with line ''[OPT:'' then handle_opt X line w
               else if starts_with line ''Grbl '' \<or> starts_with line ''GrblHAL '' then set_handshake w
               else w)"

definition handle_response :: "regex_crate \<Rightarrow> GrblResponse \<Rightarrow> GrblCore \<Rightarrow> GrblCore" where
  "handle_response X r w =
     (case rtype r of
        R_Ok \<Rightarrow> handle_ok (r_pending r) (grbl_emit [RawRx ''ok''] w)
      | R_Error \<Rightarrow> handle_error (r_text r) (grbl_emit [RawRx (r_text r)] w)
      | R_Line \<Rightarrow> handle_line X (r_text r) (grbl_emit [RawRx (r_text r)] w))"

text \<open>Informational lines come before the acknowledgements of the same chunk.\<close>

definition lines_first :: "GrblResponse list \<Rightarrow> GrblResponse list" where
  "lines_first rs = filter (\<lambda>r. rtype r = R_Line) rs @ filter (\<lambda>r. rtype r \<noteq> R_Line) rs"

definition handle_rx :: "regex_crate \<Rightarrow> bytes \<Rightarrow> GrblCore \<Rightarrow> GrblCore" where
  "handle_rx X data w =
     (let (rs, fc) = parse_incoming X data (g_flow w);
          w = fold (handle_response X) (lines_first rs) (w\<lparr>g_flow := fc\<rparr>)
      in w\<lparr>g_flow := flush_notifications (g_flow w)\<rparr>)"

definition apply_cached_rx_buffer_size :: "GrblCore \<Rightarrow> GrblCore" where
  "apply_cached_rx_buffer_size w =
     (if cfg_rx_buffer_size_override (g_config w) > 0
      then w\<lparr>g_flow := set_rx_buffer_size (as_usize (cfg_rx_buffer_size_override (g_config w))) (g_flow w)\<rparr>
      else case cfg_cached_rx_buffer_size (g_config w) of
             Some cached \<Rightarrow>
               if cached > 0 then w\<lparr>g_flow := set_rx_buffer_size (as_usize cached) (g_flow w)\<rparr> else w
           | None \<Rightarrow> w)"

section \<open>Sending\<close>

text \<open>
  The end of every accounted send: the bytes are tracked, the line is reported, the chunk is written.
\<close>

definition track_and_write :: "bytes \<Rightarrow> int option \<Rightarrow> GrblCore \<Rightarrow> (SessionError, unit) result \<times> GrblCore" where
  "track_and_write data op w =
     (let tx = trim_end (utf8_lossy data);
          w = w\<lparr>g_flow := track_command (length data) op tx (g_flow w)\<rparr>
      in grbl_write data (grbl_emit [RawTx tx] w))"

definition send_realtime :: "string \<Rightarrow> bool \<Rightarrow> GrblCore \<Rightarrow> (SessionError, unit) result \<times> GrblCore" where
  "send_realtime command add_newline w =
     (case transport_open w of
        Inl e \<Rightarrow> (Inl e, w)
      | Inr _ \<Rightarrow> grbl_write (if add_newline then with_newline command else command)
                  (grbl_emit [RawTx command] w))"

section \<open>The command task\<close>

text \<open>
  \<open>command_queue_loop\<close>, cut at its suspension points. \<open>cmd_task_step X expired w\<close> lets the task
  run from where it is suspended to the next suspension point, if what it waits for is there;
  \<open>expired\<close> says that the deadline it waits for has passed.
\<close>

definition cmd_task_leave :: "GrblCore \<Rightarrow> GrblCore" where
  "cmd_task_leave w = w\<lparr>g_current_request := None, g_cmd_task := CT_Pause\<rparr>"

definition cmd_task_fail :: "SessionError \<Rightarrow> GrblCore \<Rightarrow> GrblCore" where
  "cmd_task_fail e w =
     cmd_task_leave (update_connection_status T_Error (Some (session_error_msg e)) (w\<lparr>g_cmd_lock := Free\<rparr>))"

definition cmd_task_send :: "nat \<Rightarrow> GrblCore \<Rightarrow> GrblCore" where
  "cmd_task_send i w =
     (case track_and_write (with_newline (req_command (g_requests w ! i))) None w of
        (Inl e, w) \<Rightarrow> cmd_task_fail e w
      | (Inr _, w) \<Rightarrow> w\<lparr>g_cmd_lock := Free, g_cmd_task := CT_Reply i\<rparr>)"

definition cmd_payload_len :: "nat \<Rightarrow> GrblCore \<Rightarrow> nat" where
  "cmd_payload_len i w = length (with_newline (req_command (g_requests w ! i)))"

definition cmd_task_locked :: "nat \<Rightarrow> GrblCore \<Rightarrow> GrblCore" where
  "cmd_task_locked i w =
     (if \<not> tr_is_open (g_transport w)
      then cmd_task_fail (Err_Connection ''Serial transport disconnected during command.'') w
      else if needs_space (g_flow w) (cmd_payload_len i w)
      then w\<lparr>g_cmd_task := CT_Space i (space_available (g_flow w))\<rparr>
      else cmd_task_send i w)"

definition cmd_task_lock :: "nat \<Rightarrow> GrblCore \<Rightarrow> GrblCore" where
  "cmd_task_lock i w =
     (if g_cmd_lock w = Free then cmd_task_locked i (w\<lparr>g_cmd_lock := Theirs\<rparr>)
      else w\<lparr>g_cmd_task := CT_Lock i\<rparr>)"

definition cmd_task_next :: "GrblCore \<Rightarrow> GrblCore" where
  "cmd_task_next w = w\<lparr>g_cmd_task := (if g_keep_running w then CT_Recv else CT_Ended)\<rparr>"

definition cmd_task_recv :: "nat \<Rightarrow> nat list \<Rightarrow> GrblCore \<Rightarrow> GrblCore" where
  "cmd_task_recv i q w =
     (let w = w\<lparr>g_cmd_queue := Some q, g_queued_requests := filter (\<lambda>j. j \<noteq> i) (g_queued_requests w)\<rparr>
      in if \<not> tr_is_open (g_transport w) \<or> g_is_cancelled w
         then cmd_task_next (update_request i finish w)
         else cmd_task_lock i (w\<lparr>g_current_request := Some i\<rparr>))"

definition cmd_task_step :: "bool \<Rightarrow> GrblCore \<Rightarrow> GrblCore" where
  "cmd_task_step expired w =
     (case g_cmd_task w of
        CT_Recv \<Rightarrow> (case g_cmd_queue w of Some (i # q) \<Rightarrow> cmd_task_recv i q w | _ \<Rightarrow> w)
      | CT_Lock i \<Rightarrow> cmd_task_lock i w
      | CT_Space i n \<Rightarrow>
          if expired then cmd_task_send i w
          else if space_available (g_flow w) > n then
            (if needs_space (g_flow w) (cmd_payload_len i w)
             then w\<lparr>g_cmd_task := CT_Space i (space_available (g_flow w))\<rparr>
             else cmd_task_send i w)
          else w
      | CT_Reply i \<Rightarrow> if is_finished (g_requests w ! i) then cmd_task_leave w else w
      | CT_Pause \<Rightarrow> if expired then cmd_task_next w else w
      | CT_Ended \<Rightarrow> w)"

section \<open>What the rest of the system does to the session\<close>

text \<open>
  The environment of a task: the reader hands over chunks, the command task runs, another task starts
  \<open>cancel\<close> (up to its first suspension point), closes the transport, takes or drops the command
  lock.
\<close>

definition cancel_begin :: "GrblCore \<Rightarrow> GrblCore" where
  "cancel_begin w = signal_space (w\<lparr>g_is_cancelled := True, g_job_running := False\<rparr>)"

fun grbl_env :: "regex_crate \<Rightarrow> env_event \<Rightarrow> GrblCore \<Rightarrow> GrblCore" where
  "grbl_env X (EvRx data) w = handle_rx X data w"
| "grbl_env X EvTimer w = w"
| "grbl_env X EvCancel w = cancel_begin w"
| "grbl_env X EvLinkDown w = w\<lparr>g_transport := tr_close (g_transport w)\<rparr>"
| "grbl_env X (EvTask expired) w = cmd_task_step expired w"
| "grbl_env X EvLockTaken w = (if g_cmd_lock w = Free then w\<lparr>g_cmd_lock := Theirs\<rparr> else w)"
| "grbl_env X EvLockFreed w = (if g_cmd_lock w = Theirs then w\<lparr>g_cmd_lock := Free\<rparr> else w)"

text \<open>\<^verbatim>\<open>cmd_lock.lock().await\<close> and the drop of the guard.\<close>

definition acquire :: "regex_crate \<Rightarrow> GrblCore \<Rightarrow> env_event list \<Rightarrow> (unit, GrblCore) outcome" where
  "acquire X w es =
     bindA (await (grbl_env X) (\<lambda>w. g_cmd_lock w = Free) w es) (\<lambda>_ w es. Ret () (w\<lparr>g_cmd_lock := Mine\<rparr>) es)"

definition release :: "GrblCore \<Rightarrow> GrblCore" where
  "release w = w\<lparr>g_cmd_lock := Free\<rparr>"

definition send_command_bytes ::
  "regex_crate \<Rightarrow> bytes \<Rightarrow> GrblCore \<Rightarrow> env_event list \<Rightarrow> ((SessionError, unit) result, GrblCore) outcome" where
  "send_command_bytes X payload w es =
     bindA (wait_for_space (grbl_env X) g_flow (length payload) w es)
       (\<lambda>_ w es. case track_and_write payload None w of (r, w) \<Rightarrow> Ret r w es)"

text \<open>
  \<^verbatim>\<open>execute_interactive_command\<close>: under the lock, after everything outstanding is
  acknowledged. The request is stored and waited for by its index.
\<close>

definition new_request :: "string \<Rightarrow> GrblCore \<Rightarrow> nat \<times> GrblCore" where
  "new_request command w =
     (length (g_requests w), w\<lparr>g_requests := g_requests w @ [RequestShared_new command]\<rparr>)"

definition request_done :: "nat \<Rightarrow> GrblCore \<Rightarrow> bool" where
  "request_done i w = is_finished (g_requests w ! i)"

definition execute_interactive_command ::
  "regex_crate \<Rightarrow> string \<Rightarrow> GrblCore \<Rightarrow> env_event list \<Rightarrow>
   ((SessionError, string list) result, GrblCore) outcome" where
  "execute_interactive_command X command w es =
     (case transport_open w of
        Inl e \<Rightarrow> Ret (Inl e) w es
      | Inr _ \<Rightarrow>
          let (i, w) = new_request command w in
          bindA (acquire X w es) (\<lambda>_ w es.
          bindA (wait_pending_empty (grbl_env X) g_flow False w es) (\<lambda>_ w es.
            let w = w\<lparr>g_interactive_request := Some i\<rparr> in
            bindA (tryA (send_command_bytes X (with_newline command) w es)
                     (\<lambda>_ w es. bindA (await_timeout (grbl_env X) (request_done i) w es)
                        (\<lambda>ok w es. Ret (if ok then Inr () else Inl Err_Timeout) w es)))
              (\<lambda>r w es.
                 let w = release (w\<lparr>g_interactive_request := None\<rparr>)
                 in case r of
                      Inl e \<Rightarrow> Ret (Inl e) w es
                    | Inr _ \<Rightarrow> Ret (Inr (req_lines (g_requests w ! i))) w es))))"

text \<open>
  A cancelled job is only forgotten once its sender is gone: no job runs and the streaming task, if
  any is registered, has finished.
\<close>

definition stream_reaped :: "GrblCore \<Rightarrow> bool" where
  "stream_reaped w = (case g_stream_task w of None \<Rightarrow> True | Some i \<Rightarrow> g_stream_done w ! i)"

definition forget_cancel :: "GrblCore \<Rightarrow> GrblCore" where
  "forget_cancel w =
     (if \<not> g_job_running w \<and> stream_reaped w then w\<lparr>g_is_cancelled := False\<rparr> else w)"

definition execute_command ::
  "regex_crate \<Rightarrow> string \<Rightarrow> GrblCore \<Rightarrow> env_event list \<Rightarrow>
   ((SessionError, string list) result, GrblCore) outcome" where
  "execute_command X command w es =
     (let w = forget_cancel w;
          (i, w) = new_request command w;
          w = w\<lparr>g_queued_requests := g_queued_requests w @ [i]\<rparr>
      in case g_cmd_queue w of
           None \<Rightarrow> Ret (Inl (Err_Connection ''command queue unavailable'')) w es
         | Some q \<Rightarrow>
             bindA (await_timeout (grbl_env X) (request_done i) (w\<lparr>g_cmd_queue := Some (q @ [i])\<rparr>) es)
               (\<lambda>ok w es.
                  if ok then Ret (Inr (req_lines (g_requests w ! i))) w es
                  else Ret (Inl Err_Timeout) (update_request i finish w) es))"

end
