(* ===== verification/Grbl_Job.thy ===== *)
theory Grbl_Job
  imports Grbl_Session
begin

text \<open>
  Job streaming of the full GRBL session: the sender with its stall callback, deadlock recovery, the
  drain at the end of a job, cancel and hold (\<^verbatim>\<open>src/grbl/session.rs\<close> from
  \<^verbatim>\<open>start_job\<close> to \<^verbatim>\<open>set_hold\<close>). Progress counters that only feed log messages are left out.
\<close>

section \<open>Starting a job\<close>

definition start_job :: "GrblCore \<Rightarrow> GrblCore" where
  "start_job w =
     (let w = w\<lparr>g_is_cancelled := False, g_job_running := True, g_is_holding := False,
               g_last_reported_op_index := -1, g_job_exception := None, g_unanswered_polls := 0,
               g_flow := reset_flow_control (g_flow w)\<rparr>;
          had_error = (dev_error (g_state w) \<noteq> None);
          st = (g_state w)\<lparr>dev_error := None\<rparr>
      in if status st \<noteq> Run \<and> status st \<noteq> Alarm then
           let st = st\<lparr>status := Run\<rparr> in grbl_emit [StateChanged st] (w\<lparr>g_state := st\<rparr>)
         else if had_error then grbl_emit [StateChanged st] (w\<lparr>g_state := st\<rparr>)
         else w\<lparr>g_state := st\<rparr>)"

text \<open>
  \<open>in_stream\<close> is the task-local \<^verbatim>\<open>IN_STREAM_TASK\<close>. Aborting another task drops its guard,
  which marks it finished; the aborted task itself is one whose script ends.
\<close>

definition abort_stream_task :: "bool \<Rightarrow> GrblCore \<Rightarrow> GrblCore" where
  "abort_stream_task in_stream w =
     (if in_stream then w
      else case g_stream_task w of
             None \<Rightarrow> w
           | Some i \<Rightarrow> w\<lparr>g_stream_task := None, g_stream_done := (g_stream_done w)[i := True]\<rparr>)"

section \<open>Liveness polls and recovery\<close>

definition is_grbl_idle_or_desynced :: "GrblCore \<Rightarrow> bool" where
  "is_grbl_idle_or_desynced w =
     (if status (g_state w) = Idle then True
      else if g_raw_grbl_status w = Idle \<or> g_raw_grbl_status w = Hold then True
      else case buffer_available (g_state w) of
             None \<Rightarrow> False
           | Some v \<Rightarrow> rx_buffer_size (g_flow w) > 0 \<and> v \<ge> wrap64 (int (rx_buffer_size (g_flow w))))"

definition device_stopped_responding :: "GrblCore \<Rightarrow> bool" where
  "device_stopped_responding w = (g_unanswered_polls w \<ge> cfg_unanswered_poll_limit (g_config w))"

definition mark_device_unresponsive :: "GrblCore \<Rightarrow> GrblCore" where
  "mark_device_unresponsive w =
     w\<lparr>g_job_exception :=
         Some (Err_Device ''Device stopped responding during job (no reply to status polls).'')\<rparr>"

definition set_exception_if_none :: "SessionError \<Rightarrow> GrblCore \<Rightarrow> GrblCore" where
  "set_exception_if_none e w =
     (if g_job_exception w = None then w\<lparr>g_job_exception := Some e\<rparr> else w)"

definition alarm_during_job :: SessionError where
  "alarm_during_job = Err_Device ''Machine entered ALARM state during job.''"

fun poll_wait :: "regex_crate \<Rightarrow> nat \<Rightarrow> GrblCore \<Rightarrow> env_event list \<Rightarrow> (unit, GrblCore) outcome" where
  "poll_wait X 0 w es = Ret () w es"
| "poll_wait X (Suc n) w es =
     bindA (sleep (grbl_env X) w es)
       (\<lambda>_ w es. if g_raw_grbl_status w \<noteq> Unknown then Ret () w es else poll_wait X n w es)"

definition poll_send :: "GrblCore \<Rightarrow> (SessionError, unit) result \<times> GrblCore" where
  "poll_send w =
     (let w = grbl_emit [RawTx ''?''] w
      in case transport_open w of Inl e \<Rightarrow> (Inl e, w) | Inr _ \<Rightarrow> grbl_write ''?'' w)"

definition count_unanswered :: "GrblCore \<Rightarrow> GrblCore" where
  "count_unanswered w = w\<lparr>g_unanswered_polls := g_unanswered_polls w + 1\<rparr>"

definition poll_and_check_idle :: "regex_crate \<Rightarrow> bool \<Rightarrow> GrblCore \<Rightarrow> env_event list \<Rightarrow> (bool, GrblCore) outcome" where
  "poll_and_check_idle X hold_lock w es =
     (let w = w\<lparr>g_raw_grbl_status := Unknown\<rparr>;
          before = g_device_response_count w
      in bindA (if hold_lock
                then bindA (acquire X w es)
                       (\<lambda>_ w es. case poll_send w of (r, w) \<Rightarrow> Ret r (release w) es)
                else (case poll_send w of (r, w) \<Rightarrow> Ret r w es))
           (\<lambda>r w es. case r of
              Inl e \<Rightarrow> Ret False (count_unanswered w) es
            | Inr _ \<Rightarrow>
                bindA (poll_wait X (cfg_poll_response_attempts (g_config w)) w es)
                  (\<lambda>_ w es.
                     let w = (if g_device_response_count w > before then w\<lparr>g_unanswered_polls := 0\<rparr>
                              else count_unanswered w)
                     in Ret (is_grbl_idle_or_desynced w) w es)))"

definition send_gcode_simple ::
  "regex_crate \<Rightarrow> bytes \<Rightarrow> GrblCore \<Rightarrow> env_event list \<Rightarrow> ((SessionError, unit) result, GrblCore) outcome" where
  "send_gcode_simple X data w es =
     bindA (wait_for_space (grbl_env X) g_flow (length data) w es)
       (\<lambda>r w es. case r of
          Inl _ \<Rightarrow> Ret (Inl (Err_BufferStall ''timed out waiting for buffer space'')) w es
        | Inr _ \<Rightarrow> (case track_and_write data None w of (r, w) \<Rightarrow> Ret r w es))"

definition recover_from_deadlock :: "regex_crate \<Rightarrow> bool \<Rightarrow> GrblCore \<Rightarrow> env_event list \<Rightarrow> (unit, GrblCore) outcome" where
  "recover_from_deadlock X hold_lock w es =
     (if \<not> tr_is_open (g_transport w) then Ret () w es
      else bindA (if hold_lock then acquire X w es else Ret () w es) (\<lambda>_ w es.
           let w = w\<lparr>g_flow := reset_flow_control (g_flow w)\<rparr> in
           bindA (send_gcode_simple X (with_newline ''G4 P0.01'') w es) (\<lambda>_ w es.
           let w = (if hold_lock then release w else w) in
           bindA (wait_pending_empty (grbl_env X) g_flow True w es) (\<lambda>_ w es.
             Ret () (w\<lparr>g_flow := reset (g_flow w)\<rparr>) es))))"

section \<open>Sending one line of a job\<close>

definition on_buffer_stall ::
  "regex_crate \<Rightarrow> nat \<Rightarrow> GrblCore \<Rightarrow> env_event list \<Rightarrow> ((SessionError, bool) result, GrblCore) outcome" where
  "on_buffer_stall X command_len w es =
     (if g_is_cancelled w then Ret (Inr False) w es
      else bindA (poll_and_check_idle X False w es) (\<lambda>idle_or_desynced w es.
        if device_stopped_responding w then Ret (Inr False) (mark_device_unresponsive w) es
        else if status (g_state w) = Alarm
        then Ret (Inr False) (set_exception_if_none alarm_during_job w) es
        else if \<not> cfg_deadlock_detection (g_config w) then Ret (Inr True) w es
        else if idle_or_desynced then
          (if \<not> needs_space (g_flow w) command_len then Ret (Inr True) w es
           else bindA (recover_from_deadlock X False w es)
                  (\<lambda>_ w es. Ret (Inr (\<not> needs_space (g_flow w) command_len)) w es))
        else Ret (Inr True) w es))"

text \<open>A stall consumes at least the deadline event, so the retry loop ends with the script.\<close>

lemma acquire_le: "length (events_left (acquire X w es)) \<le> length es"
  unfolding acquire_def by (rule bindA_le [OF await_le]) simp

lemma poll_wait_le: "length (events_left (poll_wait X n w es)) \<le> length es"
proof (induction n arbitrary: w es)
  case 0
  show ?case by simp
next
  case (Suc n)
  show ?case unfolding poll_wait.simps
    by (rule bindA_le [OF sleep_le]) (auto intro: order_trans [OF Suc])
qed

lemma poll_and_check_idle_le: "length (events_left (poll_and_check_idle X h w es)) \<le> length es"
  unfolding poll_and_check_idle_def Let_def
proof (rule bindA_le, goal_cases)
  case 1
  show ?case
    by (auto intro!: bindA_le [OF acquire_le] split: prod.splits)
next
  case (2 r w' es')
  then show ?case
    by (auto intro!: bindA_le order_trans [OF poll_wait_le] split: sum.splits)
qed

lemma send_gcode_simple_le: "length (events_left (send_gcode_simple X d w es)) \<le> length es"
  unfolding send_gcode_simple_def
  by (rule bindA_le [OF wait_for_space_le]) (auto split: sum.splits prod.splits)

lemma recover_le: "length (events_left (recover_from_deadlock X h w es)) \<le> length es"
  unfolding recover_from_deadlock_def Let_def
  by (auto intro!: bindA_le order_trans [OF acquire_le] order_trans [OF send_gcode_simple_le]
      order_trans [OF wait_pending_empty_le])

lemma on_buffer_stall_le: "length (events_left (on_buffer_stall X n w es)) \<le> length es"
  unfolding on_buffer_stall_def
  by (auto intro!: bindA_le order_trans [OF poll_and_check_idle_le] order_trans [OF recover_le])

lemma on_buffer_stall_left:
  "on_buffer_stall X n w es = Ret r w' es' \<Longrightarrow> length es' \<le> length es"
  using on_buffer_stall_le [of X n w es] by simp

function send_gcode_with_stall ::
  "regex_crate \<Rightarrow> bytes \<Rightarrow> int option \<Rightarrow> GrblCore \<Rightarrow> env_event list \<Rightarrow>
   ((SessionError, unit) result, GrblCore) outcome" where
  "send_gcode_with_stall X data op w es =
     bindA (wait_for_space (grbl_env X) g_flow (length data) w es)
       (\<lambda>r w es. case r of
          Inr _ \<Rightarrow> (case track_and_write data op w of (r, w) \<Rightarrow> Ret r w es)
        | Inl _ \<Rightarrow>
            tryA (on_buffer_stall X (length data) w es)
              (\<lambda>handled w es.
                 if handled then send_gcode_with_stall X data op w es
                 else Ret (Inl (Err_BufferStall
                        (''cannot get '' @ show_int (int (length data)) @ '' bytes of space''))) w es))"
  by pat_completeness auto
termination
  by (relation "measure (\<lambda>(X, data, op, w, es). length es)")
    (auto dest!: wait_for_space_shorter on_buffer_stall_left)

declare send_gcode_with_stall.simps [simp del]

definition send_gcode_line ::
  "regex_crate \<Rightarrow> bytes \<Rightarrow> int option \<Rightarrow> GrblCore \<Rightarrow> env_event list \<Rightarrow>
   ((SessionError, unit) result, GrblCore) outcome" where
  "send_gcode_line X command_bytes op w es =
     bindA (acquire X w es) (\<lambda>_ w es.
       if \<not> tr_is_open (g_transport w)
       then Ret (Inl (Err_Connection ''Serial transport disconnected during job.'')) (release w) es
       else bindA (send_gcode_with_stall X command_bytes op w es) (\<lambda>r w es. Ret r (release w) es))"

section \<open>The stream\<close>

function drain_pending_acks :: "regex_crate \<Rightarrow> GrblCore \<Rightarrow> env_event list \<Rightarrow> (unit, GrblCore) outcome" where
  "drain_pending_acks X w es =
     (if pending (g_flow w) = [] then Ret () w es
      else if g_job_exception w \<noteq> None \<or> status (g_state w) = Alarm then Ret () w es
      else if g_is_cancelled w then Ret () w es
      else bindA (wait_pending_empty (grbl_env X) g_flow True w es) (\<lambda>r w es. case r of
        Inr _ \<Rightarrow> Ret () w es
      | Inl _ \<Rightarrow>
          bindA (poll_and_check_idle X True w es) (\<lambda>idle_or_desynced w es.
            if device_stopped_responding w then Ret () (mark_device_unresponsive w) es
            else if idle_or_desynced then
              (if pending (g_flow w) = [] then Ret () w es
               else bindA (recover_from_deadlock X True w es) (\<lambda>_ w es. drain_pending_acks X w es))
            else drain_pending_acks X w es)))"
  by pat_completeness auto

lemma poll_and_check_idle_left:
  "poll_and_check_idle X h w es = Ret r w' es' \<Longrightarrow> length es' \<le> length es"
  using poll_and_check_idle_le [of X h w es] by simp

lemma recover_left: "recover_from_deadlock X h w es = Ret r w' es' \<Longrightarrow> length es' \<le> length es"
  using recover_le [of X h w es] by simp

termination drain_pending_acks
  by (relation "measure (\<lambda>(X, w, es). length es)")
    (auto dest!: wait_pending_empty_shorter poll_and_check_idle_left recover_left)

declare drain_pending_acks.simps [simp del]

text \<open>The stall time-out of a line; \<open>None\<close> is the panic of \<^verbatim>\<open>clamp\<close> on impossible limits.\<close>

definition line_timeout :: "SessionConfig \<Rightarrow> f64 list option \<Rightarrow> int option \<Rightarrow> f64 option" where
  "line_timeout cfg tms op =
     (case (tms, op) of
        (Some ts, Some o_) \<Rightarrow>
          if as_usize o_ < length ts
          then fclamp (fmul (ts ! as_usize o_) (cfg_stall_timeout_safety_factor cfg))
                 (cfg_stall_timeout_min cfg) (cfg_stall_timeout_max cfg)
          else Some (cfg_stall_timeout_default cfg)
      | _ \<Rightarrow> Some (cfg_stall_timeout_default cfg))"

definition stop_streaming :: "GrblCore \<Rightarrow> bool" where
  "stop_streaming w \<longleftrightarrow> g_is_cancelled w \<or> g_job_exception w \<noteq> None \<or> status (g_state w) = Alarm"

definition note_alarm :: "GrblCore \<Rightarrow> GrblCore" where
  "note_alarm w = (if status (g_state w) = Alarm then set_exception_if_none alarm_during_job w else w)"

text \<open>The loop over the lines; \<^verbatim>\<open>break\<close> and the end of the loop both return \<open>Inr ()\<close>.\<close>

fun stream_lines ::
  "regex_crate \<Rightarrow> (nat \<rightharpoonup> int) option \<Rightarrow> f64 list option \<Rightarrow> nat \<Rightarrow> string list \<Rightarrow>
   GrblCore \<Rightarrow> env_event list \<Rightarrow> ((SessionError, unit) result, GrblCore) outcome" where
  "stream_lines X op_map tms idx [] w es = Ret (Inr ()) w es"
| "stream_lines X op_map tms idx (raw_line # rest) w es =
     (if stop_streaming w then Ret (Inr ()) (note_alarm w) es
      else
        let line = strip_gcode_comments X raw_line;
            op = Option.bind op_map (\<lambda>m. m idx)
        in if line = [] then stream_lines X op_map tms (Suc idx) rest w es
           else case line_timeout (g_config w) tms op of
             None \<Rightarrow> Panicked w es
           | Some _ \<Rightarrow>
               bindA (send_gcode_line X (with_newline line) op w es) (\<lambda>r w es.
                 let after = (\<lambda>w. if g_job_exception w \<noteq> None \<or> status (g_state w) = Alarm
                                  then Ret (Inr ()) w es
                                  else bindA (sleep (grbl_env X) w es)
                                         (\<lambda>_ w es. stream_lines X op_map tms (Suc idx) rest w es))
                 in case r of
                      Inr _ \<Rightarrow> after w
                    | Inl (Err_BufferStall msg) \<Rightarrow>
                        after (set_exception_if_none (Err_Device (''Deadlock recovery failed: '' @ msg)) w)
                    | Inl e \<Rightarrow> Ret (Inl e) w es))"

definition stream_gcode_inner ::
  "regex_crate \<Rightarrow> string list \<Rightarrow> (nat \<rightharpoonup> int) option \<Rightarrow> f64 list option \<Rightarrow>
   GrblCore \<Rightarrow> env_event list \<Rightarrow> ((SessionError, unit) result, GrblCore) outcome" where
  "stream_gcode_inner X gcode_lines op_map tms w es =
     tryA (stream_lines X op_map tms 0 gcode_lines w es) (\<lambda>_ w es.
       bindA (if \<not> g_is_cancelled w \<and> g_job_exception w = None then drain_pending_acks X w es
              else Ret () w es)
         (\<lambda>_ w es. case g_job_exception w of
              Some e \<Rightarrow> Ret (Inl e) (w\<lparr>g_job_exception := None\<rparr>) es
            | None \<Rightarrow> Ret (Inr ()) w es))"

section \<open>Cancel and hold\<close>

fun safety_commands :: "regex_crate \<Rightarrow> string list \<Rightarrow> GrblCore \<Rightarrow> env_event list \<Rightarrow> (unit, GrblCore) outcome" where
  "safety_commands X [] w es = Ret () w es"
| "safety_commands X (c # cs) w es =
     (if \<not> tr_is_open (g_transport w) then Ret () w es
      else bindA (send_gcode_simple X (with_newline c) w es) (\<lambda>_ w es. safety_commands X cs w es))"

definition shutdown_commands :: "Dialect \<Rightarrow> bool \<Rightarrow> string list" where
  "shutdown_commands d emergency =
     safety_off_commands d @
     (if emergency then (case Dialect.emergency_stop d of None \<Rightarrow> [] | Some c \<Rightarrow> [c]) else [])"

definition send_safety_shutdown :: "regex_crate \<Rightarrow> bool \<Rightarrow> GrblCore \<Rightarrow> env_event list \<Rightarrow> (unit, GrblCore) outcome" where
  "send_safety_shutdown X emergency w es =
     (let commands = shutdown_commands (g_dialect w) emergency
      in if commands = [] then Ret () w es
         else if \<not> tr_is_open (g_transport w) then Ret () w es
         else bindA (sleep (grbl_env X) w es) (\<lambda>_ w es. safety_commands X commands w es))"

text \<open>Every queued interactive command is completed, so that no caller waits for it.\<close>

definition drain_queued_requests :: "GrblCore \<Rightarrow> GrblCore" where
  "drain_queued_requests w =
     (fold (\<lambda>i. update_request i finish) (g_queued_requests w) w)\<lparr>g_queued_requests := []\<rparr>"

definition cancel ::
  "regex_crate \<Rightarrow> bool \<Rightarrow> bool \<Rightarrow> GrblCore \<Rightarrow> env_event list \<Rightarrow> ((SessionError, unit) result, GrblCore) outcome" where
  "cancel X in_stream emergency w es =
     (let job_was_running = g_job_running w;
          w = cancel_begin w
      in case transport_open w of
           Inl e \<Rightarrow> Ret (Inl e) w es
         | Inr _ \<Rightarrow>
             (case grbl_write [CHR 0x18] w of
                (Inl e, w) \<Rightarrow> Ret (Inl e) w es
              | (Inr _, w) \<Rightarrow>
                  let w = abort_stream_task in_stream w;
                      w = drain_queued_requests w;
                      w = w\<lparr>g_flow := reset (g_flow w)\<rparr>
                  in bindA (send_safety_shutdown X emergency w es) (\<lambda>_ w es.
                       Ret (Inr ()) (if job_was_running then grbl_emit [JobFinished] w else w) es)))"

definition set_hold :: "bool \<Rightarrow> GrblCore \<Rightarrow> (SessionError, unit) result \<times> GrblCore" where
  "set_hold hold w =
     (let w = forget_cancel (w\<lparr>g_is_holding := hold\<rparr>)
      in case send_realtime (if hold then ''!'' else ''~'') False w of
           (Inl e, w) \<Rightarrow> (Inl e, w)
         | (Inr _, w) \<Rightarrow>
             let desired = (if hold then Hold else if g_job_running w then Run else Idle)
             in if status (g_state w) \<noteq> desired then
                  let st = (g_state w)\<lparr>status := desired\<rparr>
                  in (Inr (), grbl_emit [StateChanged st] (w\<lparr>g_state := st\<rparr>))
                else (Inr (), w))"

section \<open>Running a job\<close>

definition job_error :: "SessionError \<Rightarrow> DeviceError" where
  "job_error e = DeviceError_new (-1) ''Job Error'' (session_error_msg e)"

text \<open>The interrupt handler and the block that runs in any case.\<close>

definition finish_stream :: "(SessionError, unit) result \<Rightarrow> GrblCore \<Rightarrow> GrblCore" where
  "finish_stream outcome w =
     (let w = w\<lparr>g_raw_grbl_status := Unknown, g_job_running := False, g_is_holding := False\<rparr>
      in case outcome of
           Inr _ \<Rightarrow> if \<not> g_is_cancelled w then grbl_emit [JobFinished] w else w
         | Inl _ \<Rightarrow> w)"

definition stream_gcode ::
  "regex_crate \<Rightarrow> string list \<Rightarrow> (nat \<rightharpoonup> int) option \<Rightarrow> f64 list option \<Rightarrow>
   GrblCore \<Rightarrow> env_event list \<Rightarrow> (unit, GrblCore) outcome" where
  "stream_gcode X gcode_lines op_map tms w es =
     bindA (stream_gcode_inner X gcode_lines op_map tms w es) (\<lambda>outcome w es.
       bindA (case outcome of
                Inl e \<Rightarrow>
                  if \<not> g_is_cancelled w
                  then bindA (cancel X True True (record_error (job_error e) w) es) (\<lambda>_ w es. Ret () w es)
                  else Ret () w es
              | Inr _ \<Rightarrow> Ret () w es)
         (\<lambda>_ w es. Ret () (finish_stream outcome w) es))"

text \<open>
  \<open>run_streaming_job\<close>: the previous stream is reaped, the new one registered; when its task ends, its
  guard marks it finished, and the slot is cleared if it is still this stream's. A panic of the task
  comes back as an error whose text (\<open>join_msg\<close>) is the runtime's.
\<close>

definition stream_ended :: "nat \<Rightarrow> GrblCore \<Rightarrow> GrblCore" where
  "stream_ended i w =
     (let w = w\<lparr>g_stream_done := (g_stream_done w)[i := True]\<rparr>
      in if g_stream_task w = Some i then w\<lparr>g_stream_task := None\<rparr> else w)"

definition run_streaming_job ::
  "string \<Rightarrow> (GrblCore \<Rightarrow> env_event list \<Rightarrow> (unit, GrblCore) outcome) \<Rightarrow>
   GrblCore \<Rightarrow> env_event list \<Rightarrow> ((SessionError, unit) result, GrblCore) outcome" where
  "run_streaming_job join_msg fut w es =
     (let w = abort_stream_task False w;
          i = length (g_stream_done w);
          w = w\<lparr>g_stream_done := g_stream_done w @ [False], g_stream_task := Some i\<rparr>
      in case fut w es of
           Ret _ w es \<Rightarrow> Ret (Inr ()) (stream_ended i w) es
         | Panicked w es \<Rightarrow> Ret (Inl (Err_Other join_msg)) (stream_ended i w) es
         | Blocked w \<Rightarrow> Blocked w)"

definition run ::
  "regex_crate \<Rightarrow> string \<Rightarrow> string \<Rightarrow> (nat \<rightharpoonup> int) \<Rightarrow> f64 list \<Rightarrow> GrblCore \<Rightarrow> env_event list \<Rightarrow> (unit, GrblCore) outcome" where
  "run X join_msg gcode op_map op_estimates w es =
     bindA (run_streaming_job join_msg
              (stream_gcode X (lines gcode) (Some op_map) (Some op_estimates)) (start_job w) es)
       (\<lambda>_ w es. Ret () w es)"

fun send_realtimes :: "string list \<Rightarrow> GrblCore \<Rightarrow> bool \<times> GrblCore" where
  "send_realtimes [] w = (True, w)"
| "send_realtimes (l # ls) w =
     (case send_realtime l False w of (Inl e, w) \<Rightarrow> (False, w) | (Inr _, w) \<Rightarrow> send_realtimes ls w)"

definition run_raw ::
  "regex_crate \<Rightarrow> string \<Rightarrow> string \<Rightarrow> GrblCore \<Rightarrow> env_event list \<Rightarrow> (unit, GrblCore) outcome" where
  "run_raw X join_msg machine_code w es =
     (let ls = filter (\<lambda>l. l \<noteq> []) (map trim (lines machine_code));
          (gcode, realtime) = split_realtime_commands ls
      in case send_realtimes realtime w of
           (False, w) \<Rightarrow> Ret () w es
         | (True, w) \<Rightarrow>
             if gcode = [] then Ret () w es
             else bindA (run_streaming_job join_msg (stream_gcode X gcode None None) (start_job w) es)
                    (\<lambda>_ w es. Ret () w es))"

end
