(* ===== verification/Grbl_Ops.thy ===== *)
theory Grbl_Ops
  imports Grbl_Job
begin

text \<open>
  Connection lifecycle and device operations of the full GRBL session. \<open>uc\<close> stands for
  \<^verbatim>\<open>str::to_uppercase\<close>; \<open>uppercase_ok\<close> is what it does on ASCII text.
\<close>

definition uppercase_ok :: "(string \<Rightarrow> string) \<Rightarrow> bool" where
  "uppercase_ok uc \<longleftrightarrow> (\<forall>s. all_ascii s \<longrightarrow> uc s = to_ascii_uppercase s)"

section \<open>Connecting\<close>

text \<open>
  Aborting the command task drops its lock guard and its receiver. The stream task is not a background
  task here.
\<close>

definition abort_background_tasks :: "GrblCore \<Rightarrow> GrblCore" where
  "abort_background_tasks w =
     w\<lparr>g_cmd_lock := (case g_cmd_task w of CT_Space _ _ \<Rightarrow> Free | _ \<Rightarrow> g_cmd_lock w),
       g_cmd_task := CT_Ended, g_cmd_queue := None,
       g_transport := tr_close (g_transport w)\<rparr>"

definition connect :: "GrblCore \<Rightarrow> GrblCore" where
  "connect w =
     (let w = abort_background_tasks w
      in w\<lparr>g_keep_running := True, g_is_cancelled := False, g_job_running := False,
           g_job_exception := None, g_flow := reset (g_flow w), g_cmd_queue := Some [],
           g_cmd_task := CT_Recv\<rparr>)"

definition cleanup :: "GrblCore \<Rightarrow> GrblCore" where
  "cleanup w =
     (let w = w\<lparr>g_keep_running := False, g_job_running := False, g_is_cancelled := True\<rparr>;
          w = abort_stream_task False w;
          w = w\<lparr>g_is_cancelled := False, g_flow := reset (g_flow w), g_job_exception := None\<rparr>;
          w = abort_background_tasks w
      in update_connection_status T_Disconnected None w)"

text \<open>
  \<open>await_handshake\<close>: a poll, then a wait for the handshake or the end of the poll interval. A second
  timer event right after the first says that the overall deadline has passed as well.
\<close>

function await_handshake ::
  "regex_crate \<Rightarrow> GrblCore \<Rightarrow> env_event list \<Rightarrow> ((SessionError, bool) result, GrblCore) outcome" where
  "await_handshake X w es =
     (case grbl_write ''?'' (grbl_emit [RawTx ''?''] w) of
        (Inl e, w) \<Rightarrow> Ret (Inl e) w es
      | (Inr _, w) \<Rightarrow>
          bindA (await_timeout (grbl_env X) (\<lambda>w. AsyncEvent_is_set (g_handshake_received w)) w es)
            (\<lambda>received w es.
               if received then Ret (Inr True) w es
               else case es of
                      EvTimer # es' \<Rightarrow> Ret (Inr False) w es'
                    | _ \<Rightarrow> await_handshake X w es))"
  by pat_completeness auto
termination
  by (relation "measure (\<lambda>(X, w, es). length es)") (auto dest: await_timeout_False_shorter)

declare await_handshake.simps [simp del]

function status_poll_loop :: "regex_crate \<Rightarrow> GrblCore \<Rightarrow> env_event list \<Rightarrow> (unit, GrblCore) outcome" where
  "status_poll_loop X w es =
     (if \<not> (tr_is_open (g_transport w) \<and> g_keep_running w) then Ret () w es
      else if \<not> cfg_poll_status_while_running (g_config w) \<and> g_job_running w
      then bindA (sleep (grbl_env X) w es) (\<lambda>_ w es. status_poll_loop X w es)
      else
        let before = g_device_response_count w
        in case grbl_write ''?'' (grbl_emit [RawTx ''?''] w) of
             (Inl e, w) \<Rightarrow> Ret () w es
           | (Inr _, w) \<Rightarrow>
               bindA (sleep (grbl_env X) w es) (\<lambda>_ w es.
                 if \<not> g_keep_running w \<or> \<not> tr_is_open (g_transport w) then Ret () w es
                 else
                   let w = (if g_last_connection_status w = T_Error \<and> g_device_response_count w > before
                            then update_connection_status T_Connected None w else w)
                   in status_poll_loop X w es))"
  by pat_completeness auto
termination
  by (relation "measure (\<lambda>(X, w, es). length es)") (auto dest: sleep_shorter)

declare status_poll_loop.simps [simp del]

definition link_session :: "regex_crate \<Rightarrow> GrblCore \<Rightarrow> env_event list \<Rightarrow> (unit, GrblCore) outcome" where
  "link_session X w es =
     bindA (bindA (await_handshake X w es) (\<lambda>r w es. case r of
              Inr True \<Rightarrow>
                bindA (execute_interactive_command X ''$I'' (apply_cached_rx_buffer_size w) es) (\<lambda>_ w es.
                  status_poll_loop X (update_connection_status T_Connected None w) es)
            | Inr False \<Rightarrow>
                Ret () (update_connection_status T_Error (Some ''No response from device'') w) es
            | Inl e \<Rightarrow> Ret () (update_connection_status T_Error (Some (session_error_msg e)) w) es))
       (\<lambda>_ w es. Ret () (w\<lparr>g_transport := tr_close (g_transport w)\<rparr>) es)"

definition open_link :: "regex_crate \<Rightarrow> GrblCore \<Rightarrow> env_event list \<Rightarrow> (unit, GrblCore) outcome" where
  "open_link X w es =
     (let w = w\<lparr>g_handshake_received := AsyncEvent_clear (g_handshake_received w)\<rparr>
      in case tr_open (g_transport w) of
           (Inl e, t) \<Rightarrow>
             Ret () (update_connection_status T_Error (Some (transport_error_msg e)) (w\<lparr>g_transport := t\<rparr>)) es
         | (Inr _, t) \<Rightarrow> link_session X (w\<lparr>g_transport := t\<rparr>) es)"

text \<open>The outer loop, one round per connection attempt; it ends with the script.\<close>

fun connection_rounds :: "nat \<Rightarrow> regex_crate \<Rightarrow> GrblCore \<Rightarrow> env_event list \<Rightarrow> (unit, GrblCore) outcome" where
  "connection_rounds 0 X w es = Blocked w"
| "connection_rounds (Suc n) X w es =
     (if \<not> g_keep_running w then Ret () w es
      else bindA (open_link X w es) (\<lambda>_ w es.
             if \<not> g_keep_running w then Ret () w es
             else bindA (sleep (grbl_env X) (update_connection_status T_Sleeping None w) es)
                    (\<lambda>_ w es. connection_rounds n X w es)))"

definition connection_loop :: "regex_crate \<Rightarrow> GrblCore \<Rightarrow> env_event list \<Rightarrow> (unit, GrblCore) outcome" where
  "connection_loop X w es = connection_rounds (Suc (length es)) X w es"

section \<open>Device operations\<close>

text \<open>\<^verbatim>\<open>execute_command(..).await?\<close> with the lines dropped.\<close>

definition command ::
  "regex_crate \<Rightarrow> string \<Rightarrow> GrblCore \<Rightarrow> env_event list \<Rightarrow> ((SessionError, unit) result, GrblCore) outcome" where
  "command X cmd w es = tryA (execute_command X cmd w es) (\<lambda>_ w es. Ret (Inr ()) w es)"

definition formatted ::
  "regex_crate \<Rightarrow> (string, string) result \<Rightarrow> GrblCore \<Rightarrow> env_event list \<Rightarrow>
   ((SessionError, unit) result, GrblCore) outcome" where
  "formatted X r w es = (case r of Inl m \<Rightarrow> Ret (Inl (Err_Other m)) w es | Inr cmd \<Rightarrow> command X cmd w es)"

fun home_axes ::
  "regex_crate \<Rightarrow> string \<Rightarrow> string list \<Rightarrow> GrblCore \<Rightarrow> env_event list \<Rightarrow> ((SessionError, unit) result, GrblCore) outcome"
where
  "home_axes X tmpl [] w es = Ret (Inr ()) w es"
| "home_axes X tmpl (axis # axes) w es =
     tryA (formatted X (format_template tmpl [(''axis_letter'', StrArg axis)]) w es)
       (\<lambda>_ w es. home_axes X tmpl axes w es)"

definition home ::
  "regex_crate \<Rightarrow> string list option \<Rightarrow> string \<Rightarrow> GrblCore \<Rightarrow> env_event list \<Rightarrow>
   ((SessionError, unit) result, GrblCore) outcome" where
  "home X axes active_wcs w es =
     (let d = g_dialect w in
      tryA (case axes of None \<Rightarrow> command X (home_all d) w es | Some as \<Rightarrow> home_axes X (home_axis d) as w es)
        (\<lambda>_ w es.
         let temp_wcs = (if active_wcs = ''G54'' then ''G55'' else ''G54'') in
         tryA (command X ''G4 P0.01'' w es) (\<lambda>_ w es.
         tryA (command X temp_wcs w es) (\<lambda>_ w es.
         tryA (command X active_wcs w es) (\<lambda>_ w es.
           let st = (g_state w)\<lparr>dev_error := None\<rparr>
           in Ret (Inr ()) (grbl_emit [StateChanged st] (w\<lparr>g_state := st\<rparr>)) es)))))"

definition move_to ::
  "regex_crate \<Rightarrow> f64 \<Rightarrow> f64 \<Rightarrow> f64 \<Rightarrow> GrblCore \<Rightarrow> env_event list \<Rightarrow> ((SessionError, unit) result, GrblCore) outcome"
where
  "move_to X speed pos_x pos_y w es =
     formatted X (format_template (move_to_tmpl (g_dialect w))
       [(''speed'', Speed speed), (''x'', Length pos_x), (''y'', Length pos_y)]) w es"

fun join_space :: "string list \<Rightarrow> string" where
  "join_space [] = []"
| "join_space [p] = p"
| "join_space (p # ps) = p @ '' '' @ join_space ps"

definition jog ::
  "regex_crate \<Rightarrow> (string \<Rightarrow> string) \<Rightarrow> f64 \<Rightarrow> (string \<times> f64) list \<Rightarrow> GrblCore \<Rightarrow> env_event list \<Rightarrow>
   ((SessionError, unit) result, GrblCore) outcome" where
  "jog X uc speed deltas w es =
     (case format_template (jog_tmpl (g_dialect w)) [(''speed'', Speed speed)] of
        Inl m \<Rightarrow> Ret (Inl (Err_Other m)) w es
      | Inr head \<Rightarrow>
          if deltas = [] then Ret (Inr ()) w es
          else command X (join_space (head # map (\<lambda>(axis, dist). uc axis @ python_float_repr dist) deltas)) w es)"

definition select_tool ::
  "regex_crate \<Rightarrow> int \<Rightarrow> GrblCore \<Rightarrow> env_event list \<Rightarrow> ((SessionError, unit) result, GrblCore) outcome" where
  "select_tool X tool_number w es =
     formatted X (format_template (tool_change (g_dialect w)) [(''tool_number'', IntArg tool_number)]) w es"

text \<open>A positive power; \<open>None\<close>, zero, negative and NaN switch the laser off.\<close>

definition positive_power :: "f64 option \<Rightarrow> f64 option" where
  "positive_power p = (case p of Some v \<Rightarrow> if flt f64_zero v then Some v else None | None \<Rightarrow> None)"

definition set_power ::
  "regex_crate \<Rightarrow> f64 option \<Rightarrow> GrblCore \<Rightarrow> env_event list \<Rightarrow> ((SessionError, unit) result, GrblCore) outcome" where
  "set_power X pw w es =
     (case positive_power pw of
        Some p \<Rightarrow> formatted X (format_template (laser_on (g_dialect w)) [(''power'', Length p)]) w es
      | None \<Rightarrow> command X (laser_off (g_dialect w)) w es)"

text \<open>
  \<open>wait_for_idle\<close>: a round per 50 ms while the machine jogs; a second timer event right after a round
  says that the overall deadline has passed.
\<close>

function wait_for_idle :: "regex_crate \<Rightarrow> GrblCore \<Rightarrow> env_event list \<Rightarrow> (unit, GrblCore) outcome" where
  "wait_for_idle X w es =
     (if status (g_state w) \<noteq> Jog then Ret () w es
      else bindA (sleep (grbl_env X) w es) (\<lambda>_ w es. case es of
             EvTimer # es' \<Rightarrow> Ret () w es'
           | _ \<Rightarrow> wait_for_idle X w es))"
  by pat_completeness auto
termination
  by (relation "measure (\<lambda>(X, w, es). length es)") (auto dest: sleep_shorter)

declare wait_for_idle.simps [simp del]

definition set_focus_power ::
  "regex_crate \<Rightarrow> f64 option \<Rightarrow> GrblCore \<Rightarrow> env_event list \<Rightarrow> ((SessionError, unit) result, GrblCore) outcome" where
  "set_focus_power X pw w es =
     (case positive_power pw of
        Some p \<Rightarrow> formatted X (format_template (focus_laser_on (g_dialect w)) [(''power'', Length p)]) w es
      | None \<Rightarrow>
          let d = g_dialect w
          in bindA (wait_for_idle X w es) (\<lambda>_ w es. command X (laser_off d) w es))"

definition read_settings ::
  "regex_crate \<Rightarrow> GrblCore \<Rightarrow> env_event list \<Rightarrow> ((SessionError, (string \<times> string) list) result, GrblCore) outcome"
where
  "read_settings X w es =
     tryA (execute_interactive_command X ''$$'' w es) (\<lambda>ls w es.
       Ret (Inr (parse_setting_pairs X ls)) (w\<lparr>g_report_in_inches := is_report_in_inches X ls\<rparr>) es)"

definition write_setting ::
  "regex_crate \<Rightarrow> string \<Rightarrow> string \<Rightarrow> GrblCore \<Rightarrow> env_event list \<Rightarrow> ((SessionError, unit) result, GrblCore) outcome" where
  "write_setting X key val w es = command X (''$'' @ key @ ''='' @ val) w es"

text \<open>A template the formatter rejects panics in \<^verbatim>\<open>format_wcs_offset\<close>.\<close>

definition set_wcs_offset ::
  "regex_crate \<Rightarrow> string \<Rightarrow> f64 \<Rightarrow> f64 \<Rightarrow> f64 option \<Rightarrow> GrblCore \<Rightarrow> env_event list \<Rightarrow>
   ((SessionError, unit) result, GrblCore) outcome" where
  "set_wcs_offset X wcs_slot x y z w es =
     (case gcode_to_p_number wcs_slot of
        None \<Rightarrow> Ret (Inl (Err_Other (''Invalid WCS slot: '' @ wcs_slot))) w es
      | Some p_num \<Rightarrow>
          (case format_wcs_offset (g_dialect w) p_num x y z of
             None \<Rightarrow> Panicked w es
           | Some cmd \<Rightarrow> command X cmd w es))"

definition to_mm :: "bool \<Rightarrow> f64 \<times> f64 \<times> f64 \<Rightarrow> f64 \<times> f64 \<times> f64" where
  "to_mm inches p =
     (case p of (x, y, z) \<Rightarrow> if inches then (inches_to_mm x, inches_to_mm y, inches_to_mm z) else p)"

fun collect_offsets ::
  "regex_crate \<Rightarrow> bool \<Rightarrow> string list \<Rightarrow> (string \<rightharpoonup> f64 \<times> f64 \<times> f64) \<Rightarrow> (string \<rightharpoonup> f64 \<times> f64 \<times> f64)" where
  "collect_offsets X inches [] m = m"
| "collect_offsets X inches (l # ls) m =
     collect_offsets X inches ls
       (case parse_wcs_line X l of Some (slot, p) \<Rightarrow> m(slot \<mapsto> to_mm inches p) | None \<Rightarrow> m)"

definition read_wcs_offsets ::
  "regex_crate \<Rightarrow> GrblCore \<Rightarrow> env_event list \<Rightarrow>
   ((SessionError, string \<rightharpoonup> f64 \<times> f64 \<times> f64) result, GrblCore) outcome" where
  "read_wcs_offsets X w es =
     tryA (execute_interactive_command X ''$#'' w es) (\<lambda>ls w es.
       let offsets = collect_offsets X (g_report_in_inches w) ls Map.empty
       in Ret (Inr offsets) (grbl_emit [WcsUpdated offsets] w) es)"

definition read_parser_state ::
  "regex_crate \<Rightarrow> GrblCore \<Rightarrow> env_event list \<Rightarrow> ((SessionError, string option) result, GrblCore) outcome" where
  "read_parser_state X w es =
     tryA (execute_interactive_command X ''$G'' w es) (\<lambda>ls w es. Ret (Inr (parse_grbl_parser_state X ls)) w es)"

definition show_pos3 :: "f64 \<times> f64 \<times> f64 \<Rightarrow> string" where
  "show_pos3 p = (case p of (x, y, z) \<Rightarrow>
     ''('' @ show_f64 x @ '', '' @ show_f64 y @ '', '' @ show_f64 z @ '')'')"

definition first_probe :: "regex_crate \<Rightarrow> string list \<Rightarrow> (f64 \<times> f64 \<times> f64) option" where
  "first_probe X ls =
     find_map (\<lambda>l. case parse_probe_line X l of Some (p, success) \<Rightarrow> if success then Some p else None
                   | None \<Rightarrow> None) ls"

definition run_probe_cycle ::
  "regex_crate \<Rightarrow> (string \<Rightarrow> string) \<Rightarrow> string \<Rightarrow> f64 \<Rightarrow> f64 \<Rightarrow> GrblCore \<Rightarrow> env_event list \<Rightarrow>
   ((SessionError, (f64 \<times> f64 \<times> f64) option) result, GrblCore) outcome" where
  "run_probe_cycle X uc axis_letter max_travel probe_feed w es =
     (let axis = uc axis_letter
      in case format_template (probe_cycle (g_dialect w))
           [(''axis_letter'', StrArg axis), (''max_travel'', Length max_travel), (''feed_rate'', Speed probe_feed)] of
         Inl m \<Rightarrow> Ret (Inl (Err_Other m)) w es
       | Inr cmd \<Rightarrow>
           bindA (execute_interactive_command X cmd (grbl_emit [ProbeStatus (''Probing '' @ axis @ ''...'')] w) es)
             (\<lambda>r w es. case r of
                Inl _ \<Rightarrow> Ret (Inr None) (grbl_emit [ProbeStatus ''Probe failed: Timed out''] w) es
              | Inr ls \<Rightarrow>
                  (case first_probe X ls of
                     Some p \<Rightarrow>
                       let pos = to_mm (g_report_in_inches w) p
                       in Ret (Inr (Some pos))
                            (grbl_emit [ProbeStatus (''Probe triggered at '' @ show_pos3 pos)] w) es
                   | None \<Rightarrow> Ret (Inr None) (grbl_emit [ProbeStatus ''Probe failed''] w) es)))"

definition detect_unit_system ::
  "regex_crate \<Rightarrow> GrblCore \<Rightarrow> env_event list \<Rightarrow> ((SessionError, UnitSystem option) result, GrblCore) outcome" where
  "detect_unit_system X w es =
     bindA (execute_interactive_command X ''$$'' w es) (\<lambda>r w es. case r of
       Inl _ \<Rightarrow> Ret (Inr None) w es
     | Inr ls \<Rightarrow> Ret (Inr (detect_unit_system_from_settings X ls))
                  (w\<lparr>g_report_in_inches := is_report_in_inches X ls\<rparr>) es)"

end
