(* ===== verification/Flow_Stream.thy ===== *)
theory Flow_Stream
  imports Flow
begin

text \<open>
  What \<open>parse_incoming\<close> makes of a stream of complete lines that arrives in arbitrary pieces: on
  streams of well-formed lines the extraction from the raw bytes agrees, kind by kind, with the
  plain line-by-line reading, whatever the boundaries of the pieces are.
\<close>

section \<open>Lines of a well-formed stream\<close>

text \<open>The line is terminated by the only line feed it holds.\<close>

definition terminated :: "bytes \<Rightarrow> bool" where
  "terminated l = (l \<noteq> [] \<and> last l = LF \<and> LF \<notin> set (butlast l))"

text \<open>\<^verbatim>\<open>ok\r*\n\<close> matches at the end of the line.\<close>

definition ends_ok :: "bytes \<Rightarrow> bool" where
  "ends_ok l = starts_with (dropWhile (\<lambda>c. c = CR) (rev (butlast l))) ''ko''"

definition ok_line :: "bytes \<Rightarrow> bool" where
  "ok_line l = (ok_ack_rest l = Some [])"

definition err_line :: "bytes \<Rightarrow> bool" where
  "err_line l = (terminated l \<and> starts_with l ERROR_MARKER \<and> \<not> ends_ok l \<and> valid_utf8 l)"

definition plain_line :: "bytes \<Rightarrow> bool" where
  "plain_line l = (terminated l \<and> find_window l ERROR_MARKER = None \<and> \<not> ends_ok l \<and> valid_utf8 l)"

definition clean_line :: "bytes \<Rightarrow> bool" where
  "clean_line l = (NUL \<notin> set l \<and> (ok_line l \<or> err_line l \<or> plain_line l))"

lemma terminated_iff: "terminated l \<longleftrightarrow> (\<exists>w. l = w @ [LF] \<and> LF \<notin> set w)"
  by (cases l rule: rev_cases) (auto simp: terminated_def)

lemma ok_line_iff: "ok_line l \<longleftrightarrow> (\<exists>n. l = ''ok'' @ replicate n CR @ [LF])"
  by (simp add: ok_line_def ok_ack_rest_Some)

lemma ok_line_terminated: "ok_line l \<Longrightarrow> terminated l"
proof -
  assume "ok_line l"
  then obtain n where "l = (''ok'' @ replicate n CR) @ [LF]" by (auto simp: ok_line_iff)
  then show ?thesis unfolding terminated_iff by (intro exI [of _ "''ok'' @ replicate n CR"]) auto
qed

lemma clean_line_terminated: "clean_line l \<Longrightarrow> terminated l"
  by (auto simp: clean_line_def err_line_def plain_line_def ok_line_terminated)

lemma not_ends_ok: "\<not> ends_ok l \<Longrightarrow> l \<noteq> u @ ''ok'' @ replicate n CR @ [LF]"
proof
  assume "\<not> ends_ok l" and l: "l = u @ ''ok'' @ replicate n CR @ [LF]"
  have "rev (butlast l) = replicate n CR @ ''ko'' @ rev u"
    by (simp add: l butlast_append)
  moreover have "dropWhile (\<lambda>c. c = CR) (replicate n CR @ ''ko'' @ rev u) = ''ko'' @ rev u"
    by (induction n) simp_all
  ultimately have "ends_ok l" by (simp add: ends_ok_def starts_with_iff)
  with \<open>\<not> ends_ok l\<close> show False ..
qed

section \<open>The acknowledgement pattern on whole lines\<close>

text \<open>A line that does not end in an acknowledgement is skipped.\<close>

lemma ok_ack_rest_suffix_None:
  assumes "terminated (u @ l)" "\<not> ends_ok (u @ l)" "l \<noteq> []"
  shows "ok_ack_rest (l @ s) = None"
proof (rule ccontr)
  assume "ok_ack_rest (l @ s) \<noteq> None"
  then obtain t n where t: "l @ s = (''ok'' @ replicate n CR) @ LF # t"
    by (auto simp: ok_ack_rest_Some)
  from assms(1,3) obtain v where v: "l = v @ [LF]" "LF \<notin> set v"
    by (cases l rule: rev_cases) (auto simp: terminated_def butlast_append)
  with t have "v @ LF # s = (''ok'' @ replicate n CR) @ LF # t" by simp
  with v(2) have "v = ''ok'' @ replicate n CR" 
    using split_at_first_eq [of LF v "''ok'' @ replicate n CR" s t] by auto
  with v(1) assms(2) show False using not_ends_ok [of "u @ l" u n] by simp
qed

lemma rx_search_skip_line:
  assumes "terminated (u @ l)" "\<not> ends_ok (u @ l)" "l \<noteq> []"
  shows "\<exists>q. rx_search OK_ACK_RE i p (l @ s) = rx_search OK_ACK_RE (i + length l) q s"
  using assms
proof (induction l arbitrary: u i p)
  case Nil
  then show ?case by simp
next
  case (Cons c l)
  have step: "rx_search OK_ACK_RE i p (c # l @ s) = rx_search OK_ACK_RE (Suc i) (Some c) (l @ s)"
    using ok_ack_rest_suffix_None [OF Cons.prems] by (subst rx_search_OK_ACK) simp
  show ?case
  proof (cases "l = []")
    case True
    with step show ?thesis by auto
  next
    case False
    from Cons.IH [of "u @ [c]" "Suc i" "Some c"] Cons.prems False step show ?thesis by auto
  qed
qed

lemma rx_search_skip_lines:
  "\<forall>l \<in> set ls. terminated l \<and> \<not> ends_ok l \<Longrightarrow>
   \<exists>q. rx_search OK_ACK_RE i p (concat ls @ s) = rx_search OK_ACK_RE (i + length (concat ls)) q s"
proof (induction ls arbitrary: i p)
  case Nil
  show ?case by auto
next
  case (Cons l ls)
  then have "l \<noteq> []" by (auto simp: terminated_def)
  with Cons.prems obtain q where
    "rx_search OK_ACK_RE i p (l @ concat ls @ s) = rx_search OK_ACK_RE (i + length l) q (concat ls @ s)"
    using rx_search_skip_line [of "[]" l i p "concat ls @ s"] by auto
  moreover obtain q' where "rx_search OK_ACK_RE (i + length l) q (concat ls @ s) =
      rx_search OK_ACK_RE (i + length l + length (concat ls)) q' s"
    using Cons.IH [of "i + length l" q] Cons.prems by auto
  ultimately show ?case by (auto simp: add.assoc)
qed

lemma rx_search_no_LF: "LF \<notin> set s \<Longrightarrow> rx_search OK_ACK_RE i p s = None"
  by (auto simp: rx_search_OK_ACK_None)

text \<open>The first match is the first acknowledgement line.\<close>

lemma rx_exec_first_ok_line:
  assumes "\<forall>l \<in> set ls. terminated l \<and> \<not> ends_ok l" "ok_line l"
  shows "rx_exec OK_ACK_RE (concat ls @ l @ s) =
    Some \<lparr>m_start = length (concat ls), m_end = length (concat ls) + length l, m_group = []\<rparr>"
proof -
  obtain q where "rx_exec OK_ACK_RE (concat ls @ l @ s) =
      rx_search OK_ACK_RE (length (concat ls)) q (l @ s)"
    using rx_search_skip_lines [OF assms(1), of 0 None] by (auto simp: rx_exec_def)
  moreover have "ok_ack_rest (l @ s) = Some s"
    using assms(2) by (auto simp: ok_line_iff ok_ack_rest_Some)
  ultimately show ?thesis by (simp add: rx_search_OK_ACK [of _ q])
qed

lemma rx_exec_no_ok_line:
  assumes "\<forall>l \<in> set ls. terminated l \<and> \<not> ends_ok l" "LF \<notin> set p"
  shows "rx_exec OK_ACK_RE (concat ls @ p) = None"
  using rx_search_skip_lines [OF assms(1), of 0 None p] rx_search_no_LF [OF assms(2)]
  by (auto simp: rx_exec_def)

lemma scan_ok_lines:
  assumes X: "regex_ok X" and p: "LF \<notin> set p"
  shows "\<forall>l \<in> set pre. terminated l \<and> \<not> ends_ok l \<Longrightarrow>
    \<forall>l \<in> set ls. ok_line l \<or> terminated l \<and> \<not> ends_ok l \<Longrightarrow>
    scan_ok X (concat pre @ concat ls @ p) =
      (length (filter ok_line ls), concat pre @ concat (filter (\<lambda>l. \<not> ok_line l) ls) @ p)"
proof (induction ls arbitrary: pre)
  case Nil
  then show ?case using X rx_exec_no_ok_line [of pre p] p
    by (simp add: scan_ok.simps regex_ok_def)
next
  case (Cons l ls)
  show ?case
  proof (cases "ok_line l")
    case True
    have m: "rx_bytes X OK_ACK_RE (concat pre @ l @ concat ls @ p) =
        Some \<lparr>m_start = length (concat pre), m_end = length (concat pre) + length l, m_group = []\<rparr>"
      using X rx_exec_first_ok_line [OF Cons.prems(1) True] by (simp add: regex_ok_def)
    have "l \<noteq> []" using True by (auto simp: ok_line_iff)
    then have "scan_ok X (concat pre @ l @ concat ls @ p) =
        (let (n, b) = scan_ok X (concat pre @ concat ls @ p) in (Suc n, b))"
      by (subst scan_ok.simps) (simp add: m drain_range_def)
    with Cons.IH [OF Cons.prems(1)] Cons.prems(2) True show ?thesis by simp
  next
    case False
    with Cons.prems have "\<forall>l' \<in> set (pre @ [l]). terminated l' \<and> \<not> ends_ok l'" by auto
    from Cons.IH [OF this] Cons.prems(2) False show ?thesis by simp
  qed
qed

section \<open>Corrupted acknowledgements and errors\<close>

lemma scan_null_no_NUL: "NUL \<notin> set b \<Longrightarrow> scan_null b = (0, b)"
proof -
  assume "NUL \<notin> set b"
  then have "find_null_corrupted_ok b = None"
    using find_null_from_Some [of 0 b]
    by (cases "find_null_corrupted_ok_from 0 b")
      (auto simp: find_null_corrupted_ok_def null_ok_at_Some)
  then show ?thesis by (simp add: scan_null.simps)
qed

text \<open>A text with no line feed lies inside one line.\<close>

lemma window_in_line:
  assumes "v @ s = m @ t" "v = [] \<or> last v = LF" "LF \<notin> set m" "v \<noteq> []"
  shows "\<exists>r. v = m @ r"
proof -
  from assms(1) consider r where "v = m @ r" | r where "m = v @ r"
    by (auto simp: append_eq_append_conv2)
  then show ?thesis
  proof cases
    case 1
    then show ?thesis by blast
  next
    case 2
    with assms(2,4) have "LF \<in> set m" by (metis last_in_set set_append UnI1)
    with assms(3) show ?thesis by simp
  qed
qed

lemma find_window_lines_None:
  "\<forall>l \<in> set ls. terminated l \<and> find_window l m = None \<Longrightarrow> LF \<notin> set m \<Longrightarrow> m \<noteq> [] \<Longrightarrow>
   find_window (concat ls) m = None"
proof (induction ls)
  case Nil
  then show ?case by simp
next
  case (Cons l ls)
  show ?case unfolding find_window_None_iff
  proof (intro allI notI)
    fix u v
    assume "concat (l # ls) = u @ m @ v"
    then consider w where "l @ w = u" "concat ls = w @ m @ v" | w where "l = u @ w" "w @ concat ls = m @ v"
      by (auto simp: append_eq_append_conv2)
    then show False
    proof cases
      case 1
      then show ?thesis using Cons by (metis find_window_None_iff list.set_intros(2))
    next
      case 2
      show ?thesis
      proof (cases "w = []")
        case True
        with 2 Cons show ?thesis by (metis append_Nil find_window_None_iff list.set_intros(2))
      next
        case False
        with 2 Cons.prems have "last w = LF" by (auto simp: terminated_def)
        with window_in_line [OF 2(2)] False Cons.prems(2) obtain r where "w = m @ r" by auto
        with 2 Cons.prems(1) show ?thesis by (auto simp: find_window_None_iff)
      qed
    qed
  qed
qed

lemma find_window_after_lines:
  "find_window w m = None \<Longrightarrow> w = [] \<or> last w = LF \<Longrightarrow> LF \<notin> set m \<Longrightarrow> m \<noteq> [] \<Longrightarrow>
   find_window (w @ m @ v) m = Some (length w)"
proof (induction w)
  case Nil
  then show ?case by (cases m) (auto simp: starts_with_iff)
next
  case (Cons c w)
  have "\<not> starts_with (c # w @ m @ v) m"
  proof
    assume "starts_with (c # w @ m @ v) m"
    then obtain t where "(c # w) @ m @ v = m @ t" by (auto simp: starts_with_iff)
    then obtain r where "c # w = m @ r" using window_in_line Cons.prems by blast
    then show False using Cons.prems(1) by (metis append_Nil find_window_None_iff)
  qed
  moreover have "find_window w m = None" using Cons.prems(1) by (simp split: if_splits)
  moreover have "w = [] \<or> last w = LF" using Cons.prems(2) by (simp split: if_splits)
  ultimately show ?case using Cons.IH Cons.prems(3,4) by simp
qed

lemma marker_facts: "LF \<notin> set ERROR_MARKER" "ERROR_MARKER \<noteq> []"
  by (simp_all add: ERROR_MARKER_def)

lemma find_window_drop_None: "find_window s m = None \<Longrightarrow> find_window (drop k s) m = None"
  by (metis append.assoc append_take_drop_id find_window_None_iff)

lemma last_concat_terminated:
  "\<forall>l \<in> set ls. terminated l \<Longrightarrow> concat ls = [] \<or> last (concat ls) = LF"
  by (cases ls rule: rev_cases) (auto simp: terminated_def)

lemma last_drop_concat:
  "\<forall>l \<in> set ls. terminated l \<Longrightarrow> drop k (concat ls) = [] \<or> last (drop k (concat ls)) = LF"
proof (cases "k < length (concat ls)")
  case True
  assume "\<forall>l \<in> set ls. terminated l"
  with True last_concat_terminated [of ls] have "last (concat ls) = LF" by fastforce
  with True show ?thesis by (simp add: last_drop)
qed simp

text \<open>An incomplete error report stays in the buffer.\<close>

lemma scan_errors_partial:
  assumes pre: "\<forall>l \<in> set pre. plain_line l" and p: "LF \<notin> set p" and k: "k \<le> length (concat pre)"
  shows "scan_errors k (concat pre @ p) = ([], concat pre @ p)"
proof (cases "find_subslice (drop k (concat pre @ p)) ERROR_MARKER")
  case None
  then show ?thesis by (simp add: scan_errors.simps)
next
  case (Some rel)
  define w where "w = drop k (concat pre)"
  have w: "drop k (concat pre @ p) = w @ p" using k by (simp add: w_def)
  have wN: "find_window w ERROR_MARKER = None"
    unfolding w_def using pre find_window_lines_None [of pre ERROR_MARKER] marker_facts
    by (intro find_window_drop_None) (auto simp: plain_line_def)
  from Some w obtain r where r: "w @ p = take rel (w @ p) @ ERROR_MARKER @ r"
    by (auto simp: find_subslice_def dest!: find_window_Some split: if_splits)
  have "length w \<le> rel"
  proof (rule ccontr)
    assume less: "\<not> length w \<le> rel"
    then have "drop rel w @ p = ERROR_MARKER @ r"
      using r by (metis append_eq_append_conv_if append_take_drop_id drop_append diff_is_0_eq' drop0
          linorder_linear append_same_eq same_append_eq)
    moreover have "last (drop rel w) = LF" "drop rel w \<noteq> []"
      using less last_drop_concat [of pre "k + rel"] pre
      by (auto simp: w_def plain_line_def add.commute)
    ultimately obtain q where "drop rel w = ERROR_MARKER @ q"
      using window_in_line marker_facts(1) by blast
    then show False using wN find_window_None_iff by (metis append_take_drop_id)
  qed
  then have "drop (k + rel) (concat pre @ p) = drop (rel - length w) p"
    using w k by (simp add: w_def add.commute)
  then have "position (\<lambda>c. c = LF) (drop (k + rel) (concat pre @ p)) = None"
    using p by (auto simp: position_None_iff dest: in_set_dropD)
  with Some show ?thesis by (simp add: scan_errors.simps)
qed

lemma scan_errors_lines:
  assumes p: "LF \<notin> set p"
  shows "\<forall>l \<in> set pre. plain_line l \<Longrightarrow> \<forall>l \<in> set ls. err_line l \<or> plain_line l \<Longrightarrow>
    k \<le> length (concat pre) \<Longrightarrow>
    scan_errors k (concat pre @ concat ls @ p) =
      (map trim (filter err_line ls), concat pre @ concat (filter (\<lambda>l. \<not> err_line l) ls) @ p)"
proof (induction ls arbitrary: pre k)
  case Nil
  then show ?case using scan_errors_partial [OF Nil(1) p Nil(3)] by simp
next
  case (Cons l ls)
  show ?case
  proof (cases "err_line l")
    case True
    define w where "w = drop k (concat pre)"
    obtain e where l: "l = ERROR_MARKER @ e" "valid_utf8 l" "terminated l"
      using True by (auto simp: err_line_def starts_with_iff)
    have wN: "find_window w ERROR_MARKER = None"
      unfolding w_def using Cons.prems(1) find_window_lines_None [of pre ERROR_MARKER] marker_facts
      by (intro find_window_drop_None) (auto simp: plain_line_def)
    have wL: "w = [] \<or> last w = LF"
      using last_drop_concat [of pre k] Cons.prems(1) by (simp add: w_def plain_line_def)
    have "find_window (w @ ERROR_MARKER @ (e @ concat ls @ p)) ERROR_MARKER = Some (length w)"
      by (rule find_window_after_lines [OF wN wL marker_facts])
    moreover have "drop k (concat pre @ l @ concat ls @ p) = w @ ERROR_MARKER @ (e @ concat ls @ p)"
      using Cons.prems(3) l by (simp add: w_def)
    ultimately have f: "find_subslice (drop k (concat pre @ l @ concat ls @ p)) ERROR_MARKER = Some (length w)"
      by (simp add: find_subslice_def marker_facts)
    have kw: "k + length w = length (concat pre)" using Cons.prems(3) by (simp add: w_def)
    obtain v where v: "l = v @ [LF]" "LF \<notin> set v" using l(3) by (auto simp: terminated_iff)
    then have pos: "position (\<lambda>c. c = LF) (l @ concat ls @ p) = Some (length v)"
      by (auto intro: position_append_hit)
    have len: "Suc (length v) = length l" using v by simp
    define b where "b = concat pre @ l @ concat ls @ p"
    have d: "drop (k + length w) b = l @ concat ls @ p" by (simp add: b_def kw)
    have eb: "take (length v + 1) (l @ concat ls @ p) = l" using len by simp
    have dr: "drain_range (k + length w) (k + length w + length v + 1) b = concat pre @ concat ls @ p"
      using len by (simp add: drain_range_def kw b_def)
    have "scan_errors k b =
        (let (es, b') = scan_errors (k + length w) (concat pre @ concat ls @ p) in (trim l # es, b'))"
      using f pos l(2) unfolding b_def [symmetric]
      by (subst scan_errors.simps) (simp only: d eb dr option.case Let_def if_True if_False not_True_eq_False)
    then have "scan_errors k (concat pre @ l @ concat ls @ p) =
        (let (es, b') = scan_errors (length (concat pre)) (concat pre @ concat ls @ p) in (trim l # es, b'))"
      by (simp only: b_def kw)
    with Cons.IH [OF Cons.prems(1), of "length (concat pre)"] Cons.prems(2) True show ?thesis by simp
  next
    case False
    with Cons.prems have "\<forall>l' \<in> set (pre @ [l]). plain_line l'" by auto
    from Cons.IH [OF this, of k] Cons.prems(2,3) False show ?thesis by simp
  qed
qed

section \<open>The line-by-line reading\<close>

lemma trim_ok_line: "ok_line l \<Longrightarrow> trim l = ''ok''"
proof -
  assume "ok_line l"
  then obtain n where l: "l = ''ok'' @ replicate n CR @ [LF]" by (auto simp: ok_line_iff)
  have cr: "trim_front (map rev ws_seqs) (replicate n CR @ ''ko'') = ''ko''"
  proof (induction n)
    case 0
    show ?case by (simp add: trim_front.simps strip_any_def ws_seqs_def)
  next
    case (Suc n)
    then show ?case
      by (simp add: trim_front.simps [of _ "CR # _"]) (simp add: strip_any_def ws_seqs_def)
  qed
  have "trim_start l = l"
    by (simp add: trim_start_def l trim_front_fixed strip_any_None_iff ws_seqs_def)
  moreover have "trim_end l = ''ok''"
    using cr unfolding l trim_end_def
    by (simp add: trim_front.simps [of _ "LF # _"]) (simp add: strip_any_def ws_seqs_def)
  ultimately show ?thesis by (simp add: trim_def)
qed

lemma trim_err_line: "err_line l \<Longrightarrow> starts_with (trim l) ''error:''"
proof -
  assume "err_line l"
  then obtain w where l: "l = ''error'' @ CHR '':'' # w"
    by (auto simp: err_line_def ERROR_MARKER_def starts_with_iff)
  have "\<exists>w'. trim l = ''error'' @ CHR '':'' # w'"
    unfolding l by (rule trim_keeps_prefix) (simp_all add: ws_seqs_def strip_any_None_iff)
  then show ?thesis by (auto simp: starts_with_iff)
qed

text \<open>The reference reading of a line: what its trimmed text says.\<close>

definition read_line :: "bytes \<Rightarrow> reply list" where
  "read_line l = kind_of_line (trim l)"

lemma read_ok_line: "ok_line l \<Longrightarrow> read_line l = [(R_Ok, ''ok'')]"
  by (simp add: read_line_def kind_of_line_def trim_ok_line)

lemma read_err_line: "err_line l \<Longrightarrow> read_line l = [(R_Error, trim l)]"
  using trim_err_line [of l] by (auto simp: read_line_def kind_of_line_def starts_with_iff)

lemma read_lines_trim:
  assumes "terminated l"
  shows "concat (map kind_of_line (lines (trim l))) = read_line l"
proof -
  from assms obtain w where "l = w @ [LF]" "LF \<notin> set w" by (auto simp: terminated_iff)
  then have "LF \<notin> set (trim l)" using trim_line_no_LF by blast
  then show ?thesis by (simp add: lines_single read_line_def kind_of_line_def)
qed

lemma scan_lines_lines:
  "\<forall>l \<in> set ls. terminated l \<and> valid_utf8 l \<Longrightarrow> LF \<notin> set p \<Longrightarrow>
   scan_lines (concat ls @ p) = (concat (map read_line ls), p)"
proof (induction ls)
  case Nil
  then have "position (\<lambda>c. c = LF) p = None" by (auto simp: position_None_iff)
  then show ?case by (simp add: scan_lines.simps)
next
  case (Cons l ls)
  from Cons.prems(1) obtain v where v: "l = v @ [LF]" "LF \<notin> set v" by (auto simp: terminated_iff)
  then have pos: "position (\<lambda>c. c = LF) (l @ concat ls @ p) = Some (length v)"
    by (auto intro: position_append_hit)
  have tk: "take (length v + 1) (l @ concat ls @ p) = l"
    "drop (length v + 1) (l @ concat ls @ p) = concat ls @ p" by (simp_all add: v)
  have "scan_lines (l @ concat ls @ p) = (read_line l @ concat (map read_line ls), p)"
    using Cons read_lines_trim [of l]
    by (subst scan_lines.simps) (simp add: pos tk [simplified])
  then show ?case by simp
qed

text \<open>The texts of the replies, and of the responses, of one kind.\<close>

definition texts :: "GrblResponseType \<Rightarrow> reply list \<Rightarrow> string list" where
  "texts ty ks = map snd (filter (\<lambda>k. fst k = ty) ks)"

definition response_texts :: "GrblResponseType \<Rightarrow> GrblResponse list \<Rightarrow> string list" where
  "response_texts ty rs = map r_text (filter (\<lambda>r. rtype r = ty) rs)"

lemma texts_simps [simp]:
  "texts ty [] = []" "texts ty (k # ks) = (if fst k = ty then snd k # texts ty ks else texts ty ks)"
  "texts ty (ks @ ls) = texts ty ks @ texts ty ls"
  by (simp_all add: texts_def)

lemma response_texts_simps [simp]:
  "response_texts ty [] = []"
  "response_texts ty (r # rs) = (if rtype r = ty then r_text r # response_texts ty rs else response_texts ty rs)"
  "response_texts ty (rs @ rs') = response_texts ty rs @ response_texts ty rs'"
  by (simp_all add: response_texts_def)

lemma texts_replicate_ok: "texts ty (replicate n (R_Ok, ''ok'')) = (if ty = R_Ok then replicate n ''ok'' else [])"
  by (induction n) auto

lemma texts_map_error: "texts ty (map (Pair R_Error) es) = (if ty = R_Error then es else [])"
  by (induction es) auto

lemma read_plain_line:
  assumes "plain_line l"
  shows "texts R_Error (read_line l) = []" "set (texts R_Ok (read_line l)) \<subseteq> {''ok''}"
    "length (texts R_Ok (read_line l)) \<le> 1"
proof -
  from sublist_trim [of l] obtain u v where "l = u @ trim l @ v" by (auto simp: sublist_def)
  moreover have "\<forall>u v. l \<noteq> u @ ''error:'' @ v"
    using assms find_window_None_iff [of l ERROR_MARKER] by (simp add: plain_line_def ERROR_MARKER_def)
  ultimately have "\<not> starts_with (trim l) ''error:''"
    by (metis append.assoc starts_with_iff)
  then show "texts R_Error (read_line l) = []" "set (texts R_Ok (read_line l)) \<subseteq> {''ok''}"
    "length (texts R_Ok (read_line l)) \<le> 1"
    by (auto simp: read_line_def kind_of_line_def)
qed

abbreviation other_lines :: "bytes list \<Rightarrow> bytes list" where
  "other_lines ls \<equiv> filter (\<lambda>l. \<not> ok_line l) ls"

abbreviation plain_lines :: "bytes list \<Rightarrow> bytes list" where
  "plain_lines ls \<equiv> filter (\<lambda>l. \<not> err_line l) (other_lines ls)"

lemma ok_not_err: "ok_line l \<Longrightarrow> \<not> err_line l"
  by (auto simp: ok_line_iff err_line_def ERROR_MARKER_def starts_with_iff)

lemma texts_split_ok:
  "\<forall>l \<in> set ls. clean_line l \<Longrightarrow>
   replicate (length (filter ok_line ls)) ''ok'' @ texts R_Ok (concat (map read_line (plain_lines ls)))
     = texts R_Ok (concat (map read_line ls))"
proof (induction ls)
  case Nil
  show ?case by simp
next
  case (Cons l ls)
  then have IH: "replicate (length (filter ok_line ls)) ''ok'' @ texts R_Ok (concat (map read_line (plain_lines ls)))
     = texts R_Ok (concat (map read_line ls))" by simp
  from Cons.prems consider "ok_line l" | "\<not> ok_line l" "err_line l"
    | "\<not> ok_line l" "\<not> err_line l" "plain_line l" by (auto simp: clean_line_def)
  then show ?case
  proof cases
    case 1
    with IH show ?thesis by (simp add: read_ok_line)
  next
    case 2
    with IH show ?thesis by (simp add: read_err_line)
  next
    case 3
    with read_plain_line [OF 3(3)] have "texts R_Ok (read_line l) = [] \<or> texts R_Ok (read_line l) = [''ok'']"
      by (cases "texts R_Ok (read_line l)") auto
    with 3 IH show ?thesis by (auto simp: replicate_app_Cons_same)
  qed
qed

lemma texts_split_error:
  "\<forall>l \<in> set ls. clean_line l \<Longrightarrow>
   map trim (filter err_line (other_lines ls)) @ texts R_Error (concat (map read_line (plain_lines ls)))
     = texts R_Error (concat (map read_line ls))"
proof -
  assume c: "\<forall>l \<in> set ls. clean_line l"
  then have "texts R_Error (concat (map read_line (plain_lines ls))) = []"
    by (induction ls) (auto simp: clean_line_def read_plain_line)
  moreover from c have "map trim (filter err_line (other_lines ls)) = texts R_Error (concat (map read_line ls))"
    by (induction ls) (auto simp: clean_line_def read_plain_line read_ok_line read_err_line ok_not_err)
  ultimately show ?thesis by simp
qed

lemma texts_split_line:
  "texts R_Line (concat (map read_line (plain_lines ls))) = texts R_Line (concat (map read_line ls))"
  by (induction ls) (auto simp: read_ok_line read_err_line)

lemma scan_clean:
  assumes X: "regex_ok X" and ls: "\<forall>l \<in> set ls. clean_line l"
    and p: "LF \<notin> set p" "NUL \<notin> set p"
  shows "texts ty (fst (scan X (concat ls @ p))) = texts ty (concat (map read_line ls))"
    "snd (scan X (concat ls @ p)) = p"
proof -
  have ok: "\<forall>l \<in> set ls. ok_line l \<or> terminated l \<and> \<not> ends_ok l"
    using ls by (auto simp: clean_line_def err_line_def plain_line_def)
  have nul: "NUL \<notin> set (concat (other_lines ls) @ p)"
    using ls p by (auto simp: clean_line_def)
  have er: "\<forall>l \<in> set (other_lines ls). err_line l \<or> plain_line l"
    using ls by (auto simp: clean_line_def)
  have pl: "\<forall>l \<in> set (plain_lines ls). terminated l \<and> valid_utf8 l"
    using er by (auto simp: plain_line_def)
  have sc: "scan X (concat ls @ p) =
      (replicate (length (filter ok_line ls)) (R_Ok, ''ok'') @
       map (Pair R_Error) (map trim (filter err_line (other_lines ls))) @
       concat (map read_line (plain_lines ls)), p)"
    using scan_ok_lines [OF X p(1), of "[]" ls] ok scan_null_no_NUL [OF nul]
      scan_errors_lines [OF p(1), of "[]" "other_lines ls" 0] er scan_lines_lines [OF pl p(1)]
    by (simp add: scan_def)
  then show "snd (scan X (concat ls @ p)) = p" by simp
  show "texts ty (fst (scan X (concat ls @ p))) = texts ty (concat (map read_line ls))"
    using texts_split_ok [OF ls] texts_split_error [OF ls] texts_split_line [of ls]
    by (cases ty) (simp_all add: sc texts_replicate_ok texts_map_error del: map_map filter_filter)
qed

section \<open>Any division of the stream into pieces\<close>

fun feed :: "regex_crate \<Rightarrow> bytes list \<Rightarrow> FlowControl \<Rightarrow> GrblResponse list \<times> FlowControl" where
  "feed X [] fc = ([], fc)"
| "feed X (c # cs) fc =
     (let (rs, fc1) = parse_incoming X c fc; (rs', fc2) = feed X cs fc1 in (rs @ rs', fc2))"

lemma response_texts_charge:
  "\<forall>k \<in> set ks. fst k = R_Ok \<longrightarrow> snd k = ''ok'' \<Longrightarrow> response_texts ty (charge ks q) = texts ty ks"
  by (induction ks arbitrary: q) auto

lemma kind_of_line_ok: "k \<in> set (kind_of_line l) \<Longrightarrow> fst k = R_Ok \<Longrightarrow> snd k = ''ok''"
  by (auto simp: kind_of_line_def split: if_splits)

lemma scan_lines_ok: "k \<in> set (fst (scan_lines b)) \<Longrightarrow> fst k = R_Ok \<Longrightarrow> snd k = ''ok''"
proof (induction b rule: scan_lines.induct)
  case (1 b)
  then show ?case
    by (auto simp: scan_lines.simps [of b] case_prod_unfold Let_def kind_of_line_ok
        split: option.splits if_splits)
qed

lemma scan_ok_texts: "k \<in> set (fst (scan X b)) \<Longrightarrow> fst k = R_Ok \<Longrightarrow> snd k = ''ok''"
  by (auto simp: scan_def case_prod_unfold Let_def scan_lines_ok)

lemma parse_incoming_texts:
  "response_texts ty (fst (parse_incoming X c fc)) = texts ty (fst (scan X (status_buffer fc @ c)))"
  using scan_ok_texts by (auto simp: parse_incoming_scan respond_fst intro!: response_texts_charge)

lemma parse_incoming_buffer [simp]:
  "status_buffer (snd (parse_incoming X c fc)) = snd (scan X (status_buffer fc @ c))"
  by (simp add: parse_incoming_scan)

lemma split_stream:
  "\<forall>l \<in> set ls. terminated l \<Longrightarrow> b @ r = concat ls \<Longrightarrow>
   \<exists>ls1 ls2 p. ls = ls1 @ ls2 \<and> b = concat ls1 @ p \<and> p @ r = concat ls2 \<and> LF \<notin> set p"
proof (induction ls arbitrary: b)
  case Nil
  then show ?case by simp
next
  case (Cons l ls)
  from Cons.prems(2) obtain us where
    "(b = l @ us \<and> us @ r = concat ls) \<or> (b @ us = l \<and> r = us @ concat ls)"
    by (auto simp: append_eq_append_conv2)
  then consider b' where "b = l @ b'" "b' @ r = concat ls" | w where "b @ w = l" "w \<noteq> []"
    by (cases "us = []") auto
  then show ?case
  proof cases
    case 1
    with Cons.IH [of b'] Cons.prems(1) obtain ls1 ls2 p where
      "ls = ls1 @ ls2" "b' = concat ls1 @ p" "p @ r = concat ls2" "LF \<notin> set p" by auto
    with 1 show ?thesis by (intro exI [of _ "l # ls1"] exI [of _ ls2] exI [of _ p]) simp
  next
    case 2
    then have "b @ butlast w = butlast l" by (metis butlast_append)
    with Cons.prems(1) have "LF \<notin> set b" by (auto simp: terminated_def) (metis UnCI set_append)
    with Cons.prems(2) show ?thesis by (intro exI [of _ "[]"] exI [of _ "l # ls"] exI [of _ b]) simp
  qed
qed

lemma terminated_concat_no_LF:
  "\<forall>l \<in> set ls. terminated l \<Longrightarrow> LF \<notin> set (concat ls) \<Longrightarrow> ls = []"
  by (cases ls) (auto simp: terminated_iff)

lemma feed_texts:
  assumes X: "regex_ok X"
  shows "\<forall>l \<in> set ls. clean_line l \<Longrightarrow> status_buffer fc @ concat cs = concat ls \<Longrightarrow>
    LF \<notin> set (status_buffer fc) \<Longrightarrow>
    response_texts ty (fst (feed X cs fc)) = texts ty (concat (map read_line ls)) \<and>
    status_buffer (snd (feed X cs fc)) = []"
proof (induction cs arbitrary: fc ls)
  case Nil
  then have "ls = []" using terminated_concat_no_LF clean_line_terminated by fastforce
  with Nil show ?case by simp
next
  case (Cons c cs)
  have "\<forall>l \<in> set ls. terminated l" using Cons.prems(1) clean_line_terminated by blast
  moreover have "(status_buffer fc @ c) @ concat cs = concat ls" using Cons.prems(2) by simp
  ultimately obtain ls1 ls2 p where sp: "ls = ls1 @ ls2" "status_buffer fc @ c = concat ls1 @ p"
      "p @ concat cs = concat ls2" "LF \<notin> set p"
    using split_stream by blast
  have c1: "\<forall>l \<in> set ls1. clean_line l" and c2: "\<forall>l \<in> set ls2. clean_line l"
    using Cons.prems(1) sp(1) by auto
  have "NUL \<notin> set (concat ls2)" using c2 by (auto simp: clean_line_def)
  then have "NUL \<notin> set p" using sp(3) by (metis UnCI set_append)
  note sc = scan_clean [OF X c1 sp(4) this]
  obtain rs fc1 where pi: "parse_incoming X c fc = (rs, fc1)" by fastforce
  have rs: "response_texts ty rs = texts ty (concat (map read_line ls1))"
    using parse_incoming_texts [of ty X c fc] sc(1) sp(2) pi by simp
  have buf: "status_buffer fc1 = p" using parse_incoming_buffer [of X c fc] sc(2) sp(2) pi by simp
  with Cons.IH [OF c2, of fc1] sp(3,4) rs pi show ?case
    by (simp add: sp(1) case_prod_unfold Let_def)
qed

lemma acks_in_texts: "acks_in ks = length (texts R_Ok ks) + length (texts R_Error ks)"
proof (induction ks)
  case Nil
  show ?case by simp
next
  case (Cons k ks)
  then show ?case by (cases "fst k") (simp_all add: is_ack_def)
qed

lemma feed_pending:
  "pending (snd (feed X cs fc)) =
     drop (length (response_texts R_Ok (fst (feed X cs fc))) + length (response_texts R_Error (fst (feed X cs fc))))
       (pending fc)"
proof (induction cs arbitrary: fc)
  case Nil
  show ?case by simp
next
  case (Cons c cs)
  obtain rs fc1 where pi: "parse_incoming X c fc = (rs, fc1)" by fastforce
  have "pending fc1 = drop (length (response_texts R_Ok rs) + length (response_texts R_Error rs)) (pending fc)"
    using parse_incoming_texts [of _ X c fc] pi parse_incoming_scan [of X c fc]
    by (metis FlowInner.select_convs(4) FlowInner.surjective FlowInner.update_convs(3) acks_in_texts
        respond_frame(4) fst_conv snd_conv)
  with Cons [of fc1] pi show ?case by (simp add: case_prod_unfold Let_def algebra_simps)
qed

section \<open>Properties\<close>

text \<open>
  C4: acknowledgements, errors and lines of a stream of well-formed lines are read, kind by kind and
  in order, exactly as a line-by-line reader would, for every division of the stream into chunks;
  nothing stays in the buffer and one pending command is released per acknowledgement or error.
\<close>

theorem stream_read_under_any_chunking:
  assumes "regex_ok X" and "\<forall>l \<in> set ls. clean_line l" and "concat cs = concat ls"
    and "status_buffer fc = []"
  shows "response_texts ty (fst (feed X cs fc)) = texts ty (concat (map read_line ls)) \<and>
    status_buffer (snd (feed X cs fc)) = [] \<and>
    pending (snd (feed X cs fc)) = drop (acks_in (concat (map read_line ls))) (pending fc)"
proof -
  have "status_buffer fc @ concat cs = concat ls" "LF \<notin> set (status_buffer fc)"
    using assms by simp_all
  note ft = feed_texts [OF assms(1,2) this]
  then show ?thesis by (simp add: feed_pending acks_in_texts)
qed

theorem stream_read_under_any_chunking_witness:
  "response_texts R_Ok (fst (feed std_regex [''o'', ''k'' @ [CR], [LF] @ ''<Idle'', ''>'' @ [LF]] FlowControl_new)) = [''ok'']"
proof -
  let ?ls = "[''ok'' @ [CR, LF], ''<Idle>'' @ [LF]]"
  have "\<forall>l \<in> set ?ls. clean_line l" by code_simp
  moreover have "concat [''o'', ''k'' @ [CR], [LF] @ ''<Idle'', ''>'' @ [LF]] = concat ?ls" by simp
  moreover have "status_buffer FlowControl_new = []" by (simp add: FlowControl_new_def)
  ultimately have "response_texts R_Ok (fst (feed std_regex [''o'', ''k'' @ [CR], [LF] @ ''<Idle'', ''>'' @ [LF]] FlowControl_new))
      = texts R_Ok (concat (map read_line ?ls))"
    using stream_read_under_any_chunking [OF regex_ok_std, of ?ls] by blast
  also have "\<dots> = [''ok'']" by code_simp
  finally show ?thesis .
qed

end
