(* ===== verification/Flow_Safety.thy ===== *)
theory Flow_Safety
  imports Flow_Stream
begin

text \<open>
  The accounting invariants of the flow control: what is outstanding never exceeds the device's
  receive buffer while senders keep to the discipline, what is left in the parse buffer, and which
  acknowledgements the extraction recognises, well-formed or not.
\<close>

section \<open>The buffer after a parse\<close>

lemma scan_lines_no_LF: "LF \<notin> set (snd (scan_lines b))"
proof (induction b rule: scan_lines.induct)
  case (1 b)
  then show ?case
    by (auto simp: scan_lines.simps [of b] position_None_iff case_prod_unfold Let_def split: option.splits)
qed

lemma scan_no_LF: "LF \<notin> set (snd (scan X b))"
  by (simp add: scan_def case_prod_unfold Let_def scan_lines_no_LF)

section \<open>Sending within the discipline\<close>

text \<open>
  What can happen to the flow control while senders test \<open>needs_space\<close> before they track a line,
  and the buffer size changes only while nothing is outstanding.
\<close>

inductive flow_step :: "regex_crate \<Rightarrow> FlowControl \<Rightarrow> FlowControl \<Rightarrow> bool" for X where
  fs_rx: "flow_step X fc (snd (parse_incoming X data fc))"
| fs_flush: "flow_step X fc (flush_notifications fc)"
| fs_send: "\<not> needs_space fc len \<Longrightarrow> flow_step X fc (track_command len op cmd fc)"
| fs_signal: "flow_step X fc (signal_space_available fc)"
| fs_reset_flow: "flow_step X fc (reset_flow_control fc)"
| fs_reset: "flow_step X fc (reset fc)"
| fs_resize: "pending fc = [] \<Longrightarrow> flow_step X fc (set_rx_buffer_size n fc)"

definition flow_ok :: "FlowControl \<Rightarrow> bool" where
  "flow_ok fc \<longleftrightarrow> rx_count fc = bytes_of (pending fc) \<and> rx_count fc \<le> rx_buffer_size fc"

lemma flow_ok_new: "flow_ok FlowControl_new"
  by (simp add: flow_ok_def FlowControl_new_def)

lemma balanced_iff: "balanced fc \<longleftrightarrow> rx_count fc = bytes_of (pending fc)"
  by (simp add: fq.balanced_def)

lemma parse_incoming_frame [frame_simps]:
  "rx_size (snd (parse_incoming X d fc)) = rx_size fc"
  "pending (snd (parse_incoming X d fc)) = drop (acks_in (fst (scan X (status_buffer fc @ d)))) (pending fc)"
  "space_available (snd (parse_incoming X d fc)) = space_available fc"
  "pending_drained (snd (parse_incoming X d fc)) = pending_drained fc"
  "rx_buffer_size (snd (parse_incoming X d fc)) = rx_buffer_size fc"
  by (simp_all add: parse_incoming_scan respond_frame rx_buffer_size_def)

lemma parse_incoming_balanced: "balanced fc \<Longrightarrow> balanced (snd (parse_incoming X d fc))"
  by (simp add: parse_incoming_scan respond_balanced)

lemma flow_ok_parse: "flow_ok fc \<Longrightarrow> flow_ok (snd (parse_incoming X d fc))"
  using parse_incoming_balanced [of fc X d]
    bytes_of_drop_le [of "acks_in (fst (scan X (status_buffer fc @ d)))" "pending fc"]
  by (auto simp: flow_ok_def balanced_iff parse_incoming_frame)

lemma flush_frame [simp]:
  "rx_count (flush_notifications fc) = rx_count fc"
  "rx_size (flush_notifications fc) = rx_size fc"
  "pending (flush_notifications fc) = pending fc"
  "status_buffer (flush_notifications fc) = status_buffer fc"
  "\<not> acked_since_flush (flush_notifications fc)"
  "\<not> drained_since_flush (flush_notifications fc)"
  "space_available (flush_notifications fc) =
     (if acked_since_flush fc then Suc (space_available fc) else space_available fc)"
  "pending_drained (flush_notifications fc) =
     (if drained_since_flush fc then Suc (pending_drained fc) else pending_drained fc)"
  by (simp_all add: flush_notifications_def signal_space_available_def notify_drained_def Let_def)

lemma signal_frame [simp]:
  "rx_count (signal_space_available fc) = rx_count fc"
  "rx_size (signal_space_available fc) = rx_size fc"
  "pending (signal_space_available fc) = pending fc"
  "status_buffer (signal_space_available fc) = status_buffer fc"
  "space_available (signal_space_available fc) = Suc (space_available fc)"
  by (simp_all add: signal_space_available_def)

lemma flow_ok_step: "flow_step X fc fc' \<Longrightarrow> flow_ok fc \<Longrightarrow> flow_ok fc'"
proof (induction rule: flow_step.induct)
  case (fs_rx fc data)
  then show ?case by (rule flow_ok_parse)
qed (simp_all add: flow_ok_def notify_drained_def
      track_command_def needs_space_def reset_flow_control_def reset_def set_rx_buffer_size_def
      rx_buffer_size_def split: option.splits)

lemma flow_ok_reachable: "(flow_step X)\<^sup>*\<^sup>* fc fc' \<Longrightarrow> flow_ok fc \<Longrightarrow> flow_ok fc'"
  by (induction rule: rtranclp_induct) (auto dest: flow_ok_step)

section \<open>Acknowledgements inside other output\<close>

text \<open>The complete segments of a buffer that end in an acknowledgement.\<close>

definition ok_ended :: "bytes \<Rightarrow> bool" where
  "ok_ended seg = starts_with (dropWhile (\<lambda>c. c = CR) (rev seg)) ''ko''"

definition ok_ends :: "bytes \<Rightarrow> nat" where
  "ok_ends b = length (filter ok_ended (butlast (split_char LF b)))"

lemma ok_ended_iff: "ok_ended seg \<longleftrightarrow> (\<exists>u n. seg = u @ ''ok'' @ replicate n CR)"
proof
  assume "ok_ended seg"
  then obtain r where r: "dropWhile (\<lambda>c. c = CR) (rev seg) = ''ko'' @ r"
    by (auto simp: ok_ended_def starts_with_iff)
  have "rev seg = takeWhile (\<lambda>c. c = CR) (rev seg) @ ''ko'' @ r"
    using takeWhile_dropWhile_id [of "\<lambda>c. c = CR" "rev seg"] r by simp
  then have "rev seg = replicate (length (takeWhile (\<lambda>c. c = CR) (rev seg))) CR @ ''ko'' @ r"
    using takeWhile_replicate_CR [of "rev seg"] by simp
  then have "seg = rev (replicate (length (takeWhile (\<lambda>c. c = CR) (rev seg))) CR @ ''ko'' @ r)"
    by (metis rev_rev_ident)
  then show "\<exists>u n. seg = u @ ''ok'' @ replicate n CR" by auto
next
  assume "\<exists>u n. seg = u @ ''ok'' @ replicate n CR"
  then obtain u n where "seg = u @ ''ok'' @ replicate n CR" by blast
  moreover have "dropWhile (\<lambda>c. c = CR) (replicate n CR @ ''ko'' @ rev u) = ''ko'' @ rev u"
    by (induction n) simp_all
  ultimately show "ok_ended seg" by (simp add: ok_ended_def starts_with_iff)
qed

lemma ok_ended_suffix: "ok_ended seg \<Longrightarrow> ok_ended (u @ seg)"
  unfolding ok_ended_iff by (metis append.assoc)

lemma split_char_append_sep:
  "split_char c (a @ c # b) = split_char c a @ split_char c b"
  by (induction a) (auto split: list.splits)

lemma split_char_append:
  "split_char c (a @ b) =
     butlast (split_char c a) @ (last (split_char c a) @ hd (split_char c b)) # tl (split_char c b)"
proof (induction a)
  case Nil
  show ?case by simp
next
  case (Cons x a)
  show ?case
  proof (cases "split_char c a")
    case Nil
    then show ?thesis using split_char_not_Nil [of c a] by simp
  next
    case (Cons y ys)
    with Cons.IH show ?thesis by (cases ys) (auto split: list.splits)
  qed
qed

text \<open>Cutting one acknowledgement out costs at most one of the segments that end in one.\<close>

lemma ok_ends_drain:
  "ok_ends (u @ ''ok'' @ replicate n CR @ LF # v) \<le> Suc (ok_ends (u @ v))"
proof -
  define P where "P = butlast (split_char LF u)"
  define x where "x = last (split_char LF u)"
  define w where "w = hd (split_char LF v)"
  define Q where "Q = tl (split_char LF v)"
  have u: "split_char LF u = P @ [x]" by (simp add: P_def x_def)
  have v: "split_char LF v = w # Q" by (simp add: w_def Q_def)
  have no: "split_char LF (''ok'' @ replicate n CR) = [''ok'' @ replicate n CR]"
    by (rule split_char_no_sep) auto
  have a: "split_char LF ((u @ ''ok'' @ replicate n CR) @ LF # v) =
      P @ [x @ ''ok'' @ replicate n CR] @ w # Q"
    unfolding split_char_append_sep split_char_append [of LF u] no v by (simp add: P_def x_def)
  have b: "split_char LF (u @ v) = P @ (x @ w) # Q"
    by (simp add: split_char_append [of LF u v] P_def x_def w_def Q_def)
  show ?thesis
  proof (cases "Q = []")
    case True
    with a b show ?thesis by (simp add: ok_ends_def butlast_append)
  next
    case False
    then have "butlast (w # Q) = w # butlast Q" "butlast ((x @ w) # Q) = (x @ w) # butlast Q" by simp_all
    with a b ok_ended_suffix [of w x] show ?thesis by (auto simp: ok_ends_def butlast_append)
  qed
qed

lemma scan_ok_ends: "regex_ok X \<Longrightarrow> ok_ends b \<le> fst (scan_ok X b)"
proof (induction X b rule: scan_ok.induct)
  case (1 X b)
  have rx: "rx_bytes X OK_ACK_RE b = rx_exec OK_ACK_RE b" using 1(2) by (simp add: regex_ok_def)
  show ?case
  proof (cases "rx_exec OK_ACK_RE b")
    case None
    then have none: "\<forall>u n v. b \<noteq> u @ ''ok'' @ replicate n CR @ LF # v"
      by (simp add: rx_exec_def rx_search_OK_ACK_None)
    have "\<not> ok_ended seg" if seg: "seg \<in> set (butlast (split_char LF b))" for seg
    proof
      assume "ok_ended seg"
      then obtain y n where y: "seg = y @ ''ok'' @ replicate n CR" by (auto simp: ok_ended_iff)
      obtain a c where "b = a @ seg @ LF # c" using split_char_segment [OF seg] by blast
      with y none show False by (metis append.assoc)
    qed
    then have "ok_ends b = 0" by (auto simp: ok_ends_def filter_empty_conv)
    then show ?thesis by simp
  next
    case (Some m)
    then obtain u n v where d: "b = u @ ''ok'' @ replicate n CR @ LF # v"
        "m_start m = length u" "m_end m = length u + n + 3"
      using rx_search_OK_ACK_Some [of 0 None b m] by (auto simp: rx_exec_def)
    then have g: "m_start m < m_end m \<and> m_end m \<le> length b" by simp
    have "m_end m = length (u @ ''ok'' @ replicate n CR @ [LF])"
      "b = (u @ ''ok'' @ replicate n CR @ [LF]) @ v" using d by simp_all
    then have "drop (m_end m) b = v" by (metis append_eq_conv_conj)
    then have dr: "drain_range (m_start m) (m_end m) b = u @ v" using d by (simp add: drain_range_def)
    have "ok_ends (u @ v) \<le> fst (scan_ok X (u @ v))"
      using 1(1) [of m] Some rx g dr 1(2) by simp
    moreover have "fst (scan_ok X b) = Suc (fst (scan_ok X (u @ v)))"
      using Some rx g dr by (subst scan_ok.simps) (simp add: case_prod_unfold Let_def)
    moreover have "ok_ends b \<le> Suc (ok_ends (u @ v))" unfolding d(1) by (rule ok_ends_drain)
    ultimately show ?thesis by simp
  qed
qed

lemma scan_ok_regex: "regex_ok X \<Longrightarrow> scan_ok X b = scan_ok std_regex b"
proof (induction X b rule: scan_ok.induct)
  case (1 X b)
  have "rx_bytes X OK_ACK_RE b = rx_bytes std_regex OK_ACK_RE b" using 1(2) by (simp add: regex_ok_def)
  with 1 show ?case by (simp add: scan_ok.simps [of X b] scan_ok.simps [of std_regex b] split: option.splits)
qed

lemma scan_regex: "regex_ok X \<Longrightarrow> scan X b = scan std_regex b"
  by (simp add: scan_def scan_ok_regex)

section \<open>The corrupted acknowledgement\<close>

text \<open>\<^verbatim>\<open>o\0+k\r*\n\<close> with \<open>a\<close> null bytes and \<open>b\<close> carriage returns.\<close>

definition null_ok :: "nat \<Rightarrow> nat \<Rightarrow> bytes" where
  "null_ok a b = CHR ''o'' # replicate a NUL @ CHR ''k'' # replicate b CR @ [LF]"

lemma length_null_ok [simp]: "length (null_ok a b) = a + b + 3"
  by (simp add: null_ok_def)

lemma null_ok_at_iff: "null_ok_at s = Some n \<longleftrightarrow> (\<exists>a b t. a > 0 \<and> s = null_ok a b @ t \<and> n = a + b + 3)"
  by (simp add: null_ok_at_Some null_ok_def)

lemma null_ok_at_None: "null_ok_at s = None \<longleftrightarrow> (\<forall>a b t. a > 0 \<longrightarrow> s \<noteq> null_ok a b @ t)"
  using null_ok_at_iff [of s] by (metis not_None_eq)

lemma find_null_from_iff:
  "find_null_corrupted_ok_from i s = Some (x, y) \<longleftrightarrow>
     (\<exists>u v n. s = u @ v \<and> x = i + length u \<and> null_ok_at v = Some n \<and> y = x + n \<and>
        (\<forall>u' v'. u' @ v' = s \<longrightarrow> length u' < length u \<longrightarrow> null_ok_at v' = None))"
proof (induction s arbitrary: i)
  case Nil
  show ?case by (simp add: null_ok_at_def)
next
  case (Cons c s)
  show ?case (is "_ \<longleftrightarrow> ?R (c # s) i")
  proof (cases "null_ok_at (c # s)")
    case (Some n)
    have "?R (c # s) i \<longleftrightarrow> x = i \<and> y = i + n"
    proof
      assume "?R (c # s) i"
      then obtain u v m where d: "c # s = u @ v" "x = i + length u" "null_ok_at v = Some m" "y = x + m"
        "\<forall>u' v'. u' @ v' = c # s \<longrightarrow> length u' < length u \<longrightarrow> null_ok_at v' = None" by blast
      from d(5) Some have "u = []" by (metis append_Nil length_0_conv not_gr_zero option.distinct(1))
      with d Some show "x = i \<and> y = i + n" by simp
    next
      assume "x = i \<and> y = i + n"
      with Some show "?R (c # s) i" by (intro exI [of _ "[]"] exI [of _ "c # s"] exI [of _ n]) simp
    qed
    with Some show ?thesis by auto
  next
    case None
    have "?R (c # s) i \<longleftrightarrow> ?R s (Suc i)"
    proof
      assume "?R (c # s) i"
      then obtain u v m where d: "c # s = u @ v" "x = i + length u" "null_ok_at v = Some m" "y = x + m"
        "\<forall>u' v'. u' @ v' = c # s \<longrightarrow> length u' < length u \<longrightarrow> null_ok_at v' = None" by blast
      from d(1,3) None obtain w where w: "u = c # w" "s = w @ v" by (cases u) auto
      have "\<forall>u' v'. u' @ v' = s \<longrightarrow> length u' < length w \<longrightarrow> null_ok_at v' = None"
        using d(5) w by (metis Suc_mono append_Cons length_Cons)
      with d w show "?R s (Suc i)" by (intro exI [of _ w] exI [of _ v] exI [of _ m]) simp
    next
      assume "?R s (Suc i)"
      then obtain u v m where d: "s = u @ v" "x = Suc i + length u" "null_ok_at v = Some m" "y = x + m"
        "\<forall>u' v'. u' @ v' = s \<longrightarrow> length u' < length u \<longrightarrow> null_ok_at v' = None" by blast
      have "null_ok_at v' = None" if "u' @ v' = c # s" "length u' < Suc (length u)" for u' v'
        using that None d(5) by (cases u') auto
      with d show "?R (c # s) i" by (intro exI [of _ "c # u"] exI [of _ v] exI [of _ m]) simp
    qed
    with None Cons.IH [of "Suc i"] show ?thesis by simp
  qed
qed

section \<open>Properties\<close>

text \<open>
  C6: whatever sequence of chunks, sends, signals and resets happens, as long as a line is tracked only
  when it fits and the size changes only while nothing is outstanding, the counter equals the bytes of
  the commands not yet acknowledged and these fit into the device's receive buffer.
\<close>

theorem rx_buffer_never_overrun:
  assumes "(flow_step X)\<^sup>*\<^sup>* FlowControl_new fc"
  shows "rx_count fc = bytes_of (pending fc) \<and> bytes_of (pending fc) \<le> rx_buffer_size fc"
  using flow_ok_reachable [OF assms flow_ok_new] by (simp add: flow_ok_def)

theorem rx_buffer_never_overrun_witness:
  "rx_count (track_command 100 None ''G1'' FlowControl_new) = 100 \<and>
   bytes_of (pending (track_command 100 None ''G1'' FlowControl_new)) \<le> 127"
proof -
  have "flow_step std_regex FlowControl_new (track_command 100 None ''G1'' FlowControl_new)"
    by (rule fs_send) (simp add: needs_space_def rx_buffer_size_def FlowControl_new_def
        DEFAULT_GRBL_RX_BUFFER_SIZE_def)
  then have "(flow_step std_regex)\<^sup>*\<^sup>* FlowControl_new (track_command 100 None ''G1'' FlowControl_new)" by blast
  from rx_buffer_never_overrun [OF this] show ?thesis
    by (simp add: track_command_def FlowControl_new_def rx_buffer_size_def DEFAULT_GRBL_RX_BUFFER_SIZE_def)
qed

text \<open>
  C8: parsing a chunk is a scan of the bytes that does not look at the accounting, followed by charging
  the replies to the queue in order: the k-th acknowledgement takes the k-th pending command, an error
  discards its command, and no complete line stays in the buffer.
\<close>

theorem parse_incoming_refines_scan:
  "fst (parse_incoming X data fc) = charge (fst (scan X (status_buffer fc @ data))) (pending fc) \<and>
   pending (snd (parse_incoming X data fc)) =
     drop (acks_in (fst (scan X (status_buffer fc @ data)))) (pending fc) \<and>
   status_buffer (snd (parse_incoming X data fc)) = snd (scan X (status_buffer fc @ data)) \<and>
   LF \<notin> set (status_buffer (snd (parse_incoming X data fc))) \<and>
   (acked_since_flush (snd (parse_incoming X data fc)) \<longleftrightarrow>
      acked_since_flush fc \<or> acks_in (fst (scan X (status_buffer fc @ data))) > 0)"
  by (simp add: parse_incoming_scan respond_fst respond_frame scan_no_LF)

text \<open>
  C26: an acknowledgement that buggy firmware writes into the middle of other output is not lost: every
  line end that follows \<^verbatim>\<open>ok\<close> and carriage returns, whatever stands before it, gives an \<open>Ok\<close>
  response.
\<close>

theorem interleaved_acks_not_lost:
  assumes "regex_ok X"
  shows "ok_ends (status_buffer fc @ data) \<le>
    length (filter (\<lambda>r. rtype r = R_Ok) (fst (parse_incoming X data fc)))"
proof -
  let ?b = "status_buffer fc @ data"
  have "length (filter (\<lambda>r. rtype r = R_Ok) (fst (parse_incoming X data fc))) = length (texts R_Ok (fst (scan X ?b)))"
    using parse_incoming_texts [of R_Ok X data fc] by (metis response_texts_def length_map)
  moreover have "fst (scan_ok X ?b) \<le> length (texts R_Ok (fst (scan X ?b)))"
    by (simp add: scan_def case_prod_unfold Let_def texts_replicate_ok)
  ultimately show ?thesis using scan_ok_ends [OF assms, of ?b] by simp
qed

theorem interleaved_acks_not_lost_witness:
  "1 \<le> length (filter (\<lambda>r. rtype r = R_Ok)
          (fst (parse_incoming std_regex (''<Idle|MPosok'' @ [LF] @ '':0,0,0>'') FlowControl_new)))"
proof -
  have "ok_ends (status_buffer FlowControl_new @ ''<Idle|MPosok'' @ [LF] @ '':0,0,0>'') = 1" by code_simp
  with interleaved_acks_not_lost [OF regex_ok_std, of FlowControl_new "''<Idle|MPosok'' @ [LF] @ '':0,0,0>''"]
  show ?thesis by simp
qed

text \<open>
  \<open>find_null_corrupted_ok\<close> finds the leftmost occurrence of an acknowledgement with null bytes
  between its letters, with its exact extent, and reports nothing exactly when there is none.
\<close>

theorem find_null_corrupted_ok_leftmost:
  "find_null_corrupted_ok buf = Some (i, j) \<longleftrightarrow>
     (\<exists>u a b v. a > 0 \<and> buf = u @ null_ok a b @ v \<and> i = length u \<and> j = length (u @ null_ok a b) \<and>
        (\<forall>u' a' b' v'. a' > 0 \<longrightarrow> buf = u' @ null_ok a' b' @ v' \<longrightarrow> length u \<le> length u'))"
  (is "_ \<longleftrightarrow> ?R")
proof
  assume "find_null_corrupted_ok buf = Some (i, j)"
  then obtain u v n where d: "buf = u @ v" "i = length u" "null_ok_at v = Some n" "j = i + n"
      and first: "\<forall>u' v'. u' @ v' = buf \<longrightarrow> length u' < length u \<longrightarrow> null_ok_at v' = None"
    by (auto simp: find_null_corrupted_ok_def find_null_from_iff)
  from d(3) obtain a b t where "a > 0" "v = null_ok a b @ t" "n = a + b + 3" by (auto simp: null_ok_at_iff)
  moreover have "length u \<le> length u'" if "a' > 0" "buf = u' @ null_ok a' b' @ v'" for u' a' b' v'
    using first that by (metis not_less null_ok_at_None)
  ultimately have "a > 0 \<and> buf = u @ null_ok a b @ t \<and> i = length u \<and> j = length (u @ null_ok a b) \<and>
      (\<forall>u' a' b' v'. a' > 0 \<longrightarrow> buf = u' @ null_ok a' b' @ v' \<longrightarrow> length u \<le> length u')"
    using d by simp
  then show ?R by blast
next
  assume ?R
  then obtain u a b v where "a > 0" "buf = u @ null_ok a b @ v" "i = length u" "j = length (u @ null_ok a b)"
      and first: "\<forall>u' a' b' v'. a' > 0 \<longrightarrow> buf = u' @ null_ok a' b' @ v' \<longrightarrow> length u \<le> length u'" by blast
  then have "\<exists>v n. buf = u @ v \<and> null_ok_at v = Some n \<and> j = i + n" by (auto simp: null_ok_at_iff)
  moreover have "\<forall>u' v'. u' @ v' = buf \<longrightarrow> length u' < length u \<longrightarrow> null_ok_at v' = None"
    using first by (metis not_less null_ok_at_None)
  ultimately show "find_null_corrupted_ok buf = Some (i, j)" using \<open>i = length u\<close>
    by (auto simp: find_null_corrupted_ok_def find_null_from_iff)
qed

theorem find_null_corrupted_ok_leftmost_witness:
  "find_null_corrupted_ok (''<a>'' @ null_ok 2 1 @ ''x'') = Some (3, 9)"
  unfolding find_null_corrupted_ok_leftmost [of "''<a>'' @ null_ok 2 1 @ ''x''" 3 9]
proof (rule exI [of _ "''<a>''"], rule exI [of _ 2], rule exI [of _ 1], rule exI [of _ "''x''"],
    intro conjI allI impI)
  fix u' v' :: bytes and a' b' :: nat
  assume "''<a>'' @ null_ok 2 1 @ ''x'' = u' @ null_ok a' b' @ v'"
  then show "length ''<a>'' \<le> length u'"
    by (cases u'; cases "tl u'"; cases "tl (tl u')") (auto simp: null_ok_def)
qed simp_all

text \<open>
  an error report and an acknowledgement that arrive in one chunk are charged in the wrong order:
  the acknowledgement, which belongs to the second command, takes the first one, the command the device
  rejected.
\<close>

theorem error_then_ok_misattributed:
  assumes "regex_ok X" and "status_buffer fc = []" and "pending fc = [p, q]"
  shows "fst (parse_incoming X (''error:20'' @ [LF] @ ''ok'' @ [LF]) fc) =
    [\<lparr>rtype = R_Ok, r_text = ''ok'', r_pending = Some p\<rparr>,
     \<lparr>rtype = R_Error, r_text = ''error:20'', r_pending = None\<rparr>]"
proof -
  have "scan std_regex (''error:20'' @ [LF] @ ''ok'' @ [LF]) = ([(R_Ok, ''ok''), (R_Error, ''error:20'')], [])"
    by code_simp
  with assms show ?thesis
    unfolding parse_incoming_scan respond_fst scan_regex [OF assms(1)] assms(2) append_Nil
    by (simp add: is_ack_def)
qed

theorem error_then_ok_misattributed_witness:
  "fst (parse_incoming std_regex (''error:20'' @ [LF] @ ''ok'' @ [LF])
      (track_command 3 (Some 1) ''G1'' (track_command 3 (Some 0) ''G0'' FlowControl_new))) =
    [\<lparr>rtype = R_Ok, r_text = ''ok'', r_pending = Some \<lparr>pc_length = 3, pc_op_index = Some 0, pc_command = ''G0''\<rparr>\<rparr>,
     \<lparr>rtype = R_Error, r_text = ''error:20'', r_pending = None\<rparr>]"
  by (rule error_then_ok_misattributed [OF regex_ok_std])
    (simp_all add: track_command_def FlowControl_new_def)

end
