(* ===== verification/Grbl_Inv.thy ===== *)
theory Grbl_Inv
  imports Grbl_Ops Flow_Safety
begin

text \<open>
  What the handlers of the GRBL session leave alone, and the invariants of its tasks. The locale
  \<open>grbl_quiet\<close> is the contract of an invariant that the environment and the bookkeeping of the tasks
  keep, \<open>grbl_task\<close> that of one which sending keeps as well; each gives the invariant for every task
  built from these pieces, under every script.
\<close>

section \<open>Frames of the handlers\<close>

text \<open>The part of the session that no handler of received bytes changes.\<close>

definition link_view :: "GrblCore \<Rightarrow> Transport \<times> SessionConfig \<times> Dialect \<times> bool" where
  "link_view w = (g_transport w, g_config w, g_dialect w, g_keep_running w)"

definition job_view :: "GrblCore \<Rightarrow> bool \<times> bool \<times> bool \<times> nat \<times> nat option \<times> bool list \<times> nat" where
  "job_view w = (g_job_running w, g_is_cancelled w, g_is_holding w, g_unanswered_polls w,
     g_stream_task w, g_stream_done w, jobs_finished (g_events w))"

definition cmd_view :: "GrblCore \<Rightarrow> nat list \<times> nat list option \<times> lock \<times> cmd_task \<times> nat \<times> nat option \<times> nat option" where
  "cmd_view w = (g_queued_requests w, g_cmd_queue w, g_cmd_lock w, g_cmd_task w, length (g_requests w),
     g_interactive_request w, g_current_request w)"

definition flow_view :: "GrblCore \<Rightarrow> nat \<times> PendingCommand list \<times> bytes \<times> bool \<times> bool" where
  "flow_view w = (rx_count (g_flow w), pending (g_flow w), status_buffer (g_flow w),
     acked_since_flush (g_flow w), drained_since_flush (g_flow w))"

definition stable where
  "stable w = (link_view w, job_view w, cmd_view w, flow_view w)"

lemmas view_defs = stable_def link_view_def job_view_def cmd_view_def flow_view_def

named_theorems stable_simps \<open>operations that leave the stable part of the session alone\<close>

lemma stable_updates [stable_simps]:
  "stable (w\<lparr>g_state := s\<rparr>) = stable w" "stable (w\<lparr>g_raw_grbl_status := r\<rparr>) = stable w"
  "stable (w\<lparr>g_device_response_count := n\<rparr>) = stable w" "stable (w\<lparr>g_job_exception := e\<rparr>) = stable w"
  "stable (w\<lparr>g_handshake_received := h\<rparr>) = stable w" "stable (w\<lparr>g_last_reported_op_index := i\<rparr>) = stable w"
  "stable (w\<lparr>g_report_in_inches := b\<rparr>) = stable w" "stable (w\<lparr>g_last_connection_status := c\<rparr>) = stable w"
  by (simp_all add: view_defs)

lemma stable_emit [stable_simps]: "JobFinished \<notin> set evs \<Longrightarrow> stable (grbl_emit evs w) = stable w"
  by (simp add: grbl_emit_def view_defs jobs_finished_0)

lemma stable_update_request [stable_simps]: "stable (update_request i f w) = stable w"
  by (simp add: update_request_def view_defs)

lemma stable_note_response [stable_simps]: "stable (note_device_response w) = stable w"
  by (simp add: note_device_response_def stable_simps)

lemma stable_signal_space [stable_simps]: "stable (signal_space w) = stable w"
  by (simp add: signal_space_def signal_space_available_def view_defs)

lemma stable_set_size [stable_simps]: "stable (w\<lparr>g_flow := set_rx_buffer_size n (g_flow w)\<rparr>) = stable w"
  by (simp add: set_rx_buffer_size_def view_defs)

lemma stable_complete_request [stable_simps]:
  "ev \<noteq> JobFinished \<Longrightarrow> stable (complete_request l ev w) = stable w"
  by (simp add: complete_request_def stable_simps split: option.splits)

lemma stable_report_done [stable_simps]: "stable (report_done p w) = stable w"
proof -
  have "JobFinished \<notin> set (map CommandDone is)" for "is" by auto
  then show ?thesis by (simp add: report_done_def stable_simps split: option.splits del: set_map)
qed

lemma stable_record_error [stable_simps]: "stable (record_error e w) = stable w"
  by (simp add: record_error_def Let_def stable_simps)

lemma stable_handle_ok [stable_simps]: "stable (handle_ok p w) = stable w"
  by (simp add: handle_ok_def Let_def stable_simps)

lemma stable_handle_error [stable_simps]: "stable (handle_error tx w) = stable w"
  by (simp add: handle_error_def Let_def stable_simps)

lemma stable_cache [stable_simps]: "stable (cache_rx_buffer_size n w) = stable w"
  by (simp add: cache_rx_buffer_size_def stable_simps)

lemma stable_learn [stable_simps]: "stable (learn_rx_size st w) = stable w"
  by (simp add: learn_rx_size_def Let_def stable_simps split: option.splits)

lemma stable_status_report [stable_simps]: "stable (handle_status_report X r w) = stable w"
  by (simp add: handle_status_report_def Let_def stable_simps)

lemma stable_collect_line [stable_simps]: "stable (collect_line l w) = stable w"
  by (simp add: collect_line_def stable_simps split: option.splits)

lemma stable_handle_alarm [stable_simps]: "stable (handle_alarm l c w) = stable w"
  by (simp add: handle_alarm_def Let_def stable_simps)

lemma stable_handle_opt [stable_simps]: "stable (handle_opt X l w) = stable w"
  by (simp add: handle_opt_def Let_def stable_simps split: option.splits)

lemma stable_set_handshake [stable_simps]: "stable (set_handshake w) = stable w"
  by (simp add: set_handshake_def stable_simps)

lemma stable_handle_line [stable_simps]: "stable (handle_line X l w) = stable w"
  by (simp add: handle_line_def Let_def stable_simps split: option.splits)

lemma stable_handle_response [stable_simps]: "stable (handle_response X r w) = stable w"
  by (simp add: handle_response_def stable_simps split: GrblResponseType.splits)

lemma stable_fold_response [stable_simps]: "stable (fold (handle_response X) rs w) = stable w"
  by (induction rs arbitrary: w) (simp_all add: stable_simps)

lemma fold_response_frame [frame_simps]:
  "g_config (fold (handle_response X) rs w) = g_config w"
  "g_job_running (fold (handle_response X) rs w) = g_job_running w"
  "rx_count (g_flow (fold (handle_response X) rs w)) = rx_count (g_flow w)"
  "pending (g_flow (fold (handle_response X) rs w)) = pending (g_flow w)"
  "status_buffer (g_flow (fold (handle_response X) rs w)) = status_buffer (g_flow w)"
  "acked_since_flush (g_flow (fold (handle_response X) rs w)) = acked_since_flush (g_flow w)"
  "drained_since_flush (g_flow (fold (handle_response X) rs w)) = drained_since_flush (g_flow w)"
  using stable_fold_response [of X rs w] by (simp_all add: view_defs)

lemma handle_rx_views:
  "link_view (handle_rx X d w) = link_view w" "job_view (handle_rx X d w) = job_view w"
  "cmd_view (handle_rx X d w) = cmd_view w"
proof -
  define v where "v = w\<lparr>g_flow := snd (parse_incoming X d (g_flow w))\<rparr>"
  define rs where "rs = lines_first (fst (parse_incoming X d (g_flow w)))"
  let ?u = "fold (handle_response X) rs v"
  have u: "handle_rx X d w = ?u\<lparr>g_flow := flush_notifications (g_flow ?u)\<rparr>"
    by (simp add: handle_rx_def case_prod_unfold Let_def v_def rs_def)
  have "stable ?u = stable v" by (rule stable_fold_response)
  then show "link_view (handle_rx X d w) = link_view w" "job_view (handle_rx X d w) = job_view w"
    "cmd_view (handle_rx X d w) = cmd_view w"
    unfolding u by (simp_all add: view_defs v_def)
qed

lemma handle_rx_frame [frame_simps]:
  "g_transport (handle_rx X d w) = g_transport w"
  "g_config (handle_rx X d w) = g_config w"
  "g_dialect (handle_rx X d w) = g_dialect w"
  "g_job_running (handle_rx X d w) = g_job_running w"
  "g_is_cancelled (handle_rx X d w) = g_is_cancelled w"
  "g_is_holding (handle_rx X d w) = g_is_holding w"
  "g_unanswered_polls (handle_rx X d w) = g_unanswered_polls w"
  "g_cmd_lock (handle_rx X d w) = g_cmd_lock w"
  "g_cmd_task (handle_rx X d w) = g_cmd_task w"
  "jobs_finished (g_events (handle_rx X d w)) = jobs_finished (g_events w)"
  "length (g_requests (handle_rx X d w)) = length (g_requests w)"
  using handle_rx_views [of X d w] by (simp_all add: view_defs)

text \<open>The flow control sees only signals and resizes from the handlers.\<close>

lemma handle_rx_flow:
  "rx_count (g_flow (handle_rx X d w)) = rx_count (snd (parse_incoming X d (g_flow w)))"
  "pending (g_flow (handle_rx X d w)) = pending (snd (parse_incoming X d (g_flow w)))"
  "status_buffer (g_flow (handle_rx X d w)) = status_buffer (snd (parse_incoming X d (g_flow w)))"
  by (simp_all add: handle_rx_def case_prod_unfold Let_def frame_simps)

lemma handle_rx_balanced: "balanced (g_flow w) \<Longrightarrow> balanced (g_flow (handle_rx X d w))"
  using parse_incoming_balanced [of "g_flow w" X d] by (simp add: balanced_iff handle_rx_flow)

section \<open>Frames of sending and of the command task\<close>

lemma grbl_write_eq: "snd (grbl_write d w) = w\<lparr>g_transport := snd (tr_write d (g_transport w))\<rparr>"
  by (auto simp: grbl_write_def split: prod.splits sum.splits)

lemma grbl_write_fst:
  "fst (grbl_write d w) = (case fst (tr_write d (g_transport w)) of
     Inl e \<Rightarrow> Inl (session_error_from_transport e) | Inr _ \<Rightarrow> Inr ())"
  by (auto simp: grbl_write_def split: prod.splits sum.splits)

lemma track_and_write_eq:
  "snd (track_and_write d op w) =
     w\<lparr>g_flow := track_command (length d) op (trim_end (utf8_lossy d)) (g_flow w),
       g_events := g_events w @ [RawTx (trim_end (utf8_lossy d))],
       g_transport := snd (tr_write d (g_transport w))\<rparr>"
  by (simp add: track_and_write_def Let_def grbl_write_eq grbl_emit_def)

lemma poll_send_eq:
  "snd (poll_send w) =
     w\<lparr>g_events := g_events w @ [RawTx ''?''],
       g_transport := (if tr_is_open (g_transport w) then snd (tr_write ''?'' (g_transport w)) else g_transport w)\<rparr>"
  by (simp add: poll_send_def Let_def grbl_emit_def transport_open_def grbl_write_eq)

lemma cmd_task_send_frame [frame_simps]:
  "g_config (cmd_task_send i w) = g_config w" "g_is_cancelled (cmd_task_send i w) = g_is_cancelled w"
  "g_job_running (cmd_task_send i w) = g_job_running w"
  "jobs_finished (g_events (cmd_task_send i w)) = jobs_finished (g_events w)"
  "balanced (g_flow w) \<Longrightarrow> balanced (g_flow (cmd_task_send i w))"
  using track_and_write_eq [of "with_newline (req_command (g_requests w ! i))" None w]
  by (auto simp: cmd_task_send_def cmd_task_fail_def cmd_task_leave_def update_connection_status_def
      grbl_emit_def balanced_iff track_command_def split: prod.splits sum.splits)

lemma cmd_task_frame [frame_simps]:
  "g_config (cmd_task_step x w) = g_config w" "g_is_cancelled (cmd_task_step x w) = g_is_cancelled w"
  "g_job_running (cmd_task_step x w) = g_job_running w"
  "jobs_finished (g_events (cmd_task_step x w)) = jobs_finished (g_events w)"
  "balanced (g_flow w) \<Longrightarrow> balanced (g_flow (cmd_task_step x w))"
  by (simp_all add: cmd_task_step_def cmd_task_recv_def cmd_task_lock_def cmd_task_locked_def
      cmd_task_fail_def cmd_task_leave_def cmd_task_next_def update_request_def
      update_connection_status_def grbl_emit_def frame_simps Let_def
      split: cmd_task.splits option.splits list.splits)

section \<open>Invariants of the tasks\<close>

locale grbl_quiet = env_invariant "grbl_env X" A P
  for X :: regex_crate and A :: "env_event \<Rightarrow> bool" and P :: "GrblCore \<Rightarrow> bool" +
  assumes lock_kept: "P w \<Longrightarrow> P (w\<lparr>g_cmd_lock := l\<rparr>)"
    and poll_kept: "P w \<Longrightarrow> P (snd (poll_send w))"
    and polls_kept: "P w \<Longrightarrow> P (w\<lparr>g_unanswered_polls := n\<rparr>)"
    and raw_kept: "P w \<Longrightarrow> P (w\<lparr>g_raw_grbl_status := st\<rparr>)"
    and exception_kept: "P w \<Longrightarrow> P (w\<lparr>g_job_exception := e\<rparr>)"
begin

lemma acquire_kept: "P w \<Longrightarrow> list_all A es \<Longrightarrow> kept (acquire X w es)"
  unfolding acquire_def by (rule bindA_kept [OF await_kept]) (simp_all add: lock_kept)

lemma release_kept: "P w \<Longrightarrow> P (release w)"
  by (simp add: release_def lock_kept)

lemma poll_wait_kept: "P w \<Longrightarrow> list_all A es \<Longrightarrow> kept (poll_wait X n w es)"
proof (induction n arbitrary: w es)
  case 0
  then show ?case by simp
next
  case (Suc n)
  show ?case unfolding poll_wait.simps
    by (rule bindA_kept [OF sleep_kept [OF Suc.prems]]) (simp add: Suc.IH)
qed

lemma poll_reply_kept: "P w \<Longrightarrow> list_all A es \<Longrightarrow> kept (case poll_send w of (r, w) \<Rightarrow> Ret r w es)"
  using poll_kept [of w] by (simp add: case_prod_unfold)

lemma poll_and_check_idle_kept: "P w \<Longrightarrow> list_all A es \<Longrightarrow> kept (poll_and_check_idle X h w es)"
  unfolding poll_and_check_idle_def Let_def
proof (rule bindA_kept, goal_cases)
  case 1
  let ?w = "w\<lparr>g_raw_grbl_status := Unknown\<rparr>"
  have w: "P ?w" by (rule raw_kept [OF 1(1)])
  have "kept (bindA (acquire X ?w es) (\<lambda>_ w es. case poll_send w of (r, w) \<Rightarrow> Ret r (release w) es))"
    by (rule bindA_kept [OF acquire_kept [OF w 1(2)]]) (simp add: case_prod_unfold release_kept poll_kept)
  moreover have "kept (case poll_send ?w of (r, w) \<Rightarrow> Ret r w es)"
    using w 1(2) by (rule poll_reply_kept)
  ultimately show ?case by simp
next
  case (2 r w' es')
  then show ?case
    by (auto intro!: bindA_kept [OF poll_wait_kept] polls_kept simp: count_unanswered_def split: sum.splits)
qed

lemma set_exception_kept: "P w \<Longrightarrow> P (set_exception_if_none e w)"
  by (simp add: set_exception_if_none_def exception_kept)

lemma mark_unresponsive_kept: "P w \<Longrightarrow> P (mark_device_unresponsive w)"
  by (simp add: mark_device_unresponsive_def exception_kept)

lemma note_alarm_kept: "P w \<Longrightarrow> P (note_alarm w)"
  by (simp add: note_alarm_def set_exception_kept)

lemma on_buffer_stall_quiet:
  assumes "P w" "list_all A es" "\<And>w. P w \<Longrightarrow> \<not> cfg_deadlock_detection (g_config w)"
  shows "kept (on_buffer_stall X n w es)"
  unfolding on_buffer_stall_def
  using assms by (auto intro!: bindA_kept [OF poll_and_check_idle_kept] mark_unresponsive_kept set_exception_kept)

end

locale grbl_task = grbl_quiet +
  assumes send_kept: "P w \<Longrightarrow> P (snd (track_and_write d op w))"
    and reset_flow_kept: "P w \<Longrightarrow> P (w\<lparr>g_flow := reset_flow_control (g_flow w)\<rparr>)"
    and reset_kept: "P w \<Longrightarrow> P (w\<lparr>g_flow := reset (g_flow w)\<rparr>)"
begin

lemma send_reply_kept: "P w \<Longrightarrow> list_all A es \<Longrightarrow> kept (case track_and_write d op w of (r, w) \<Rightarrow> Ret r w es)"
  using send_kept [of w d op] by (simp add: case_prod_unfold)

lemma send_gcode_simple_kept: "P w \<Longrightarrow> list_all A es \<Longrightarrow> kept (send_gcode_simple X d w es)"
  unfolding send_gcode_simple_def
  by (rule bindA_kept [OF wait_for_space_kept]) (auto intro: send_reply_kept split: sum.splits)

lemma recover_kept: "P w \<Longrightarrow> list_all A es \<Longrightarrow> kept (recover_from_deadlock X h w es)"
  unfolding recover_from_deadlock_def Let_def
  by (auto intro!: bindA_kept [OF acquire_kept] bindA_kept [OF send_gcode_simple_kept]
      bindA_kept [OF wait_pending_empty_kept] reset_flow_kept reset_kept release_kept)

lemma on_buffer_stall_kept: "P w \<Longrightarrow> list_all A es \<Longrightarrow> kept (on_buffer_stall X n w es)"
  unfolding on_buffer_stall_def
  by (auto intro!: bindA_kept [OF poll_and_check_idle_kept] bindA_kept [OF recover_kept]
      mark_unresponsive_kept set_exception_kept)

lemma send_gcode_with_stall_kept:
  "P w \<Longrightarrow> list_all A es \<Longrightarrow> kept (send_gcode_with_stall X d op w es)"
proof (induction "length es" arbitrary: w es rule: less_induct)
  case less
  note w = wait_for_space_kept [OF less.prems, of g_flow "length d"]
  show ?case
  proof (cases "wait_for_space (grbl_env X) g_flow (length d) w es")
    case (Ret r w1 es1)
    with w have k1: "P w1" "list_all A es1" by simp_all
    show ?thesis
    proof (cases r)
      case (Inr u)
      with Ret k1 show ?thesis
        by (subst send_gcode_with_stall.simps) (simp add: send_reply_kept)
    next
      case (Inl t)
      with Ret have len: "length es1 < length es" by (auto dest: wait_for_space_shorter)
      have "kept (tryA (on_buffer_stall X (length d) w1 es1) (\<lambda>handled w2 es2.
          if handled then send_gcode_with_stall X d op w2 es2 else Ret (Inl e) w2 es2))" for e
      proof (cases "on_buffer_stall X (length d) w1 es1")
        case (Ret b w2 es2)
        with on_buffer_stall_kept [OF k1, of "length d"] have k2: "P w2" "list_all A es2" by simp_all
        from Ret len have "length es2 < length es" by (auto dest: on_buffer_stall_left)
        with less.hyps k2 Ret show ?thesis by (cases b) simp_all
      qed (use on_buffer_stall_kept [OF k1, of "length d"] in simp_all)
      with Ret Inl show ?thesis by (subst send_gcode_with_stall.simps) simp
    qed
  qed (use w in \<open>subst send_gcode_with_stall.simps, simp\<close>)+
qed

lemma send_gcode_line_kept: "P w \<Longrightarrow> list_all A es \<Longrightarrow> kept (send_gcode_line X d op w es)"
  unfolding send_gcode_line_def
  by (rule bindA_kept [OF acquire_kept])
    (auto intro!: bindA_kept [OF send_gcode_with_stall_kept] release_kept)

lemma drain_pending_acks_kept: "P w \<Longrightarrow> list_all A es \<Longrightarrow> kept (drain_pending_acks X w es)"
proof (induction "length es" arbitrary: w es rule: less_induct)
  case less
  have again: "kept (bindA (recover_from_deadlock X True w2 es2) (\<lambda>_ w es. drain_pending_acks X w es))"
    "kept (drain_pending_acks X w2 es2)"
    if "P w2" "list_all A es2" "length es2 < length es" for w2 es2
  proof -
    show "kept (bindA (recover_from_deadlock X True w2 es2) (\<lambda>_ w es. drain_pending_acks X w es))"
    proof (cases "recover_from_deadlock X True w2 es2")
      case (Ret u w3 es3)
      with recover_kept [OF that(1,2), of True] have "P w3" "list_all A es3" by simp_all
      moreover from Ret that(3) have "length es3 < length es" by (auto dest: recover_left)
      ultimately show ?thesis using Ret less.hyps by simp
    qed (use recover_kept [OF that(1,2), of True] in simp_all)
    show "kept (drain_pending_acks X w2 es2)" using that less.hyps by simp
  qed
  note w = wait_pending_empty_kept [OF less.prems, of g_flow True]
  show ?case
  proof (cases "wait_pending_empty (grbl_env X) g_flow True w es")
    case (Ret r w1 es1)
    with w have k1: "P w1" "list_all A es1" by simp_all
    show ?thesis
    proof (cases r)
      case (Inr u)
      with Ret k1 less.prems show ?thesis by (subst drain_pending_acks.simps) simp
    next
      case (Inl t)
      with Ret have len: "length es1 < length es" by (auto dest: wait_pending_empty_shorter)
      show ?thesis
      proof (cases "poll_and_check_idle X True w1 es1")
        case (Ret b w2 es2)
        with poll_and_check_idle_kept [OF k1, of True] have k2: "P w2" "list_all A es2" by simp_all
        from Ret len have "length es2 < length es" by (auto dest: poll_and_check_idle_left)
        with again [OF k2] k2 Ret Inl \<open>wait_pending_empty _ _ _ _ _ = _\<close> less.prems show ?thesis
          by (subst drain_pending_acks.simps) (simp add: mark_unresponsive_kept)
      qed (use poll_and_check_idle_kept [OF k1, of True] Ret Inl less.prems in
            \<open>subst drain_pending_acks.simps, simp\<close>)+
    qed
  qed (use w less.prems in \<open>subst drain_pending_acks.simps, simp\<close>)+
qed

lemma stream_lines_kept:
  "P w \<Longrightarrow> list_all A es \<Longrightarrow> kept (stream_lines X op_map tms idx ls w es)"
proof (induction ls arbitrary: idx w es)
  case Nil
  then show ?case by simp
next
  case (Cons l ls)
  have go: "kept (bindA (sleep (grbl_env X) w es) (\<lambda>_. stream_lines X op_map tms (Suc idx) ls))"
    if "P w" "list_all A es" for w es
    using that by (auto intro!: bindA_kept [OF sleep_kept] Cons.IH)
  show ?case
    using Cons.prems
    by (auto simp: Let_def note_alarm_kept set_exception_kept Cons.IH go
        intro!: bindA_kept [OF send_gcode_line_kept] split: option.splits sum.splits SessionError.splits)
qed

lemma stream_gcode_inner_kept:
  "P w \<Longrightarrow> list_all A es \<Longrightarrow> kept (stream_gcode_inner X ls op_map tms w es)"
  unfolding stream_gcode_inner_def
  by (auto intro!: tryA_kept [OF stream_lines_kept] bindA_kept drain_pending_acks_kept exception_kept
      split: option.splits)

lemma safety_commands_kept: "P w \<Longrightarrow> list_all A es \<Longrightarrow> kept (safety_commands X cs w es)"
  by (induction cs arbitrary: w es) (auto intro!: bindA_kept [OF send_gcode_simple_kept])

lemma send_safety_shutdown_kept: "P w \<Longrightarrow> list_all A es \<Longrightarrow> kept (send_safety_shutdown X em w es)"
  unfolding send_safety_shutdown_def Let_def
  by (auto intro!: bindA_kept [OF sleep_kept] safety_commands_kept)

end

end
