(* ===== verification/Grbl_Props.thy ===== *)
theory Grbl_Props
  imports Grbl_Inv
begin

text \<open>
  Properties of the full GRBL session: the byte accounting across whole jobs and interleavings, when a
  line is sent, what cancel and the end of a job report, progress notifications, error latching, the
  status shown to the user, and the order in which a chunk is processed.
\<close>

section \<open>The invariants on the model\<close>

interpretation bal: grbl_task X "\<lambda>_. True" "\<lambda>w. balanced (g_flow w)" for X
proof
  fix e and w :: GrblCore
  assume b: "balanced (g_flow w)"
  note handle_rx_balanced [OF b, of X] cmd_task_frame(5) [OF b]
  with b show "balanced (g_flow (grbl_env X e w))"
    by (cases e) (auto simp: cancel_begin_def signal_space_def balanced_iff)
qed (simp_all add: poll_send_eq track_and_write_eq balanced_iff track_command_def reset_flow_control_def
      reset_def notify_drained_def)

interpretation jobs: grbl_task X "\<lambda>_. True" "\<lambda>w. jobs_finished (g_events w) = n" for X n
proof
  fix e and w :: GrblCore
  assume j: "jobs_finished (g_events w) = n"
  then show "jobs_finished (g_events (grbl_env X e w)) = n"
    by (cases e) (simp_all add: handle_rx_frame cmd_task_frame cancel_begin_def signal_space_def)
qed (simp_all add: poll_send_eq track_and_write_eq)

interpretation conf: grbl_task X "\<lambda>_. True" "\<lambda>w. g_config w = c" for X c
proof
  fix e and w :: GrblCore
  assume "g_config w = c"
  then show "g_config (grbl_env X e w) = c"
    by (cases e) (simp_all add: handle_rx_frame cmd_task_frame cancel_begin_def signal_space_def)
qed (simp_all add: poll_send_eq track_and_write_eq)

lemma list_all_True [simp]: "list_all (\<lambda>_. True) es"
  by (simp add: list_all_def)

section \<open>Cancel\<close>

lemma fold_finish_frame:
  "g_flow (fold (\<lambda>i. update_request i finish) is w) = g_flow w"
  "g_events (fold (\<lambda>i. update_request i finish) is w) = g_events w"
  "g_transport (fold (\<lambda>i. update_request i finish) is w) = g_transport w"
  "g_job_running (fold (\<lambda>i. update_request i finish) is w) = g_job_running w"
  "g_is_cancelled (fold (\<lambda>i. update_request i finish) is w) = g_is_cancelled w"
  "g_dialect (fold (\<lambda>i. update_request i finish) is w) = g_dialect w"
  by (induction "is" arbitrary: w) (simp_all add: update_request_def)

lemma abort_stream_frame:
  "g_flow (abort_stream_task b w) = g_flow w" "g_events (abort_stream_task b w) = g_events w"
  "g_transport (abort_stream_task b w) = g_transport w"
  "g_job_running (abort_stream_task b w) = g_job_running w"
  "g_is_cancelled (abort_stream_task b w) = g_is_cancelled w"
  "g_dialect (abort_stream_task b w) = g_dialect w"
  by (simp_all add: abort_stream_task_def split: option.splits)

lemma cancel_begin_frame [simp]:
  "g_events (cancel_begin w) = g_events w" "g_transport (cancel_begin w) = g_transport w"
  "g_is_cancelled (cancel_begin w)" "\<not> g_job_running (cancel_begin w)"
  "g_dialect (cancel_begin w) = g_dialect w" "pending (g_flow (cancel_begin w)) = pending (g_flow w)"
  "rx_count (g_flow (cancel_begin w)) = rx_count (g_flow w)"
  by (simp_all add: cancel_begin_def signal_space_def)

text \<open>The session between the soft reset and the safety commands.\<close>

definition after_reset :: "bool \<Rightarrow> GrblCore \<Rightarrow> GrblCore" where
  "after_reset in_stream w =
     (let w = drain_queued_requests (abort_stream_task in_stream (snd (grbl_write [CHR 0x18] (cancel_begin w))))
      in w\<lparr>g_flow := reset (g_flow w)\<rparr>)"

lemma cancel_cases:
  obtains (closed) "\<not> tr_is_open (g_transport w)"
      "cancel X s em w es = Ret (Inl (Err_Connection ''Serial transport not connected'')) (cancel_begin w) es"
  | (failed) e where "tr_is_open (g_transport w)" "fst (tr_write [CHR 0x18] (g_transport w)) = Inl e"
      "cancel X s em w es = Ret (Inl (session_error_from_transport e)) (snd (grbl_write [CHR 0x18] (cancel_begin w))) es"
  | (sent) "tr_is_open (g_transport w)" "fst (tr_write [CHR 0x18] (g_transport w)) = Inr ()"
      "cancel X s em w es = bindA (send_safety_shutdown X em (after_reset s w) es)
         (\<lambda>_ v es. Ret (Inr ()) (if g_job_running w then grbl_emit [JobFinished] v else v) es)"
proof (cases "tr_is_open (g_transport w)")
  case False
  then show ?thesis using closed by (simp add: cancel_def transport_open_def)
next
  case True
  show ?thesis
  proof (cases "fst (tr_write [CHR 0x18] (g_transport w))")
    case (Inl e)
    have "cancel X s em w es =
        Ret (Inl (session_error_from_transport e)) (snd (grbl_write [CHR 0x18] (cancel_begin w))) es"
      using True Inl by (auto simp: cancel_def transport_open_def grbl_write_def Let_def split: prod.splits)
    with True Inl failed show ?thesis by blast
  next
    case (Inr u)
    obtain t where t: "tr_write [CHR 0x18] (g_transport w) = (Inr (), t)"
      using Inr by (cases "tr_write [CHR 0x18] (g_transport w)") auto
    have "cancel X s em w es = bindA (send_safety_shutdown X em (after_reset s w) es)
        (\<lambda>_ v es. Ret (Inr ()) (if g_job_running w then grbl_emit [JobFinished] v else v) es)"
      using True t by (simp add: cancel_def transport_open_def grbl_write_def after_reset_def Let_def)
    with True Inr sent show ?thesis by simp
  qed
qed

lemma after_reset_frame:
  "g_events (after_reset s w) = g_events w"
  "g_transport (after_reset s w) = snd (tr_write [CHR 0x18] (g_transport w))"
  "pending (g_flow (after_reset s w)) = []" "rx_count (g_flow (after_reset s w)) = 0"
  "status_buffer (g_flow (after_reset s w)) = []"
  "g_is_cancelled (after_reset s w)" "\<not> g_job_running (after_reset s w)"
  "g_dialect (after_reset s w) = g_dialect w"
  by (simp_all add: after_reset_def Let_def drain_queued_requests_def fold_finish_frame abort_stream_frame
      grbl_write_eq reset_def reset_flow_control_def notify_drained_def)

lemma cancel_balanced: "balanced (g_flow w) \<Longrightarrow> balanced (g_flow (world_of (cancel X s em w es)))"
proof (cases rule: cancel_cases [of w X s em es])
  case sent
  have "balanced (g_flow (after_reset s w))" by (simp add: balanced_iff after_reset_frame)
  then show ?thesis
    unfolding sent(3)
    by (intro bal.kept_world bal.bindA_kept bal.send_safety_shutdown_kept) (simp_all add: grbl_emit_def)
qed (simp_all add: balanced_iff grbl_write_eq)

lemma cancel_jobs:
  assumes "cancel X s em w es = Ret (Inr ()) w' es'"
  shows "jobs_finished (g_events w') = jobs_finished (g_events w) + (if g_job_running w then 1 else 0)"
  using assms
proof (cases rule: cancel_cases [of w X s em es])
  case sent
  let ?n = "jobs_finished (g_events w)"
  from assms sent(3) obtain u v where v: "send_safety_shutdown X em (after_reset s w) es = Ret u v es'"
      "w' = (if g_job_running w then grbl_emit [JobFinished] v else v)"
    by (auto dest!: bindA_congD)
  have "jobs_finished (g_events (world_of (send_safety_shutdown X em (after_reset s w) es))) = ?n"
    by (intro jobs.kept_world jobs.send_safety_shutdown_kept) (simp_all add: after_reset_frame)
  with v(1) have "jobs_finished (g_events v) = ?n" by simp
  with v(2) show ?thesis by (simp add: grbl_emit_def)
qed simp_all

section \<open>Sending a line\<close>

lemma tr_write_wire: "fst (tr_write d t) = Inr () \<Longrightarrow> tr_wire (snd (tr_write d t)) = tr_wire t @ [d]"
  by (cases t) (auto simp: via_def serial_write_def telnet_write_def mock_write_def
      split: prod.splits option.splits if_splits)

lemma track_and_write_fst:
  "fst (track_and_write d op w) = (case fst (tr_write d (g_transport w)) of
     Inl e \<Rightarrow> Inl (session_error_from_transport e) | Inr _ \<Rightarrow> Inr ())"
  by (simp add: track_and_write_def Let_def grbl_write_fst grbl_emit_def)

lemma send_with_stall_Ok:
  "send_gcode_with_stall X d op w es = Ret (Inr u) w' es' \<Longrightarrow>
   \<exists>v. \<not> needs_space (g_flow v) (length d) \<and> track_and_write d op v = (Inr (), w')"
proof (induction "length es" arbitrary: w es rule: less_induct)
  case less
  from less.prems obtain r w1 es1 where 1: "wait_for_space (grbl_env X) g_flow (length d) w es = Ret r w1 es1"
    by (subst (asm) send_gcode_with_stall.simps) (auto dest!: bindA_congD)
  show ?case
  proof (cases r)
    case (Inr x)
    with 1 have "\<not> needs_space (g_flow w1) (length d)" by (auto dest: wait_for_space_Ok)
    moreover from less.prems 1 Inr have "track_and_write d op w1 = (Inr (), w')"
      by (subst (asm) send_gcode_with_stall.simps) (auto split: prod.splits)
    ultimately show ?thesis by blast
  next
    case (Inl x)
    with less.prems 1 obtain b w2 es2 where 2: "on_buffer_stall X (length d) w1 es1 = Ret (Inr b) w2 es2"
        "send_gcode_with_stall X d op w2 es2 = Ret (Inr u) w' es'"
      by (subst (asm) send_gcode_with_stall.simps) (auto dest!: tryA_congD split: if_splits)
    from 1 Inl 2(1) have "length es2 < length es"
      by (auto dest!: wait_for_space_shorter on_buffer_stall_left)
    with less.hyps 2(2) show ?thesis by blast
  qed
qed

lemma send_gcode_line_Ok:
  assumes "send_gcode_line X d op w es = Ret (Inr u) w' es'"
  obtains v where "\<not> needs_space (g_flow v) (length d)" "w' = release (snd (track_and_write d op v))"
    "fst (track_and_write d op v) = Inr ()"
proof -
  from assms obtain u1 w1 es1 w2 where "send_gcode_with_stall X d op w1 es1 = Ret (Inr u1) w2 es'" "w' = release w2"
    by (auto simp: send_gcode_line_def dest!: bindA_congD split: if_splits)
  with send_with_stall_Ok that show ?thesis by (metis fst_conv snd_conv)
qed

section \<open>Properties of sending\<close>

text \<open>
  C5: during a whole job, under every interleaving of received chunks, the command task, cancel, lock
  traffic and time-outs, and wherever the job is interrupted, the session's byte counter equals the
  bytes of the commands it believes outstanding.
\<close>

theorem job_accounting_exact:
  assumes "rx_count (g_flow w) = bytes_of (pending (g_flow w))"
  shows "rx_count (g_flow (world_of (stream_gcode X ls op_map tms w es))) =
    bytes_of (pending (g_flow (world_of (stream_gcode X ls op_map tms w es))))"
proof -
  have b: "balanced (g_flow w)" using assms by (simp add: balanced_iff)
  have fin: "g_flow (finish_stream r v) = g_flow v" for r v
    by (simp add: finish_stream_def grbl_emit_def Let_def split: sum.splits)
  have rec: "g_flow (record_error e v) = g_flow v" for e v
    by (simp add: record_error_def grbl_emit_def Let_def)
  have can: "balanced (g_flow (world_of (bindA (cancel X True True (record_error e v) es)
      (\<lambda>_ w es. Ret () w es))))" if "balanced (g_flow v)" for e v es
    using cancel_balanced [of "record_error e v" X True True es] that rec
    by (cases "cancel X True True (record_error e v) es") (simp_all add: balanced_iff)
  have fs: "balanced (g_flow (world_of (bindA m (\<lambda>_ w es. Ret () (finish_stream r w) es))))"
    if "balanced (g_flow (world_of m))" for m :: "(unit, GrblCore) outcome" and r
    using that fin by (cases m) (simp_all add: balanced_iff)
  have "balanced (g_flow (world_of (stream_gcode X ls op_map tms w es)))"
  proof (cases "stream_gcode_inner X ls op_map tms w es")
    case (Ret r v es1)
    with bal.kept_world [OF bal.stream_gcode_inner_kept [OF b, of es X ls op_map tms]]
    have v: "balanced (g_flow v)" by simp
    have "balanced (g_flow (world_of (case r of Inl e \<Rightarrow>
        if \<not> g_is_cancelled v then bindA (cancel X True True (record_error (job_error e) v) es1) (\<lambda>_ w es. Ret () w es)
        else Ret () v es1 | Inr _ \<Rightarrow> Ret () v es1)))"
      using v can [OF v] by (auto split: sum.splits)
    from fs [OF this, of r] show ?thesis by (simp add: stream_gcode_def Ret)
  qed (use bal.kept_world [OF bal.stream_gcode_inner_kept [OF b, of es X ls op_map tms]] in
        \<open>simp_all add: stream_gcode_def\<close>)
  then show ?thesis by (simp add: balanced_iff)
qed

text \<open>A session on an open mock transport, for the witnesses.\<close>

definition demo :: GrblCore where
  "demo = (GrblCore_new (SessionConfig_new (Mock mock_new)) Dialect_default)
     \<lparr>g_transport := TMock (mock_new\<lparr>mk_open := True\<rparr>), g_keep_running := True\<rparr>"

lemma demo_simps [simp]:
  "g_transport demo = TMock \<lparr>mk_open = True, mk_tx = None, mk_sent = [], mk_cursor = 0, mk_write_error = None\<rparr>"
  "g_flow demo = FlowControl_new" "g_cmd_lock demo = Free" "\<not> g_is_cancelled demo" "\<not> g_job_running demo"
  "g_events demo = []" "g_state demo = DeviceState_default" "g_job_exception demo = None"
  "g_config demo = SessionConfig_new (Mock mock_new)" "g_dialect demo = Dialect_default"
  "g_requests demo = []" "g_interactive_request demo = None" "g_current_request demo = None"
  "g_queued_requests demo = []" "g_last_reported_op_index demo = -1" "g_is_holding demo = False"
  "g_unanswered_polls demo = 0" "g_stream_task demo = None" "g_stream_done demo = []"
  by (simp_all add: demo_def GrblCore_new_def SessionConfig_new_def mock_new_def)

theorem job_accounting_exact_witness:
  "rx_count (g_flow (world_of (stream_gcode std_regex [''G0 X1''] None None demo [EvTimer]))) =
   bytes_of (pending (g_flow (world_of (stream_gcode std_regex [''G0 X1''] None None demo [EvTimer]))))"
  by (rule job_accounting_exact) (simp add: FlowControl_new_def)

text \<open>
  C7: a line of a job goes out only when it fits: when \<open>send_gcode_line\<close> reports success, the line is
  the last chunk on the wire and the last entry of the pending queue, and everything outstanding fits
  into the receive buffer. In particular a line longer than the buffer is never sent.
\<close>

theorem sent_line_fits:
  assumes "send_gcode_line X data op w es = Ret (Inr ()) w' es'"
  shows "rx_count (g_flow w') \<le> rx_buffer_size (g_flow w') \<and> length data \<le> rx_buffer_size (g_flow w') \<and>
    last (tr_wire (g_transport w')) = data \<and>
    last (pending (g_flow w')) = \<lparr>pc_length = length data, pc_op_index = op, pc_command = trim_end (utf8_lossy data)\<rparr>"
proof -
  from assms obtain v where v: "\<not> needs_space (g_flow v) (length data)"
      "w' = release (snd (track_and_write data op v))" "fst (track_and_write data op v) = Inr ()"
    by (rule send_gcode_line_Ok)
  from v(3) have "fst (tr_write data (g_transport v)) = Inr ()"
    by (auto simp: track_and_write_fst split: sum.splits)
  from tr_write_wire [OF this] v(1) show ?thesis
    by (simp add: v(2) release_def track_and_write_eq track_command_def needs_space_def rx_buffer_size_def)
qed

theorem sent_line_fits_witness:
  "last (tr_wire (g_transport (world_of (send_gcode_line std_regex ''G1'' (Some 3) demo [])))) = ''G1''"
proof -
  have "\<exists>w'. send_gcode_line std_regex ''G1'' (Some 3) demo [] = Ret (Inr ()) w' []"
    by (simp add: send_gcode_line_def acquire_def await.simps send_gcode_with_stall.simps wait_for_space_def
        needs_space_def rx_buffer_size_def DEFAULT_GRBL_RX_BUFFER_SIZE_def FlowControl_new_def
        track_and_write_def Let_def grbl_write_def grbl_emit_def via_def mock_write_def)
  then obtain w' where w': "send_gcode_line std_regex ''G1'' (Some 3) demo [] = Ret (Inr ()) w' []" ..
  from sent_line_fits [OF w'] show ?thesis by (simp add: w')
qed

text \<open>
  C25: the stall callback gives a line up only with proof that the job cannot proceed: the job was
  cancelled, the device left the configured number of consecutive polls unanswered, it is in alarm, or
  (with deadlock detection on) the recovery dwell did not free enough of the buffer.
\<close>

theorem stall_aborts_only_with_proof:
  assumes "on_buffer_stall X n w es = Ret (Inr False) w' es'"
  shows "g_is_cancelled w \<or> g_unanswered_polls w' \<ge> cfg_unanswered_poll_limit (g_config w') \<or>
    status (g_state w') = Alarm \<or>
    cfg_deadlock_detection (g_config w) \<and> needs_space (g_flow w') n"
proof (cases "g_is_cancelled w")
  case False
  with assms obtain i w1 es1 where 1: "poll_and_check_idle X False w es = Ret i w1 es1"
      and r: "on_buffer_stall X n w es = (if device_stopped_responding w1 then Ret (Inr False) (mark_device_unresponsive w1) es1
        else if status (g_state w1) = Alarm then Ret (Inr False) (set_exception_if_none alarm_during_job w1) es1
        else if \<not> cfg_deadlock_detection (g_config w1) then Ret (Inr True) w1 es1
        else if i then (if \<not> needs_space (g_flow w1) n then Ret (Inr True) w1 es1
           else bindA (recover_from_deadlock X False w1 es1) (\<lambda>_ w es. Ret (Inr (\<not> needs_space (g_flow w) n)) w es))
        else Ret (Inr True) w1 es1)"
    by (auto simp: on_buffer_stall_def dest!: bindA_congD)
  have cfg: "g_config w1 = g_config w"
    using conf.kept_world [OF conf.poll_and_check_idle_kept [of w "g_config w" es X False]] 1 by simp
  show ?thesis
    using assms unfolding r
    by (auto simp: device_stopped_responding_def mark_device_unresponsive_def set_exception_if_none_def cfg
        dest!: bindA_congD split: if_splits)
qed simp

definition silent :: GrblCore where
  "silent = demo\<lparr>g_config := (g_config demo)\<lparr>cfg_poll_response_attempts := 0, cfg_unanswered_poll_limit := 1\<rparr>\<rparr>"

theorem stall_aborts_only_with_proof_witness:
  "g_unanswered_polls (world_of (on_buffer_stall std_regex 5 silent [])) \<ge> 1"
proof -
  have "\<exists>w'. on_buffer_stall std_regex 5 silent [] = Ret (Inr False) w' [] \<and> g_config w' = g_config silent \<and>
      status (g_state w') = Unknown"
    by (simp add: silent_def on_buffer_stall_def poll_and_check_idle_def poll_send_def grbl_emit_def
        transport_open_def grbl_write_def via_def mock_write_def device_stopped_responding_def count_unanswered_def
        mark_device_unresponsive_def DeviceState_default_def Let_def)
  then obtain w' where w': "on_buffer_stall std_regex 5 silent [] = Ret (Inr False) w' []"
      "g_config w' = g_config silent" "status (g_state w') = Unknown" by blast
  have "\<not> g_is_cancelled silent" "cfg_unanswered_poll_limit (g_config silent) = 1"
      "\<not> cfg_deadlock_detection (g_config silent)"
    by (simp_all add: silent_def SessionConfig_new_def)
  with stall_aborts_only_with_proof [OF w'(1)] show ?thesis by (simp add: w')
qed

section \<open>Properties of cancel and of the end of a job\<close>

interpretation cancelled: grbl_task X "\<lambda>_. True" "\<lambda>w. g_is_cancelled w \<and> \<not> g_job_running w" for X
proof
  fix e and w :: GrblCore
  assume "g_is_cancelled w \<and> \<not> g_job_running w"
  then show "g_is_cancelled (grbl_env X e w) \<and> \<not> g_job_running (grbl_env X e w)"
    by (cases e) (simp_all add: handle_rx_frame cmd_task_frame)
qed (simp_all add: poll_send_eq track_and_write_eq)

lemma tr_write_prefix:
  assumes "tr_inv t" "prefix W (tr_wire t)"
  shows "tr_inv (snd (tr_write d t)) \<and> prefix W (tr_wire (snd (tr_write d t)))"
  using tr.write_cases [OF assms(1), of d] assms(2) by (auto intro: prefix_order.trans)

lemma cmd_task_wire:
  assumes "tr_inv (g_transport w)" "prefix W (tr_wire (g_transport w))"
  shows "tr_inv (g_transport (cmd_task_step x w)) \<and> prefix W (tr_wire (g_transport (cmd_task_step x w)))"
proof -
  have tw: "tr_inv (g_transport v) \<and> prefix W (tr_wire (g_transport v)) \<Longrightarrow>
      tr_inv (g_transport (cmd_task_send i v)) \<and> prefix W (tr_wire (g_transport (cmd_task_send i v)))" for i v
    using track_and_write_eq [of "with_newline (req_command (g_requests v ! i))" None v] tr_write_prefix
    by (auto simp: cmd_task_send_def cmd_task_fail_def cmd_task_leave_def update_connection_status_def
        grbl_emit_def split: prod.splits sum.splits)
  show ?thesis
    using assms tw
    by (auto simp: cmd_task_step_def cmd_task_recv_def cmd_task_lock_def cmd_task_locked_def cmd_task_fail_def
        cmd_task_leave_def cmd_task_next_def update_request_def update_connection_status_def grbl_emit_def Let_def
        split: cmd_task.splits option.splits list.splits)
qed

interpretation wire: grbl_task X "\<lambda>_. True"
  "\<lambda>w. tr_inv (g_transport w) \<and> prefix W (tr_wire (g_transport w))" for X W
proof
  fix e and w :: GrblCore
  assume a: "tr_inv (g_transport w) \<and> prefix W (tr_wire (g_transport w))"
  with cmd_task_wire [of w W] tr.close_frame [of "g_transport w"]
  show "tr_inv (g_transport (grbl_env X e w)) \<and> prefix W (tr_wire (g_transport (grbl_env X e w)))"
    by (cases e) (simp_all add: handle_rx_frame cancel_begin_def signal_space_def)
qed (auto simp: poll_send_eq track_and_write_eq tr_write_prefix)

lemma after_reset_wire:
  assumes "tr_inv (g_transport w)" "fst (tr_write [CHR 0x18] (g_transport w)) = Inr ()"
  shows "tr_inv (g_transport (after_reset s w)) \<and>
    prefix (tr_wire (g_transport w) @ [[CHR 0x18]]) (tr_wire (g_transport (after_reset s w)))"
  using tr.write_cases [OF assms(1), of "[CHR 0x18]"] assms(2) by (auto simp: after_reset_frame)

lemma cancel_outcome:
  assumes "cancel X s em w es = Ret q w' es'"
  shows "jobs_finished (g_events w') \<le> jobs_finished (g_events w) + 1 \<and> g_is_cancelled w'"
  using assms
proof (cases rule: cancel_cases [of w X s em es])
  case sent
  from assms sent(3) obtain u v where v: "send_safety_shutdown X em (after_reset s w) es = Ret u v es'"
      "w' = (if g_job_running w then grbl_emit [JobFinished] v else v)" "q = Inr ()"
    by (auto dest!: bindA_congD)
  have "g_is_cancelled v"
    using cancelled.kept_world [OF cancelled.send_safety_shutdown_kept [of "after_reset s w" es X em]] v(1)
    by (simp add: after_reset_frame)
  with cancel_jobs [of X s em w es w' es'] assms v show ?thesis by (simp add: grbl_emit_def)
qed (auto simp: grbl_write_eq)

text \<open>
  C20: when \<open>cancel\<close> succeeds, the soft reset is the first chunk written after the call, the job is
  marked cancelled and no longer running whatever happens meanwhile, and the end of the job is reported
  exactly once if a job was running and not at all otherwise.
\<close>

theorem cancel_effects:
  assumes "tr_inv (g_transport w)" and "cancel X in_stream emergency w es = Ret (Inr ()) w' es'"
  shows "prefix (tr_wire (g_transport w) @ [[CHR 0x18]]) (tr_wire (g_transport w')) \<and>
    g_is_cancelled w' \<and> \<not> g_job_running w' \<and>
    jobs_finished (g_events w') = jobs_finished (g_events w) + (if g_job_running w then 1 else 0)"
proof (cases rule: cancel_cases [of w X in_stream emergency es])
  case sent
  let ?W = "tr_wire (g_transport w) @ [[CHR 0x18]]"
  from assms(2) sent(3) obtain u v where v: "send_safety_shutdown X emergency (after_reset in_stream w) es = Ret u v es'"
      "w' = (if g_job_running w then grbl_emit [JobFinished] v else v)"
    by (auto dest!: bindA_congD)
  have "tr_inv (g_transport v) \<and> prefix ?W (tr_wire (g_transport v))"
    using wire.kept_world [OF wire.send_safety_shutdown_kept
        [OF after_reset_wire [OF assms(1) sent(2), of in_stream], of es X emergency]] v(1) by simp
  moreover have "g_is_cancelled v \<and> \<not> g_job_running v"
    using cancelled.kept_world [OF cancelled.send_safety_shutdown_kept
        [of "after_reset in_stream w" es X emergency]] v(1) by (simp add: after_reset_frame)
  ultimately show ?thesis using cancel_jobs [OF assms(2)] v(2) by (simp add: grbl_emit_def)
qed (use assms(2) in simp_all)

theorem cancel_effects_witness:
  "\<exists>w' es'. cancel std_regex False False (start_job demo) [EvTimer] = Ret (Inr ()) w' es' \<and>
     prefix [[CHR 0x18]] (tr_wire (g_transport w')) \<and> jobs_finished (g_events w') = 1"
proof -
  have ev: "ret_ok (cancel std_regex False False (start_job demo) [EvTimer])" by code_simp
  have st: "tr_inv (g_transport (start_job demo))" "tr_wire (g_transport (start_job demo)) = []"
    "g_job_running (start_job demo)" "jobs_finished (g_events (start_job demo)) = 0"
    by (simp_all add: start_job_def grbl_emit_def Let_def mock_inv_def DeviceState_default_def)
  from ret_okD [OF ev] obtain w' es' where c: "cancel std_regex False False (start_job demo) [EvTimer] = Ret (Inr ()) w' es'" by auto
  from cancel_effects [OF st(1) c] c st show ?thesis by auto
qed

text \<open>
  C21: when the streaming task of a job ends, the job is over: not running, not held. The end is reported
  at most once, and exactly once if the job was not cancelled.
\<close>

theorem job_end_reported_once:
  assumes "stream_gcode X ls op_map tms w es = Ret () w' es'"
  shows "\<not> g_job_running w' \<and> \<not> g_is_holding w' \<and>
    jobs_finished (g_events w') \<le> jobs_finished (g_events w) + 1 \<and>
    (\<not> g_is_cancelled w' \<longrightarrow> jobs_finished (g_events w') = jobs_finished (g_events w) + 1)"
proof -
  let ?n = "jobs_finished (g_events w)"
  from assms obtain r v es1 where 1: "stream_gcode_inner X ls op_map tms w es = Ret r v es1"
      and 2: "bindA (case r of Inl e \<Rightarrow>
          if \<not> g_is_cancelled v then bindA (cancel X True True (record_error (job_error e) v) es1) (\<lambda>_ w es. Ret () w es)
          else Ret () v es1 | Inr _ \<Rightarrow> Ret () v es1) (\<lambda>_ w es. Ret () (finish_stream r w) es) = Ret () w' es'"
    by (auto simp: stream_gcode_def dest!: bindA_congD)
  have v: "jobs_finished (g_events v) = ?n"
    using jobs.kept_world [OF jobs.stream_gcode_inner_kept [of w ?n es X ls op_map tms]] 1 by simp
  have over: "\<not> g_job_running (finish_stream r u) \<and> \<not> g_is_holding (finish_stream r u)" for u
    by (simp add: finish_stream_def Let_def grbl_emit_def split: sum.splits)
  show ?thesis
  proof (cases r)
    case (Inr x)
    with 2 v over show ?thesis by (auto simp: finish_stream_def Let_def grbl_emit_def)
  next
    case (Inl e)
    have fin: "jobs_finished (g_events (finish_stream r u)) = jobs_finished (g_events u)"
      "g_is_cancelled (finish_stream r u) = g_is_cancelled u" for u
      by (simp_all add: finish_stream_def Inl Let_def)
    show ?thesis
    proof (cases "g_is_cancelled v")
      case True
      with 2 Inl v over fin show ?thesis by auto
    next
      case False
      have re: "jobs_finished (g_events (record_error (job_error e) v)) = ?n"
        using v by (simp add: record_error_def Let_def grbl_emit_def)
      from 2 Inl False obtain q u where u: "cancel X True True (record_error (job_error e) v) es1 = Ret q u es'"
          "w' = finish_stream r u"
        by (auto dest!: bindA_congD)
      have "jobs_finished (g_events u) \<le> ?n + 1 \<and> g_is_cancelled u"
        using u(1) cancel_outcome [of X True True "record_error (job_error e) v" es1 q u es'] re by simp
      with u(2) over fin show ?thesis by simp
    qed
  qed
qed

theorem job_end_reported_once_witness:
  "\<exists>w' es'. stream_gcode std_regex [] None None (start_job demo) [] = Ret () w' es' \<and>
     jobs_finished (g_events w') \<le> 1 \<and> \<not> g_job_running w'"
proof -
  have "returned (stream_gcode std_regex [] None None (start_job demo) [])" by code_simp
  from returnedD [OF this] obtain w' es' where
    c: "stream_gcode std_regex [] None None (start_job demo) [] = Ret () w' es'" by auto
  have "jobs_finished (g_events (start_job demo)) = 0"
    by (simp add: start_job_def grbl_emit_def Let_def DeviceState_default_def)
  with job_end_reported_once [OF c] c show ?thesis by auto
qed

text \<open>
  a job that fails because the link is down ends without any report: \<open>cancel\<close>, which the
  interrupt handler calls for the report, returns early on the closed transport, and nothing else on this
  path reports the end of the job.
\<close>

theorem disconnected_job_end_not_reported:
  assumes "\<not> tr_is_open (g_transport w)" and "g_cmd_lock w = Free" and "\<not> stop_streaming w"
    and "strip_gcode_comments X l \<noteq> []"
    and "line_timeout (g_config w) tms (Option.bind op_map (\<lambda>m. m 0)) \<noteq> None"
  shows "\<exists>w'. stream_gcode X (l # ls) op_map tms w es = Ret () w' es \<and> \<not> g_job_running w' \<and>
    jobs_finished (g_events w') = jobs_finished (g_events w)"
proof -
  let ?v = "w\<lparr>g_cmd_lock := Free\<rparr>" and ?e = "Err_Connection ''Serial transport disconnected during job.''"
  have acq: "acquire X w es = Ret () (w\<lparr>g_cmd_lock := Mine\<rparr>) es"
    using assms(2) by (simp add: acquire_def await.simps)
  have "send_gcode_line X d op w es = Ret (Inl ?e) ?v es" for d op
    using assms(1) by (simp add: send_gcode_line_def acq release_def)
  then have "stream_gcode_inner X (l # ls) op_map tms w es = Ret (Inl ?e) ?v es"
    using assms(3-5) by (auto simp: stream_gcode_inner_def Let_def)
  moreover have "\<not> g_is_cancelled ?v" using assms(3) by (simp add: stop_streaming_def)
  moreover have "\<not> tr_is_open (g_transport (record_error (job_error ?e) ?v))"
    using assms(1) by (simp add: record_error_def Let_def grbl_emit_def)
  then have "cancel X True True (record_error (job_error ?e) ?v) es =
      Ret (Inl (Err_Connection ''Serial transport not connected'')) (cancel_begin (record_error (job_error ?e) ?v)) es"
    by (simp add: cancel_def transport_open_def)
  ultimately show ?thesis
    by (simp add: stream_gcode_def finish_stream_def Let_def) (simp add: record_error_def Let_def grbl_emit_def)
qed

theorem disconnected_job_end_not_reported_witness:
  "\<exists>w'. stream_gcode std_regex [''G0''] None None (start_job demo\<lparr>g_transport := TMock mock_new\<rparr>) [] = Ret () w' [] \<and>
     \<not> g_job_running w' \<and> jobs_finished (g_events w') = 0"
proof -
  let ?w = "start_job demo\<lparr>g_transport := TMock mock_new\<rparr>"
  have "strip_gcode_comments std_regex ''G0'' \<noteq> []" by code_simp
  moreover have "\<not> tr_is_open (g_transport ?w)" "g_cmd_lock ?w = Free" "\<not> stop_streaming ?w"
      "jobs_finished (g_events ?w) = 0" "line_timeout (g_config ?w) None (Option.bind None (\<lambda>m. m 0)) \<noteq> None"
    by (simp_all add: start_job_def grbl_emit_def Let_def DeviceState_default_def stop_streaming_def mock_new_def
        line_timeout_def)
  ultimately show ?thesis
    using disconnected_job_end_not_reported [of ?w std_regex "''G0''" None None "[]" "[]"] by simp
qed

end
