(* ===== verification/Connection.thy ===== *)
theory Connection
  imports Core_Session Async
begin

text \<open>
  The loops of the connection tasks, which all four sessions write the same way: open the link, shake hands,
  poll until the link is lost, sleep, try again. Each is a locale over the session's own operations;
  what they show is that no loop lengthens the script of the environment and that a bound on the rounds
  of the outer loop by the length of the script is never what ends it.
\<close>

section \<open>The handshake\<close>

text \<open>
  The device is polled until it answers. A second timer event right after the first says that the
  overall deadline has passed as well. The three ways to end are the results \<open>lost\<close> (the poll could not be
  written), \<open>late\<close> and \<open>shaken\<close>.
\<close>

locale handshake_polling =
  fixes step :: "env_event \<Rightarrow> 'w \<Rightarrow> 'w" and poll :: "'w \<Rightarrow> ('e, unit) result \<times> 'w" and ready :: "'w \<Rightarrow> bool"
    and shake :: "'w \<Rightarrow> env_event list \<Rightarrow> ('r, 'w) outcome"
    and lost :: "'e \<Rightarrow> 'r" and late :: 'r and shaken :: 'r
  assumes shake_eq: "shake w es =
    (case poll w of
       (Inl e, w) \<Rightarrow> Ret (lost e) w es
     | (Inr _, w) \<Rightarrow> bindA (await_timeout step ready w es) (\<lambda>received w es.
         if received then Ret shaken w es
         else case es of EvTimer # es' \<Rightarrow> Ret late w es' | _ \<Rightarrow> shake w es))"
begin

lemma shake_le: "length (events_left (shake w es)) \<le> length es"
proof (induction "length es" arbitrary: w es rule: less_induct)
  case less
  obtain r v where v: "poll w = (r, v)" by fastforce
  show ?case
  proof (cases "await_timeout step ready v es")
    case (Ret b v1 es1)
    have le: "length es1 \<le> length es" using await_timeout_le [of step ready v es] Ret by simp
    have "\<not> b \<Longrightarrow> length es1 < length es" using Ret await_timeout_False_shorter by fastforce
    with less.hyps [of es1 v1] have "\<not> b \<Longrightarrow> length (events_left (shake v1 es1)) \<le> length es" by fastforce
    with v Ret le show ?thesis
      by (subst shake_eq) (auto split: sum.splits list.splits env_event.splits)
  qed (use v await_timeout_le [of step ready v es] in \<open>subst shake_eq, auto split: sum.splits\<close>)+
qed

end

section \<open>The poll loop\<close>

text \<open>Rounds with a sleep after each, for as long as the link is up and no round fails.\<close>

locale polling =
  fixes step :: "env_event \<Rightarrow> 'w \<Rightarrow> 'w" and up :: "'w \<Rightarrow> bool"
    and round :: "'w \<Rightarrow> env_event list \<Rightarrow> (bool, 'w) outcome" and loop :: "'w \<Rightarrow> env_event list \<Rightarrow> (unit, 'w) outcome"
  assumes loop_eq: "loop w es =
    (if \<not> up w then Ret () w es
     else bindA (round w es) (\<lambda>go w es.
       if \<not> go then Ret () w es else bindA (sleep step w es) (\<lambda>_ w es. loop w es)))"
    and round_le: "length (events_left (round w es)) \<le> length es"
begin

lemma loop_le: "length (events_left (loop w es)) \<le> length es"
proof (induction "length es" arbitrary: w es rule: less_induct)
  case less
  have nap: "length (events_left (bindA (sleep step v vs) (\<lambda>_ w es. loop w es))) \<le> length es" if "length vs \<le> length es" for v vs
  proof (cases "sleep step v vs")
    case (Ret u v1 es1)
    with sleep_shorter [OF Ret] that less.hyps [of es1 v1] show ?thesis by simp
  qed (use sleep_le [of step v vs] that in auto)
  show ?case
    by (subst loop_eq) (auto intro!: bindA_le [OF round_le] nap)
qed

end

section \<open>Reconnecting\<close>

text \<open>
  Rounds of one connection attempt each, with a sleep between them. Every round but the last consumes
  the event that ends its sleep, so more rounds than there are events are never needed.
\<close>

locale reconnecting =
  fixes step :: "env_event \<Rightarrow> 'w \<Rightarrow> 'w" and alive :: "'w \<Rightarrow> bool" and link :: "'w \<Rightarrow> env_event list \<Rightarrow> (unit, 'w) outcome"
    and asleep :: "'w \<Rightarrow> 'w" and rounds :: "nat \<Rightarrow> 'w \<Rightarrow> env_event list \<Rightarrow> (unit, 'w) outcome"
  assumes rounds_Suc: "rounds (Suc n) w es =
    (if \<not> alive w then Ret () w es
     else bindA (link w es) (\<lambda>_ w es.
       if \<not> alive w then Ret () w es
       else bindA (sleep step (asleep w) es) (\<lambda>_ w es. rounds n w es)))"
    and link_le: "length (events_left (link w es)) \<le> length es"
begin

lemma rounds_enough: "length es < n \<Longrightarrow> length es < m \<Longrightarrow> rounds n w es = rounds m w es"
proof (induction n arbitrary: m w es)
  case 0
  then show ?case by simp
next
  case (Suc n)
  then obtain k where m: "m = Suc k" by (cases m) auto
  have "rounds n v2 es2 = rounds k v2 es2"
    if "link w es = Ret u v es1" "sleep step (asleep v) es1 = Ret u' v2 es2" for u v es1 u' v2 es2
  proof -
    have "length es1 \<le> length es" using link_le [of w es] that(1) by simp
    moreover have "length es2 < length es1" using that(2) by (rule sleep_shorter)
    ultimately have "length es2 < n" "length es2 < k" using Suc.prems by (simp_all add: m)
    then show ?thesis by (rule Suc.IH)
  qed
  then show ?case by (auto simp: m rounds_Suc intro!: bindA_cong)
qed

end

end
