(* ===== verification/Grbl_Report.thy ===== *)
theory Grbl_Report
  imports Grbl_Props Connection
begin

text \<open>
  What the GRBL session reports while it handles received bytes: progress of a job, the device error,
  the displayed status, the lines of a request; that an acknowledgement wakes a parked sender; and that
  the connection loop is fully explored by its round bound.
\<close>

section \<open>Progress\<close>

text \<open>The operation indices a list of acknowledgements carries.\<close>

definition acked_ops :: "PendingCommand option list \<Rightarrow> int list" where
  "acked_ops ps = List.map_filter (\<lambda>p. Option.bind p pc_op_index) ps"

lemma acked_ops_simps [simp]:
  "acked_ops [] = []"
  "acked_ops (p # ps) = (case Option.bind p pc_op_index of None \<Rightarrow> acked_ops ps | Some i \<Rightarrow> i # acked_ops ps)"
  by (simp_all add: acked_ops_def map_filter_simps split: option.splits)

lemma complete_request_frame:
  "g_job_running (complete_request l ev w) = g_job_running w"
  "g_last_reported_op_index (complete_request l ev w) = g_last_reported_op_index w"
  "(\<forall>i. ev \<noteq> CommandDone i) \<Longrightarrow> commands_done (g_events (complete_request l ev w)) = commands_done (g_events w)"
  by (simp_all add: complete_request_def update_request_def grbl_emit_def split: option.splits)

lemma handle_ok_done:
  assumes "g_job_running w"
  shows "g_job_running (handle_ok p w)"
    "g_last_reported_op_index (handle_ok p w) =
       (case Option.bind p pc_op_index of None \<Rightarrow> g_last_reported_op_index w | Some i \<Rightarrow> i)"
    "commands_done (g_events (handle_ok p w)) = commands_done (g_events w) @
       (case Option.bind p pc_op_index of None \<Rightarrow> [] | Some i \<Rightarrow> [g_last_reported_op_index w + 1..i])"
  using assms
  by (simp_all add: handle_ok_def report_done_def Let_def note_device_response_def complete_request_frame
      grbl_emit_def split: option.splits)

lemma upto_append: "a \<le> b + 1 \<Longrightarrow> b \<le> c \<Longrightarrow> [a..b] @ [b + 1..c] = [a..(c::int)]"
proof (cases "b + 1 \<le> c")
  case True
  assume "a \<le> b + 1"
  with True show ?thesis using upto_split1 [of a "b + 1" c] by simp
next
  case False
  assume "b \<le> c"
  with False have "b = c" by simp
  then show ?thesis by simp
qed

text \<open>
  C22: while a job runs and its operations complete in order, progress is reported without gap and
  without repetition: after any sequence of acknowledgements, the operations reported since are exactly
  those from the first unreported one to the last acknowledged one.
\<close>

theorem progress_contiguous:
  assumes "g_job_running w" and "sorted (g_last_reported_op_index w # acked_ops ps)"
  shows "commands_done (g_events (fold handle_ok ps w)) =
      commands_done (g_events w) @ [g_last_reported_op_index w + 1..last (g_last_reported_op_index w # acked_ops ps)] \<and>
    g_last_reported_op_index (fold handle_ok ps w) = last (g_last_reported_op_index w # acked_ops ps)"
  using assms
proof (induction ps arbitrary: w)
  case Nil
  then show ?case by simp
next
  case (Cons p ps)
  note ok = handle_ok_done [OF Cons.prems(1), of p]
  show ?case
  proof (cases "Option.bind p pc_op_index")
    case None
    with Cons.IH [OF ok(1)] Cons.prems ok show ?thesis by simp
  next
    case (Some i)
    with Cons.prems(2) have s: "g_last_reported_op_index w \<le> i" "sorted (i # acked_ops ps)" by auto
    then have le: "i \<le> last (i # acked_ops ps)"
      by (metis last_in_set list.distinct(1) order_refl set_ConsD sorted_simps(2))
    from Cons.IH [OF ok(1)] s(2) Some ok show ?thesis
      using upto_append [of "g_last_reported_op_index w + 1" i "last (i # acked_ops ps)"] s(1) le by simp
  qed
qed

theorem progress_contiguous_witness:
  "commands_done (g_events (fold handle_ok
      [Some \<lparr>pc_length = 3, pc_op_index = Some 0, pc_command = ''G0''\<rparr>, None,
       Some \<lparr>pc_length = 3, pc_op_index = Some 2, pc_command = ''G1''\<rparr>] (start_job demo))) = [0, 1, 2]"
proof -
  have s: "g_job_running (start_job demo)" "g_last_reported_op_index (start_job demo) = -1"
      "commands_done (g_events (start_job demo)) = []"
    by (simp_all add: start_job_def grbl_emit_def Let_def DeviceState_default_def)
  then show ?thesis
    using progress_contiguous [OF s(1), of
        "[Some \<lparr>pc_length = 3, pc_op_index = Some 0, pc_command = ''G0''\<rparr>, None,
          Some \<lparr>pc_length = 3, pc_op_index = Some 2, pc_command = ''G1''\<rparr>]"]
    by (simp add: upto.simps)
qed

section \<open>The device error\<close>

lemma dev_error_updates [simp]:
  "dev_error (g_state (complete_request l ev w)) = dev_error (g_state w)"
  "dev_error (g_state (report_done p w)) = dev_error (g_state w)"
  "dev_error (g_state (collect_line l w)) = dev_error (g_state w)"
  "dev_error (g_state (handle_opt X l w)) = dev_error (g_state w)"
  "dev_error (g_state (set_handshake w)) = dev_error (g_state w)"
  "dev_error (g_state (grbl_emit evs w)) = dev_error (g_state w)"
  "dev_error (g_state (note_device_response w)) = dev_error (g_state w)"
  "dev_error (g_state (signal_space w)) = dev_error (g_state w)"
  by (simp_all add: complete_request_def report_done_def collect_line_def handle_opt_def set_handshake_def
      grbl_emit_def note_device_response_def signal_space_def update_request_def cache_rx_buffer_size_def Let_def
      split: option.splits)

lemma dev_error_record [simp]:
  "dev_error (g_state (record_error e w)) = Some (case dev_error (g_state w) of None \<Rightarrow> e | Some e' \<Rightarrow> e')"
  by (auto simp: record_error_def grbl_emit_def Let_def split: option.splits)

lemma dev_error_response:
  assumes "dev_error (g_state w) = Some e" "rtype r = R_Line \<longrightarrow> \<not> starts_with (r_text r) ''<''"
  shows "dev_error (g_state (handle_response X r w)) = Some e"
  using assms
  by (auto simp: handle_response_def handle_ok_def handle_error_def handle_line_def handle_alarm_def Let_def
      split: GrblResponseType.splits option.splits)

lemma dev_error_fold:
  "dev_error (g_state w) = Some e \<Longrightarrow>
   \<forall>r \<in> set rs. rtype r = R_Line \<longrightarrow> \<not> starts_with (r_text r) ''<'' \<Longrightarrow>
   dev_error (g_state (fold (handle_response X) rs w)) = Some e"
  by (induction rs arbitrary: w) (auto simp: dev_error_response)

text \<open>
  C27: first error wins: once an error is recorded, no chunk of acknowledgements, error reports, alarms
  and informational lines replaces it; only a status report can.
\<close>

theorem first_error_wins:
  assumes "dev_error (g_state w) = Some e"
    and "\<forall>r \<in> set (fst (parse_incoming X data (g_flow w))). rtype r = R_Line \<longrightarrow> \<not> starts_with (r_text r) ''<''"
  shows "dev_error (g_state (handle_rx X data w)) = Some e"
proof -
  have "\<forall>r \<in> set (lines_first (fst (parse_incoming X data (g_flow w)))).
      rtype r = R_Line \<longrightarrow> \<not> starts_with (r_text r) ''<''"
    using assms(2) by (auto simp: lines_first_def)
  with assms(1) show ?thesis
    by (simp add: handle_rx_def case_prod_unfold Let_def dev_error_fold)
qed

theorem first_error_wins_witness:
  "dev_error (g_state (handle_rx std_regex (''error:9'' @ [LF] @ ''ALARM:1'' @ [LF])
      (demo\<lparr>g_state := DeviceState_default\<lparr>dev_error := Some (get_error ''20'')\<rparr>\<rparr>))) = Some (get_error ''20'')"
proof (rule first_error_wins)
  show "\<forall>r \<in> set (fst (parse_incoming std_regex (''error:9'' @ [LF] @ ''ALARM:1'' @ [LF])
      (g_flow (demo\<lparr>g_state := DeviceState_default\<lparr>dev_error := Some (get_error ''20'')\<rparr>\<rparr>)))).
      rtype r = R_Line \<longrightarrow> \<not> starts_with (r_text r) ''<''"
    by code_simp
qed simp

text \<open>
  a status report with an alarm code does replace a recorded error, although the error handlers
  promise that the first error wins.
\<close>

theorem alarm_report_replaces_error:
  "dev_error (g_state (handle_line X ''<Alarm:1>'' w)) = Some (alarm_code_to_device_error ''1'')"
proof -
  have l: "starts_with ''<Alarm:1>'' ''<''" "ends_with ''<Alarm:1>'' ''>''"
      "\<not> (contains_str ''<Alarm:1>'' ''Pos:'' \<and> contains_str ''<Alarm:1>'' ''|'' \<and> \<not> starts_with ''<Alarm:1>'' ''<'')"
      "trim ''<Alarm:1>'' = ''<Alarm:1>''" "report_inner ''<Alarm:1>'' = Some ''Alarm:1''"
      "filter (\<lambda>p. p \<noteq> []) (split_char CHR ''|'' ''Alarm:1'') = [''Alarm:1'']"
      "parse_status_part ''Alarm:1'' = (Alarm, Some ''1'')" by code_simp+
  have p: "dev_error (parse_state X ''<Alarm:1>'' st b) = Some (alarm_code_to_device_error ''1'')" for st b
    by (simp add: parse_state_def l apply_status_part_def convert_inches_def case_prod_unfold Let_def)
  have "dev_error (g_state (handle_status_report X ''<Alarm:1>'' v)) = Some (alarm_code_to_device_error ''1'')" for v
    using p by (auto simp: handle_status_report_def Let_def grbl_emit_def state_eq_def)
  then show ?thesis using l by (simp add: handle_line_def)
qed

section \<open>The status shown to the user\<close>

text \<open>
  after a status report, the status the session shows is the one the device reported, except that
  \<open>Idle\<close> reads as \<open>Run\<close> while a job runs and that a requested hold shows as \<open>Hold\<close> unless the
  device is in alarm: a report never unmasks a hold and never shows a running job as idle.
\<close>

theorem status_report_masking:
  "let w' = handle_status_report X report w;
       reported = status (parse_state X report (g_state w) (g_report_in_inches w))
   in g_raw_grbl_status w' = reported \<and>
      status (g_state w') =
        (if g_is_holding w \<and> reported \<noteq> Alarm then Hold
         else if g_job_running w \<and> reported = Idle then Run
         else reported)"
proof -
  have "g_raw_grbl_status (learn_rx_size st v) = g_raw_grbl_status v"
    "g_job_running (learn_rx_size st v) = g_job_running v" "g_is_holding (learn_rx_size st v) = g_is_holding v" for st v
    by (simp_all add: learn_rx_size_def cache_rx_buffer_size_def grbl_emit_def Let_def split: option.splits)
  then show ?thesis
    by (auto simp: handle_status_report_def shown_status_def note_device_response_def grbl_emit_def
        state_eq_def Let_def)
qed

section \<open>The lines of a request\<close>

definition informational :: "string \<Rightarrow> bool" where
  "informational l \<longleftrightarrow> \<not> starts_with l ''<'' \<and> \<not> (contains_str l ''Pos:'' \<and> contains_str l ''|'')"

lemma requests_frame [simp]:
  "g_requests (grbl_emit evs w) = g_requests w" "g_requests (note_device_response w) = g_requests w"
  "g_requests (report_done p w) = g_requests w" "g_requests (record_error e w) = g_requests w"
  "g_requests (signal_space w) = g_requests w" "g_requests (handle_alarm l c w) = g_requests w"
  "g_requests (handle_opt X l w) = g_requests w" "g_requests (set_handshake w) = g_requests w"
  by (simp_all add: grbl_emit_def note_device_response_def report_done_def record_error_def signal_space_def
      handle_alarm_def handle_opt_def set_handshake_def cache_rx_buffer_size_def Let_def split: option.splits)

lemma active_frame [simp]:
  "active_request (grbl_emit evs w) = active_request w"
  "active_request (note_device_response w) = active_request w"
  "active_request (record_error e w) = active_request w"
  by (simp_all add: active_request_def grbl_emit_def note_device_response_def record_error_def Let_def)

lemma active_handle_response: "active_request (handle_response X r w) = active_request w"
  using stable_handle_response [of X r w] by (simp add: view_defs active_request_def)

lemma requests_handle_line:
  "informational l \<Longrightarrow> g_requests (handle_line X l w) = g_requests (collect_line l w)"
  by (auto simp: informational_def handle_line_def Let_def split: option.splits)

definition open_request :: "nat \<Rightarrow> GrblCore \<Rightarrow> bool" where
  "open_request i w \<longleftrightarrow> active_request w = Some i \<and> i < length (g_requests w) \<and> \<not> is_finished (g_requests w ! i)"

lemma line_collected:
  assumes "open_request i w" "rtype r = R_Line" "informational (r_text r)"
  shows "open_request i (handle_response X r w)"
    "req_lines (g_requests (handle_response X r w) ! i) = req_lines (g_requests w ! i) @ [r_text r]"
proof -
  have "g_requests (handle_response X r w) = (g_requests w)[i := add_line (r_text r) (g_requests w ! i)]"
    using assms by (simp add: handle_response_def requests_handle_line collect_line_def update_request_def open_request_def)
  then show "open_request i (handle_response X r w)"
    "req_lines (g_requests (handle_response X r w) ! i) = req_lines (g_requests w ! i) @ [r_text r]"
    using assms(1) by (simp_all add: open_request_def active_handle_response add_line_def is_finished_def)
qed

lemma lines_collected:
  "open_request i w \<Longrightarrow> \<forall>r \<in> set rs. rtype r = R_Line \<and> informational (r_text r) \<Longrightarrow>
   open_request i (fold (handle_response X) rs w) \<and>
   req_lines (g_requests (fold (handle_response X) rs w) ! i) = req_lines (g_requests w ! i) @ map r_text rs"
  by (induction rs arbitrary: w) (auto simp: line_collected)

definition closed_request :: "nat \<Rightarrow> GrblCore \<Rightarrow> bool" where
  "closed_request i w \<longleftrightarrow> active_request w = Some i \<and> is_finished (g_requests w ! i)"

lemma ok_closes:
  assumes "open_request i w" "rtype r = R_Ok"
  shows "closed_request i (handle_response X r w)"
    "req_lines (g_requests (handle_response X r w) ! i) = req_lines (g_requests w ! i) @ [''ok'']"
proof -
  have "g_requests (handle_response X r w) = (g_requests w)[i := finish (add_line ''ok'' (g_requests w ! i))]"
    using assms by (simp add: handle_response_def handle_ok_def complete_request_def update_request_def open_request_def Let_def)
  then show "closed_request i (handle_response X r w)"
    "req_lines (g_requests (handle_response X r w) ! i) = req_lines (g_requests w ! i) @ [''ok'']"
    using assms(1)
    by (simp_all add: open_request_def closed_request_def active_handle_response finish_def add_line_def is_finished_def)
qed

lemma ack_after_close:
  assumes "closed_request i w" "rtype r \<noteq> R_Line"
  shows "closed_request i (handle_response X r w)" "g_requests (handle_response X r w) = g_requests w"
proof -
  show "g_requests (handle_response X r w) = g_requests w"
    using assms by (cases "rtype r")
      (simp_all add: handle_response_def handle_ok_def handle_error_def complete_request_def closed_request_def Let_def)
  with assms show "closed_request i (handle_response X r w)"
    by (simp add: closed_request_def active_handle_response)
qed

lemma acks_after_close:
  "closed_request i w \<Longrightarrow> \<forall>r \<in> set rs. rtype r \<noteq> R_Line \<Longrightarrow>
   closed_request i (fold (handle_response X) rs w) \<and> g_requests (fold (handle_response X) rs w) = g_requests w"
  by (induction rs arbitrary: w) (auto simp: ack_after_close)

text \<open>
  The lines of a reply are complete before the caller wakes up: when a chunk brings informational
  lines and the acknowledgement of the active request, in whatever order the bytes stand, the request
  ends up finished with all those lines, in order, followed by \<^verbatim>\<open>ok\<close>.
\<close>

theorem reply_lines_before_completion:
  assumes "open_request i w"
    and "\<forall>r \<in> set (fst (parse_incoming X data (g_flow w))). rtype r = R_Line \<longrightarrow> informational (r_text r)"
    and "filter (\<lambda>r. rtype r \<noteq> R_Line) (fst (parse_incoming X data (g_flow w))) = a # later" and "rtype a = R_Ok"
  shows "is_finished (g_requests (handle_rx X data w) ! i) \<and>
    req_lines (g_requests (handle_rx X data w) ! i) =
      req_lines (g_requests w ! i) @ response_texts R_Line (fst (parse_incoming X data (g_flow w))) @ [''ok'']"
proof -
  define rs where "rs = fst (parse_incoming X data (g_flow w))"
  define ls where "ls = filter (\<lambda>r. rtype r = R_Line) rs"
  define w0 where "w0 = w\<lparr>g_flow := snd (parse_incoming X data (g_flow w))\<rparr>"
  define w1 where "w1 = fold (handle_response X) ls w0"
  define w2 where "w2 = fold (handle_response X) later (handle_response X a w1)"
  have h: "g_requests (handle_rx X data w) = g_requests w2"
    using assms(3)
    by (simp add: handle_rx_def case_prod_unfold Let_def lines_first_def rs_def ls_def w0_def w1_def w2_def)
  have "open_request i w0" using assms(1) by (simp add: open_request_def w0_def active_request_def)
  then have l: "open_request i w1" "req_lines (g_requests w1 ! i) = req_lines (g_requests w ! i) @ map r_text ls"
    using lines_collected [of i w0 ls X] assms(2) by (auto simp: w1_def ls_def rs_def w0_def)
  note c = ok_closes [OF l(1) assms(4), of X]
  have "set later \<subseteq> set (filter (\<lambda>r. rtype r \<noteq> R_Line) (fst (parse_incoming X data (g_flow w))))"
    by (simp add: assms(3) subset_insertI)
  then have "\<forall>r \<in> set later. rtype r \<noteq> R_Line" by auto
  from acks_after_close [OF c(1) this, of X] have "is_finished (g_requests w2 ! i)" "g_requests w2 = g_requests (handle_response X a w1)"
    by (auto simp: w2_def closed_request_def)
  with c(2) l(2) h show ?thesis by (simp add: response_texts_def ls_def rs_def)
qed

theorem reply_lines_before_completion_witness:
  "req_lines (g_requests (handle_rx std_regex (''ok'' @ [LF] @ ''$0=10'' @ [LF])
      (demo\<lparr>g_requests := [RequestShared_new ''$$''], g_interactive_request := Some 0\<rparr>)) ! 0) = [''$0=10'', ''ok'']"
proof -
  let ?w = "demo\<lparr>g_requests := [RequestShared_new ''$$''], g_interactive_request := Some 0\<rparr>"
  let ?d = "''ok'' @ [LF] @ ''$0=10'' @ [LF]"
  have "fst (parse_incoming std_regex ?d (g_flow ?w)) =
      [\<lparr>rtype = R_Ok, r_text = ''ok'', r_pending = None\<rparr>, \<lparr>rtype = R_Line, r_text = ''$0=10'', r_pending = None\<rparr>]"
    by code_simp
  moreover have "open_request 0 ?w"
    by (simp add: open_request_def active_request_def RequestShared_new_def is_finished_def)
  moreover have "informational ''$0=10''" by code_simp
  ultimately show ?thesis
    using reply_lines_before_completion [of 0 ?w std_regex ?d] by (simp add: RequestShared_new_def)
qed

section \<open>An acknowledgement wakes a parked sender\<close>

lemma respond1_no_ack: "\<not> is_ack k \<Longrightarrow> snd (respond1 k fc) = fc"
  by (simp add: respond1_def is_ack_def split: GrblResponseType.splits)

lemma respond_no_acks: "acks_in ks = 0 \<Longrightarrow> snd (respond ks fc) = fc"
proof (induction ks arbitrary: fc)
  case Nil
  show ?case by simp
next
  case (Cons k ks)
  then show ?case by (simp add: respond1_no_ack case_prod_unfold Let_def split: if_splits)
qed

lemma signals_grow: "space_available (g_flow w) \<le> space_available (g_flow (handle_response X r w))"
proof -
  have e: "space_available (g_flow (grbl_emit evs v)) = space_available (g_flow v)"
    "space_available (g_flow (note_device_response v)) = space_available (g_flow v)"
    "space_available (g_flow (complete_request l ev v)) = space_available (g_flow v)"
    "space_available (g_flow (report_done q v)) = space_available (g_flow v)"
    "space_available (g_flow (record_error d v)) = space_available (g_flow v)"
    "space_available (g_flow (collect_line l v)) = space_available (g_flow v)"
    "space_available (g_flow (set_handshake v)) = space_available (g_flow v)"
    "space_available (g_flow (learn_rx_size st v)) = space_available (g_flow v)"
    "space_available (g_flow (handle_opt X l v)) = space_available (g_flow v)"
    "space_available (g_flow (signal_space v)) = Suc (space_available (g_flow v))" for evs v l ev q d st
    by (simp_all add: grbl_emit_def note_device_response_def complete_request_def report_done_def record_error_def
        collect_line_def set_handshake_def learn_rx_size_def handle_opt_def cache_rx_buffer_size_def signal_space_def
        update_request_def set_rx_buffer_size_def Let_def split: option.splits)
  show ?thesis
    by (cases "rtype r")
      (simp_all add: handle_response_def handle_ok_def handle_error_def handle_line_def handle_alarm_def
        handle_status_report_def e Let_def split: option.splits)
qed

lemma signals_grow_fold: "space_available (g_flow w) \<le> space_available (g_flow (fold (handle_response X) rs w))"
proof (induction rs arbitrary: w)
  case Nil
  show ?case by simp
next
  case (Cons r rs)
  from order_trans [OF signals_grow [of w X r] Cons [of "handle_response X r w"]] show ?case by simp
qed

lemma handle_rx_signals:
  assumes "acks_in (fst (scan X (status_buffer (g_flow w) @ d))) > 0"
  shows "space_available (g_flow (handle_rx X d w)) > space_available (g_flow w)"
proof -
  let ?fc = "snd (parse_incoming X d (g_flow w))"
  let ?u = "fold (handle_response X) (lines_first (fst (parse_incoming X d (g_flow w)))) (w\<lparr>g_flow := ?fc\<rparr>)"
  have "acked_since_flush ?fc" using assms by (simp add: parse_incoming_scan respond_frame)
  then have "acked_since_flush (g_flow ?u)" by (simp add: frame_simps)
  moreover have "space_available ?fc \<le> space_available (g_flow ?u)"
    using signals_grow_fold [of "w\<lparr>g_flow := ?fc\<rparr>" X] by simp
  ultimately show ?thesis
    by (simp add: handle_rx_def case_prod_unfold Let_def parse_incoming_frame)
qed

text \<open>
  C24: a sender that is parked because its line does not fit is woken by the very chunk whose
  acknowledgements make room: its wait ends successfully right after the session has processed that chunk.
\<close>

theorem ack_wakes_parked_sender:
  assumes "needs_space (g_flow w) n" and "\<not> needs_space (g_flow (handle_rx X data w)) n"
    and "rx_buffer_size (g_flow (handle_rx X data w)) = rx_buffer_size (g_flow w)"
  shows "wait_for_space (grbl_env X) g_flow n w (EvRx data # es) = Ret (Inr ()) (handle_rx X data w) es"
proof -
  have "acks_in (fst (scan X (status_buffer (g_flow w) @ data))) > 0"
  proof (rule ccontr)
    assume "\<not> acks_in (fst (scan X (status_buffer (g_flow w) @ data))) > 0"
    then have "rx_count (g_flow (handle_rx X data w)) = rx_count (g_flow w)"
      by (simp add: handle_rx_flow parse_incoming_scan respond_no_acks)
    with assms show False by (simp add: needs_space_def)
  qed
  from handle_rx_signals [OF this] assms show ?thesis by (simp add: wait_for_space_def)
qed

theorem ack_wakes_parked_sender_witness:
  "wait_for_space (grbl_env std_regex) g_flow 50
     (demo\<lparr>g_flow := track_command 100 None ''G1'' FlowControl_new\<rparr>) [EvRx (''ok'' @ [LF])] =
   Ret (Inr ()) (handle_rx std_regex (''ok'' @ [LF]) (demo\<lparr>g_flow := track_command 100 None ''G1'' FlowControl_new\<rparr>)) []"
proof (rule ack_wakes_parked_sender)
  let ?w = "demo\<lparr>g_flow := track_command 100 None ''G1'' FlowControl_new\<rparr>"
  show "needs_space (g_flow ?w) 50" by code_simp
  show "\<not> needs_space (g_flow (handle_rx std_regex (''ok'' @ [LF]) ?w)) 50" by code_simp
  show "rx_buffer_size (g_flow (handle_rx std_regex (''ok'' @ [LF]) ?w)) = rx_buffer_size (g_flow ?w)" by code_simp
qed

section \<open>The connection loop\<close>

lemma execute_interactive_le: "length (events_left (execute_interactive_command X c w es)) \<le> length es"
  unfolding execute_interactive_command_def Let_def
  by (auto split: sum.splits prod.splits simp: send_command_bytes_def
      intro!: bindA_le tryA_le order_trans [OF acquire_le] order_trans [OF wait_pending_empty_le]
        order_trans [OF wait_for_space_le] order_trans [OF await_timeout_le])

interpretation grbl_shake: handshake_polling "grbl_env X" "\<lambda>w. grbl_write ''?'' (grbl_emit [RawTx ''?''] w)"
  "\<lambda>w. AsyncEvent_is_set (g_handshake_received w)" "await_handshake X" Inl "Inr False" "Inr True" for X
  by unfold_locales (rule await_handshake.simps)

lemma status_poll_loop_le: "length (events_left (status_poll_loop X w es)) \<le> length es"
proof (induction "length es" arbitrary: w es rule: less_induct)
  case less
  have nap: "length (events_left (bindA (sleep (grbl_env X) v es) k)) \<le> length es"
    if "\<And>v es'. length es' < length es \<Longrightarrow> length (events_left (k () v es')) \<le> length es" for v k
    using that sleep_shorter [of "grbl_env X" v es] sleep_le [of "grbl_env X" v es]
    by (cases "sleep (grbl_env X) v es") auto
  have rec: "length (events_left (status_poll_loop X v es')) \<le> length es" if "length es' < length es" for v es'
    using less.hyps [OF that, of v] that by simp
  show ?case
    by (subst status_poll_loop.simps) (auto split: prod.splits sum.splits simp: Let_def intro!: nap rec)
qed

lemma open_link_le: "length (events_left (open_link X w es)) \<le> length es"
  unfolding open_link_def link_session_def Let_def
  by (auto split: prod.splits sum.splits bool.splits
      intro!: bindA_le order_trans [OF grbl_shake.shake_le] order_trans [OF execute_interactive_le]
        order_trans [OF status_poll_loop_le])

interpretation grbl_link: reconnecting "grbl_env X" g_keep_running "open_link X"
  "update_connection_status T_Sleeping None" "\<lambda>n. connection_rounds n X" for X
  by unfold_locales (simp_all add: open_link_le)

end
