(* ===== verification/Grbl_Order.thy ===== *)
theory Grbl_Order
  imports Grbl_Report
begin

text \<open>
  What a streaming job puts on the wire: the lines of the job without comments and blank lines, each once
  and in order, whatever stalls, polls and replies happen between them.
\<close>

definition job_lines :: "regex_crate \<Rightarrow> string list \<Rightarrow> string list" where
  "job_lines X ls = filter (\<lambda>l. l \<noteq> []) (map (strip_gcode_comments X) ls)"

text \<open>The wire without the realtime polls, which bypass the receive buffer.\<close>

definition job_wire :: "GrblCore \<Rightarrow> bytes list" where
  "job_wire w = filter (\<lambda>c. c \<noteq> ''?'') (tr_wire (g_transport w))"

definition wired :: "bytes list \<Rightarrow> GrblCore \<Rightarrow> bool" where
  "wired W w \<longleftrightarrow> tr_inv (g_transport w) \<and> \<not> cfg_deadlock_detection (g_config w) \<and> job_wire w = W"

text \<open>The command task of the session is not running commands of its own.\<close>

definition no_command :: "env_event \<Rightarrow> bool" where
  "no_command e = (case e of EvTask _ \<Rightarrow> False | _ \<Rightarrow> True)"

lemma poll_wired: "wired W w \<Longrightarrow> wired W (snd (poll_send w))"
  using tr.write_cases [of "g_transport w" "''?''"] by (auto simp: wired_def poll_send_eq job_wire_def)

interpretation wq: grbl_quiet X no_command "wired W" for X W
proof
  fix e and w :: GrblCore
  assume "no_command e" "wired W w"
  then show "wired W (grbl_env X e w)"
    using tr.close_frame [of "g_transport w"]
    by (cases e) (simp_all add: no_command_def wired_def job_wire_def handle_rx_frame cancel_begin_def signal_space_def)
qed (simp_all add: poll_wired, simp_all add: wired_def job_wire_def)

lemma wired_stall: "wired W w \<Longrightarrow> list_all no_command es \<Longrightarrow> wq.kept W (on_buffer_stall X n w es)"
  by (rule wq.on_buffer_stall_quiet) (simp_all add: wired_def)

text \<open>After a send the wire has grown by the line exactly when the send reports success.\<close>

definition grown :: "bytes list \<Rightarrow> bytes \<Rightarrow> (('e, unit) result, GrblCore) outcome \<Rightarrow> bool" where
  "grown W d m = (case m of
     Ret (Inr _) w es \<Rightarrow> wired (W @ [d]) w \<and> list_all no_command es
   | _ \<Rightarrow> wq.kept W m)"

lemma grown_write:
  assumes "wired W w" "d \<noteq> ''?''" "list_all no_command es"
  shows "grown W d (case track_and_write d op w of (r, w) \<Rightarrow> Ret r w es)"
  using assms tr.write_cases [of "g_transport w" d] track_and_write_fst [of d op w] track_and_write_eq [of d op w]
  by (auto simp: grown_def wired_def job_wire_def case_prod_unfold split: sum.splits)

lemma grown_stall:
  "wired W w \<Longrightarrow> list_all no_command es \<Longrightarrow> d \<noteq> ''?'' \<Longrightarrow> grown W d (send_gcode_with_stall X d op w es)"
proof (induction "length es" arbitrary: w es rule: less_induct)
  case less
  note k = wq.wait_for_space_kept [OF less.prems(1,2), of X g_flow "length d"]
  show ?case
  proof (cases "wait_for_space (grbl_env X) g_flow (length d) w es")
    case (Ret r w1 es1)
    with k have k1: "wired W w1" "list_all no_command es1" by simp_all
    show ?thesis
    proof (cases r)
      case (Inr u)
      with Ret grown_write [OF k1(1) less.prems(3) k1(2), of op] show ?thesis
        by (subst send_gcode_with_stall.simps) simp
    next
      case (Inl t)
      with Ret have len: "length es1 < length es" by (auto dest: wait_for_space_shorter)
      note ks = wired_stall [OF k1, of X "length d"]
      show ?thesis
      proof (cases "on_buffer_stall X (length d) w1 es1")
        case (Ret b w2 es2)
        with ks have k2: "wired W w2" "list_all no_command es2" by simp_all
        from Ret len have "length es2 < length es" by (auto dest: on_buffer_stall_left)
        from less.hyps [OF this k2 less.prems(3)] k2 Ret Inl \<open>wait_for_space _ _ _ _ _ = _\<close> show ?thesis
          by (subst send_gcode_with_stall.simps) (cases b; simp add: grown_def)
      qed (use ks Ret Inl in \<open>subst send_gcode_with_stall.simps, simp add: grown_def\<close>)+
    qed
  qed (use k in \<open>subst send_gcode_with_stall.simps, simp add: grown_def\<close>)+
qed

lemma wired_lock: "wired W (w\<lparr>g_cmd_lock := l\<rparr>) = wired W w"
  by (simp add: wired_def job_wire_def)

lemma grown_line:
  assumes "wired W w" "list_all no_command es" "d \<noteq> ''?''"
  shows "grown W d (send_gcode_line X d op w es)"
proof (cases "acquire X w es")
  case (Ret u w1 es1)
  with wq.acquire_kept [OF assms(1,2), of X] have k1: "wired W w1" "list_all no_command es1" by simp_all
  from grown_stall [OF k1 assms(3), of X op] k1 Ret show ?thesis
    by (cases "send_gcode_with_stall X d op w1 es1")
      (auto simp: send_gcode_line_def grown_def release_def wired_lock split: sum.splits)
qed (use wq.acquire_kept [OF assms(1,2), of X] in \<open>simp_all add: send_gcode_line_def grown_def\<close>)

section \<open>The stream\<close>

text \<open>The session may stop early only for a reason the caller can see.\<close>

definition sent_prefix :: "bytes list \<Rightarrow> string list \<Rightarrow> (('e, unit) result, GrblCore) outcome \<Rightarrow> bool" where
  "sent_prefix W js m \<longleftrightarrow>
     (\<exists>k \<le> length js. wired (W @ map with_newline (take k js)) (world_of m) \<and>
        ((case m of Ret (Inr _) w _ \<Rightarrow> \<not> g_is_cancelled w \<and> g_job_exception w = None \<and> status (g_state w) \<noteq> Alarm
          | _ \<Rightarrow> False) \<longrightarrow> k = length js))"

lemma sent_prefix_stop:
  "wired W w \<Longrightarrow> g_is_cancelled w \<or> g_job_exception w \<noteq> None \<or> status (g_state w) = Alarm \<Longrightarrow>
   sent_prefix W js (Ret (Inr ()) w es)"
  unfolding sent_prefix_def by (intro exI [of _ 0]) auto

lemma sent_prefix_blocked: "wired W w \<Longrightarrow> sent_prefix W js (Blocked w)" "wired W w \<Longrightarrow> sent_prefix W js (Panicked w es)"
  "wired W w \<Longrightarrow> sent_prefix W js (Ret (Inl e) w es)"
  unfolding sent_prefix_def by (intro exI [of _ 0]; auto)+

lemma sent_prefix_Cons:
  assumes "sent_prefix (W @ [with_newline j]) js m"
  shows "sent_prefix W (j # js) m"
proof -
  from assms obtain k where k: "k \<le> length js" "wired ((W @ [with_newline j]) @ map with_newline (take k js)) (world_of m)"
      "(case m of Ret (Inr _) w _ \<Rightarrow> \<not> g_is_cancelled w \<and> g_job_exception w = None \<and> status (g_state w) \<noteq> Alarm
          | _ \<Rightarrow> False) \<longrightarrow> k = length js"
    by (auto simp: sent_prefix_def)
  then show ?thesis unfolding sent_prefix_def by (intro exI [of _ "Suc k"]) simp
qed

lemma stop_streaming_sent:
  assumes "wired W w" "stop_streaming w"
  shows "sent_prefix W js (Ret (Inr ()) (note_alarm w) es)"
proof (rule sent_prefix_stop)
  show "wired W (note_alarm w)" using assms(1) by (rule wq.note_alarm_kept)
  show "g_is_cancelled (note_alarm w) \<or> g_job_exception (note_alarm w) \<noteq> None \<or> status (g_state (note_alarm w)) = Alarm"
    using assms(2) by (auto simp: stop_streaming_def note_alarm_def set_exception_if_none_def)
qed

lemma job_lines_Cons:
  "job_lines X (l # ls) =
     (if strip_gcode_comments X l = [] then job_lines X ls else strip_gcode_comments X l # job_lines X ls)"
  by (simp add: job_lines_def)

lemma stream_lines_sent:
  "wired W w \<Longrightarrow> list_all no_command es \<Longrightarrow>
   sent_prefix W (job_lines X ls) (stream_lines X op_map tms idx ls w es)"
proof (induction ls arbitrary: W idx w es)
  case Nil
  then show ?case by (auto simp: job_lines_def sent_prefix_def)
next
  case (Cons l ls)
  define op where "op = Option.bind op_map (\<lambda>m. m idx)"
  define j where "j = strip_gcode_comments X l"
  let ?go = "\<lambda>w es. if g_job_exception w \<noteq> None \<or> status (g_state w) = Alarm then Ret (Inr ()) w es
      else bindA (sleep (grbl_env X) w es) (\<lambda>_ w es. stream_lines X op_map tms (Suc idx) ls w es)"
  consider "stop_streaming w" | "\<not> stop_streaming w" "j = []"
    | "\<not> stop_streaming w" "j \<noteq> []" "line_timeout (g_config w) tms op = None"
    | t where "\<not> stop_streaming w" "j \<noteq> []" "line_timeout (g_config w) tms op = Some t" by fastforce
  then show ?case
  proof cases
    case 1
    then show ?thesis using stop_streaming_sent [OF Cons.prems(1)] by simp
  next
    case 2
    then show ?thesis using Cons.IH [OF Cons.prems] by (simp add: Let_def j_def job_lines_Cons)
  next
    case 3
    then show ?thesis using sent_prefix_blocked(2) [OF Cons.prems(1)] by (simp add: Let_def j_def op_def)
  next
    case 4
    have go: "sent_prefix W' (job_lines X ls) (?go v es')" if "wired W' v" "list_all no_command es'" for W' v es'
    proof (cases "g_job_exception v \<noteq> None \<or> status (g_state v) = Alarm")
      case True
      then show ?thesis using sent_prefix_stop [OF that(1)] by auto
    next
      case False
      show ?thesis
      proof (cases "sleep (grbl_env X) v es'")
        case (Ret u v2 es2)
        with wq.sleep_kept [OF that, of X] have "wired W' v2" "list_all no_command es2" by simp_all
        from Cons.IH [OF this] Ret False show ?thesis by simp
      qed (use False wq.sleep_kept [OF that, of X] in \<open>simp_all add: sent_prefix_blocked\<close>)
    qed
    have gr: "grown W (with_newline j) (send_gcode_line X (with_newline j) op w es)"
      by (rule grown_line [OF Cons.prems with_newline_not_poll])
    show ?thesis
    proof (cases "send_gcode_line X (with_newline j) op w es")
      case (Ret r v es1)
      have eq: "stream_lines X op_map tms idx (l # ls) w es =
          (case r of Inr _ \<Rightarrow> ?go v es1
           | Inl (Err_BufferStall msg) \<Rightarrow> ?go (set_exception_if_none (Err_Device (''Deadlock recovery failed: '' @ msg)) v) es1
           | Inl e \<Rightarrow> Ret (Inl e) v es1)"
        using 4 Ret by (cases r) (simp_all add: Let_def j_def [symmetric] op_def [symmetric] split: SessionError.splits)
      show ?thesis
      proof (cases r)
        case (Inr u)
        with gr Ret have v: "wired (W @ [with_newline j]) v" "list_all no_command es1" by (simp_all add: grown_def)
        from sent_prefix_Cons [OF go [OF v]] Inr 4 show ?thesis
          by (simp add: eq job_lines_Cons j_def [symmetric] del: stream_lines.simps)
      next
        case (Inl e)
        with gr Ret have v: "wired W v" by (simp add: grown_def)
        have sp: "sent_prefix W js (?go (set_exception_if_none e' v) es1)" for js e'
          using wq.set_exception_kept [OF v] by (auto intro!: sent_prefix_stop simp: set_exception_if_none_def)
        show ?thesis unfolding eq Inl
          by (cases e) (simp_all only: sum.case SessionError.case sent_prefix_blocked(3) [OF v] sp)
      qed
    qed (use gr 4 in \<open>simp_all add: grown_def sent_prefix_blocked Let_def j_def [symmetric] op_def [symmetric]\<close>)
  qed
qed



end
