(* ===== verification/Line_Rx.thy ===== *)
theory Line_Rx
  imports Core_Session
begin

text \<open>
  What the three ping-pong sessions (\<^verbatim>\<open>src/grbl/simple.rs\<close>,
  \<^verbatim>\<open>src/smoothie/session.rs\<close>, \<^verbatim>\<open>src/marlin/session.rs\<close>) share: the command that
  waits for its acknowledgement, and the loop of \<^verbatim>\<open>handle_rx\<close> that cuts complete lines out
  of the receive buffer.
\<close>

section \<open>The waiting command\<close>

record PendingCmd =
  pd_lines :: "string list"
  pd_finished :: AsyncEvent

definition PendingCmd_new :: PendingCmd where
  "PendingCmd_new = \<lparr>pd_lines = [], pd_finished = AsyncEvent_new\<rparr>"

definition pd_add_line :: "string \<Rightarrow> PendingCmd \<Rightarrow> PendingCmd" where
  "pd_add_line l p = p\<lparr>pd_lines := pd_lines p @ [l]\<rparr>"

definition pd_finish :: "PendingCmd \<Rightarrow> PendingCmd" where
  "pd_finish p = p\<lparr>pd_finished := AsyncEvent_set (pd_finished p)\<rparr>"

definition pd_is_finished :: "PendingCmd \<Rightarrow> bool" where
  "pd_is_finished p = AsyncEvent_is_set (pd_finished p)"

lemma pd_simps [simp]:
  "\<not> pd_is_finished PendingCmd_new"
  "pd_lines PendingCmd_new = []"
  "pd_is_finished (pd_add_line l p) = pd_is_finished p"
  "pd_lines (pd_add_line l p) = pd_lines p @ [l]"
  "pd_is_finished (pd_finish p)"
  "pd_lines (pd_finish p) = pd_lines p"
  by (simp_all add: PendingCmd_new_def pd_add_line_def pd_finish_def pd_is_finished_def)

lemma pd_finish_done [simp]: "pd_is_finished p \<Longrightarrow> pd_finish p = p"
  by (simp add: pd_finish_def pd_is_finished_def)

text \<open>
  What one line of the device means to the waiting command: nothing, one more line of its reply, or
  its end, possibly with a last line. A finished command takes no more lines.
\<close>

datatype line_role = Skip | Gather | Finish "string option"

definition give :: "line_role \<Rightarrow> string \<Rightarrow> PendingCmd \<Rightarrow> PendingCmd" where
  "give r l p =
     (if pd_is_finished p then p
      else case r of
        Skip \<Rightarrow> p
      | Gather \<Rightarrow> pd_add_line l p
      | Finish None \<Rightarrow> pd_finish p
      | Finish (Some last_line) \<Rightarrow> pd_finish (pd_add_line last_line p))"

text \<open>The reply to a command in a sequence of lines, and whether it is complete.\<close>

fun reply_of :: "(string \<Rightarrow> line_role) \<Rightarrow> string list \<Rightarrow> string list \<times> bool" where
  "reply_of cls [] = ([], False)"
| "reply_of cls (l # ls) =
     (case cls l of
        Skip \<Rightarrow> reply_of cls ls
      | Gather \<Rightarrow> (case reply_of cls ls of (r, b) \<Rightarrow> (l # r, b))
      | Finish None \<Rightarrow> ([], True)
      | Finish (Some last_line) \<Rightarrow> ([last_line], True))"

lemma give_finished [simp]: "pd_is_finished p \<Longrightarrow> give r l p = p"
  by (simp add: give_def)

lemma give_open [simp]:
  "give Skip l p = p"
  "\<not> pd_is_finished p \<Longrightarrow> give Gather l p = pd_add_line l p"
  "\<not> pd_is_finished p \<Longrightarrow> give (Finish None) l p = pd_finish p"
  "\<not> pd_is_finished p \<Longrightarrow> give (Finish (Some x)) l p = pd_finish (pd_add_line x p)"
  by (simp_all add: give_def)

lemma fold_give_finished: "pd_is_finished p \<Longrightarrow> fold (\<lambda>l. give (cls l) l) ls p = p"
  by (induction ls) simp_all

lemma fold_give:
  "\<not> pd_is_finished p \<Longrightarrow>
   pd_lines (fold (\<lambda>l. give (cls l) l) ls p) = pd_lines p @ fst (reply_of cls ls) \<and>
   pd_is_finished (fold (\<lambda>l. give (cls l) l) ls p) = snd (reply_of cls ls)"
proof (induction ls arbitrary: p)
  case Nil
  then show ?case by simp
next
  case (Cons l ls)
  consider "cls l = Skip" | "cls l = Gather" | x where "cls l = Finish x" by (cases "cls l") auto
  then show ?case
  proof cases
    case 1
    with Cons show ?thesis by (simp)
  next
    case 2
    with Cons.IH [of "pd_add_line l p"] Cons.prems show ?thesis
      by (simp add: case_prod_unfold)
  next
    case 3
    with Cons.prems show ?thesis
      by (cases x) (simp_all add: fold_give_finished)
  qed
qed

section \<open>Cutting lines\<close>

text \<open>
  A chunk of the buffer up to a line feed that is not UTF-8 is dropped; otherwise it gives its
  non-empty trimmed lines.
\<close>

definition chunk_lines :: "bytes \<Rightarrow> string list" where
  "chunk_lines line_bytes =
     (if valid_utf8 line_bytes then filter (\<lambda>l. l \<noteq> []) (lines (trim line_bytes)) else [])"

function drain_lines :: "bytes \<Rightarrow> string list \<times> bytes" where
  "drain_lines buffer =
     (case position (\<lambda>b. b = LF) buffer of
        None \<Rightarrow> ([], buffer)
      | Some nl \<Rightarrow>
          (case drain_lines (drop (Suc nl) buffer) of
             (ls, r) \<Rightarrow> (chunk_lines (take (Suc nl) buffer) @ ls, r)))"
  by pat_completeness auto
termination
  by (relation "measure length") auto

declare drain_lines.simps [simp del]

lemma drain_lines_none: "LF \<notin> set b \<Longrightarrow> drain_lines b = ([], b)"
proof -
  assume "LF \<notin> set b"
  then have "position (\<lambda>b. b = LF) b = None" by (auto simp: position_None_iff)
  then show ?thesis by (simp add: drain_lines.simps [of b])
qed

lemma drain_lines_cut:
  assumes "LF \<notin> set u"
  shows "drain_lines (u @ LF # v) =
    (case drain_lines v of (ls, r) \<Rightarrow> (chunk_lines (u @ [LF]) @ ls, r))"
proof -
  have "position (\<lambda>b. b = LF) (u @ LF # v) = Some (length u)"
    using assms by (subst position_append_hit) auto
  then show ?thesis by (subst drain_lines.simps) simp
qed

lemma drain_lines_rest: "LF \<notin> set (snd (drain_lines b))"
proof (induction b rule: drain_lines.induct)
  case (1 b)
  then show ?case
    by (subst drain_lines.simps) (auto simp: position_None_iff split: option.split prod.split)
qed

text \<open>Cutting is incremental: what a chunk leaves over is completed by the next one.\<close>

lemma drain_lines_append:
  "drain_lines (a @ b) =
     (case drain_lines a of (ls, r) \<Rightarrow> case drain_lines (r @ b) of (ls', r') \<Rightarrow> (ls @ ls', r'))"
proof (induction a rule: drain_lines.induct)
  case (1 a)
  show ?case
  proof (cases "position (\<lambda>x. x = LF) a")
    case None
    then have "LF \<notin> set a" by (auto simp: position_None_iff)
    then show ?thesis by (simp add: drain_lines_none split: prod.split)
  next
    case (Some n)
    then have a: "a = take n a @ LF # drop (Suc n) a" and no: "LF \<notin> set (take n a)"
      using split_at_position [of "\<lambda>x. x = LF" a n] position_Some [of "\<lambda>x. x = LF" a n]
        position_take_no_hit [of "\<lambda>x. x = LF" a n] by auto
    define u v where "u = take n a" and "v = drop (Suc n) a"
    have uv: "a = u @ LF # v" "LF \<notin> set u" using a no by (simp_all add: u_def v_def)
    have "drain_lines (a @ b) = (case drain_lines (v @ b) of (ls, r) \<Rightarrow> (chunk_lines (u @ [LF]) @ ls, r))"
      using drain_lines_cut [OF uv(2), of "v @ b"] by (simp add: uv(1))
    also have "\<dots> = (case drain_lines a of (ls, r) \<Rightarrow> case drain_lines (r @ b) of (ls', r') \<Rightarrow> (ls @ ls', r'))"
      using 1 [OF Some, folded v_def] drain_lines_cut [OF uv(2), of v, folded uv(1)]
      by (simp add: case_prod_unfold)
    finally show ?thesis .
  qed
qed

text \<open>\<^verbatim>\<open>lines.join("\n")\<close>\<close>

fun join_lines :: "string list \<Rightarrow> string" where
  "join_lines [] = []"
| "join_lines [l] = l"
| "join_lines (l # ls) = l @ LF # join_lines ls"

section \<open>Receivers\<close>

text \<open>
  A receiver appends the chunk to its buffer, cuts the complete lines and hands them to its line
  handler, which does not look at the buffer. Then only the bytes matter, not how they were divided
  into chunks.
\<close>

locale line_receiver =
  fixes buf :: "'w \<Rightarrow> bytes" and set_buf :: "bytes \<Rightarrow> 'w \<Rightarrow> 'w"
    and handle :: "string \<Rightarrow> 'w \<Rightarrow> 'w" and rx :: "bytes \<Rightarrow> 'w \<Rightarrow> 'w"
  assumes rx_eq: "rx d w = (case drain_lines (buf w @ d) of (ls, r) \<Rightarrow> fold handle ls (set_buf r w))"
    and buf_set: "buf (set_buf r w) = r"
    and set_set: "set_buf r (set_buf q w) = set_buf r w"
    and handle_set: "handle l (set_buf r w) = set_buf r (handle l w)"
begin

lemma fold_handle_set: "fold handle ls (set_buf r w) = set_buf r (fold handle ls w)"
  by (induction ls arbitrary: w) (simp_all add: handle_set)

lemma rx_append: "rx b (rx a w) = rx (a @ b) w"
proof -
  obtain ls r where a: "drain_lines (buf w @ a) = (ls, r)" by (cases "drain_lines (buf w @ a)")
  obtain ls' r' where b: "drain_lines (r @ b) = (ls', r')" by (cases "drain_lines (r @ b)")
  have "rx b (rx a w) = fold handle ls' (set_buf r' (set_buf r (fold handle ls w)))"
    by (simp add: rx_eq a b buf_set fold_handle_set)
  also have "\<dots> = rx (a @ b) w"
    using drain_lines_append [of "buf w @ a" b] by (simp add: rx_eq a b fold_handle_set set_set)
  finally show ?thesis .
qed

lemma rx_chunks: "chunks \<noteq> [] \<Longrightarrow> fold rx chunks w = rx (concat chunks) w"
proof (induction chunks arbitrary: w)
  case Nil
  then show ?case by simp
next
  case (Cons c cs)
  show ?case
  proof (cases cs)
    case d: (Cons d ds)
    with Cons.IH have "fold rx cs (rx c w) = rx (concat cs) (rx c w)" by simp
    then show ?thesis by (simp add: rx_append)
  qed simp
qed

end

end
