(* ===== verification/Ping_Pong.thy ===== *)
theory Ping_Pong
  imports Async Line_Rx
begin

text \<open>
  The contract of a ping-pong session, stated once for the three sessions that send one line, wait for
  its acknowledgement and send the next. \<open>ping_pong_exchange\<close> is one exchange under the command
  lock, \<open>ping_pong_job\<close> the loop over the lines of a job, \<open>ping_pong_acks\<close> counts what is sent
  and what is acknowledged. \<open>A\<close> says which events of the environment are considered.
\<close>

section \<open>Counting\<close>

text \<open>The received lines that end an exchange.\<close>

definition is_finish :: "line_role \<Rightarrow> bool" where
  "is_finish r = (case r of Finish _ \<Rightarrow> True | _ \<Rightarrow> False)"

definition ack_count :: "(string \<Rightarrow> line_role) \<Rightarrow> event list \<Rightarrow> nat" where
  "ack_count cls evs = length (filter (\<lambda>e. case e of RawRx l \<Rightarrow> is_finish (cls l) | _ \<Rightarrow> False) evs)"

lemma ack_count_append [simp]: "ack_count cls (a @ b) = ack_count cls a + ack_count cls b"
  by (simp add: ack_count_def)

lemma ack_count_simps [simp]:
  "ack_count cls [] = 0"
  "ack_count cls (RawRx l # evs) = (if is_finish (cls l) then 1 else 0) + ack_count cls evs"
  "\<forall>l. e \<noteq> RawRx l \<Longrightarrow> ack_count cls (e # evs) = ack_count cls evs"
  by (auto simp: ack_count_def split: event.splits)

lemma give_completes: "pd_is_finished (give r l p) \<Longrightarrow> pd_is_finished p \<or> is_finish r"
  by (cases r) (auto simp: give_def is_finish_def split: if_splits)

section \<open>One exchange\<close>

text \<open>
  What the wire may have become when an exchange for \<open>c\<close> has ended or is suspended: unchanged or
  longer by the line, and longer by the line if the exchange succeeded.
\<close>

definition line_sent ::
  "('w \<Rightarrow> bool) \<Rightarrow> (env_event \<Rightarrow> bool) \<Rightarrow> ('w \<Rightarrow> bytes list) \<Rightarrow> bytes list \<Rightarrow> bytes \<Rightarrow> (('e, 'a) result, 'w) outcome \<Rightarrow> bool" where
  "line_sent good A wire W d m \<longleftrightarrow>
     good (world_of m) \<and> list_all A (events_left m) \<and>
     (wire (world_of m) = W @ [d] \<or>
      wire (world_of m) = W \<and> (case m of Ret (Inr _) _ _ \<Rightarrow> False | _ \<Rightarrow> True))"

locale quiet_env =
  fixes step :: "env_event \<Rightarrow> 'w \<Rightarrow> 'w" and A :: "env_event \<Rightarrow> bool"
    and wire :: "'w \<Rightarrow> bytes list" and inv :: "'w \<Rightarrow> bool"
  assumes step_inv: "A e \<Longrightarrow> inv w \<Longrightarrow> inv (step e w)"
    and step_wire: "A e \<Longrightarrow> inv w \<Longrightarrow> wire (step e w) = wire w"
begin

lemma keeps_wire: "env_invariant step A (\<lambda>w. inv w \<and> wire w = W)"
  by unfold_locales (auto simp: step_inv step_wire)

lemma await_quiet:
  "inv w \<Longrightarrow> list_all A es \<Longrightarrow>
   inv (world_of (await step ready w es)) \<and> wire (world_of (await step ready w es)) = wire w \<and> list_all A (events_left (await step ready w es))"
  using env_invariant.await_kept [OF keeps_wire, of w "wire w" es ready] env_invariant.kept_def [OF keeps_wire]
  by auto

lemma await_timeout_quiet:
  "inv w \<Longrightarrow> list_all A es \<Longrightarrow>
   inv (world_of (await_timeout step ready w es)) \<and> wire (world_of (await_timeout step ready w es)) = wire w \<and> list_all A (events_left (await_timeout step ready w es))"
  using env_invariant.await_timeout_kept [OF keeps_wire, of w "wire w" es ready] env_invariant.kept_def [OF keeps_wire]
  by auto

lemma sleep_quiet:
  "inv w \<Longrightarrow> list_all A es \<Longrightarrow>
   inv (world_of (sleep step w es)) \<and> wire (world_of (sleep step w es)) = wire w \<and> list_all A (events_left (sleep step w es))"
  using env_invariant.sleep_kept [OF keeps_wire, of w "wire w" es] env_invariant.kept_def [OF keeps_wire]
  by auto

end

text \<open>
  An exchange takes the lock, gives up if the link is down, sends the line (\<open>slot\<close> names the waiting
  command), waits for its completion and leaves.
\<close>

locale ping_pong_exchange = quiet_env step A wire inv
  for step :: "env_event \<Rightarrow> 'w \<Rightarrow> 'w" and A wire inv +
  fixes is_free :: "'w \<Rightarrow> bool" and take_lock :: "'w \<Rightarrow> 'w" and leave_down :: "'w \<Rightarrow> 'w"
    and up :: "'w \<Rightarrow> bool" and slot :: "'w \<Rightarrow> nat"
    and send :: "string \<Rightarrow> 'w \<Rightarrow> (SessionError, unit) result \<times> 'w"
    and complete :: "nat \<Rightarrow> 'w \<Rightarrow> bool" and leave :: "nat \<Rightarrow> 'w \<Rightarrow> 'w"
    and reply :: "nat \<Rightarrow> 'w \<Rightarrow> string list" and down :: SessionError
    and exchange :: "string \<Rightarrow> 'w \<Rightarrow> env_event list \<Rightarrow> ((SessionError, string list) result, 'w) outcome"
  assumes exchange_eq: "exchange c w es =
      bindA (await step is_free w es) (\<lambda>_ w es.
        let w = take_lock w in
        if \<not> up w then Ret (Inl down) (leave_down w) es
        else let i = slot w in
          bindA (case send c w of
                   (Inl e, w) \<Rightarrow> Ret (Inl e) w es
                 | (Inr _, w) \<Rightarrow> bindA (await_timeout step (complete i) w es)
                                   (\<lambda>ok w es. Ret (if ok then Inr () else Inl Err_Timeout) w es))
            (\<lambda>r w es. let w = leave i w in
               case r of Inl e \<Rightarrow> Ret (Inl e) w es | Inr _ \<Rightarrow> Ret (Inr (reply i w)) w es))"
    and take_quiet: "inv w \<Longrightarrow> inv (take_lock w) \<and> wire (take_lock w) = wire w"
    and leave_down_quiet: "inv w \<Longrightarrow> inv (leave_down w) \<and> wire (leave_down w) = wire w"
    and leave_quiet: "inv w \<Longrightarrow> inv (leave i w) \<and> wire (leave i w) = wire w"
    and send_ok: "inv w \<Longrightarrow> send c w = (Inr u, w') \<Longrightarrow> inv w' \<and> wire w' = wire w @ [with_newline c]"
    and send_err: "inv w \<Longrightarrow> send c w = (Inl e, w') \<Longrightarrow> inv w' \<and> wire w' = wire w"
begin

lemma exchange_sends:
  assumes "inv w" "list_all A es"
  shows "line_sent inv A wire (wire w) (with_newline c) (exchange c w es)"
proof (cases "await step is_free w es")
  case (Ret u w1 es1)
  with await_quiet [OF assms, of is_free] have k1: "inv w1" "wire w1 = wire w" "list_all A es1" by simp_all
  let ?w = "take_lock w1"
  have k2: "inv ?w" "wire ?w = wire w" using take_quiet [OF k1(1)] k1 by simp_all
  show ?thesis
  proof (cases "up ?w")
    case False
    with Ret k1 k2 leave_down_quiet [OF k2(1)] show ?thesis
      by (simp add: exchange_eq line_sent_def Let_def)
  next
    case up: True
    obtain r w3 where s: "send c ?w = (r, w3)" by (cases "send c ?w")
    show ?thesis
    proof (cases r)
      case (Inl e)
      from send_err [OF k2(1) s [unfolded Inl]] k2 have "inv w3" "wire w3 = wire w" by simp_all
      with Ret up s Inl k1 leave_quiet [of w3 "slot ?w"] show ?thesis
        by (simp add: exchange_eq line_sent_def Let_def)
    next
      case (Inr v)
      from send_ok [OF k2(1) s [unfolded Inr]] k2 have k3: "inv w3" "wire w3 = wire w @ [with_newline c]" by simp_all
      note q = await_timeout_quiet [OF k3(1) k1(3), of "complete (slot ?w)"]
      show ?thesis
      proof (cases "await_timeout step (complete (slot ?w)) w3 es1")
        case (Ret b w4 es4)
        with q k3 have "inv w4" "wire w4 = wire w @ [with_newline c]" "list_all A es4" by simp_all
        with Ret \<open>await step is_free w es = _\<close> up s Inr leave_quiet [of w4 "slot ?w"] show ?thesis
          by (cases b) (simp_all add: exchange_eq line_sent_def Let_def)
      qed (use q k3 \<open>await step is_free w es = _\<close> up s Inr in \<open>simp_all add: exchange_eq line_sent_def Let_def\<close>)
    qed
  qed
qed (use await_quiet [OF assms, of is_free] in \<open>simp_all add: exchange_eq line_sent_def\<close>)

end

section \<open>A job\<close>

text \<open>The lines of a job as they are sent: prepared, blank ones left out.\<close>

definition sent_lines :: "(string \<Rightarrow> string) \<Rightarrow> string list \<Rightarrow> string list" where
  "sent_lines prep ls = filter (\<lambda>l. l \<noteq> []) (map prep ls)"

lemma sent_lines_simps [simp]:
  "sent_lines prep [] = []"
  "sent_lines prep (l # ls) = (if prep l = [] then sent_lines prep ls else prep l # sent_lines prep ls)"
  by (simp_all add: sent_lines_def)

locale ping_pong_job = quiet_env step A wire inv
  for step :: "env_event \<Rightarrow> 'w \<Rightarrow> 'w" and A wire inv +
  fixes ping :: "string \<Rightarrow> 'w \<Rightarrow> env_event list \<Rightarrow> ((SessionError, string list) result, 'w) outcome"
    and stop failed :: "'w \<Rightarrow> bool" and prep :: "string \<Rightarrow> string" and note_op :: "int option \<Rightarrow> 'w \<Rightarrow> 'w"
    and run_lines :: "(nat \<rightharpoonup> int) \<Rightarrow> nat \<Rightarrow> string list \<Rightarrow> 'w \<Rightarrow> env_event list \<Rightarrow> (bool, 'w) outcome"
  assumes run_Nil: "run_lines m i [] w es = Ret False w es"
    and run_Cons: "run_lines m i (l # ls) w es =
      (if stop w then Ret False w es
       else let c = prep l
         in if c = [] then run_lines m (Suc i) ls w es
            else bindA (ping c (note_op (m i) w) es) (\<lambda>r w es. case r of
              Inr _ \<Rightarrow> if failed w then Ret False w es
                       else bindA (sleep step w es) (\<lambda>_ w es. run_lines m (Suc i) ls w es)
            | Inl e \<Rightarrow> Ret True w es))"
    and note_quiet: "inv w \<Longrightarrow> inv (note_op p w) \<and> wire (note_op p w) = wire w"
    and ping_sends: "inv w \<Longrightarrow> list_all A es \<Longrightarrow> line_sent inv A wire (wire w) (with_newline c) (ping c w es)"
begin

definition in_order :: "bytes list \<Rightarrow> string list \<Rightarrow> (bool, 'w) outcome \<Rightarrow> bool" where
  "in_order W js m \<longleftrightarrow>
     (\<exists>k \<le> length js. wire (world_of m) = W @ map with_newline (take k js) \<and>
        (\<forall>w es. m = Ret False w es \<longrightarrow> \<not> stop w \<longrightarrow> \<not> failed w \<longrightarrow> k = length js))"

lemma in_order_stop:
  "wire (world_of m) = W \<Longrightarrow> (\<And>w es. m = Ret False w es \<Longrightarrow> stop w \<or> failed w) \<Longrightarrow> in_order W js m"
  unfolding in_order_def by (intro exI [of _ 0]) auto

lemma in_order_sent:
  "wire (world_of m) = W @ [with_newline j] \<Longrightarrow> (\<And>w es. m = Ret False w es \<Longrightarrow> stop w \<or> failed w) \<Longrightarrow>
   in_order W (j # js) m"
  unfolding in_order_def by (intro exI [of _ 1]) auto

lemma in_order_Cons: "in_order (W @ [with_newline j]) js m \<Longrightarrow> in_order W (j # js) m"
  unfolding in_order_def
proof (elim exE conjE)
  fix k assume "k \<le> length js" "wire (world_of m) = (W @ [with_newline j]) @ map with_newline (take k js)"
    "\<forall>w es. m = Ret False w es \<longrightarrow> \<not> stop w \<longrightarrow> \<not> failed w \<longrightarrow> k = length js"
  then show "\<exists>k \<le> length (j # js). wire (world_of m) = W @ map with_newline (take k (j # js)) \<and>
        (\<forall>w es. m = Ret False w es \<longrightarrow> \<not> stop w \<longrightarrow> \<not> failed w \<longrightarrow> k = length (j # js))"
    by (intro exI [of _ "Suc k"]) simp
qed

text \<open>The lines go out once each and in order; all of them if nothing stops the job.\<close>

lemma run_in_order:
  "inv w \<Longrightarrow> list_all A es \<Longrightarrow> in_order (wire w) (sent_lines prep ls) (run_lines m i ls w es)"
proof (induction ls arbitrary: i w es)
  case Nil
  then show ?case by (simp add: run_Nil in_order_def)
next
  case (Cons l ls)
  define c where "c = prep l"
  consider "stop w" | "\<not> stop w" "c = []" | "\<not> stop w" "c \<noteq> []" by blast
  then show ?case
  proof cases
    case 1
    then show ?thesis by (auto simp: run_Cons intro: in_order_stop)
  next
    case 2
    with Cons show ?thesis by (simp add: run_Cons c_def Let_def)
  next
    case 3
    let ?w = "note_op (m i) w"
    have k0: "inv ?w" "wire ?w = wire w" using note_quiet [OF Cons.prems(1)] by simp_all
    note p = ping_sends [OF k0(1) Cons.prems(2), of c, unfolded k0(2)]
    have lines: "sent_lines prep (l # ls) = c # sent_lines prep ls" using 3 by (simp add: c_def)
    show ?thesis
    proof (cases "ping c ?w es")
      case (Ret r w1 es1)
      show ?thesis
      proof (cases r)
        case (Inl e)
        have "run_lines m i (l # ls) w es = Ret True w1 es1"
          using 3 Ret Inl by (simp add: run_Cons c_def [symmetric])
        moreover from p Ret Inl have "wire w1 = wire w \<or> wire w1 = wire w @ [with_newline c]"
          by (auto simp: line_sent_def)
        ultimately show ?thesis unfolding lines by (auto intro: in_order_stop in_order_sent)
      next
        case (Inr u)
        with p Ret have k1: "inv w1" "list_all A es1" "wire w1 = wire w @ [with_newline c]"
          by (simp_all add: line_sent_def)
        have eq: "run_lines m i (l # ls) w es = (if failed w1 then Ret False w1 es1
            else bindA (sleep step w1 es1) (\<lambda>_ w es. run_lines m (Suc i) ls w es))"
          using 3 Ret Inr by (simp add: run_Cons c_def [symmetric])
        show ?thesis
        proof (cases "failed w1")
          case True
          with k1 show ?thesis unfolding eq lines by (auto intro: in_order_sent)
        next
          case False
          note q = sleep_quiet [OF k1(1,2)]
          show ?thesis
          proof (cases "sleep step w1 es1")
            case (Ret u2 w2 es2)
            from q Ret k1 have k2: "inv w2" "list_all A es2" "wire w2 = wire w @ [with_newline c]" by simp_all
            from Cons.IH [OF k2(1,2), of "Suc i"] k2(3) Ret False show ?thesis
              unfolding eq lines by (simp add: in_order_Cons)
          qed (use q k1 False in \<open>auto simp: eq lines simp del: sent_lines_simps intro!: in_order_sent\<close>)
        qed
      qed
    qed (use p 3 in \<open>auto simp: run_Cons c_def [symmetric] lines line_sent_def simp del: sent_lines_simps intro: in_order_stop in_order_sent\<close>)
  qed
qed

text \<open>What every event, every exchange and every progress report keeps, the job keeps.\<close>

lemma run_keeps:
  "inv w \<Longrightarrow> list_all A es \<Longrightarrow>
   inv (world_of (run_lines m i ls w es)) \<and> list_all A (events_left (run_lines m i ls w es))"
proof -
  have K: "env_invariant step A inv" by unfold_locales (rule step_inv)
  note kept = env_invariant.kept_def [OF K] and kept_bind = env_invariant.bindA_kept [OF K]
  have go: "inv w \<Longrightarrow> list_all A es \<Longrightarrow> env_invariant.kept A inv (run_lines m i ls w es)" for w es i
  proof (induction ls arbitrary: i w es)
    case Nil
    then show ?case by (simp add: run_Nil kept)
  next
    case (Cons l ls)
    have p: "env_invariant.kept A inv (ping c (note_op (m i) w) es)" for c
      using ping_sends note_quiet Cons.prems by (simp add: kept line_sent_def)
    have s: "inv v \<Longrightarrow> list_all A vs \<Longrightarrow>
        env_invariant.kept A inv (bindA (sleep step v vs) (\<lambda>_ w es. run_lines m (Suc i) ls w es))" for v vs
      by (rule kept_bind [OF env_invariant.sleep_kept [OF K]]) (simp_all add: Cons.IH)
    have t: "env_invariant.kept A inv (bindA (ping c (note_op (m i) w) es) (\<lambda>r w es. case r of
        Inr _ \<Rightarrow> if failed w then Ret False w es
                 else bindA (sleep step w es) (\<lambda>_ w es. run_lines m (Suc i) ls w es)
      | Inl e \<Rightarrow> Ret True w es))" for c
      by (rule kept_bind [OF p]) (simp add: env_invariant.kept_simps [OF K] s split: sum.split)
    from Cons.prems Cons.IH t show ?case by (simp add: run_Cons Let_def env_invariant.kept_simps [OF K])
  qed
  then show "inv w \<Longrightarrow> list_all A es \<Longrightarrow> ?thesis" by (simp add: kept)
qed

end

section \<open>Acknowledgements\<close>

text \<open>
  \<open>tx\<close> counts the lines on the wire, \<open>ack\<close> the acknowledgements received. A waiting command completes
  only with an acknowledgement.
\<close>

locale ping_pong_acks = ping_pong_exchange step A wire inv is_free take_lock leave_down up slot send complete leave reply down exchange
  for step :: "env_event \<Rightarrow> 'w \<Rightarrow> 'w" and A wire inv is_free take_lock leave_down up slot send complete leave reply down exchange +
  fixes tx ack :: "'w \<Rightarrow> nat"
  assumes step_tx: "A e \<Longrightarrow> inv w \<Longrightarrow> tx (step e w) = tx w"
    and step_ack: "A e \<Longrightarrow> inv w \<Longrightarrow> ack w \<le> ack (step e w)"
    and step_complete: "A e \<Longrightarrow> inv w \<Longrightarrow> complete i (step e w) \<Longrightarrow> complete i w \<or> ack w < ack (step e w)"
    and take_counts: "tx (take_lock w) = tx w \<and> ack (take_lock w) = ack w"
    and leave_down_counts: "tx (leave_down w) = tx w \<and> ack (leave_down w) = ack w"
    and leave_counts: "tx (leave i w) = tx w \<and> ack (leave i w) = ack w"
    and send_counts: "inv w \<Longrightarrow> send c w = (r, w') \<Longrightarrow> tx w' \<le> Suc (tx w) \<and> ack w' = ack w \<and> \<not> complete (slot w) w'"
begin

lemma keeps_counts: "env_invariant step A (\<lambda>w. inv w \<and> tx w = t \<and> a \<le> ack w)"
  by unfold_locales (use step_inv step_tx step_ack in \<open>fastforce intro: order_trans\<close>)

lemmas waits_keep = env_invariant.await_kept [OF keeps_counts] env_invariant.await_timeout_kept [OF keeps_counts]
  env_invariant.sleep_kept [OF keeps_counts]

lemmas kept_counts = env_invariant.kept_def [OF keeps_counts]

lemma await_completes:
  "inv w \<Longrightarrow> list_all A es \<Longrightarrow> \<not> complete i w \<Longrightarrow>
   await_timeout step (complete i) w es = Ret True w' es' \<Longrightarrow> ack w < ack w'"
proof (induction es arbitrary: w)
  case Nil
  then show ?case by (simp add: await_timeout.simps)
next
  case (Cons e es)
  let ?w = "step e w"
  from Cons.prems have A: "A e" "list_all A es" and go: "await_timeout step (complete i) ?w es = Ret True w' es'"
    by (auto simp: await_timeout.simps [of _ _ w] split: if_splits)
  show ?case
  proof (cases "complete i ?w")
    case True
    with go have "w' = ?w" by (simp add: await_timeout.simps)
    with True step_complete [OF A(1) Cons.prems(1), of i] Cons.prems(3) show ?thesis by simp
  next
    case False
    from Cons.IH [OF step_inv [OF A(1) Cons.prems(1)] A(2) False go] step_ack [OF A(1) Cons.prems(1)]
    show ?thesis by simp
  qed
qed

text \<open>An exchange sends at most one line, and succeeds only with an acknowledgement.\<close>

lemma exchange_counts:
  assumes "inv w" "list_all A es" and "m = exchange c w es"
  shows "ack w \<le> ack (world_of m) \<and> tx (world_of m) \<le> Suc (tx w) \<and>
    (\<forall>r w' es'. m = Ret (Inr r) w' es' \<longrightarrow> ack w < ack w')"
proof -
  note q1 = waits_keep(1) [of w "tx w" "ack w" es is_free, unfolded kept_counts]
  show ?thesis
  proof (cases "await step is_free w es")
    case (Ret u w1 es1)
    with q1 assms have k1: "inv w1" "tx w1 = tx w" "ack w \<le> ack w1" "list_all A es1" by simp_all
    let ?w = "take_lock w1"
    have k2: "inv ?w" "tx ?w = tx w" "ack w \<le> ack ?w"
      using take_quiet [OF k1(1)] take_counts [of w1] k1 by simp_all
    show ?thesis
    proof (cases "up ?w")
      case False
      with Ret k2 leave_down_counts [of ?w] assms(3) show ?thesis by (simp add: exchange_eq Let_def)
    next
      case up: True
      obtain r w3 where s: "send c ?w = (r, w3)" by (cases "send c ?w")
      from send_counts [OF k2(1) s] k2 have k3: "tx w3 \<le> Suc (tx w)" "ack w \<le> ack w3" "\<not> complete (slot ?w) w3"
        by simp_all
      show ?thesis
      proof (cases r)
        case (Inl e)
        with Ret up s k3 leave_counts [of "slot ?w" w3] assms(3) show ?thesis by (simp add: exchange_eq Let_def)
      next
        case (Inr v)
        from send_ok [OF k2(1) s [unfolded Inr]] have i3: "inv w3" by simp
        note q3 = waits_keep(2) [of w3 "tx w3" "ack w3" es1 "complete (slot ?w)", unfolded kept_counts]
        show ?thesis
        proof (cases "await_timeout step (complete (slot ?w)) w3 es1")
          case (Ret b w4 es4)
          with q3 i3 k1(4) have k4: "tx w4 = tx w3" "ack w3 \<le> ack w4" by simp_all
          from Ret await_completes [OF i3 k1(4) k3(3)] have "b \<Longrightarrow> ack w3 < ack w4" by (cases b) auto
          with k4 k3 Ret \<open>await step is_free w es = _\<close> up s Inr leave_counts [of "slot ?w" w4] assms(3) show ?thesis
            by (cases b) (simp_all add: exchange_eq Let_def)
        qed (use q3 i3 k1 k3 assms \<open>await step is_free w es = _\<close> up s Inr in \<open>simp_all add: exchange_eq Let_def\<close>)
      qed
    qed
  qed (use q1 assms in \<open>simp_all add: exchange_eq\<close>)
qed

end

text \<open>A job over such exchanges never has more than one line without acknowledgement.\<close>

locale ping_pong_counted_job = ping_pong_job step A wire inv ping stop failed prep note_op run_lines
  for step :: "env_event \<Rightarrow> 'w \<Rightarrow> 'w" and A wire inv ping stop failed prep note_op run_lines +
  fixes tx ack :: "'w \<Rightarrow> nat"
  assumes env_tx: "A e \<Longrightarrow> inv w \<Longrightarrow> tx (step e w) = tx w"
    and env_ack: "A e \<Longrightarrow> inv w \<Longrightarrow> ack w \<le> ack (step e w)"
    and note_counts: "tx (note_op p w) = tx w \<and> ack (note_op p w) = ack w"
    and ping_counts: "inv w \<Longrightarrow> list_all A es \<Longrightarrow>
      ack w \<le> ack (world_of (ping c w es)) \<and> tx (world_of (ping c w es)) \<le> Suc (tx w) \<and>
      (\<forall>r w' es'. ping c w es = Ret (Inr r) w' es' \<longrightarrow> ack w < ack w')"
begin

lemma sleep_counts:
  assumes "inv w" "list_all A es"
  shows "tx (world_of (sleep step w es)) = tx w \<and> ack w \<le> ack (world_of (sleep step w es))"
proof -
  have "env_invariant step A (\<lambda>v. inv v \<and> tx v = tx w \<and> ack w \<le> ack v)"
    by unfold_locales (use step_inv env_tx env_ack in \<open>fastforce intro: order_trans\<close>)
  from env_invariant.sleep_kept [OF this, of w es] env_invariant.kept_world [OF this] assms show ?thesis by blast
qed

lemma run_outstanding:
  "inv w \<Longrightarrow> list_all A es \<Longrightarrow>
   tx (world_of (run_lines m i ls w es)) + ack w \<le> Suc (tx w + ack (world_of (run_lines m i ls w es)))"
proof (induction ls arbitrary: i w es)
  case Nil
  then show ?case by (simp add: run_Nil)
next
  case (Cons l ls)
  define c where "c = prep l"
  consider "stop w" | "\<not> stop w" "c = []" | "\<not> stop w" "c \<noteq> []" by blast
  then show ?case
  proof cases
    case 1
    then show ?thesis by (simp add: run_Cons)
  next
    case 2
    with Cons show ?thesis by (simp add: run_Cons c_def Let_def)
  next
    case 3
    let ?w = "note_op (m i) w"
    have k0: "inv ?w" "tx ?w = tx w" "ack ?w = ack w" using note_quiet [OF Cons.prems(1)] note_counts by simp_all
    note p = ping_counts [OF k0(1) Cons.prems(2), of c, unfolded k0]
    note ps = ping_sends [OF k0(1) Cons.prems(2), of c, unfolded line_sent_def]
    show ?thesis
    proof (cases "ping c ?w es")
      case (Ret r w1 es1)
      have eq: "run_lines m i (l # ls) w es = (case r of
          Inr _ \<Rightarrow> if failed w1 then Ret False w1 es1
                   else bindA (sleep step w1 es1) (\<lambda>_ w es. run_lines m (Suc i) ls w es)
        | Inl e \<Rightarrow> Ret True w1 es1)"
        using 3 Ret by (simp add: run_Cons c_def [symmetric])
      show ?thesis
      proof (cases r)
        case (Inl e)
        with p Ret show ?thesis by (simp add: eq)
      next
        case (Inr u)
        with p ps Ret have k1: "inv w1" "list_all A es1" "ack w < ack w1" "tx w1 \<le> Suc (tx w)" by simp_all
        note q = sleep_counts [OF k1(1,2)]
        note qq = sleep_quiet [OF k1(1,2)]
        show ?thesis
        proof (cases "sleep step w1 es1")
          case (Ret u2 w2 es2)
          with qq q have k2: "inv w2" "list_all A es2" "tx w2 = tx w1" "ack w1 \<le> ack w2" by simp_all
          from Cons.IH [OF k2(1,2), of "Suc i"] k2 k1 Ret Inr show ?thesis by (simp add: eq)
        qed (use q k1 Inr in \<open>simp_all add: eq\<close>)
      qed
    qed (use p 3 in \<open>simp_all add: run_Cons c_def [symmetric]\<close>)
  qed
qed

end

end
