(* ===== verification/Ping_Pong_Live.thy ===== *)
theory Ping_Pong_Live
  imports Ping_Pong Transport
begin

text \<open>
  Liveness of the ping-pong sessions, stated once: on a device that answers every line, a job comes
  to its end with every line sent. The contract is one turn of the job loop under a script that serves
  it; the three sessions provide it in \<open>Simple_Live\<close>, \<open>Smoothie_Live\<close> and \<open>Marlin_Live\<close>.
\<close>

section \<open>A link without faults\<close>

text \<open>Open, and the operating system accepts what is written.\<close>

fun tr_sound :: "Transport \<Rightarrow> bool" where
  "tr_sound (TSerial t) \<longleftrightarrow> ser_open t \<and> ser_writer t \<and> ser_os t = []"
| "tr_sound (TTelnet t) \<longleftrightarrow> tel_open t \<and> tel_writer t \<and> tel_os t = []"
| "tr_sound (TMock m) \<longleftrightarrow> mk_open m \<and> mk_write_error m = None \<and> mock_inv m"

lemma tr_sound_open: "tr_sound t \<Longrightarrow> tr_is_open t \<and> tr_inv t"
  by (cases t) (simp_all add: serial_inv_def telnet_inv_def)

lemma tr_sound_write:
  assumes "tr_sound t"
  shows "\<exists>t'. tr_write d t = (Inr (), t') \<and> tr_sound t' \<and> tr_wire t' = tr_wire t @ [d]"
  using assms
  by (cases t) (auto simp: via_def serial_write_def telnet_write_def mock_write_def mock_inv_def next_os_def)

section \<open>Scripts\<close>

text \<open>
  A chunk that carries one whole line, and the script of a served exchange: informational lines, then
  the line that ends the reply, then the scheduler returns to the job.
\<close>

definition line_chunk :: "string \<Rightarrow> bytes" where
  "line_chunk l = l @ [LF]"

definition whole_line :: "string \<Rightarrow> bool" where
  "whole_line l \<longleftrightarrow> l \<noteq> [] \<and> drain_lines (line_chunk l) = ([l], [])"

definition reply_script :: "string list \<times> string \<Rightarrow> env_event list" where
  "reply_script r = map (EvRx \<circ> line_chunk) (fst r) @ [EvRx (line_chunk (snd r)), EvTimer]"

definition job_script :: "(string list \<times> string) list \<Rightarrow> env_event list" where
  "job_script rs = concat (map reply_script rs)"

lemma job_script_simps [simp]:
  "job_script [] = []" "job_script (r # rs) = reply_script r @ job_script rs"
  by (simp_all add: job_script_def)

section \<open>An answered exchange\<close>

text \<open>
  While an exchange waits (\<open>waiting n W\<close>: the command \<open>n\<close> is outstanding, the wire is \<open>W\<close>)
  informational lines leave it waiting and a final line completes it. \<open>healthy\<close> are the states in
  which the next exchange can start.
\<close>

locale ping_pong_answered =
  fixes step :: "env_event \<Rightarrow> 'w \<Rightarrow> 'w" and wire :: "'w \<Rightarrow> bytes list"
    and is_free :: "'w \<Rightarrow> bool" and take_lock :: "'w \<Rightarrow> 'w" and leave_down :: "'w \<Rightarrow> 'w"
    and up :: "'w \<Rightarrow> bool" and slot :: "'w \<Rightarrow> nat"
    and send :: "string \<Rightarrow> 'w \<Rightarrow> (SessionError, unit) result \<times> 'w"
    and complete :: "nat \<Rightarrow> 'w \<Rightarrow> bool" and leave :: "nat \<Rightarrow> 'w \<Rightarrow> 'w"
    and reply :: "nat \<Rightarrow> 'w \<Rightarrow> string list" and down :: SessionError
    and exchange :: "string \<Rightarrow> 'w \<Rightarrow> env_event list \<Rightarrow> ((SessionError, string list) result, 'w) outcome"
    and healthy :: "'w \<Rightarrow> bool" and waiting :: "nat \<Rightarrow> bytes list \<Rightarrow> 'w \<Rightarrow> bool"
    and gather final :: "string \<Rightarrow> bool"
  assumes exchange_eq: "exchange c w es =
      bindA (await step is_free w es) (\<lambda>_ w es.
        let w = take_lock w in
        if \<not> up w then Ret (Inl down) (leave_down w) es
        else let i = slot w in
          bindA (case send c w of
                   (Inl e, w) \<Rightarrow> Ret (Inl e) w es
                 | (Inr _, w) \<Rightarrow> bindA (await_timeout step (complete i) w es)
                                   (\<lambda>ok w es. Ret (if ok then Inr () else Inl Err_Timeout) w es))
            (\<lambda>r w es. let w = leave i w in
               case r of Inl e \<Rightarrow> Ret (Inl e) w es | Inr _ \<Rightarrow> Ret (Inr (reply i w)) w es))"
    and healthy_up: "healthy w \<Longrightarrow> is_free w \<and> up (take_lock w)"
    and send_waits: "healthy w \<Longrightarrow>
      \<exists>v. send c (take_lock w) = (Inr (), v) \<and> waiting (slot (take_lock w)) (wire w @ [with_newline c]) v"
    and waiting_open: "waiting n W w \<Longrightarrow> \<not> complete n w"
    and gather_waits: "waiting n W w \<Longrightarrow> whole_line l \<Longrightarrow> gather l \<Longrightarrow> waiting n W (step (EvRx (line_chunk l)) w)"
    and final_completes: "waiting n W w \<Longrightarrow> whole_line l \<Longrightarrow> final l \<Longrightarrow> v = step (EvRx (line_chunk l)) w \<Longrightarrow>
      complete n v \<and> healthy (leave n v) \<and> wire (leave n v) = W"
begin

definition answer :: "string list \<times> string \<Rightarrow> bool" where
  "answer r \<longleftrightarrow> list_all (\<lambda>l. whole_line l \<and> gather l) (fst r) \<and> whole_line (snd r) \<and> final (snd r)"

lemma reply_awaited:
  "waiting n W w \<Longrightarrow> list_all (\<lambda>l. whole_line l \<and> gather l) ls \<Longrightarrow> whole_line l \<Longrightarrow> final l \<Longrightarrow>
   \<exists>v. await_timeout step (complete n) w (map (EvRx \<circ> line_chunk) ls @ EvRx (line_chunk l) # es) = Ret True v es \<and>
     healthy (leave n v) \<and> wire (leave n v) = W"
proof (induction ls arbitrary: w)
  case Nil
  with final_completes [OF Nil.prems(1,3,4) refl] waiting_open [OF Nil.prems(1)] show ?case
    by (simp add: await_timeout.simps)
next
  case (Cons x ls)
  from Cons.prems have "waiting n W (step (EvRx (line_chunk x)) w)" by (simp add: gather_waits)
  from Cons.IH [OF this] Cons.prems waiting_open [OF Cons.prems(1)] show ?case
    by (simp add: await_timeout.simps [of _ _ w])
qed

lemma exchange_answered:
  assumes "healthy w" "answer r"
  shows "\<exists>l w'. exchange c w (reply_script r @ es) = Ret (Inr l) w' (EvTimer # es) \<and>
    healthy w' \<and> wire w' = wire w @ [with_newline c]"
proof -
  let ?n = "slot (take_lock w)"
  from send_waits [OF assms(1)] obtain v where
    v: "send c (take_lock w) = (Inr (), v)" "waiting ?n (wire w @ [with_newline c]) v" by blast
  from reply_awaited [OF v(2), of "fst r" "snd r" "EvTimer # es"] assms(2) obtain u where
    "await_timeout step (complete ?n) v (reply_script r @ es) = Ret True u (EvTimer # es)"
    "healthy (leave ?n u)" "wire (leave ?n u) = wire w @ [with_newline c]"
    by (auto simp: answer_def reply_script_def)
  with v(1) healthy_up [OF assms(1)] show ?thesis by (simp add: exchange_eq await.simps Let_def)
qed

end

section \<open>A job\<close>

locale ping_pong_progress =
  fixes step :: "env_event \<Rightarrow> 'w \<Rightarrow> 'w" and wire :: "'w \<Rightarrow> bytes list"
    and ping :: "string \<Rightarrow> 'w \<Rightarrow> env_event list \<Rightarrow> ((SessionError, string list) result, 'w) outcome"
    and stop failed :: "'w \<Rightarrow> bool" and prep :: "string \<Rightarrow> string" and note_op :: "int option \<Rightarrow> 'w \<Rightarrow> 'w"
    and run_lines :: "(nat \<rightharpoonup> int) \<Rightarrow> nat \<Rightarrow> string list \<Rightarrow> 'w \<Rightarrow> env_event list \<Rightarrow> (bool, 'w) outcome"
    and healthy :: "'w \<Rightarrow> bool" and answer :: "string list \<times> string \<Rightarrow> bool"
  assumes run_Nil: "run_lines m i [] w es = Ret False w es"
    and run_Cons: "run_lines m i (l # ls) w es =
      (if stop w then Ret False w es
       else let c = prep l
         in if c = [] then run_lines m (Suc i) ls w es
            else bindA (ping c (note_op (m i) w) es) (\<lambda>r w es. case r of
              Inr _ \<Rightarrow> if failed w then Ret False w es
                       else bindA (sleep step w es) (\<lambda>_ w es. run_lines m (Suc i) ls w es)
            | Inl e \<Rightarrow> Ret True w es))"
    and healthy_goes: "healthy w \<Longrightarrow> \<not> stop w \<and> \<not> failed w"
    and note_healthy: "healthy w \<Longrightarrow> healthy (note_op p w) \<and> wire (note_op p w) = wire w"
    and ping_answered: "healthy w \<Longrightarrow> answer r \<Longrightarrow>
      \<exists>reply w'. ping c w (reply_script r @ es) = Ret (Inr reply) w' (EvTimer # es) \<and>
        healthy w' \<and> wire w' = wire w @ [with_newline c]"
begin

text \<open>Every line is sent, in order, and the job returns without having failed.\<close>

lemma run_completes:
  "healthy w \<Longrightarrow> list_all answer rs \<Longrightarrow> length rs = length (sent_lines prep ls) \<Longrightarrow>
   \<exists>w'. run_lines m i ls w (job_script rs @ es) = Ret False w' es \<and> healthy w' \<and>
     wire w' = wire w @ map with_newline (sent_lines prep ls)"
proof (induction ls arbitrary: i w rs)
  case Nil
  then show ?case by (simp add: run_Nil)
next
  case (Cons l ls)
  show ?case
  proof (cases "prep l = []")
    case True
    with Cons.IH [OF Cons.prems(1,2), of "Suc i"] Cons.prems healthy_goes show ?thesis
      by (simp add: run_Cons Let_def)
  next
    case False
    with Cons.prems obtain r rs' where rs: "rs = r # rs'" "answer r" "list_all answer rs'"
        "length rs' = length (sent_lines prep ls)" by (cases rs) auto
    let ?w = "note_op (m i) w"
    have w: "healthy ?w" "wire ?w = wire w" using note_healthy [OF Cons.prems(1)] by simp_all
    from ping_answered [OF w(1) rs(2), of "prep l" "job_script rs' @ es"] obtain reply w1 where
      p: "ping (prep l) ?w (reply_script r @ job_script rs' @ es) = Ret (Inr reply) w1 (EvTimer # job_script rs' @ es)"
      and w1: "healthy w1" "wire w1 = wire w @ [with_newline (prep l)]" using w(2) by auto
    from Cons.IH [OF w1(1) rs(3,4), of "Suc i"] w1 obtain w' where
      "run_lines m (Suc i) ls w1 (job_script rs' @ es) = Ret False w' es" "healthy w'"
      "wire w' = wire w @ map with_newline (sent_lines prep (l # ls))" using False by auto
    with False p healthy_goes [OF Cons.prems(1)] healthy_goes [OF w1(1)] rs(1) show ?thesis
      by (simp add: run_Cons Let_def)
  qed
qed

end

end
