(* ===== verification/Grbl_Replies.thy ===== *)
theory Grbl_Replies
  imports Grbl_Order Flow_Stream Ping_Pong_Live
begin

text \<open>
  Commands of the full GRBL session on a device that answers: whatever the division of the reply into chunks, the
  caller gets its lines, in order, and the acknowledgement.
\<close>

section \<open>A reply in pieces\<close>

text \<open>A line of a reply: not an acknowledgement, an error, a status report or a piece of one, and not blank.\<close>

definition info_line :: "bytes \<Rightarrow> bool" where
  "info_line l \<longleftrightarrow> NUL \<notin> set l \<and> plain_line l \<and> read_line l = [(R_Line, trim l)] \<and> informational (trim l)"

lemma info_clean: "info_line l \<Longrightarrow> clean_line l"
  by (simp add: info_line_def clean_line_def)

lemma ok_clean: "ok_line l \<Longrightarrow> clean_line l"
  by (auto simp: clean_line_def ok_line_iff)

lemma info_texts:
  "list_all info_line ls \<Longrightarrow> texts ty (concat (map read_line ls)) = (if ty = R_Line then map trim ls else [])"
  by (induction ls) (auto simp: info_line_def)

lemma response_texts_Nil: "response_texts ty rs = [] \<longleftrightarrow> (\<forall>r \<in> set rs. rtype r \<noteq> ty)"
  by (auto simp: response_texts_def filter_empty_conv)

lemma response_texts_in: "r \<in> set rs \<Longrightarrow> rtype r = ty \<Longrightarrow> r_text r \<in> set (response_texts ty rs)"
  by (auto simp: response_texts_def)

lemma first_ok:
  assumes "response_texts R_Ok rs = [t]" "response_texts R_Error rs = []"
  obtains r later where "filter (\<lambda>r. rtype r \<noteq> R_Line) rs = r # later" "rtype r = R_Ok"
proof (cases "filter (\<lambda>r. rtype r \<noteq> R_Line) rs")
  case Nil
  then have "\<forall>r \<in> set rs. rtype r = R_Line" by (auto simp: filter_empty_conv)
  with assms(1) show ?thesis by (metis GrblResponseType.distinct(3) list.distinct(1) response_texts_Nil)
next
  case (Cons r later)
  then have "r \<in> set (filter (\<lambda>r. rtype r \<noteq> R_Line) rs)" by simp
  then have "r \<in> set rs" "rtype r \<noteq> R_Line" by simp_all
  with assms(2) have "rtype r = R_Ok" by (cases "rtype r") (auto simp: response_texts_Nil)
  with Cons that show ?thesis by blast
qed

text \<open>Whole lines of a reply are collected by the active request.\<close>

lemma lines_chunk:
  assumes "open_request i w" "list_all info_line ls" "response_texts R_Ok rs = []" "response_texts R_Error rs = []"
    "response_texts R_Line rs = map trim ls" "rs = fst (parse_incoming X c (g_flow w))"
  shows "open_request i (handle_rx X c w)"
    "req_lines (g_requests (handle_rx X c w) ! i) = req_lines (g_requests w ! i) @ map trim ls"
proof -
  let ?w0 = "w\<lparr>g_flow := snd (parse_incoming X c (g_flow w))\<rparr>"
  have "rtype r = R_Line" if "r \<in> set rs" for r
    using that assms(3,4) by (cases "rtype r") (auto simp: response_texts_Nil)
  moreover from this have "informational (r_text r)" if "r \<in> set rs" for r
    using that response_texts_in [of r rs R_Line] assms(2,5) by (auto simp: info_line_def list_all_iff)
  ultimately have all: "\<forall>r \<in> set rs. rtype r = R_Line \<and> informational (r_text r)" by blast
  then have "lines_first rs = rs" "response_texts R_Line rs = map r_text rs"
    by (auto simp: lines_first_def response_texts_def filter_id_conv)
  with assms(6) have h: "handle_rx X c w =
      (let u = fold (handle_response X) rs ?w0 in u\<lparr>g_flow := flush_notifications (g_flow u)\<rparr>)"
    by (simp add: handle_rx_def case_prod_unfold Let_def)
  have "open_request i ?w0" using assms(1) by (simp add: open_request_def active_request_def)
  from lines_collected [OF this all, of X] \<open>response_texts R_Line rs = map r_text rs\<close> assms(5)
  show "open_request i (handle_rx X c w)"
    "req_lines (g_requests (handle_rx X c w) ! i) = req_lines (g_requests w ! i) @ map trim ls"
    by (simp_all add: h Let_def open_request_def active_request_def)
qed

lemma reply_answers:
  assumes X: "regex_ok X" and okl: "ok_line okl"
  shows "open_request i w \<Longrightarrow> list_all info_line ls \<Longrightarrow> status_buffer (g_flow w) = p \<Longrightarrow> LF \<notin> set p \<Longrightarrow>
    p @ concat cs = concat ls @ okl \<Longrightarrow> [] \<notin> set cs \<Longrightarrow>
    \<exists>w'. await_timeout (grbl_env X) (request_done i) w (map EvRx cs @ es) = Ret True w' es \<and>
      req_lines (g_requests w' ! i) = req_lines (g_requests w ! i) @ map trim ls @ [''ok''] \<and>
      g_transport w' = g_transport w"
proof (induction cs arbitrary: w ls p)
  case Nil
  from okl have "LF \<in> set okl" by (auto simp: ok_line_iff)
  with Nil.prems(4,5) show ?case by auto
next
  case (Cons c cs)
  have "\<forall>l \<in> set (ls @ [okl]). terminated l"
    using Cons.prems(2) ok_line_terminated [OF okl] by (auto simp: info_line_def plain_line_def list_all_iff)
  moreover have "(p @ c) @ concat cs = concat (ls @ [okl])" using Cons.prems(5) by simp
  ultimately obtain ls1 ls2 q where q: "ls @ [okl] = ls1 @ ls2" "p @ c = concat ls1 @ q" "q @ concat cs = concat ls2" "LF \<notin> set q"
    using split_stream by metis
  have "\<forall>l \<in> set (ls1 @ ls2). clean_line l"
    unfolding q(1) [symmetric] using Cons.prems(2) info_clean ok_clean [OF okl] by (auto simp: list_all_iff)
  then have clean: "\<forall>l \<in> set ls1. clean_line l" and "NUL \<notin> set (concat ls2)" by (auto simp: clean_line_def)
  from this(2) have "NUL \<notin> set q" unfolding q(3) [symmetric] by simp
  note sc = scan_clean [OF X clean q(4) this]
  let ?rs = "fst (parse_incoming X c (g_flow w))"
  have t: "response_texts ty ?rs = texts ty (concat (map read_line ls1))" for ty
    using sc(1) q(2) Cons.prems(3) by (simp add: parse_incoming_texts)
  have b: "status_buffer (g_flow (handle_rx X c w)) = q"
    using sc(2) q(2) Cons.prems(3) by (simp add: handle_rx_def case_prod_unfold Let_def frame_simps)
  have undone: "\<not> request_done i w" using Cons.prems(1) by (simp add: open_request_def request_done_def)
  show ?case
  proof (cases "ls2 = []")
    case True
    with q(1,3) Cons.prems(6) have r: "ls1 = ls @ [okl]" "cs = []" by (cases cs; auto)+
    have "response_texts R_Ok ?rs = [''ok'']" "response_texts R_Error ?rs = []" "response_texts R_Line ?rs = map trim ls"
      using info_texts [OF Cons.prems(2)] okl by (simp_all add: t r(1) read_ok_line texts_def)
    moreover from this(1,2) obtain r later where
      "filter (\<lambda>r. rtype r \<noteq> R_Line) ?rs = r # later" "rtype r = R_Ok"
      by (rule first_ok)
    moreover have "\<forall>r \<in> set ?rs. rtype r = R_Line \<longrightarrow> informational (r_text r)"
      using \<open>response_texts R_Line ?rs = map trim ls\<close> response_texts_in [of _ ?rs R_Line] Cons.prems(2)
      by (fastforce simp: info_line_def list_all_iff)
    ultimately have "is_finished (g_requests (handle_rx X c w) ! i) \<and>
        req_lines (g_requests (handle_rx X c w) ! i) = req_lines (g_requests w ! i) @ map trim ls @ [''ok'']"
      using reply_lines_before_completion [OF Cons.prems(1), of X c r later] by simp
    with undone r(2) show ?thesis
      by (simp add: await_timeout.simps [of _ _ w] await_timeout.simps [of _ _ "handle_rx X c w"] request_done_def
          handle_rx_frame)
  next
    case False
    then obtain ls2' where ls2: "ls2 = ls2' @ [okl]" "ls = ls1 @ ls2'"
      using q(1) by (metis append_butlast_last_id butlast_append butlast_snoc last_appendR last_snoc)
    from Cons.prems(2) ls2(2) have info: "list_all info_line ls1" "list_all info_line ls2'" by simp_all
    note o = lines_chunk [OF Cons.prems(1) info(1) _ _ _ refl, of X c] t info_texts [OF info(1)]
    have open': "open_request i (handle_rx X c w)"
      "req_lines (g_requests (handle_rx X c w) ! i) = req_lines (g_requests w ! i) @ map trim ls1"
      using lines_chunk [OF Cons.prems(1) info(1) _ _ _ refl, of X c] t info_texts [OF info(1)] by simp_all
    have "q @ concat cs = concat ls2' @ okl" "[] \<notin> set cs" using q(3) ls2(1) Cons.prems(6) by simp_all
    from Cons.IH [OF open'(1) info(2) b q(4) this] open'(2) ls2(2) obtain w' where
      "await_timeout (grbl_env X) (request_done i) (handle_rx X c w) (map EvRx cs @ es) = Ret True w' es"
      "req_lines (g_requests w' ! i) = req_lines (g_requests w ! i) @ map trim ls @ [''ok'']"
      "g_transport w' = g_transport w" by (auto simp: handle_rx_frame)
    with undone show ?thesis by (intro exI [of _ w']) (simp add: await_timeout.simps [of _ _ w])
  qed
qed

section \<open>Commands\<close>

text \<open>A session between commands, on a link that accepts what is written, with room for the command.\<close>

definition at_ease :: "nat \<Rightarrow> GrblCore \<Rightarrow> bool" where
  "at_ease len w \<longleftrightarrow>
     tr_sound (g_transport w) \<and> g_cmd_lock w = Free \<and> pending (g_flow w) = [] \<and> status_buffer (g_flow w) = [] \<and>
     \<not> needs_space (g_flow w) len \<and> g_interactive_request w = None \<and> g_current_request w = None"

lemma command_written:
  assumes "tr_sound (g_transport w)"
  shows "\<exists>w'. track_and_write d op w = (Inr (), w') \<and> tr_wire (g_transport w') = tr_wire (g_transport w) @ [d] \<and>
    g_requests w' = g_requests w \<and> g_interactive_request w' = g_interactive_request w \<and>
    g_current_request w' = g_current_request w \<and> status_buffer (g_flow w') = status_buffer (g_flow w)"
proof -
  from tr_sound_write [OF assms, of d] obtain t where
    "tr_write d (g_transport w) = (Inr (), t)" "tr_wire t = tr_wire (g_transport w) @ [d]" by blast
  then show ?thesis by (simp add: track_and_write_def grbl_write_def grbl_emit_def track_command_def Let_def)
qed

text \<open>After the write the new request is the active one, and the reply goes to it.\<close>

lemma new_request_answered:
  assumes "regex_ok X" "ok_line okl" "list_all info_line ls" "concat cs = concat ls @ okl" "[] \<notin> set cs"
    and "g_requests w = rs @ [RequestShared_new cmd]" "active_request w = Some (length rs)" "status_buffer (g_flow w) = []"
  shows "\<exists>w'. await_timeout (grbl_env X) (request_done (length rs)) w (map EvRx cs @ es) = Ret True w' es \<and>
    req_lines (g_requests w' ! length rs) = map trim ls @ [''ok''] \<and> g_transport w' = g_transport w"
proof -
  have "open_request (length rs) w"
    using assms(6,7) by (simp add: open_request_def is_finished_def RequestShared_new_def)
  from reply_answers [OF assms(1,2) this assms(3,8) _ _ assms(5), of es] assms(4,6) show ?thesis
    by (auto simp: RequestShared_new_def)
qed

lemma interactive_answered:
  assumes "regex_ok X" "ok_line okl" "list_all info_line ls" "concat cs = concat ls @ okl" "[] \<notin> set cs"
    and w: "at_ease (length (with_newline cmd)) w"
  shows "\<exists>w'. execute_interactive_command X cmd w (map EvRx cs @ es) = Ret (Inr (map trim ls @ [''ok''])) w' es \<and>
    tr_wire (g_transport w') = tr_wire (g_transport w) @ [with_newline cmd]"
proof -
  let ?n = "length (g_requests w)"
  define v where "v = w\<lparr>g_requests := g_requests w @ [RequestShared_new cmd], g_cmd_lock := Mine,
    g_interactive_request := Some ?n\<rparr>"
  have "tr_sound (g_transport v)" using w by (simp add: at_ease_def v_def)
  from command_written [OF this, of "with_newline cmd" None] obtain u where
    u: "track_and_write (with_newline cmd) None v = (Inr (), u)"
      "tr_wire (g_transport u) = tr_wire (g_transport w) @ [with_newline cmd]"
      "g_requests u = g_requests w @ [RequestShared_new cmd]" "active_request u = Some ?n" "status_buffer (g_flow u) = []"
    using w by (auto simp: v_def at_ease_def active_request_def)
  from new_request_answered [OF assms(1-5) u(3-5), of es] obtain x where
    x: "await_timeout (grbl_env X) (request_done ?n) u (map EvRx cs @ es) = Ret True x es"
      "req_lines (g_requests x ! ?n) = map trim ls @ [''ok'']" "g_transport x = g_transport u" by blast
  have "send_command_bytes X (with_newline cmd) v (map EvRx cs @ es) = Ret (Inr ()) u (map EvRx cs @ es)"
    using w u(1) by (simp add: send_command_bytes_def wait_for_space_def at_ease_def v_def)
  then have "execute_interactive_command X cmd w (map EvRx cs @ es) =
      Ret (Inr (map trim ls @ [''ok''])) (release (x\<lparr>g_interactive_request := None\<rparr>)) es"
    using w x tr_sound_open
    by (simp add: execute_interactive_command_def transport_open_def at_ease_def new_request_def acquire_def await.simps
        wait_pending_empty_def v_def Let_def release_def)
  with x(3) u(2) show ?thesis by (simp add: release_def)
qed

lemma forget_cancel_idle: "\<not> g_is_cancelled w \<Longrightarrow> forget_cancel w = w"
  by (cases w) (simp add: forget_cancel_def)

lemma queued_answered:
  assumes "regex_ok X" "ok_line okl" "list_all info_line ls" "concat cs = concat ls @ okl" "[] \<notin> set cs"
    and w: "at_ease (length (with_newline cmd)) w"
    and task: "g_cmd_task w = CT_Recv" "g_cmd_queue w = Some []" "\<not> g_is_cancelled w"
  shows "\<exists>w'. execute_command X cmd w (EvTask False # map EvRx cs @ es) = Ret (Inr (map trim ls @ [''ok''])) w' es \<and>
    tr_wire (g_transport w') = tr_wire (g_transport w) @ [with_newline cmd]"
proof -
  let ?n = "length (g_requests w)"
  define a where "a = w\<lparr>g_requests := g_requests w @ [RequestShared_new cmd],
    g_queued_requests := g_queued_requests w @ [?n], g_cmd_queue := Some [?n]\<rparr>"
  define v where "v = a\<lparr>g_cmd_queue := Some [], g_queued_requests := filter (\<lambda>j. j \<noteq> ?n) (g_queued_requests a),
    g_current_request := Some ?n, g_cmd_lock := Theirs\<rparr>"
  have "tr_sound (g_transport v)" using w by (simp add: at_ease_def v_def a_def)
  from command_written [OF this, of "with_newline cmd" None] obtain u where
    u: "track_and_write (with_newline cmd) None v = (Inr (), u)"
      "tr_wire (g_transport u) = tr_wire (g_transport w) @ [with_newline cmd]"
      "g_requests u = g_requests w @ [RequestShared_new cmd]" "active_request u = Some ?n" "status_buffer (g_flow u) = []"
    using w by (auto simp: v_def a_def at_ease_def active_request_def)
  define b where "b = u\<lparr>g_cmd_lock := Free, g_cmd_task := CT_Reply ?n\<rparr>"
  have "g_requests b = g_requests w @ [RequestShared_new cmd]" "active_request b = Some ?n" "status_buffer (g_flow b) = []"
    using u(3-5) by (simp_all add: b_def active_request_def)
  from new_request_answered [OF assms(1-5) this, of es] obtain x where
    x: "await_timeout (grbl_env X) (request_done ?n) b (map EvRx cs @ es) = Ret True x es"
      "req_lines (g_requests x ! ?n) = map trim ls @ [''ok'']" "g_transport x = g_transport u" by (auto simp: b_def)
  have "req_command (g_requests v ! ?n) = cmd" by (simp add: v_def a_def RequestShared_new_def)
  with u(1) have "cmd_task_send ?n v = b" by (simp add: cmd_task_send_def b_def)
  moreover have "cmd_task_locked ?n v = cmd_task_send ?n v"
    using w tr_sound_open
    by (simp add: cmd_task_locked_def cmd_payload_len_def v_def a_def at_ease_def RequestShared_new_def)
  moreover have "cmd_task_step False a = cmd_task_locked ?n v"
    using w task tr_sound_open
    by (simp add: cmd_task_step_def cmd_task_recv_def cmd_task_lock_def at_ease_def a_def v_def Let_def)
  ultimately have "cmd_task_step False a = b" by simp
  moreover have "\<not> request_done ?n a" by (simp add: a_def request_done_def is_finished_def RequestShared_new_def)
  ultimately have "await_timeout (grbl_env X) (request_done ?n) a (EvTask False # map EvRx cs @ es) = Ret True x es"
    using x(1) by (simp add: await_timeout.simps [of _ _ a])
  then have "execute_command X cmd w (EvTask False # map EvRx cs @ es) = Ret (Inr (map trim ls @ [''ok''])) x es"
    using task x(2) by (simp add: execute_command_def new_request_def a_def forget_cancel_idle Let_def)
  with x(3) u(2) show ?thesis by simp
qed

text \<open>
  C23: commands are answered. On a link that is up, with nothing outstanding and room for the command, the reply of the
  device is any number of informational lines and then ok, divided into chunks in any way. Then both an
  interactive command and one that goes through the queue of the command task return exactly the
  lines of the reply, trimmed and in order, followed by ok, and the command is the one thing written.
\<close>

theorem grbl_command_answered:
  assumes "regex_ok X" "ok_line okl" "list_all info_line ls" "concat cs = concat ls @ okl" "[] \<notin> set cs"
    and "at_ease (length (with_newline cmd)) w" "g_cmd_task w = CT_Recv" "g_cmd_queue w = Some []" "\<not> g_is_cancelled w"
  shows "(\<exists>w'. execute_interactive_command X cmd w (map EvRx cs @ es) = Ret (Inr (map trim ls @ [''ok''])) w' es \<and>
      tr_wire (g_transport w') = tr_wire (g_transport w) @ [with_newline cmd]) \<and>
    (\<exists>w'. execute_command X cmd w (EvTask False # map EvRx cs @ es) = Ret (Inr (map trim ls @ [''ok''])) w' es \<and>
      tr_wire (g_transport w') = tr_wire (g_transport w) @ [with_newline cmd])"
  using interactive_answered [OF assms(1-6)] queued_answered [OF assms] by simp

theorem grbl_command_answered_witness:
  "\<exists>w. execute_command std_regex ''$$'' (demo\<lparr>g_cmd_task := CT_Recv, g_cmd_queue := Some []\<rparr>)
      (EvTask False # map EvRx [''$0='', ''10'' @ [CR, LF, CHR ''o''], ''k'' @ [LF]]) =
    Ret (Inr [''$0=10'', ''ok'']) w []"
proof -
  let ?w = "demo\<lparr>g_cmd_task := CT_Recv, g_cmd_queue := Some []\<rparr>" and ?l = "''$0=10'' @ [CR, LF]"
    and ?cs = "[''$0='', ''10'' @ [CR, LF, CHR ''o''], ''k'' @ [LF]]"
  have "list_all info_line [?l]" "ok_line (''ok'' @ [LF])" by code_simp+
  moreover have "at_ease (length (with_newline ''$$'')) ?w"
    by (simp add: at_ease_def mock_inv_def FlowControl_new_def needs_space_def rx_buffer_size_def
        DEFAULT_GRBL_RX_BUFFER_SIZE_def with_newline_def demo_simps)
  moreover have "map trim [?l] = [''$0=10'']" by code_simp
  ultimately show ?thesis
    using grbl_command_answered [OF regex_ok_std, of "''ok'' @ [LF]" "[?l]" ?cs "''$$''" ?w "[]"] by auto
qed

end
