(* ===== verification/Grbl_Size.thy ===== *)
theory Grbl_Size
  imports Grbl_Order
begin

text \<open>
  A configured size of the receive buffer (\<^verbatim>\<open>rx_buffer_size_override\<close>) is final: nothing the device
  says changes it. What that means for a line that is longer than the buffer.
\<close>

section \<open>The size is final\<close>

text \<open>The configuration and the size, as a pair no operation changes.\<close>

definition sized :: "GrblCore \<Rightarrow> SessionConfig \<times> nat option" where
  "sized w = (g_config w, rx_size (g_flow w))"

lemma sized_updates [simp]:
  "sized (w\<lparr>g_requests := a\<rparr>) = sized w" "sized (w\<lparr>g_current_request := b\<rparr>) = sized w"
  "sized (w\<lparr>g_cmd_task := c\<rparr>) = sized w" "sized (w\<lparr>g_cmd_lock := d\<rparr>) = sized w"
  "sized (w\<lparr>g_cmd_queue := e\<rparr>) = sized w" "sized (w\<lparr>g_queued_requests := f\<rparr>) = sized w"
  "sized (w\<lparr>g_events := g\<rparr>) = sized w" "sized (w\<lparr>g_state := h\<rparr>) = sized w"
  "sized (w\<lparr>g_last_connection_status := i\<rparr>) = sized w" "sized (w\<lparr>g_transport := j\<rparr>) = sized w"
  "sized (w\<lparr>g_device_response_count := k\<rparr>) = sized w" "sized (w\<lparr>g_last_reported_op_index := l\<rparr>) = sized w"
  "sized (w\<lparr>g_job_exception := m\<rparr>) = sized w" "sized (w\<lparr>g_raw_grbl_status := n\<rparr>) = sized w"
  "sized (w\<lparr>g_handshake_received := q\<rparr>) = sized w" "sized (w\<lparr>g_is_cancelled := r\<rparr>) = sized w"
  "sized (w\<lparr>g_job_running := s\<rparr>) = sized w" "sized (w\<lparr>g_unanswered_polls := t\<rparr>) = sized w"
  "rx_size fc = rx_size (g_flow w) \<Longrightarrow> sized (w\<lparr>g_flow := fc\<rparr>) = sized w"
  by (simp_all add: sized_def)

lemma sized_parts [simp]:
  "sized (grbl_emit evs w) = sized w" "sized (note_device_response w) = sized w"
  "sized (update_request u f w) = sized w" "sized (complete_request l ev w) = sized w"
  "sized (report_done p w) = sized w" "sized (record_error e w) = sized w" "sized (collect_line l w) = sized w"
  "sized (set_handshake w) = sized w" "sized (signal_space w) = sized w" "sized (cache_rx_buffer_size z w) = sized w"
  "sized (update_connection_status st msg w) = sized w"
  by (simp_all add: grbl_emit_def note_device_response_def update_request_def complete_request_def report_done_def
      record_error_def collect_line_def set_handshake_def signal_space_def cache_rx_buffer_size_def
      update_connection_status_def Let_def split: option.split)

definition final_size :: "SessionConfig \<Rightarrow> nat \<Rightarrow> GrblCore \<Rightarrow> bool" where
  "final_size cfg n w \<longleftrightarrow>
     cfg_rx_buffer_size_override cfg > 0 \<and> g_config w = cfg \<and> rx_buffer_size (g_flow w) = n"

lemma final_size_cong: "sized v = sized w \<Longrightarrow> final_size cfg n v = final_size cfg n w"
  by (simp add: sized_def final_size_def rx_buffer_size_def)

lemma sized_response:
  assumes "cfg_rx_buffer_size_override (g_config w) > 0"
  shows "sized (handle_response X r w) = sized w"
proof -
  have "sized (learn_rx_size st v) = sized v" "sized (handle_opt X l v) = sized v" if "sized v = sized w" for st l v
    using assms that
    by (simp_all add: learn_rx_size_def handle_opt_def sized_def cache_rx_buffer_size_def grbl_emit_def Let_def split: option.split)
  then show ?thesis
    by (simp add: handle_response_def handle_ok_def handle_error_def handle_line_def handle_alarm_def
        handle_status_report_def Let_def split: GrblResponseType.split option.split)
qed

lemma sized_responses:
  "cfg_rx_buffer_size_override (g_config w) > 0 \<Longrightarrow> sized (fold (handle_response X) rs w) = sized w"
proof (induction rs arbitrary: w)
  case (Cons r rs)
  note s = sized_response [OF Cons.prems, of X r]
  then have "cfg_rx_buffer_size_override (g_config (handle_response X r w)) > 0"
    using Cons.prems by (simp add: sized_def)
  from Cons.IH [OF this] s show ?case by simp
qed simp

lemma sized_rx: "cfg_rx_buffer_size_override (g_config w) > 0 \<Longrightarrow> sized (handle_rx X d w) = sized w"
  using sized_responses [of "w\<lparr>g_flow := snd (parse_incoming X d (g_flow w))\<rparr>" X]
  by (simp add: handle_rx_def case_prod_unfold Let_def parse_incoming_frame sized_def)

lemma sized_write [simp]: "sized (snd (grbl_write d w)) = sized w"
  by (simp add: grbl_write_def case_prod_unfold split: sum.split)

lemma sized_send [simp]: "sized (snd (track_and_write d op w)) = sized w"
  by (simp add: track_and_write_def track_command_def Let_def)

lemma sized_command [simp]: "sized (cmd_task_step x w) = sized w"
proof -
  have send: "sized (cmd_task_send i v) = sized v" for i v
  proof (cases "track_and_write (with_newline (req_command (g_requests v ! i))) None v")
    case (Pair r u)
    with sized_send [of "with_newline (req_command (g_requests v ! i))" None v] have "sized u = sized v" by simp
    with Pair show ?thesis
      by (simp add: cmd_task_send_def cmd_task_fail_def cmd_task_leave_def split: sum.split)
  qed
  have locked: "sized (cmd_task_locked i v) = sized v" for i v
    by (simp add: cmd_task_locked_def cmd_task_fail_def cmd_task_leave_def send)
  show ?thesis
    by (simp add: cmd_task_step_def cmd_task_recv_def cmd_task_lock_def cmd_task_next_def cmd_task_leave_def send locked
        Let_def split: cmd_task.split list.split option.split)
qed

lemma sized_env: "final_size cfg n w \<Longrightarrow> sized (grbl_env X e w) = sized w"
  by (cases e) (simp_all add: final_size_def sized_rx cancel_begin_def)

lemma sized_poll [simp]: "sized (snd (poll_send w)) = sized w"
  by (simp add: poll_send_def Let_def split: sum.split)

lemma final_size_updates [simp]:
  "final_size cfg n (w\<lparr>g_cmd_lock := l\<rparr>) = final_size cfg n w" "final_size cfg n (w\<lparr>g_unanswered_polls := k\<rparr>) = final_size cfg n w"
  "final_size cfg n (w\<lparr>g_raw_grbl_status := st\<rparr>) = final_size cfg n w" "final_size cfg n (w\<lparr>g_job_exception := e\<rparr>) = final_size cfg n w"
  "final_size cfg n (w\<lparr>g_flow := reset_flow_control (g_flow w)\<rparr>) = final_size cfg n w"
  "final_size cfg n (w\<lparr>g_flow := reset (g_flow w)\<rparr>) = final_size cfg n w"
  by (simp_all add: final_size_def rx_buffer_size_def reset_flow_control_def reset_def signal_space_available_def
      notify_drained_def Let_def)

interpretation sz: grbl_task X "\<lambda>_. True" "final_size cfg n" for X cfg n
  by unfold_locales
    (simp_all add: final_size_cong [OF sized_env] final_size_cong [OF sized_poll] final_size_cong [OF sized_send])

section \<open>Lines longer than the buffer\<close>

lemma stall_ends:
  assumes "on_buffer_stall X n w es = Ret r w' es'" "final_size cfg m w" "\<not> cfg_deadlock_detection cfg" "r \<noteq> Inr True"
  shows "g_is_cancelled w' \<or> device_stopped_responding w' \<or> status (g_state w') = Alarm"
proof (cases "g_is_cancelled w")
  case False
  with assms(1) obtain b v fs where v: "poll_and_check_idle X False w es = Ret b v fs"
    by (cases "poll_and_check_idle X False w es") (simp_all add: on_buffer_stall_def)
  with sz.poll_and_check_idle_kept [OF assms(2), of es X False] have "g_config v = cfg"
    by (simp add: final_size_def list_all_iff)
  with False v assms(1,3,4) show ?thesis
    by (auto simp: on_buffer_stall_def mark_device_unresponsive_def set_exception_if_none_def device_stopped_responding_def
        split: if_splits)
qed (use assms(1) in \<open>simp add: on_buffer_stall_def\<close>)

lemma oversized_line_waits:
  assumes "final_size cfg n w" "n < length d"
  shows "case send_gcode_with_stall X d op w es of
      Ret (Inr _) w' es' \<Rightarrow> False
    | Ret (Inl _) w' es' \<Rightarrow> cfg_deadlock_detection cfg \<or> g_is_cancelled w' \<or> device_stopped_responding w' \<or> status (g_state w') = Alarm
    | _ \<Rightarrow> True"
  using assms(1)
proof (induction "length es" arbitrary: w es rule: less_induct)
  case less
  note k = sz.wait_for_space_kept [OF less.prems, of es X g_flow "length d"]
  show ?case
  proof (cases "wait_for_space (grbl_env X) g_flow (length d) w es")
    case (Ret r w1 es1)
    with k have k1: "final_size cfg n w1" by (simp add: list_all_iff)
    then have "needs_space (g_flow w1) (length d)" using assms(2) by (simp add: final_size_def needs_space_def)
    with Ret obtain t where t: "r = Inl t" by (cases r) (auto dest: wait_for_space_Ok)
    from Ret t have len: "length es1 < length es" by (auto dest: wait_for_space_shorter)
    show ?thesis
    proof (cases "on_buffer_stall X (length d) w1 es1")
      case st: (Ret b w2 es2)
      with sz.on_buffer_stall_kept [OF k1, of es1 X "length d"] have k2: "final_size cfg n w2" by (simp add: list_all_iff)
      from st len have "length es2 < length es" by (auto dest: on_buffer_stall_left)
      from less.hyps [OF this k2] stall_ends [OF st k1] Ret t st show ?thesis
        by (subst send_gcode_with_stall.simps) (cases b; auto split: sum.splits if_splits)
    qed (use Ret t in \<open>subst send_gcode_with_stall.simps, simp\<close>)+
  qed (subst send_gcode_with_stall.simps, simp)+
qed

text \<open>
  A line that is longer than the configured receive buffer is never sent. Without deadlock detection nobody
  is told: whatever arrives and however often the wait times out, the send goes on waiting; it writes nothing
  of the line, it never succeeds, and it gives up only when the job is cancelled, the device no longer answers the
  polls or is in alarm.
\<close>

theorem oversized_line_never_sent:
  assumes "cfg_rx_buffer_size_override (g_config w) > 0" "rx_buffer_size (g_flow w) < length (with_newline line)"
    and "\<not> cfg_deadlock_detection (g_config w)" "tr_inv (g_transport w)" "list_all no_command es"
    and "m = send_gcode_with_stall X (with_newline line) op w es"
  shows "job_wire (world_of m) = job_wire w \<and>
    (case m of
       Ret (Inr _) w' es' \<Rightarrow> False
     | Ret (Inl _) w' es' \<Rightarrow> g_is_cancelled w' \<or> device_stopped_responding w' \<or> status (g_state w') = Alarm
     | _ \<Rightarrow> True)"
proof -
  have "final_size (g_config w) (rx_buffer_size (g_flow w)) w" using assms(1) by (simp add: final_size_def)
  note never = oversized_line_waits [OF this assms(2), of X op es, folded assms(6)]
  have "wired (job_wire w) w" using assms(3,4) by (simp add: wired_def)
  from grown_stall [OF this assms(5) with_newline_not_poll [of line], of X op, folded assms(6)] never
  have "wq.kept (job_wire w) m" by (auto simp: grown_def split: outcome.splits sum.splits)
  then have "job_wire (world_of m) = job_wire w" by (simp add: wq.kept_def wired_def)
  with never assms(3) show ?thesis by (auto split: outcome.splits sum.splits)
qed

theorem oversized_line_never_sent_witness:
  "(case send_gcode_with_stall std_regex (with_newline ''G0 X1'') None
      (demo\<lparr>g_config := (g_config demo)\<lparr>cfg_rx_buffer_size_override := 4, cfg_deadlock_detection := False\<rparr>,
            g_flow := set_rx_buffer_size 4 (g_flow demo)\<rparr>)
      [EvTimer, EvTimer, EvRx (''ok'' @ [LF]), EvTimer] of
     Ret (Inr _) w es \<Rightarrow> False | _ \<Rightarrow> True)"
proof -
  define w where "w = demo\<lparr>g_config := (g_config demo)\<lparr>cfg_rx_buffer_size_override := 4, cfg_deadlock_detection := False\<rparr>,
            g_flow := set_rx_buffer_size 4 (g_flow demo)\<rparr>"
  have "cfg_rx_buffer_size_override (g_config w) > 0" "rx_buffer_size (g_flow w) < length (with_newline ''G0 X1'')"
    "\<not> cfg_deadlock_detection (g_config w)" "tr_inv (g_transport w)"
    by (simp_all add: w_def mock_inv_def set_rx_buffer_size_def rx_buffer_size_def with_newline_def)
  from oversized_line_never_sent [OF this _ refl, of "[EvTimer, EvTimer, EvRx (''ok'' @ [LF]), EvTimer]" std_regex None]
  show ?thesis unfolding w_def [symmetric] by (auto simp: no_command_def split: outcome.splits sum.splits)
qed

end
