(* ===== verification/Grbl_Parser_Props.thy ===== *)
theory Grbl_Parser_Props
  imports Grbl_Parser
begin

text \<open>
  What the parsers of \<^verbatim>\<open>src/grbl/parser.rs\<close> and the code tables of
  \<^verbatim>\<open>src/grbl/errors.rs\<close> compute: comment stripping against a recursive reference, the status
  report with its position equations, coordinate lines, work-coordinate slots and the unit flag.
\<close>

subsection \<open>Comments\<close>

text \<open>The reference: cut the text between a parenthesis and the next closing one, left to right.\<close>

function cut_parens :: "string \<Rightarrow> string" where
  "cut_parens s =
     (case split_once CHR ''('' s of
        None \<Rightarrow> s
      | Some (b, a) \<Rightarrow>
          (case split_once CHR '')'' a of
             None \<Rightarrow> s
           | Some (_, r) \<Rightarrow> b @ cut_parens r))"
  by pat_completeness auto
termination
  by (relation "measure length") (auto dest!: split_once_Some)

declare cut_parens.simps [simp del]

lemma matches_needs_close:
  assumes "CHR '')'' \<notin> set s"
  shows "matches GCODE_COMMENT_RE (p, s, cs) = []"
proof -
  have "matches (Lit CHR '')'') u = []" if "suffix (rest_of u) s" for u
  proof (cases u)
    case (fields q t ds)
    with that have "set t \<subseteq> set s" by (simp add: rest_of_def set_mono_suffix)
    with assms fields show ?thesis by (cases t) (auto simp: Lit_def)
  qed
  moreover have "suffix (rest_of u) s"
    if "u \<in> set (matches (Star (Cls (\<lambda>c. c \<noteq> CHR '')''))) v)" "v \<in> set (matches (Lit CHR ''('') (p, s, cs))" for u v
    using that matches_suffix [OF that(1)] matches_suffix [OF that(2)]
    by (auto simp: rest_of_def intro: suffix_order.trans)
  ultimately show ?thesis
    unfolding GCODE_COMMENT_RE_def Seqs.simps
    by (auto simp: matches_Seq_Eps simp del: matches.simps(1,4))
qed

lemma search_needs_close: "CHR '')'' \<notin> set s \<Longrightarrow> rx_search GCODE_COMMENT_RE i p s = None"
  by (induction s arbitrary: i p) (simp_all add: rx_search.simps matches_needs_close)

lemma comment_search_skip:
  "CHR ''('' \<notin> set b \<Longrightarrow> \<exists>p'. rx_exec GCODE_COMMENT_RE (b @ s) = rx_search GCODE_COMMENT_RE (length b) p' s"
  using rx_search_skip [of "CHR ''(''" b _ 0 None s]
  by (auto simp: rx_exec_def GCODE_COMMENT_RE_def)

lemma comment_match_here:
  assumes "CHR '')'' \<notin> set c"
  shows "rx_search GCODE_COMMENT_RE i p (CHR ''('' # c @ CHR '')'' # r) =
    Some \<lparr>m_start = i, m_end = i + length c + 2, m_group = []\<rparr>"
proof -
  obtain p' where star: "first_match (Star (Cls (\<lambda>c. c \<noteq> CHR '')''))) (Some CHR ''('', c @ CHR '')'' # r, []) =
      Some (p', CHR '')'' # r, [])"
    using first_Star_Cls [of "\<lambda>c. c \<noteq> CHR '')''" c "CHR '')'' # r"] assms
    by (auto simp: list_all_iff)
  have "first_match GCODE_COMMENT_RE (p, CHR ''('' # c @ CHR '')'' # r, []) = Some (Some CHR '')'', r, [])"
    unfolding GCODE_COMMENT_RE_def Seqs.simps
    by (rule first_Seq [OF first_Lit first_Seq [OF star first_Seq [OF first_Lit first_Eps]]])
  then show ?thesis by (auto simp: rx_search.simps first_match_iff)
qed

lemma rx_remove_comments: "rx_remove_all (rx_exec GCODE_COMMENT_RE) s = cut_parens s"
proof (induction s rule: cut_parens.induct)
  case (1 s)
  show ?case
  proof (cases "split_once CHR ''('' s")
    case None
    then have "CHR ''('' \<notin> set s" by (simp add: split_once_None_iff)
    then have "rx_exec GCODE_COMMENT_RE s = None"
      unfolding GCODE_COMMENT_RE_def Seqs.simps by (rule rx_exec_no_head)
    with None show ?thesis by (simp add: rx_remove_all.simps cut_parens.simps)
  next
    case (Some ba)
    then obtain b a where ba: "split_once CHR ''('' s = Some (b, a)" by (cases ba) auto
    then have s: "s = b @ CHR ''('' # a" "CHR ''('' \<notin> set b" by (auto dest: split_once_Some)
    then obtain p' where ex: "rx_exec GCODE_COMMENT_RE s =
        rx_search GCODE_COMMENT_RE (length b) p' (CHR ''('' # a)"
      using comment_search_skip by blast
    show ?thesis
    proof (cases "split_once CHR '')'' a")
      case None
      then have "CHR '')'' \<notin> set (CHR ''('' # a)" by (simp add: split_once_None_iff)
      with ex None ba show ?thesis
        by (simp add: search_needs_close rx_remove_all.simps cut_parens.simps [of s])
    next
      case (Some cr)
      then obtain c r where cr: "split_once CHR '')'' a = Some (c, r)" by (cases cr) auto
      then have a: "a = c @ CHR '')'' # r" "CHR '')'' \<notin> set c" by (auto dest: split_once_Some)
      have m: "rx_exec GCODE_COMMENT_RE s =
          Some \<lparr>m_start = length b, m_end = length b + length c + 2, m_group = []\<rparr>"
        unfolding ex unfolding a(1) by (rule comment_match_here [OF a(2)])
      have "rx_remove_all (rx_exec GCODE_COMMENT_RE) s =
          take (length b) s @ rx_remove_all (rx_exec GCODE_COMMENT_RE) (drop (length b + length c + 2) s)"
        by (subst rx_remove_all.simps) (simp add: m, simp add: s a)
      also have "\<dots> = b @ cut_parens r" using "1.IH" [OF ba _ cr] by (simp add: s a)
      finally show ?thesis using ba cr by (simp add: cut_parens.simps [of s])
    qed
  qed
qed

lemma truncate_at_takeWhile: "truncate_at c s = takeWhile (\<lambda>x. x \<noteq> c) s"
proof (cases "position (\<lambda>x. x = c) s")
  case None
  then have "\<forall>x \<in> set s. x \<noteq> c" by (simp add: position_None_iff)
  with None show ?thesis by (simp add: truncate_at_def takeWhile_eq_all_conv [THEN iffD2])
next
  case (Some i)
  have "position (\<lambda>x. x = c) s = Some i \<Longrightarrow> take i s = takeWhile (\<lambda>x. x \<noteq> c) s"
    by (induction s arbitrary: i) (auto split: if_splits)
  with Some show ?thesis by (simp add: truncate_at_def)
qed

text \<open>
  C29: \<open>strip_gcode_comments\<close> removes exactly the comments: the result is the line without its
  parenthesised stretches, cut at the first semicolon left, and trimmed. It holds no semicolon and
  neither starts nor ends with whitespace.
\<close>

theorem strip_gcode_comments_correct:
  assumes "regex_ok X" "all_ascii line"
  shows "strip_gcode_comments X line = trim (takeWhile (\<lambda>c. c \<noteq> CHR '';'') (cut_parens line)) \<and>
    CHR '';'' \<notin> set (strip_gcode_comments X line) \<and> trimmed (strip_gcode_comments X line)"
proof -
  have cut: "rx_cut X GCODE_COMMENT_RE line = cut_parens line"
    using assms by (simp add: regex_ok_def rx_remove_comments)
  have "CHR '';'' \<notin> set (trim (takeWhile (\<lambda>c. c \<noteq> CHR '';'') (cut_parens line)))"
    using set_trim by (fastforce dest: set_takeWhileD)
  then show ?thesis
    by (simp add: strip_gcode_comments_def cut truncate_at_takeWhile trimmed_trim)
qed

theorem strip_gcode_comments_correct_witness:
  "strip_gcode_comments std_regex '' G1(fast) X5 ; (end'' = ''G1 X5''"
  using strip_gcode_comments_correct [OF regex_ok_std, of "'' G1(fast) X5 ; (end''"]
  by (simp add: all_ascii_def is_ascii_def byte_def) code_simp

subsection \<open>Status reports\<close>

text \<open>The last attribute of a kind that parses is the one a report is read with.\<close>

definition last_pos :: "regex_crate \<Rightarrow> string \<Rightarrow> string list \<Rightarrow> Pos option" where
  "last_pos X ty attribs = find_map (\<lambda>a. parse_position_attribute X a ty) (rev attribs)"

definition pos_or :: "Pos option \<Rightarrow> Pos \<Rightarrow> Pos" where
  "pos_or q d = (case q of Some p \<Rightarrow> p | None \<Rightarrow> d)"

lemma find_map_append: "find_map f (xs @ ys) = (case find_map f xs of Some y \<Rightarrow> Some y | None \<Rightarrow> find_map f ys)"
  by (induction xs) (auto split: option.splits)

lemma last_pos_snoc:
  "last_pos X ty (as @ [a]) = (case parse_position_attribute X a ty of Some p \<Rightarrow> Some p | None \<Rightarrow> last_pos X ty as)"
  by (simp add: last_pos_def split: option.splits)

lemma last_pos_Nil [simp]: "last_pos X ty [] = None"
  by (simp add: last_pos_def)

lemma parse_position_known:
  "parse_position_attribute X a ty = Some p \<Longrightarrow> all_known p \<and> first_known p \<and> 3 \<le> length p"
  by (auto simp: parse_position_attribute_def all_known_def first_known_def split: if_splits option.splits)

lemma parse_position_kind:
  assumes "parse_position_attribute X a ty = Some p" "CHR '':'' \<notin> set ty"
  shows "map_option fst (split_once CHR '':'' a) = Some ty"
proof -
  from assms(1) have "starts_with a (ty @ '':'')"
    by (simp add: parse_position_attribute_def split: if_splits)
  then obtain r where "a = ty @ CHR '':'' # r" by (auto simp: starts_with_iff)
  with split_once_hit [OF assms(2)] show ?thesis by simp
qed

lemma parse_position_excl:
  assumes "parse_position_attribute X a ty = Some p" "ty \<noteq> ty'" "CHR '':'' \<notin> set ty" "CHR '':'' \<notin> set ty'"
  shows "parse_position_attribute X a ty' = None"
proof (rule ccontr)
  assume "parse_position_attribute X a ty' \<noteq> None"
  then obtain q where "parse_position_attribute X a ty' = Some q" by blast
  from parse_position_kind [OF this assms(4)] parse_position_kind [OF assms(1,3)] assms(2)
  show False by simp
qed

lemma apply_attrib_positions:
  fixes acc X a
  defines "acc' \<equiv> apply_attrib X acc a"
  shows "ra_mpos acc' = (parse_position_attribute X a ''MPos'' \<noteq> None \<or> ra_mpos acc)"
    "ra_wpos acc' = (parse_position_attribute X a ''WPos'' \<noteq> None \<or> ra_wpos acc)"
    "ra_wco acc' = (parse_position_attribute X a ''WCO'' \<noteq> None \<or> ra_wco acc)"
    "machine_pos (ra_state acc') = pos_or (parse_position_attribute X a ''MPos'') (machine_pos (ra_state acc))"
    "work_pos (ra_state acc') = pos_or (parse_position_attribute X a ''WPos'') (work_pos (ra_state acc))"
    "wco (ra_state acc') = pos_or (parse_position_attribute X a ''WCO'') (wco (ra_state acc))"
    "status (ra_state acc') = status (ra_state acc)"
    "dev_error (ra_state acc') = dev_error (ra_state acc)"
  using parse_position_excl [of X a "''MPos''" _ "''WPos''"] parse_position_excl [of X a "''MPos''" _ "''WCO''"]
    parse_position_excl [of X a "''WPos''" _ "''WCO''"] parse_position_known [of X a]
  by (auto simp: acc'_def apply_attrib_def pos_or_def split: option.split prod.split)

lemma foldl_attribs:
  fixes acc X as
  defines "acc' \<equiv> foldl (apply_attrib X) acc as"
  shows "ra_mpos acc' = (last_pos X ''MPos'' as \<noteq> None \<or> ra_mpos acc)"
    "ra_wpos acc' = (last_pos X ''WPos'' as \<noteq> None \<or> ra_wpos acc)"
    "ra_wco acc' = (last_pos X ''WCO'' as \<noteq> None \<or> ra_wco acc)"
    "machine_pos (ra_state acc') = pos_or (last_pos X ''MPos'' as) (machine_pos (ra_state acc))"
    "work_pos (ra_state acc') = pos_or (last_pos X ''WPos'' as) (work_pos (ra_state acc))"
    "wco (ra_state acc') = pos_or (last_pos X ''WCO'' as) (wco (ra_state acc))"
    "status (ra_state acc') = status (ra_state acc)"
    "dev_error (ra_state acc') = dev_error (ra_state acc)"
  unfolding acc'_def
  by (induction as rule: rev_induct)
     (auto simp: apply_attrib_positions last_pos_snoc pos_or_def split: option.splits)

definition report_attribs :: "string \<Rightarrow> string list" where
  "report_attribs inner = drop 1 (filter (\<lambda>p. p \<noteq> []) (split_char CHR ''|'' inner))"

definition report_pos :: "bool \<Rightarrow> Pos option \<Rightarrow> Pos \<Rightarrow> Pos" where
  "report_pos inches q d = (case q of Some p \<Rightarrow> if inches then pos_from_inches p else p | None \<Rightarrow> d)"

lemma all_known_pad [simp]: "all_known (pad_pos p n v) = all_known p"
  by (auto simp: all_known_def pad_pos_def list_all_iff)

lemma length_pad [simp]: "length (pad_pos p n v) = max (length p) n"
  by (simp add: pad_pos_def max_def)

lemma pos_op_simps [simp]:
  "length (pos_op f a b) = min (length a) (length b)" "all_known (pos_op f a b)"
  by (auto simp: pos_op_def all_known_def list_all_iff)

lemma all_known_inches [simp]: "all_known (pos_from_inches p) = all_known p"
  by (simp add: all_known_def pos_from_inches_def list_all_iff)

lemma all_known_report_pos:
  "all_known d \<Longrightarrow> all_known (report_pos inches (last_pos X ty as) d)"
  "last_pos X ty as \<noteq> None \<Longrightarrow> all_known (report_pos inches (last_pos X ty as) d)"
proof -
  have known: "all_known p" if "last_pos X ty as = Some p" for p
    using that find_map_Some [of "\<lambda>a. parse_position_attribute X a ty" "rev as" p] parse_position_known
    by (fastforce simp: last_pos_def)
  then show "all_known d \<Longrightarrow> all_known (report_pos inches (last_pos X ty as) d)"
    by (simp add: report_pos_def split: option.splits)
  show "last_pos X ty as \<noteq> None \<Longrightarrow> all_known (report_pos inches (last_pos X ty as) d)"
    using known by (auto simp: report_pos_def)
qed

lemma convert_inches_positions:
  "machine_pos (convert_inches acc) = (if ra_mpos acc then pos_from_inches (machine_pos (ra_state acc)) else machine_pos (ra_state acc))"
  "work_pos (convert_inches acc) = (if ra_wpos acc then pos_from_inches (work_pos (ra_state acc)) else work_pos (ra_state acc))"
  "wco (convert_inches acc) = (if ra_wco acc then pos_from_inches (wco (ra_state acc)) else wco (ra_state acc))"
  by (simp_all add: convert_inches_def Let_def)

text \<open>The report as the three positions it was read with, before the equations are applied.\<close>

lemma parse_state_positions:
  fixes dflt :: DeviceState and X :: regex_crate and inches :: bool
  assumes "report_inner s = Some inner"
  defines "as \<equiv> report_attribs inner"
  defines "r \<equiv> recalculate_positions
     (report_pos inches (last_pos X ''MPos'' as) (machine_pos dflt))
     (report_pos inches (last_pos X ''WPos'' as) (work_pos dflt))
     (report_pos inches (last_pos X ''WCO'' as) (wco dflt))
     (last_pos X ''MPos'' as \<noteq> None) (last_pos X ''WPos'' as \<noteq> None) (last_pos X ''WCO'' as \<noteq> None)"
  shows "(machine_pos (parse_state X s dflt inches), work_pos (parse_state X s dflt inches),
          wco (parse_state X s dflt inches)) = r"
proof -
  define acc where "acc = foldl (apply_attrib X)
      \<lparr>ra_state = apply_status_part dflt
         (case filter (\<lambda>p. p \<noteq> []) (split_char CHR ''|'' inner) of [] \<Rightarrow> [] | p # _ \<Rightarrow> p),
       ra_mpos = False, ra_wpos = False, ra_wco = False\<rparr> as"
  have keep: "machine_pos (apply_status_part dflt p) = machine_pos dflt"
    "work_pos (apply_status_part dflt p) = work_pos dflt"
    "wco (apply_status_part dflt p) = wco dflt" for p
    by (auto simp: apply_status_part_def split: option.split prod.split)
  define st where "st = (if inches then convert_inches acc else ra_state acc)"
  have found: "ra_mpos acc = (last_pos X ''MPos'' as \<noteq> None)" "ra_wpos acc = (last_pos X ''WPos'' as \<noteq> None)"
    "ra_wco acc = (last_pos X ''WCO'' as \<noteq> None)"
    by (simp_all add: acc_def foldl_attribs)
  have pos: "machine_pos st = report_pos inches (last_pos X ''MPos'' as) (machine_pos dflt)"
    "work_pos st = report_pos inches (last_pos X ''WPos'' as) (work_pos dflt)"
    "wco st = report_pos inches (last_pos X ''WCO'' as) (wco dflt)"
    by (auto simp: st_def convert_inches_positions found report_pos_def)
       (auto simp: acc_def foldl_attribs keep pos_or_def split: option.split)
  have "parse_state X s dflt inches =
      (case recalculate_positions (machine_pos st) (work_pos st) (wco st) (ra_mpos acc) (ra_wpos acc) (ra_wco acc) of
         (mp, wp, wc) \<Rightarrow> st\<lparr>machine_pos := mp, work_pos := wp, wco := wc\<rparr>)"
    unfolding parse_state_def assms(1) option.case st_def acc_def as_def report_attribs_def Let_def ..
  also have "recalculate_positions (machine_pos st) (work_pos st) (wco st) (ra_mpos acc) (ra_wpos acc) (ra_wco acc) = r"
    by (simp only: pos found r_def)
  finally show ?thesis by (cases r) simp
qed

text \<open>
  C30: after a status report the three positions are consistent. They have one common length of at
  least three axes, the work offset stays known, and whichever position the report gives
  determines the other: with a machine position the recorded one is the reported one (in
  millimetres, padded with zeros) and the work position is machine minus offset; with only a work
  position that one is recorded and the machine position is work plus offset. Text that is not a
  report changes nothing.
\<close>

theorem report_positions_consistent:
  assumes "all_known (wco dflt)"
  shows "(case report_inner s of
     None \<Rightarrow> parse_state X s dflt inches = dflt
   | Some inner \<Rightarrow>
      (let st = parse_state X s dflt inches; as = report_attribs inner; n = length (machine_pos st) in
       length (work_pos st) = n \<and> length (wco st) = n \<and> 3 \<le> n \<and> all_known (wco st) \<and>
       (case (last_pos X ''MPos'' as, last_pos X ''WPos'' as) of
          (Some m, _) \<Rightarrow>
            machine_pos st = pad_pos (report_pos inches (Some m) []) n f64_zero \<and>
            work_pos st = pos_op fsub (machine_pos st) (wco st)
        | (None, Some w) \<Rightarrow>
            work_pos st = pad_pos (report_pos inches (Some w) []) n f64_zero \<and>
            machine_pos st = pos_op fadd (work_pos st) (wco st)
        | (None, None) \<Rightarrow> True)))"
proof (cases "report_inner s")
  case None
  then show ?thesis by (simp add: parse_state_def)
next
  case (Some inner)
  define as where "as = report_attribs inner"
  note eq = parse_state_positions [OF Some, of X dflt inches, folded as_def]
  have known: "all_known (report_pos inches (last_pos X ''WCO'' as) (wco dflt))"
    "last_pos X ''MPos'' as \<noteq> None \<Longrightarrow> all_known (report_pos inches (last_pos X ''MPos'' as) d)"
    "last_pos X ''WPos'' as \<noteq> None \<Longrightarrow> all_known (report_pos inches (last_pos X ''WPos'' as) d)" for d
    using assms by (simp_all add: all_known_report_pos)
  show ?thesis
    using eq known unfolding Some option.case Let_def as_def [symmetric]
    by (auto simp: recalculate_positions_def Let_def report_pos_def max_def split: option.splits if_splits)
qed

theorem report_positions_consistent_witness:
  "all_known (wco DeviceState_default) \<and>
   (let st = parse_state std_regex ''<Run|MPos:10.5,20,-3|WCO:1,2,3|FS:500,0>'' DeviceState_default False in
    length (work_pos st) = 3 \<and> work_pos st = pos_op fsub (machine_pos st) (wco st))"
proof -
  let ?s = "''<Run|MPos:10.5,20,-3|WCO:1,2,3|FS:500,0>''"
  let ?st = "parse_state std_regex ?s DeviceState_default False"
  have k: "all_known (wco DeviceState_default)" by code_simp
  have i: "report_inner ?s = Some ''Run|MPos:10.5,20,-3|WCO:1,2,3|FS:500,0''" by code_simp
  have "last_pos std_regex ''MPos'' (report_attribs ''Run|MPos:10.5,20,-3|WCO:1,2,3|FS:500,0'') \<noteq> None"
    by code_simp
  then obtain m where m: "last_pos std_regex ''MPos'' (report_attribs ''Run|MPos:10.5,20,-3|WCO:1,2,3|FS:500,0'') = Some m"
    by blast
  have l: "length (work_pos ?st) = 3" by code_simp
  show ?thesis
    using report_positions_consistent [OF k, of std_regex ?s False] k l by (simp add: i m Let_def)
qed

subsection \<open>Work coordinate slots\<close>

text \<open>
  \<open>gcode_to_p_number\<close> maps exactly the slots G54 to G59 to P1 to P6. The subtraction is done at
  64 bits, but no parsable number outside 54 to 59 wraps around into the accepted range.
\<close>

theorem gcode_to_p_number_exact:
  "gcode_to_p_number slot = Some p \<longleftrightarrow>
     (\<exists>rest. slot = ''G'' @ rest \<and> parse_i64 rest = Some (p + 53) \<and> 1 \<le> p \<and> p \<le> 6)"
proof -
  have in_range: "- (2 ^ 63) \<le> n \<and> n < 2 ^ 63" if "parse_i64 r = Some n" for r n
    using that parse_signed_range [of _ _ r n] by (fastforce simp: parse_i64_def)
  have small: "wrap64 (n - 53) = q \<and> 1 \<le> q \<and> q \<le> 6 \<longleftrightarrow> n = q + 53 \<and> 1 \<le> q \<and> q \<le> 6"
    if n: "- (2 ^ 63) \<le> n" "n < 2 ^ 63" for n q :: int
  proof (cases "- (2 ^ 63) \<le> n - 53")
    case True
    with n show ?thesis by (auto simp: wrap64_id)
  next
    case False
    have "(n - 53 + 2 ^ 63) mod 2 ^ 64 = (n - 53 + 2 ^ 63 + 2 ^ 64) mod (2 ^ 64 :: int)" by (simp only: mod_add_self2)
    also have "\<dots> = n - 53 + 2 ^ 63 + 2 ^ 64" using False n by (intro mod_pos_pos_trivial) auto
    finally have "wrap64 (n - 53) = n - 53 + 2 ^ 64" by (simp add: wrap64_def)
    with False n show ?thesis by auto
  qed
  show ?thesis
  proof (cases "strip_prefix ''G'' slot")
    case None
    then have "\<nexists>rest. slot = ''G'' @ rest" by (metis not_None_eq strip_prefix_Some_iff)
    with None show ?thesis by (simp add: gcode_to_p_number_def)
  next
    case (Some rest)
    then have slot: "slot = ''G'' @ rest" by (simp add: strip_prefix_Some_iff)
    show ?thesis
    proof (cases "parse_i64 rest")
      case None
      with Some slot show ?thesis by (simp add: gcode_to_p_number_def)
    next
      case n: (Some n)
      with Some slot small [of n p] in_range [OF n] show ?thesis
        by (auto simp: gcode_to_p_number_def Let_def)
    qed
  qed
qed

subsection \<open>Settings and coordinate lines\<close>

abbreviation val_char :: "char \<Rightarrow> bool" where
  "val_char c \<equiv> is_digit c \<or> c = CHR ''.'' \<or> c = CHR ''-''"

definition val_text :: "string \<Rightarrow> bool" where
  "val_text v = (v \<noteq> [] \<and> list_all val_char v)"

definition key_text :: "string \<Rightarrow> bool" where
  "key_text k = (k \<noteq> [] \<and> list_all is_digit k)"

text \<open>The lines a controller prints for \<^verbatim>\<open>$$\<close> and \<^verbatim>\<open>$#\<close>.\<close>

definition show_setting :: "string \<times> string \<Rightarrow> string" where
  "show_setting kv = ''$'' @ fst kv @ ''='' @ snd kv"

definition show_wcs :: "string \<Rightarrow> string \<Rightarrow> string \<Rightarrow> string option \<Rightarrow> string" where
  "show_wcs slot x y z =
     ''['' @ slot @ '':'' @ x @ '','' @ y @ (case z of Some w \<Rightarrow> '','' @ w | None \<Rightarrow> []) @ '']''"

lemma ascii_digit: "is_digit c \<Longrightarrow> is_ascii c"
  by (simp add: is_digit_def is_ascii_def)

lemma ascii_val: "val_char c \<Longrightarrow> is_ascii c"
  by (auto simp: ascii_digit) (simp_all add: is_ascii_def byte_def)

lemma all_ascii_append [simp]: "all_ascii (s @ t) = (all_ascii s \<and> all_ascii t)"
  by (simp add: all_ascii_def)

lemma all_ascii_Cons [simp]: "all_ascii (c # t) = (is_ascii c \<and> all_ascii t)"
  by (simp add: all_ascii_def)

lemma all_ascii_Nil [simp]: "all_ascii []"
  by (simp add: all_ascii_def)

lemma ascii_texts: "key_text k \<Longrightarrow> all_ascii k" "val_text v \<Longrightarrow> all_ascii v"
  by (auto simp: key_text_def val_text_def all_ascii_def list_all_iff intro: ascii_digit ascii_val)

lemma ascii_punct [simp]:
  "is_ascii CHR ''$''" "is_ascii CHR ''=''" "is_ascii CHR ''[''" "is_ascii CHR '']''"
  "is_ascii CHR '':''" "is_ascii CHR '',''" "is_ascii CHR ''G''" "is_ascii CHR ''5''"
  by (simp_all add: is_ascii_def byte_def)

lemma not_digit_punct [simp]:
  "\<not> is_digit CHR ''=''" "\<not> is_digit CHR '',''" "\<not> is_digit CHR '']''"
  by (simp_all add: is_digit_def byte_def)

lemma first_val:
  assumes "val_text v" "case t of [] \<Rightarrow> True | c # _ \<Rightarrow> \<not> val_char c"
  shows "\<exists>p'. first_match (Group k VAL_RE) (p, v @ t, cs) = Some (p', t, (k, v) # cs)"
  unfolding VAL_RE_def using assms by (intro first_Group_Plus_Cls) (simp_all add: val_text_def)

lemma first_Alt_right: "matches r st = [] \<Longrightarrow> first_match (Alt r q) st = first_match q st"
  by (simp add: first_match_def)

lemma setting_match:
  assumes "key_text k" "val_text v"
  shows "\<exists>e. rx_exec GRBL_SETTING_RE (show_setting (k, v)) = Some \<lparr>m_start = 0, m_end = e, m_group = [(2, v), (1, k)]\<rparr>"
proof -
  obtain p1 where k: "first_match (Group 1 (Plus D_RE)) (Some CHR ''$'', k @ CHR ''='' # v, []) =
      Some (p1, CHR ''='' # v, [(1, k)])"
    using first_Group_Plus_Cls [of k is_digit "CHR ''='' # v" 1 "Some CHR ''$''" "[]"] assms(1)
    by (auto simp: D_RE_def key_text_def)
  obtain p2 where v: "first_match (Group 2 VAL_RE) (Some CHR ''='', v, [(1, k)]) = Some (p2, [], [(2, v), (1, k)])"
    using first_val [OF assms(2), of "[]" 2 "Some CHR ''=''" "[(1, k)]"] by auto
  have "first_match GRBL_SETTING_RE (None, show_setting (k, v), []) = Some (p2, [], [(2, v), (1, k)])"
    unfolding GRBL_SETTING_RE_def Seqs.simps show_setting_def fst_conv snd_conv append_Cons append_Nil
    by (rule first_Seq [OF first_Lit first_Seq [OF k first_Seq [OF first_Lit first_Seq [OF v first_Eps]]]])
  from rx_exec_first [OF this] show ?thesis by blast
qed

lemma insert_settings_map_of:
  "insert_settings m ps k =
     (case map_of (rev (List.map_filter (\<lambda>(k, v). map_option (Pair k) (parse_f64 v)) ps)) k of
        Some x \<Rightarrow> Some x | None \<Rightarrow> m k)"
proof (induction ps arbitrary: m)
  case Nil
  show ?case by (simp add: List.map_filter_def)
next
  case (Cons kv ps)
  show ?case
    using Cons.IH by (cases kv) (auto simp: List.map_filter_simps map_add_def split: option.split)
qed

text \<open>
  C32: reading a \<^verbatim>\<open>$$\<close> listing gives back the settings that were printed: the pairs in
  order with their raw text, the numeric table with the last parsable value of each key, and the
  two readings of \<^verbatim>\<open>$13\<close> agree, whatever else the listing holds.
\<close>

theorem settings_round_trip:
  assumes "regex_ok X" "\<forall>(k, v) \<in> set ps. key_text k \<and> val_text v"
  shows "parse_setting_pairs X (map show_setting ps) = ps \<and>
    parse_grbl_settings X (map show_setting ps) key =
      map_of (rev (List.map_filter (\<lambda>(k, v). map_option (Pair k) (parse_f64 v)) ps)) key \<and>
    (is_report_in_inches X ls \<longleftrightarrow> detect_unit_system_from_settings X ls = Some Imperial)"
proof -
  have pairs: "parse_setting_pairs X (map show_setting ps) = ps"
    using assms(2)
  proof (induction ps)
    case Nil
    show ?case by simp
  next
    case (Cons kv ps)
    obtain k v where kv: "kv = (k, v)" by (cases kv)
    with Cons.prems have kt: "key_text k" "val_text v" by auto
    then have "all_ascii (show_setting kv)" by (simp add: kv show_setting_def ascii_texts)
    then have "rx_str X GRBL_SETTING_RE (show_setting kv) = rx_exec GRBL_SETTING_RE (show_setting kv)"
      using assms(1) by (simp add: regex_ok_def)
    with setting_match [OF kt] Cons show ?case by (auto simp: kv cap_def group_of_def)
  qed
  then show ?thesis
    using insert_settings_map_of [of Map.empty ps key]
    by (auto simp: parse_grbl_settings_def is_report_in_inches_def detect_unit_system_from_settings_def
        split: option.splits if_splits)
qed

theorem settings_round_trip_witness:
  "parse_setting_pairs std_regex [''$13=1'', ''$110=500.0''] = [(''13'', ''1''), (''110'', ''500.0'')]"
proof -
  let ?ps = "[(''13'', ''1''), (''110'', ''500.0'')]"
  have "\<forall>(k, v) \<in> set ?ps. key_text k \<and> val_text v" by code_simp
  from settings_round_trip [OF regex_ok_std this] show ?thesis by (simp add: show_setting_def)
qed

lemma first_slot:
  assumes "52 \<le> byte d" "byte d \<le> 57"
  shows "\<exists>p'. first_match (Group k G5x_RE) (p, ''G5'' @ d # t, cs) = Some (p', t, (k, ''G5'' @ [d]) # cs)"
proof -
  obtain p0 where l: "first_match (Lits ''G5'') (p, ''G5'' @ d # t, cs) = Some (p0, d # t, cs)" using first_Lits by blast
  have c: "first_match (Cls (\<lambda>c. 52 \<le> byte c \<and> byte c \<le> 57)) (p0, d # t, cs) = Some (Some d, t, cs)"
    using assms by (intro first_Cls) simp
  from first_Group [OF first_Seq [OF l first_Seq [OF c first_Eps]], of k] show ?thesis by (simp add: G5x_RE_def)
qed

definition wcs_groups :: "string \<Rightarrow> string \<Rightarrow> string \<Rightarrow> string option \<Rightarrow> (nat \<times> string) list" where
  "wcs_groups slot x y z = (case z of Some w \<Rightarrow> [(4, w)] | None \<Rightarrow> []) @ [(3, y), (2, x), (1, slot)]"

lemma wcs_match:
  assumes "52 \<le> byte d" "byte d \<le> 57" and "val_text x" "val_text y" "z = None \<or> val_text (the z)"
  shows "rx_exec WCS_RE (show_wcs (''G5'' @ [d]) x y z) =
    Some \<lparr>m_start = 0, m_end = length (show_wcs (''G5'' @ [d]) x y z), m_group = wcs_groups (''G5'' @ [d]) x y z\<rparr>"
proof -
  let ?slot = "''G5'' @ [d]"
  define tl where "tl = (case z of Some w \<Rightarrow> '','' @ w | None \<Rightarrow> []) @ '']''"
  define G where "G = wcs_groups ?slot x y z"
  have line: "show_wcs ?slot x y z = CHR ''['' # ''G5'' @ d # CHR '':'' # x @ CHR '','' # y @ tl"
    by (simp add: show_wcs_def tl_def)
  obtain p1 where slot: "first_match (Group 1 G5x_RE) (Some CHR ''['', ''G5'' @ d # CHR '':'' # x @ CHR '','' # y @ tl, []) =
      Some (p1, CHR '':'' # x @ CHR '','' # y @ tl, [(1, ?slot)])"
    using first_slot [OF assms(1,2)] by blast
  obtain p2 where x: "first_match (Group 2 VAL_RE) (Some CHR '':'', x @ CHR '','' # y @ tl, [(1, ?slot)]) =
      Some (p2, CHR '','' # y @ tl, [(2, x), (1, ?slot)])"
    using first_val [OF assms(3), of "CHR '','' # y @ tl" 2 "Some CHR '':''" "[(1, ?slot)]"] by auto
  have "case tl of [] \<Rightarrow> True | c # _ \<Rightarrow> \<not> val_char c" by (simp add: tl_def split: option.split)
  then obtain p3 where y: "first_match (Group 3 VAL_RE) (Some CHR '','', y @ tl, [(2, x), (1, ?slot)]) =
      Some (p3, tl, [(3, y), (2, x), (1, ?slot)])"
    using first_val [OF assms(4)] by blast
  have z: "\<exists>p4. first_match (Opt (Seq (Lit CHR '','') (Group 4 VAL_RE))) (p3, tl, [(3, y), (2, x), (1, ?slot)]) =
      Some (p4, '']'', G)"
  proof (cases z)
    case None
    then show ?thesis by (simp add: tl_def G_def wcs_groups_def Opt_def first_Alt_right Lit_def first_Eps)
  next
    case (Some w)
    with assms(5) obtain p4 where "first_match (Group 4 VAL_RE) (Some CHR '','', w @ '']'', [(3, y), (2, x), (1, ?slot)]) =
        Some (p4, '']'', (4, w) # [(3, y), (2, x), (1, ?slot)])"
      using first_val [of w "'']''" 4 "Some CHR '',''" "[(3, y), (2, x), (1, ?slot)]"] by auto
    from first_Alt_left [OF first_Seq [OF first_Lit this]] Some show ?thesis
      by (auto simp: tl_def G_def wcs_groups_def Opt_def)
  qed
  then obtain p4 where z: "first_match (Opt (Seq (Lit CHR '','') (Group 4 VAL_RE))) (p3, tl, [(3, y), (2, x), (1, ?slot)]) =
      Some (p4, '']'', G)" ..
  have "first_match WCS_RE (None, show_wcs ?slot x y z, []) = Some (Some CHR '']'', [], G)"
    unfolding WCS_RE_def Seqs.simps line
    by (intro first_Seq [OF first_Lit] first_Seq [OF slot] first_Seq [OF x] first_Seq [OF y] first_Seq [OF z] first_Eps)
  from rx_exec_first [OF this] show ?thesis by (simp add: G_def)
qed

text \<open>
  reading a work-coordinate line gives back what was printed: the slot and the coordinates,
  with a zero for a missing third one. The numbers may be any text of digits, points and minus
  signs; if one of them is not a number the line is skipped.
\<close>

theorem wcs_line_round_trip:
  assumes "regex_ok X" "52 \<le> byte d" "byte d \<le> 57"
    and "val_text x" "val_text y" "z = None \<or> val_text (the z)"
  shows "parse_wcs_line X (show_wcs (''G5'' @ [d]) x y z) =
    (case (parse_f64 x, parse_f64 y, case z of Some w \<Rightarrow> parse_f64 w | None \<Rightarrow> Some f64_zero) of
       (Some a, Some b, Some c) \<Rightarrow> Some (''G5'' @ [d], a, b, c)
     | _ \<Rightarrow> None)"
proof -
  let ?line = "show_wcs (''G5'' @ [d]) x y z"
  have "all_ascii ?line"
    using assms(3-6) by (auto simp: show_wcs_def ascii_texts is_ascii_def byte_def split: option.splits)
  with wcs_match [OF assms(2-6)] assms(1) have
    "rx_str X WCS_RE ?line = Some \<lparr>m_start = 0, m_end = length ?line, m_group = wcs_groups (''G5'' @ [d]) x y z\<rparr>"
    by (simp add: regex_ok_def)
  then show ?thesis
    by (cases z) (auto simp: parse_wcs_line_def cap_def group_of_def wcs_groups_def split: option.split)
qed

theorem wcs_line_round_trip_witness:
  "val_text ''-10.5'' \<and> parse_wcs_line std_regex ''[G54:-10.5,20]'' =
     (case (parse_f64 ''-10.5'', parse_f64 ''20'') of
        (Some a, Some b) \<Rightarrow> Some (''G54'', a, b, f64_zero) | _ \<Rightarrow> None)"
proof -
  have d: "52 \<le> byte CHR ''4''" "byte CHR ''4'' \<le> 57" by (simp_all add: byte_def)
  have v: "val_text ''-10.5''" "val_text ''20''" by code_simp+
  from wcs_line_round_trip [OF regex_ok_std, of "CHR ''4''" "''-10.5''" "''20''" None] d v show ?thesis
    by (simp add: show_wcs_def split: option.split)
qed

subsection \<open>Error and alarm codes\<close>

lemma table_titles:
  "list_all (\<lambda>(k, e). err_title e \<noteq> ''Unknown Error'') grbl_error_table"
  "list_all (\<lambda>(k, e). err_title e \<noteq> ''Unknown Alarm'') grbl_alarm_table"
  by (simp_all add: grbl_error_table_all grbl_alarm_table_def)

lemma error_title_known:
  assumes "- (2 ^ 31) \<le> c" "c < 2 ^ 31"
  shows "err_title (error_code_to_device_error (show_int c)) \<noteq> ''Unknown Error'' \<longleftrightarrow> c \<in> {1..38}"
    "err_title (alarm_code_to_device_error (show_int c)) \<noteq> ''Unknown Alarm'' \<longleftrightarrow> c \<in> {1..10}"
proof -
  have parse: "parse_i32 (show_int c) = Some c" using assms by (simp add: parse_i32_def parse_signed_show_int)
  show "err_title (error_code_to_device_error (show_int c)) \<noteq> ''Unknown Error'' \<longleftrightarrow> c \<in> {1..38}"
    using table_titles(1) grbl_error_for_code_dom [of c]
    by (cases "grbl_error_for_code c")
      (auto simp: error_code_to_device_error_def parse list_all_iff grbl_error_for_code_def dest!: map_of_SomeD)
  show "err_title (alarm_code_to_device_error (show_int c)) \<noteq> ''Unknown Alarm'' \<longleftrightarrow> c \<in> {1..10}"
    using table_titles(2) grbl_alarm_for_code_dom [of c]
    by (cases "grbl_alarm_for_code c")
      (auto simp: alarm_code_to_device_error_def parse list_all_iff grbl_alarm_for_code_def dest!: map_of_SomeD)
qed

text \<open>
  C34: the device error made from a printed code carries that code over the whole 32-bit range, for
  errors and for alarms, and has a title of its own exactly for the documented codes: 1 to 38 for
  errors, 1 to 10 for alarms.
\<close>

theorem device_error_codes_exact:
  assumes "- (2 ^ 31) \<le> c" "c < 2 ^ 31"
  shows "err_code (error_code_to_device_error (show_int c)) = c \<and>
    err_code (alarm_code_to_device_error (show_int c)) = c \<and>
    (err_title (error_code_to_device_error (show_int c)) \<noteq> ''Unknown Error'' \<longleftrightarrow> c \<in> {1..38}) \<and>
    (err_title (alarm_code_to_device_error (show_int c)) \<noteq> ''Unknown Alarm'' \<longleftrightarrow> c \<in> {1..10})"
  using error_code_carried [OF assms] alarm_code_carried [OF assms] error_title_known [OF assms] by blast

theorem device_error_codes_exact_witness:
  "err_code (error_code_to_device_error (show_int 99)) = 99 \<and>
   err_title (error_code_to_device_error (show_int 99)) = ''Unknown Error''"
  using device_error_codes_exact [of 99] by simp

end
