(* ===== verification/Simple.thy ===== *)
theory Simple
  imports Line_Rx Async Grbl_Ops
begin

text \<open>
  The minimal GRBL session, \<^verbatim>\<open>src/grbl/simple.rs\<close>: one line is sent, its acknowledgement is
  awaited, then the next line is sent. Waiting commands are shared between the task that waits and
  the receive handler, so they live in a store (\<open>s_cmds\<close>) and the slot \<open>s_pending\<close> names one by
  its index. \<open>s_callers\<close> is not state of the session: it lists the commands other tasks will send,
  in the order in which they get the command lock.
\<close>

section \<open>Configuration and state\<close>

record SimpleConfig =
  sc_transport :: TransportKind
  sc_poll_status_while_running :: bool
  sc_command_timeout :: f64
  sc_handshake_timeout :: f64
  sc_handshake_poll_interval :: f64
  sc_status_poll_interval :: f64
  sc_reconnect_delay :: f64
  sc_safety_shutdown_delay :: f64

definition SimpleConfig_new :: "TransportKind \<Rightarrow> SimpleConfig" where
  "SimpleConfig_new kind =
     \<lparr>sc_transport = kind, sc_poll_status_while_running = False, sc_command_timeout = f64_lit 30 0,
      sc_handshake_timeout = f64_lit 3 0, sc_handshake_poll_interval = f64_lit 5 1,
      sc_status_poll_interval = f64_lit 1 0, sc_reconnect_delay = f64_lit 5 0,
      sc_safety_shutdown_delay = f64_lit 2 1\<rparr>"

record SimpleCore =
  s_config :: SimpleConfig
  s_dialect :: Dialect
  s_events :: "event list"
  s_transport :: Transport
  s_state :: DeviceState
  s_keep_running :: bool
  s_job_running :: bool
  s_is_cancelled :: bool
  s_is_holding :: bool
  s_report_in_inches :: bool
  s_handshake_received :: AsyncEvent
  s_line_buffer :: bytes
  s_pending :: "nat option"
  s_job_exception :: "SessionError option"
  s_last_reported_op_index :: int
  s_cmd_lock :: lock
  s_cmds :: "PendingCmd list"
  s_callers :: "string list"

definition SimpleCore_new :: "SimpleConfig \<Rightarrow> Dialect \<Rightarrow> SimpleCore" where
  "SimpleCore_new cfg d =
     \<lparr>s_config = cfg, s_dialect = d, s_events = [], s_transport = build (sc_transport cfg),
      s_state = DeviceState_default, s_keep_running = False, s_job_running = False,
      s_is_cancelled = False, s_is_holding = False, s_report_in_inches = False,
      s_handshake_received = AsyncEvent_new, s_line_buffer = [], s_pending = None,
      s_job_exception = None, s_last_reported_op_index = -1, s_cmd_lock = Free, s_cmds = [],
      s_callers = []\<rparr>"

definition simple_emit :: "event list \<Rightarrow> SimpleCore \<Rightarrow> SimpleCore" where
  "simple_emit evs w = w\<lparr>s_events := s_events w @ evs\<rparr>"

definition simple_is_job_running :: "SimpleCore \<Rightarrow> bool" where
  "simple_is_job_running w = s_job_running w"

definition simple_resource_uri :: "SimpleCore \<Rightarrow> string option" where
  "simple_resource_uri w = resource_uri (s_transport w)"

definition simple_update_dialect :: "Dialect \<Rightarrow> SimpleCore \<Rightarrow> SimpleCore" where
  "simple_update_dialect d w = w\<lparr>s_dialect := d\<rparr>"

definition simple_set_state :: "DeviceState \<Rightarrow> SimpleCore \<Rightarrow> SimpleCore" where
  "simple_set_state st w = simple_emit [StateChanged st] (w\<lparr>s_state := st\<rparr>)"

definition simple_emit_state_if_changed :: "DeviceState \<Rightarrow> SimpleCore \<Rightarrow> SimpleCore" where
  "simple_emit_state_if_changed st w = (if state_eq (s_state w) st then w else simple_set_state st w)"

definition simple_update_connection_status :: "TransportStatus \<Rightarrow> string option \<Rightarrow> SimpleCore \<Rightarrow> SimpleCore" where
  "simple_update_connection_status st msg w = simple_emit [ConnectionStatus st msg] w"

text \<open>\<^verbatim>\<open>self.transport.write(..)\<close>, with the error as a session error.\<close>

definition simple_write :: "bytes \<Rightarrow> SimpleCore \<Rightarrow> (SessionError, unit) result \<times> SimpleCore" where
  "simple_write data w =
     (case tr_write data (s_transport w) of
        (Inl e, t) \<Rightarrow> (Inl (session_error_from_transport e), w\<lparr>s_transport := t\<rparr>)
      | (Inr u, t) \<Rightarrow> (Inr (), w\<lparr>s_transport := t\<rparr>))"

section \<open>The waiting command\<close>

definition simple_update_cmd :: "nat \<Rightarrow> (PendingCmd \<Rightarrow> PendingCmd) \<Rightarrow> SimpleCore \<Rightarrow> SimpleCore" where
  "simple_update_cmd i f w = w\<lparr>s_cmds := (s_cmds w)[i := f (s_cmds w ! i)]\<rparr>"

definition simple_finish_pending :: "string option \<Rightarrow> SimpleCore \<Rightarrow> SimpleCore" where
  "simple_finish_pending last_line w =
     (case s_pending w of
        None \<Rightarrow> w
      | Some i \<Rightarrow>
          if pd_is_finished (s_cmds w ! i) then w
          else let w = (case last_line of Some l \<Rightarrow> simple_update_cmd i (pd_add_line l) w | None \<Rightarrow> w)
               in simple_update_cmd i pd_finish w)"

definition simple_resolve_pending :: "SimpleCore \<Rightarrow> SimpleCore" where
  "simple_resolve_pending w =
     (case s_pending w of
        None \<Rightarrow> w
      | Some i \<Rightarrow> simple_update_cmd i pd_finish (w\<lparr>s_pending := None\<rparr>))"

definition simple_collect :: "string \<Rightarrow> SimpleCore \<Rightarrow> SimpleCore" where
  "simple_collect line w =
     (case s_pending w of
        None \<Rightarrow> w
      | Some i \<Rightarrow> if pd_is_finished (s_cmds w ! i) then w else simple_update_cmd i (pd_add_line line) w)"

section \<open>Received lines\<close>

definition simple_set_device_error :: "DeviceError \<Rightarrow> SimpleCore \<Rightarrow> SimpleCore" where
  "simple_set_device_error err w =
     (if dev_error (s_state w) = None then simple_set_state ((s_state w)\<lparr>dev_error := Some err\<rparr>) w else w)"

definition simple_halt_job :: "string \<Rightarrow> SimpleCore \<Rightarrow> SimpleCore" where
  "simple_halt_job msg w = (if s_job_running w then w\<lparr>s_job_exception := Some (Err_Device msg)\<rparr> else w)"

definition simple_handle_error_line :: "string \<Rightarrow> SimpleCore \<Rightarrow> SimpleCore" where
  "simple_handle_error_line line w =
     (let w = simple_set_device_error (get_error (error_code_of line)) w;
          w = simple_finish_pending (Some line) w
      in simple_halt_job (''GRBL error: '' @ line) w)"

definition simple_handle_alarm :: "string \<Rightarrow> string \<Rightarrow> SimpleCore \<Rightarrow> SimpleCore" where
  "simple_handle_alarm code line w =
     (let st = s_state w;
          st = (if dev_error st = None then st\<lparr>dev_error := Some (alarm_code_to_device_error code)\<rparr> else st);
          w = simple_set_state (st\<lparr>status := Alarm\<rparr>) w;
          w = simple_finish_pending (Some line) w
      in simple_halt_job (''GRBL ALARM: '' @ line) w)"

definition simple_set_handshake :: "SimpleCore \<Rightarrow> SimpleCore" where
  "simple_set_handshake w = w\<lparr>s_handshake_received := AsyncEvent_set (s_handshake_received w)\<rparr>"

definition simple_handle_status_report :: "regex_crate \<Rightarrow> string \<Rightarrow> SimpleCore \<Rightarrow> SimpleCore" where
  "simple_handle_status_report X report w =
     (let w = simple_set_handshake w;
          st = parse_state X report (s_state w) (s_report_in_inches w);
          st = (if s_job_running w \<and> status st = Idle then st\<lparr>status := Run\<rparr> else st);
          st = (if s_is_holding w \<and> status st \<noteq> Alarm then st\<lparr>status := Hold\<rparr> else st)
      in simple_emit_state_if_changed st w)"

definition simple_handle_line :: "regex_crate \<Rightarrow> string \<Rightarrow> SimpleCore \<Rightarrow> SimpleCore" where
  "simple_handle_line X line w =
     (if line = ''ok'' then simple_finish_pending None (simple_emit [RawRx ''ok''] w)
      else if starts_with line ''error:'' then simple_handle_error_line line (simple_emit [RawRx line] w)
      else if starts_with line ''<'' \<and> ends_with line ''>'' then simple_handle_status_report X line w
      else case strip_prefix ''ALARM:'' line of
        Some code \<Rightarrow> simple_handle_alarm (trim code) line (simple_emit [RawRx line] w)
      | None \<Rightarrow>
          if starts_with line ''Grbl '' \<or> starts_with line ''GrblHAL ''
          then simple_set_handshake (simple_emit [RawRx line] w)
          else simple_collect line (simple_emit [RawRx line] w))"

definition simple_handle_rx :: "regex_crate \<Rightarrow> bytes \<Rightarrow> SimpleCore \<Rightarrow> SimpleCore" where
  "simple_handle_rx X data w =
     (case drain_lines (s_line_buffer w @ data) of
        (new_lines, rest) \<Rightarrow> fold (simple_handle_line X) new_lines (w\<lparr>s_line_buffer := rest\<rparr>))"

section \<open>The rest of the system\<close>

text \<open>\<^verbatim>\<open>cancel\<close> up to its first suspension point.\<close>

definition simple_cancel_begin :: "SimpleCore \<Rightarrow> SimpleCore" where
  "simple_cancel_begin w =
     (let w = w\<lparr>s_is_cancelled := True, s_job_running := False, s_is_holding := False\<rparr>;
          w = simple_resolve_pending w
      in w\<lparr>s_line_buffer := []\<rparr>)"

text \<open>\<^verbatim>\<open>execute_command\<close> up to the command lock.\<close>

definition simple_forget_cancel :: "SimpleCore \<Rightarrow> SimpleCore" where
  "simple_forget_cancel w = (if \<not> s_job_running w then w\<lparr>s_is_cancelled := False\<rparr> else w)"

text \<open>\<^verbatim>\<open>ping_pong\<close> under the lock, up to the wait: the new command's index, and the write.\<close>

definition simple_send :: "string \<Rightarrow> SimpleCore \<Rightarrow> (SessionError, unit) result \<times> SimpleCore" where
  "simple_send cmd w =
     simple_write (with_newline cmd)
       (simple_emit [RawTx cmd]
         (w\<lparr>s_cmds := s_cmds w @ [PendingCmd_new], s_pending := Some (length (s_cmds w))\<rparr>))"

definition simple_poll :: "SimpleCore \<Rightarrow> (SessionError, unit) result \<times> SimpleCore" where
  "simple_poll w = simple_write ''?'' (simple_emit [RawTx ''?''] w)"

text \<open>
  The other tasks: the reader hands over chunks, \<^verbatim>\<open>cancel\<close> starts, the link goes down, the poll
  loop runs a round (\<open>EvTask False\<close>), another caller enters \<^verbatim>\<open>execute_command\<close>
  (\<open>EvTask True\<close>), gets the lock and sends its command, or is done with its exchange.
\<close>

fun simple_env :: "regex_crate \<Rightarrow> env_event \<Rightarrow> SimpleCore \<Rightarrow> SimpleCore" where
  "simple_env X (EvRx data) w = simple_handle_rx X data w"
| "simple_env X EvTimer w = w"
| "simple_env X EvCancel w = simple_cancel_begin w"
| "simple_env X EvLinkDown w = w\<lparr>s_transport := tr_close (s_transport w)\<rparr>"
| "simple_env X (EvTask called) w =
     (if called then simple_forget_cancel w
      else if s_cmd_lock w = Free \<and> s_keep_running w \<and> tr_is_open (s_transport w) \<and>
        (sc_poll_status_while_running (s_config w) \<or> \<not> s_job_running w)
      then snd (simple_poll w) else w)"
| "simple_env X EvLockTaken w =
     (if s_cmd_lock w = Free then
        (case s_callers w of
           [] \<Rightarrow> w
         | c # cs \<Rightarrow>
             let w = w\<lparr>s_callers := cs\<rparr>
             in if tr_is_open (s_transport w) then snd (simple_send c (w\<lparr>s_cmd_lock := Theirs\<rparr>)) else w)
      else w)"
| "simple_env X EvLockFreed w =
     (if s_cmd_lock w = Theirs then (simple_resolve_pending w)\<lparr>s_cmd_lock := Free\<rparr> else w)"

definition simple_acquire :: "regex_crate \<Rightarrow> SimpleCore \<Rightarrow> env_event list \<Rightarrow> (unit, SimpleCore) outcome" where
  "simple_acquire X w es =
     bindA (await (simple_env X) (\<lambda>w. s_cmd_lock w = Free) w es) (\<lambda>_ w es. Ret () (w\<lparr>s_cmd_lock := Mine\<rparr>) es)"

definition simple_release :: "SimpleCore \<Rightarrow> SimpleCore" where
  "simple_release w = w\<lparr>s_cmd_lock := Free\<rparr>"

section \<open>Command exchange\<close>

definition simple_done :: "nat \<Rightarrow> SimpleCore \<Rightarrow> bool" where
  "simple_done i w = pd_is_finished (s_cmds w ! i)"

definition simple_not_connected :: SessionError where
  "simple_not_connected = Err_Connection ''Serial transport not connected''"

definition simple_ping_pong ::
  "regex_crate \<Rightarrow> string \<Rightarrow> SimpleCore \<Rightarrow> env_event list \<Rightarrow> ((SessionError, string list) result, SimpleCore) outcome" where
  "simple_ping_pong X cmd w es =
     bindA (simple_acquire X w es) (\<lambda>_ w es.
       if \<not> tr_is_open (s_transport w) then Ret (Inl simple_not_connected) (simple_release w) es
       else
         let i = length (s_cmds w)
         in bindA (case simple_send cmd w of
                     (Inl e, w) \<Rightarrow> Ret (Inl e) w es
                   | (Inr _, w) \<Rightarrow>
                       bindA (await_timeout (simple_env X) (simple_done i) w es)
                         (\<lambda>ok w es. Ret (if ok then Inr () else Inl Err_Timeout) w es))
              (\<lambda>r w es.
                 let w = simple_release (simple_resolve_pending w)
                 in case r of
                      Inl e \<Rightarrow> Ret (Inl e) w es
                    | Inr _ \<Rightarrow> Ret (Inr (pd_lines (s_cmds w ! i))) w es))"

definition simple_execute_command ::
  "regex_crate \<Rightarrow> string \<Rightarrow> SimpleCore \<Rightarrow> env_event list \<Rightarrow> ((SessionError, string list) result, SimpleCore) outcome" where
  "simple_execute_command X cmd w es = simple_ping_pong X cmd (simple_forget_cancel w) es"

definition simple_execute_interactive_command ::
  "regex_crate \<Rightarrow> string \<Rightarrow> SimpleCore \<Rightarrow> env_event list \<Rightarrow> ((SessionError, string list) result, SimpleCore) outcome" where
  "simple_execute_interactive_command X cmd w es = simple_execute_command X cmd w es"

definition simple_send_realtime :: "string \<Rightarrow> SimpleCore \<Rightarrow> (SessionError, unit) result \<times> SimpleCore" where
  "simple_send_realtime cmd w =
     (if \<not> tr_is_open (s_transport w) then (Inl (Err_Connection ''Serial transport disconnected''), w)
      else simple_write cmd (simple_emit [RawTx cmd] w))"

section \<open>Jobs\<close>

definition simple_start_job :: "SimpleCore \<Rightarrow> SimpleCore" where
  "simple_start_job w =
     (let w = w\<lparr>s_is_cancelled := False, s_job_running := True, s_is_holding := False,
               s_last_reported_op_index := -1, s_job_exception := None\<rparr>
      in simple_set_state ((s_state w)\<lparr>status := Run\<rparr>) w)"

definition simple_stop :: "SimpleCore \<Rightarrow> bool" where
  "simple_stop w \<longleftrightarrow> s_is_cancelled w \<or> status (s_state w) = Alarm"

definition simple_report_op :: "int option \<Rightarrow> SimpleCore \<Rightarrow> SimpleCore" where
  "simple_report_op op w =
     (case op of
        None \<Rightarrow> w
      | Some op_index \<Rightarrow>
          if op_index \<noteq> s_last_reported_op_index w
          then simple_emit [CommandDone op_index] (w\<lparr>s_last_reported_op_index := op_index\<rparr>)
          else w)"

text \<open>
  The loop over the lines; the value says whether an exchange failed. \<^verbatim>\<open>yield_now\<close> lets the
  other tasks run for a while.
\<close>

fun simple_run_lines ::
  "regex_crate \<Rightarrow> (nat \<rightharpoonup> int) \<Rightarrow> nat \<Rightarrow> string list \<Rightarrow> SimpleCore \<Rightarrow> env_event list \<Rightarrow> (bool, SimpleCore) outcome" where
  "simple_run_lines X op_map idx [] w es = Ret False w es"
| "simple_run_lines X op_map idx (raw_line # rest) w es =
     (if simple_stop w then Ret False w es
      else
        let line = trim (strip_gcode_comments X raw_line)
        in if line = [] then simple_run_lines X op_map (Suc idx) rest w es
           else bindA (simple_ping_pong X line (simple_report_op (op_map idx) w) es)
             (\<lambda>r w es. case r of
                Inr _ \<Rightarrow>
                  if s_job_exception w \<noteq> None then Ret False w es
                  else bindA (sleep (simple_env X) w es)
                         (\<lambda>_ w es. simple_run_lines X op_map (Suc idx) rest w es)
              | Inl e \<Rightarrow> Ret True w es))"

definition simple_send_safety_shutdown :: "regex_crate \<Rightarrow> bool \<Rightarrow> SimpleCore \<Rightarrow> env_event list \<Rightarrow> (unit, SimpleCore) outcome" where
  "simple_send_safety_shutdown X emergency w es =
     (let commands = shutdown_commands (s_dialect w) emergency
      in if commands = [] \<or> \<not> tr_is_open (s_transport w) then Ret () w es
         else bindA (sleep (simple_env X) w es) (\<lambda>_ w es.
           Ret () (w\<lparr>s_transport := write_each tr_is_open tr_write (map with_newline commands) (s_transport w)\<rparr>) es))"

definition simple_run ::
  "regex_crate \<Rightarrow> string \<Rightarrow> (nat \<rightharpoonup> int) \<Rightarrow> SimpleCore \<Rightarrow> env_event list \<Rightarrow> (unit, SimpleCore) outcome" where
  "simple_run X gcode op_map w es =
     bindA (simple_run_lines X op_map 0 (lines gcode) (simple_start_job w) es) (\<lambda>interrupted w es.
       let had_exception = (s_job_exception w \<noteq> None);
           was_cancelled = s_is_cancelled w;
           w = w\<lparr>s_job_exception := None, s_job_running := False, s_is_holding := False\<rparr>
       in bindA (if had_exception \<or> interrupted then simple_send_safety_shutdown X True w es else Ret () w es)
            (\<lambda>_ w es. Ret () (if \<not> was_cancelled then simple_emit [JobFinished] w else w) es))"

fun simple_send_realtimes :: "string list \<Rightarrow> SimpleCore \<Rightarrow> bool \<times> SimpleCore" where
  "simple_send_realtimes [] w = (True, w)"
| "simple_send_realtimes (l # ls) w =
     (case simple_send_realtime l w of (Inl e, w) \<Rightarrow> (False, w) | (Inr _, w) \<Rightarrow> simple_send_realtimes ls w)"

definition simple_run_raw ::
  "regex_crate \<Rightarrow> string \<Rightarrow> SimpleCore \<Rightarrow> env_event list \<Rightarrow> (unit, SimpleCore) outcome" where
  "simple_run_raw X machine_code w es =
     (let ls = filter (\<lambda>l. l \<noteq> []) (map trim (lines machine_code));
          (gcode, realtime) = split_realtime_commands ls
      in case simple_send_realtimes realtime w of
           (False, w) \<Rightarrow> Ret () w es
         | (True, w) \<Rightarrow>
             if gcode = [] then Ret () w es
             else simple_run X (join_lines gcode) Map.empty w es)"

section \<open>Cancel and hold\<close>

definition simple_cancel ::
  "regex_crate \<Rightarrow> bool \<Rightarrow> SimpleCore \<Rightarrow> env_event list \<Rightarrow> ((SessionError, unit) result, SimpleCore) outcome" where
  "simple_cancel X emergency w es =
     (let job_was_running = s_job_running w;
          w = simple_cancel_begin w
      in if \<not> tr_is_open (s_transport w) then Ret (Inl simple_not_connected) w es
         else case simple_write [CHR 0x18] w of
           (Inl e, w) \<Rightarrow> Ret (Inl e) w es
         | (Inr _, w) \<Rightarrow>
             bindA (simple_send_safety_shutdown X emergency w es) (\<lambda>_ w es.
               Ret (Inr ()) (if job_was_running then simple_emit [JobFinished] w else w) es))"

definition simple_show_status :: "DeviceStatus \<Rightarrow> SimpleCore \<Rightarrow> SimpleCore" where
  "simple_show_status desired w =
     (if status (s_state w) \<noteq> desired then simple_set_state ((s_state w)\<lparr>status := desired\<rparr>) w else w)"

definition simple_set_hold :: "bool \<Rightarrow> SimpleCore \<Rightarrow> (SessionError, unit) result \<times> SimpleCore" where
  "simple_set_hold hold w =
     (let w = simple_forget_cancel (w\<lparr>s_is_holding := hold\<rparr>)
      in case simple_send_realtime (if hold then ''!'' else ''~'') w of
           (Inl e, w) \<Rightarrow> (Inl e, w)
         | (Inr _, w) \<Rightarrow>
             (Inr (), simple_show_status (if hold then Hold else if s_job_running w then Run else Idle) w))"

section \<open>Connecting\<close>

text \<open>
  \<^verbatim>\<open>cleanup\<close> and \<^verbatim>\<open>connect\<close>; the tasks that are aborted are those whose script ends.
\<close>

definition simple_cleanup :: "SimpleCore \<Rightarrow> SimpleCore" where
  "simple_cleanup w =
     (let w = w\<lparr>s_keep_running := False, s_job_running := False\<rparr>;
          w = simple_resolve_pending w;
          w = w\<lparr>s_transport := tr_close (s_transport w)\<rparr>
      in simple_update_connection_status T_Disconnected None w)"

definition simple_connect :: "SimpleCore \<Rightarrow> SimpleCore" where
  "simple_connect w = (simple_cleanup w)\<lparr>s_keep_running := True\<rparr>"

text \<open>A second timer event right after the first says that the overall deadline has passed as well.\<close>

function simple_await_handshake :: "regex_crate \<Rightarrow> SimpleCore \<Rightarrow> env_event list \<Rightarrow> (bool, SimpleCore) outcome" where
  "simple_await_handshake X w es =
     (case simple_poll w of
        (Inl e, w) \<Rightarrow> Ret False w es
      | (Inr _, w) \<Rightarrow>
          bindA (await_timeout (simple_env X) (\<lambda>w. AsyncEvent_is_set (s_handshake_received w)) w es)
            (\<lambda>received w es.
               if received then Ret True w es
               else case es of
                      EvTimer # es' \<Rightarrow> Ret False w es'
                    | _ \<Rightarrow> simple_await_handshake X w es))"
  by pat_completeness auto
termination
  by (relation "measure (\<lambda>(X, w, es). length es)") (auto dest: await_timeout_False_shorter)

declare simple_await_handshake.simps [simp del]

text \<open>The first value of a round says whether the loop goes on.\<close>

definition simple_poll_round :: "regex_crate \<Rightarrow> SimpleCore \<Rightarrow> env_event list \<Rightarrow> (bool, SimpleCore) outcome" where
  "simple_poll_round X w es =
     (if sc_poll_status_while_running (s_config w) \<or> \<not> s_job_running w then
        bindA (simple_acquire X w es) (\<lambda>_ w es.
          if tr_is_open (s_transport w) then
            (case simple_poll w of
               (Inl e, w) \<Rightarrow> Ret False (simple_release w) es
             | (Inr _, w) \<Rightarrow> Ret True (simple_release w) es)
          else Ret True (simple_release w) es)
      else Ret True w es)"

lemma simple_acquire_le: "length (events_left (simple_acquire X w es)) \<le> length es"
  unfolding simple_acquire_def by (rule bindA_le [OF await_le]) simp

lemma simple_poll_round_le: "length (events_left (simple_poll_round X w es)) \<le> length es"
  unfolding simple_poll_round_def
  by (auto intro!: bindA_le [OF simple_acquire_le] split: prod.splits sum.splits)

lemma simple_poll_round_left:
  "simple_poll_round X w es = Ret b w' es' \<Longrightarrow> length es' \<le> length es"
  using simple_poll_round_le [of X w es] by simp

function simple_status_poll_loop :: "regex_crate \<Rightarrow> SimpleCore \<Rightarrow> env_event list \<Rightarrow> (unit, SimpleCore) outcome" where
  "simple_status_poll_loop X w es =
     (if \<not> (tr_is_open (s_transport w) \<and> s_keep_running w) then Ret () w es
      else bindA (simple_poll_round X w es) (\<lambda>go w es.
        if \<not> go then Ret () w es
        else bindA (sleep (simple_env X) w es) (\<lambda>_ w es. simple_status_poll_loop X w es)))"
  by pat_completeness auto
termination
  by (relation "measure (\<lambda>(X, w, es). length es)") (auto dest!: sleep_shorter simple_poll_round_left)

declare simple_status_poll_loop.simps [simp del]

definition simple_link_session :: "regex_crate \<Rightarrow> SimpleCore \<Rightarrow> env_event list \<Rightarrow> (unit, SimpleCore) outcome" where
  "simple_link_session X w es =
     bindA (bindA (simple_await_handshake X (simple_update_connection_status T_Connected None w) es)
              (\<lambda>ok w es. if ok then simple_status_poll_loop X w es else Ret () w es))
       (\<lambda>_ w es. Ret () (w\<lparr>s_transport := tr_close (s_transport w), s_line_buffer := []\<rparr>) es)"

definition simple_open_link :: "regex_crate \<Rightarrow> SimpleCore \<Rightarrow> env_event list \<Rightarrow> (unit, SimpleCore) outcome" where
  "simple_open_link X w es =
     (let w = w\<lparr>s_handshake_received := AsyncEvent_clear (s_handshake_received w)\<rparr>
      in case tr_open (s_transport w) of
           (Inl e, t) \<Rightarrow>
             Ret () (simple_update_connection_status T_Error (Some (transport_error_msg e)) (w\<lparr>s_transport := t\<rparr>)) es
         | (Inr _, t) \<Rightarrow> simple_link_session X (w\<lparr>s_transport := t\<rparr>) es)"

text \<open>One round per connection attempt; every round but the last ends with a timer event.\<close>

fun simple_connection_rounds :: "nat \<Rightarrow> regex_crate \<Rightarrow> SimpleCore \<Rightarrow> env_event list \<Rightarrow> (unit, SimpleCore) outcome" where
  "simple_connection_rounds 0 X w es = Blocked w"
| "simple_connection_rounds (Suc n) X w es =
     (if \<not> s_keep_running w then Ret () w es
      else bindA (simple_open_link X w es) (\<lambda>_ w es.
             if \<not> s_keep_running w then Ret () w es
             else bindA (sleep (simple_env X) (simple_update_connection_status T_Sleeping None w) es)
                    (\<lambda>_ w es. simple_connection_rounds n X w es)))"

definition simple_connection_loop :: "regex_crate \<Rightarrow> SimpleCore \<Rightarrow> env_event list \<Rightarrow> (unit, SimpleCore) outcome" where
  "simple_connection_loop X w es = simple_connection_rounds (Suc (length es)) X w es"

section \<open>Device operations\<close>

text \<open>\<^verbatim>\<open>execute_command(..).await?\<close> with the lines dropped.\<close>

definition simple_command ::
  "regex_crate \<Rightarrow> string \<Rightarrow> SimpleCore \<Rightarrow> env_event list \<Rightarrow> ((SessionError, unit) result, SimpleCore) outcome" where
  "simple_command X cmd w es = tryA (simple_execute_command X cmd w es) (\<lambda>_ w es. Ret (Inr ()) w es)"

definition simple_formatted ::
  "regex_crate \<Rightarrow> (string, string) result \<Rightarrow> SimpleCore \<Rightarrow> env_event list \<Rightarrow>
   ((SessionError, unit) result, SimpleCore) outcome" where
  "simple_formatted X r w es =
     (case r of Inl m \<Rightarrow> Ret (Inl (Err_Other m)) w es | Inr cmd \<Rightarrow> simple_command X cmd w es)"

fun simple_home_axes ::
  "regex_crate \<Rightarrow> string \<Rightarrow> string list \<Rightarrow> SimpleCore \<Rightarrow> env_event list \<Rightarrow> ((SessionError, unit) result, SimpleCore) outcome"
where
  "simple_home_axes X tmpl [] w es = Ret (Inr ()) w es"
| "simple_home_axes X tmpl (axis # axes) w es =
     tryA (simple_formatted X (format_template tmpl [(''axis_letter'', StrArg axis)]) w es)
       (\<lambda>_ w es. simple_home_axes X tmpl axes w es)"

definition simple_clear_error :: "SimpleCore \<Rightarrow> SimpleCore" where
  "simple_clear_error w = simple_set_state ((s_state w)\<lparr>dev_error := None\<rparr>) w"

definition simple_home ::
  "regex_crate \<Rightarrow> string list option \<Rightarrow> string \<Rightarrow> SimpleCore \<Rightarrow> env_event list \<Rightarrow>
   ((SessionError, unit) result, SimpleCore) outcome" where
  "simple_home X axes active_wcs w es =
     (let d = s_dialect w in
      tryA (case axes of None \<Rightarrow> simple_command X (home_all d) w es
                       | Some as \<Rightarrow> simple_home_axes X (home_axis d) as w es)
        (\<lambda>_ w es.
         let temp_wcs = (if active_wcs = ''G54'' then ''G55'' else ''G54'') in
         tryA (simple_command X ''G4 P0.01'' w es) (\<lambda>_ w es.
         tryA (simple_command X temp_wcs w es) (\<lambda>_ w es.
         tryA (simple_command X active_wcs w es) (\<lambda>_ w es.
           Ret (Inr ()) (simple_clear_error w) es)))))"

definition simple_move_to ::
  "regex_crate \<Rightarrow> f64 \<Rightarrow> f64 \<Rightarrow> f64 \<Rightarrow> SimpleCore \<Rightarrow> env_event list \<Rightarrow> ((SessionError, unit) result, SimpleCore) outcome"
where
  "simple_move_to X speed pos_x pos_y w es =
     simple_formatted X (format_template (move_to_tmpl (s_dialect w))
       [(''speed'', Speed speed), (''x'', Length pos_x), (''y'', Length pos_y)]) w es"

definition simple_jog ::
  "regex_crate \<Rightarrow> (string \<Rightarrow> string) \<Rightarrow> f64 \<Rightarrow> (string \<times> f64) list \<Rightarrow> SimpleCore \<Rightarrow> env_event list \<Rightarrow>
   ((SessionError, unit) result, SimpleCore) outcome" where
  "simple_jog X uc speed deltas w es =
     (case format_template (jog_tmpl (s_dialect w)) [(''speed'', Speed speed)] of
        Inl m \<Rightarrow> Ret (Inl (Err_Other m)) w es
      | Inr head \<Rightarrow>
          if deltas = [] then Ret (Inr ()) w es
          else simple_command X
                 (join_space (head # map (\<lambda>(axis, dist). uc axis @ python_float_repr dist) deltas)) w es)"

definition simple_select_tool ::
  "regex_crate \<Rightarrow> int \<Rightarrow> SimpleCore \<Rightarrow> env_event list \<Rightarrow> ((SessionError, unit) result, SimpleCore) outcome" where
  "simple_select_tool X tool_number w es =
     simple_formatted X (format_template (tool_change (s_dialect w)) [(''tool_number'', IntArg tool_number)]) w es"

definition simple_set_power ::
  "regex_crate \<Rightarrow> f64 option \<Rightarrow> SimpleCore \<Rightarrow> env_event list \<Rightarrow> ((SessionError, unit) result, SimpleCore) outcome" where
  "simple_set_power X pw w es =
     (case positive_power pw of
        Some p \<Rightarrow> simple_formatted X (format_template (laser_on (s_dialect w)) [(''power'', Length p)]) w es
      | None \<Rightarrow> simple_command X (laser_off (s_dialect w)) w es)"

definition simple_set_focus_power ::
  "regex_crate \<Rightarrow> f64 option \<Rightarrow> SimpleCore \<Rightarrow> env_event list \<Rightarrow> ((SessionError, unit) result, SimpleCore) outcome" where
  "simple_set_focus_power X pw w es =
     (case positive_power pw of
        Some p \<Rightarrow> simple_formatted X (format_template (focus_laser_on (s_dialect w)) [(''power'', Length p)]) w es
      | None \<Rightarrow> simple_command X (laser_off (s_dialect w)) w es)"

definition simple_set_wcs_offset ::
  "regex_crate \<Rightarrow> string \<Rightarrow> f64 \<Rightarrow> f64 \<Rightarrow> f64 option \<Rightarrow> SimpleCore \<Rightarrow> env_event list \<Rightarrow>
   ((SessionError, unit) result, SimpleCore) outcome" where
  "simple_set_wcs_offset X wcs_slot x y z w es =
     (case gcode_to_p_number wcs_slot of
        None \<Rightarrow> Ret (Inl (Err_Other (''Invalid WCS slot: '' @ wcs_slot))) w es
      | Some p_num \<Rightarrow>
          (case format_wcs_offset (s_dialect w) p_num x y z of
             None \<Rightarrow> Panicked w es
           | Some cmd \<Rightarrow> simple_command X cmd w es))"

definition simple_read_settings ::
  "regex_crate \<Rightarrow> SimpleCore \<Rightarrow> env_event list \<Rightarrow> ((SessionError, (string \<times> string) list) result, SimpleCore) outcome"
where
  "simple_read_settings X w es =
     tryA (simple_execute_interactive_command X ''$$'' w es) (\<lambda>ls w es.
       Ret (Inr (parse_setting_pairs X ls)) (w\<lparr>s_report_in_inches := is_report_in_inches X ls\<rparr>) es)"

definition simple_write_setting ::
  "regex_crate \<Rightarrow> string \<Rightarrow> string \<Rightarrow> SimpleCore \<Rightarrow> env_event list \<Rightarrow> ((SessionError, unit) result, SimpleCore) outcome" where
  "simple_write_setting X key val w es = simple_command X (''$'' @ key @ ''='' @ val) w es"

definition simple_read_wcs_offsets ::
  "regex_crate \<Rightarrow> SimpleCore \<Rightarrow> env_event list \<Rightarrow>
   ((SessionError, string \<rightharpoonup> f64 \<times> f64 \<times> f64) result, SimpleCore) outcome" where
  "simple_read_wcs_offsets X w es =
     tryA (simple_execute_interactive_command X ''$#'' w es) (\<lambda>ls w es.
       let offsets = collect_offsets X (s_report_in_inches w) ls Map.empty
       in Ret (Inr offsets) (simple_emit [WcsUpdated offsets] w) es)"

definition simple_read_parser_state ::
  "regex_crate \<Rightarrow> SimpleCore \<Rightarrow> env_event list \<Rightarrow> ((SessionError, string option) result, SimpleCore) outcome" where
  "simple_read_parser_state X w es =
     tryA (simple_execute_interactive_command X ''$G'' w es)
       (\<lambda>ls w es. Ret (Inr (parse_grbl_parser_state X ls)) w es)"

definition simple_run_probe_cycle ::
  "regex_crate \<Rightarrow> (string \<Rightarrow> string) \<Rightarrow> string \<Rightarrow> f64 \<Rightarrow> f64 \<Rightarrow> SimpleCore \<Rightarrow> env_event list \<Rightarrow>
   ((SessionError, (f64 \<times> f64 \<times> f64) option) result, SimpleCore) outcome" where
  "simple_run_probe_cycle X uc axis_letter max_travel probe_feed w es =
     (let axis = uc axis_letter
      in case format_template (probe_cycle (s_dialect w))
           [(''axis_letter'', StrArg axis), (''max_travel'', Length max_travel), (''feed_rate'', Speed probe_feed)] of
         Inl m \<Rightarrow> Ret (Inl (Err_Other m)) w es
       | Inr cmd \<Rightarrow>
           bindA (simple_execute_interactive_command X cmd (simple_emit [ProbeStatus (''Probing '' @ axis @ ''...'')] w) es)
             (\<lambda>r w es. case r of
                Inl _ \<Rightarrow> Ret (Inr None) (simple_emit [ProbeStatus ''Probe failed: Timed out''] w) es
              | Inr ls \<Rightarrow>
                  (case first_probe X ls of
                     Some p \<Rightarrow>
                       let pos = to_mm (s_report_in_inches w) p
                       in Ret (Inr (Some pos))
                            (simple_emit [ProbeStatus (''Probe triggered at '' @ show_pos3 pos)] w) es
                   | None \<Rightarrow> Ret (Inr None) (simple_emit [ProbeStatus ''Probe failed''] w) es)))"

definition simple_detect_unit_system ::
  "regex_crate \<Rightarrow> SimpleCore \<Rightarrow> env_event list \<Rightarrow> ((SessionError, UnitSystem option) result, SimpleCore) outcome" where
  "simple_detect_unit_system X w es =
     bindA (simple_execute_interactive_command X ''$$'' w es) (\<lambda>r w es. case r of
       Inl _ \<Rightarrow> Ret (Inr None) w es
     | Inr ls \<Rightarrow> Ret (Inr (detect_unit_system_from_settings X ls))
                  (w\<lparr>s_report_in_inches := is_report_in_inches X ls\<rparr>) es)"

end
