(* ===== verification/Smoothie.thy ===== *)
theory Smoothie
  imports Line_Rx Async Grbl_Ops
begin

text \<open>
  The Smoothieware session, \<^verbatim>\<open>src/smoothie/session.rs\<close>: the same ping-pong exchange as the
  minimal GRBL session over telnet or serial, with the GRBL status parser, its own handshake and
  Ctrl+C as its cancel. The store of waiting commands and the list of other callers are as there.
\<close>

section \<open>Configuration and state\<close>

record SmoothieConfig =
  soc_transport :: TransportKind
  soc_poll_status_while_running :: bool
  soc_command_timeout :: f64
  soc_handshake_timeout :: f64
  soc_handshake_poll_interval :: f64
  soc_status_poll_interval :: f64
  soc_reconnect_delay :: f64
  soc_safety_shutdown_delay :: f64

definition SmoothieConfig_new :: "TransportKind \<Rightarrow> SmoothieConfig" where
  "SmoothieConfig_new kind =
     \<lparr>soc_transport = kind, soc_poll_status_while_running = False, soc_command_timeout = f64_lit 30 0,
      soc_handshake_timeout = f64_lit 15 0, soc_handshake_poll_interval = f64_lit 5 1,
      soc_status_poll_interval = f64_lit 1 0, soc_reconnect_delay = f64_lit 5 0,
      soc_safety_shutdown_delay = f64_lit 2 1\<rparr>"

record SmoothieCore =
  so_config :: SmoothieConfig
  so_dialect :: Dialect
  so_events :: "event list"
  so_transport :: Transport
  so_state :: DeviceState
  so_keep_running :: bool
  so_job_running :: bool
  so_is_cancelled :: bool
  so_is_holding :: bool
  so_handshake_received :: AsyncEvent
  so_line_buffer :: bytes
  so_pending :: "nat option"
  so_job_exception :: "SessionError option"
  so_last_reported_op_index :: int
  so_cmd_lock :: lock
  so_cmds :: "PendingCmd list"
  so_callers :: "string list"

definition SmoothieCore_new :: "SmoothieConfig \<Rightarrow> Dialect \<Rightarrow> SmoothieCore" where
  "SmoothieCore_new cfg d =
     \<lparr>so_config = cfg, so_dialect = d, so_events = [], so_transport = build (soc_transport cfg),
      so_state = DeviceState_default, so_keep_running = False, so_job_running = False,
      so_is_cancelled = False, so_is_holding = False,
      so_handshake_received = AsyncEvent_new, so_line_buffer = [], so_pending = None,
      so_job_exception = None, so_last_reported_op_index = -1, so_cmd_lock = Free, so_cmds = [],
      so_callers = []\<rparr>"

definition smoothie_emit :: "event list \<Rightarrow> SmoothieCore \<Rightarrow> SmoothieCore" where
  "smoothie_emit evs w = w\<lparr>so_events := so_events w @ evs\<rparr>"

definition smoothie_is_job_running :: "SmoothieCore \<Rightarrow> bool" where
  "smoothie_is_job_running w = so_job_running w"

definition smoothie_resource_uri :: "SmoothieCore \<Rightarrow> string option" where
  "smoothie_resource_uri w = resource_uri (so_transport w)"

definition smoothie_update_dialect :: "Dialect \<Rightarrow> SmoothieCore \<Rightarrow> SmoothieCore" where
  "smoothie_update_dialect d w = w\<lparr>so_dialect := d\<rparr>"

definition smoothie_set_state :: "DeviceState \<Rightarrow> SmoothieCore \<Rightarrow> SmoothieCore" where
  "smoothie_set_state st w = smoothie_emit [StateChanged st] (w\<lparr>so_state := st\<rparr>)"

definition smoothie_emit_state_if_changed :: "DeviceState \<Rightarrow> SmoothieCore \<Rightarrow> SmoothieCore" where
  "smoothie_emit_state_if_changed st w = (if state_eq (so_state w) st then w else smoothie_set_state st w)"

definition smoothie_update_connection_status :: "TransportStatus \<Rightarrow> string option \<Rightarrow> SmoothieCore \<Rightarrow> SmoothieCore" where
  "smoothie_update_connection_status st msg w = smoothie_emit [ConnectionStatus st msg] w"

text \<open>\<^verbatim>\<open>self.transport.write(..)\<close>, with the error as a session error.\<close>

definition smoothie_write :: "bytes \<Rightarrow> SmoothieCore \<Rightarrow> (SessionError, unit) result \<times> SmoothieCore" where
  "smoothie_write data w =
     (case tr_write data (so_transport w) of
        (Inl e, t) \<Rightarrow> (Inl (session_error_from_transport e), w\<lparr>so_transport := t\<rparr>)
      | (Inr u, t) \<Rightarrow> (Inr (), w\<lparr>so_transport := t\<rparr>))"

section \<open>The waiting command\<close>

definition smoothie_update_cmd :: "nat \<Rightarrow> (PendingCmd \<Rightarrow> PendingCmd) \<Rightarrow> SmoothieCore \<Rightarrow> SmoothieCore" where
  "smoothie_update_cmd i f w = w\<lparr>so_cmds := (so_cmds w)[i := f (so_cmds w ! i)]\<rparr>"

definition smoothie_finish_pending :: "string option \<Rightarrow> SmoothieCore \<Rightarrow> SmoothieCore" where
  "smoothie_finish_pending last_line w =
     (case so_pending w of
        None \<Rightarrow> w
      | Some i \<Rightarrow>
          if pd_is_finished (so_cmds w ! i) then w
          else let w = (case last_line of Some l \<Rightarrow> smoothie_update_cmd i (pd_add_line l) w | None \<Rightarrow> w)
               in smoothie_update_cmd i pd_finish w)"

definition smoothie_resolve_pending :: "SmoothieCore \<Rightarrow> SmoothieCore" where
  "smoothie_resolve_pending w =
     (case so_pending w of
        None \<Rightarrow> w
      | Some i \<Rightarrow> smoothie_update_cmd i pd_finish (w\<lparr>so_pending := None\<rparr>))"

definition smoothie_collect :: "string \<Rightarrow> SmoothieCore \<Rightarrow> SmoothieCore" where
  "smoothie_collect line w =
     (case so_pending w of
        None \<Rightarrow> w
      | Some i \<Rightarrow> if pd_is_finished (so_cmds w ! i) then w else smoothie_update_cmd i (pd_add_line line) w)"

section \<open>Received lines\<close>

definition smoothie_set_device_error :: "DeviceError \<Rightarrow> SmoothieCore \<Rightarrow> SmoothieCore" where
  "smoothie_set_device_error err w =
     (if dev_error (so_state w) = None then smoothie_set_state ((so_state w)\<lparr>dev_error := Some err\<rparr>) w else w)"

definition smoothie_halt_job :: "string \<Rightarrow> SmoothieCore \<Rightarrow> SmoothieCore" where
  "smoothie_halt_job msg w = (if so_job_running w then w\<lparr>so_job_exception := Some (Err_Device msg)\<rparr> else w)"

definition smoothie_handle_error_line :: "string \<Rightarrow> SmoothieCore \<Rightarrow> SmoothieCore" where
  "smoothie_handle_error_line line w =
     (let w = smoothie_set_device_error (get_error (error_code_of line)) w;
          w = smoothie_finish_pending (Some line) w
      in smoothie_halt_job (''Device error: '' @ line) w)"

definition smoothie_handle_alarm :: "string \<Rightarrow> string \<Rightarrow> SmoothieCore \<Rightarrow> SmoothieCore" where
  "smoothie_handle_alarm code line w =
     (let st = so_state w;
          st = (if dev_error st = None then st\<lparr>dev_error := Some (alarm_code_to_device_error code)\<rparr> else st);
          w = smoothie_set_state (st\<lparr>status := Alarm\<rparr>) w;
          w = smoothie_finish_pending (Some line) w
      in smoothie_halt_job (''Device ALARM: '' @ line) w)"

definition smoothie_set_handshake :: "SmoothieCore \<Rightarrow> SmoothieCore" where
  "smoothie_set_handshake w = w\<lparr>so_handshake_received := AsyncEvent_set (so_handshake_received w)\<rparr>"

definition smoothie_handle_status_report :: "regex_crate \<Rightarrow> string \<Rightarrow> SmoothieCore \<Rightarrow> SmoothieCore" where
  "smoothie_handle_status_report X report w =
     (let w = smoothie_set_handshake w;
          st = parse_state X report (so_state w) False;
          st = (if so_job_running w \<and> status st = Idle then st\<lparr>status := Run\<rparr> else st);
          st = (if so_is_holding w \<and> status st \<noteq> Alarm then st\<lparr>status := Hold\<rparr> else st)
      in smoothie_emit_state_if_changed st w)"

definition smoothie_handle_line :: "regex_crate \<Rightarrow> string \<Rightarrow> SmoothieCore \<Rightarrow> SmoothieCore" where
  "smoothie_handle_line X line w =
     (if line = ''ok'' then smoothie_finish_pending (Some ''ok'') (smoothie_emit [RawRx ''ok''] w)
      else if starts_with line ''error:'' then smoothie_handle_error_line line (smoothie_emit [RawRx line] w)
      else if starts_with line ''<'' \<and> ends_with line ''>'' then smoothie_handle_status_report X line (smoothie_emit [RawRx line] w)
      else case strip_prefix ''ALARM:'' line of
        Some code \<Rightarrow> smoothie_handle_alarm (trim code) line (smoothie_emit [RawRx line] w)
      | None \<Rightarrow> smoothie_collect line (smoothie_emit [RawRx line] w))"

definition smoothie_handle_rx :: "regex_crate \<Rightarrow> bytes \<Rightarrow> SmoothieCore \<Rightarrow> SmoothieCore" where
  "smoothie_handle_rx X data w =
     (case drain_lines (so_line_buffer w @ data) of
        (new_lines, rest) \<Rightarrow> fold (smoothie_handle_line X) new_lines (w\<lparr>so_line_buffer := rest\<rparr>))"

section \<open>The rest of the system\<close>

text \<open>\<^verbatim>\<open>cancel\<close> up to its first suspension point.\<close>

definition smoothie_cancel_begin :: "SmoothieCore \<Rightarrow> SmoothieCore" where
  "smoothie_cancel_begin w =
     (let w = w\<lparr>so_is_cancelled := True, so_job_running := False, so_is_holding := False\<rparr>;
          w = smoothie_resolve_pending w
      in w\<lparr>so_line_buffer := []\<rparr>)"

text \<open>\<^verbatim>\<open>execute_command\<close> up to the command lock.\<close>

definition smoothie_forget_cancel :: "SmoothieCore \<Rightarrow> SmoothieCore" where
  "smoothie_forget_cancel w = (if \<not> so_job_running w then w\<lparr>so_is_cancelled := False\<rparr> else w)"

text \<open>\<^verbatim>\<open>ping_pong\<close> under the lock, up to the wait: the new command's index, and the write.\<close>

definition smoothie_send :: "string \<Rightarrow> SmoothieCore \<Rightarrow> (SessionError, unit) result \<times> SmoothieCore" where
  "smoothie_send cmd w =
     smoothie_write (with_newline cmd)
       (smoothie_emit [RawTx cmd]
         (w\<lparr>so_cmds := so_cmds w @ [PendingCmd_new], so_pending := Some (length (so_cmds w))\<rparr>))"

definition smoothie_poll :: "SmoothieCore \<Rightarrow> (SessionError, unit) result \<times> SmoothieCore" where
  "smoothie_poll w = smoothie_write ''?'' (smoothie_emit [RawTx ''?''] w)"

text \<open>
  The other tasks: the reader hands over chunks, \<^verbatim>\<open>cancel\<close> starts, the link goes down, the poll
  loop runs a round (\<open>EvTask False\<close>), another caller enters \<^verbatim>\<open>execute_command\<close>
  (\<open>EvTask True\<close>), gets the lock and sends its command, or is done with its exchange.
\<close>

fun smoothie_env :: "regex_crate \<Rightarrow> env_event \<Rightarrow> SmoothieCore \<Rightarrow> SmoothieCore" where
  "smoothie_env X (EvRx data) w = smoothie_handle_rx X data w"
| "smoothie_env X EvTimer w = w"
| "smoothie_env X EvCancel w = smoothie_cancel_begin w"
| "smoothie_env X EvLinkDown w = w\<lparr>so_transport := tr_close (so_transport w)\<rparr>"
| "smoothie_env X (EvTask called) w =
     (if called then smoothie_forget_cancel w
      else if so_cmd_lock w = Free \<and> so_keep_running w \<and> tr_is_open (so_transport w) \<and>
        (soc_poll_status_while_running (so_config w) \<or> \<not> so_job_running w)
      then snd (smoothie_poll w) else w)"
| "smoothie_env X EvLockTaken w =
     (if so_cmd_lock w = Free then
        (case so_callers w of
           [] \<Rightarrow> w
         | c # cs \<Rightarrow>
             let w = w\<lparr>so_callers := cs\<rparr>
             in if tr_is_open (so_transport w) then snd (smoothie_send c (w\<lparr>so_cmd_lock := Theirs\<rparr>)) else w)
      else w)"
| "smoothie_env X EvLockFreed w =
     (if so_cmd_lock w = Theirs then (smoothie_resolve_pending w)\<lparr>so_cmd_lock := Free\<rparr> else w)"

definition smoothie_acquire :: "regex_crate \<Rightarrow> SmoothieCore \<Rightarrow> env_event list \<Rightarrow> (unit, SmoothieCore) outcome" where
  "smoothie_acquire X w es =
     bindA (await (smoothie_env X) (\<lambda>w. so_cmd_lock w = Free) w es) (\<lambda>_ w es. Ret () (w\<lparr>so_cmd_lock := Mine\<rparr>) es)"

definition smoothie_release :: "SmoothieCore \<Rightarrow> SmoothieCore" where
  "smoothie_release w = w\<lparr>so_cmd_lock := Free\<rparr>"

section \<open>Command exchange\<close>

definition smoothie_done :: "nat \<Rightarrow> SmoothieCore \<Rightarrow> bool" where
  "smoothie_done i w = pd_is_finished (so_cmds w ! i)"

definition smoothie_not_connected :: SessionError where
  "smoothie_not_connected = Err_Connection ''Transport not connected''"

definition smoothie_ping_pong ::
  "regex_crate \<Rightarrow> string \<Rightarrow> SmoothieCore \<Rightarrow> env_event list \<Rightarrow> ((SessionError, string list) result, SmoothieCore) outcome" where
  "smoothie_ping_pong X cmd w es =
     bindA (smoothie_acquire X w es) (\<lambda>_ w es.
       if \<not> tr_is_open (so_transport w) then Ret (Inl smoothie_not_connected) (smoothie_release w) es
       else
         let i = length (so_cmds w)
         in bindA (case smoothie_send cmd w of
                     (Inl e, w) \<Rightarrow> Ret (Inl e) w es
                   | (Inr _, w) \<Rightarrow>
                       bindA (await_timeout (smoothie_env X) (smoothie_done i) w es)
                         (\<lambda>ok w es. Ret (if ok then Inr () else Inl Err_Timeout) w es))
              (\<lambda>r w es.
                 let w = smoothie_release (smoothie_resolve_pending w)
                 in case r of
                      Inl e \<Rightarrow> Ret (Inl e) w es
                    | Inr _ \<Rightarrow> Ret (Inr (pd_lines (so_cmds w ! i))) w es))"

definition smoothie_execute_command ::
  "regex_crate \<Rightarrow> string \<Rightarrow> SmoothieCore \<Rightarrow> env_event list \<Rightarrow> ((SessionError, string list) result, SmoothieCore) outcome" where
  "smoothie_execute_command X cmd w es = smoothie_ping_pong X cmd (smoothie_forget_cancel w) es"

definition smoothie_execute_interactive_command ::
  "regex_crate \<Rightarrow> string \<Rightarrow> SmoothieCore \<Rightarrow> env_event list \<Rightarrow> ((SessionError, string list) result, SmoothieCore) outcome" where
  "smoothie_execute_interactive_command X cmd w es = smoothie_execute_command X cmd w es"

section \<open>Jobs\<close>

definition smoothie_start_job :: "SmoothieCore \<Rightarrow> SmoothieCore" where
  "smoothie_start_job w =
     (let w = w\<lparr>so_is_cancelled := False, so_job_running := True, so_is_holding := False,
               so_last_reported_op_index := -1, so_job_exception := None\<rparr>
      in smoothie_set_state ((so_state w)\<lparr>status := Run\<rparr>) w)"

definition smoothie_stop :: "SmoothieCore \<Rightarrow> bool" where
  "smoothie_stop w \<longleftrightarrow> so_is_cancelled w \<or> status (so_state w) = Alarm"

definition smoothie_report_op :: "int option \<Rightarrow> SmoothieCore \<Rightarrow> SmoothieCore" where
  "smoothie_report_op op w =
     (case op of
        None \<Rightarrow> w
      | Some op_index \<Rightarrow>
          if op_index \<noteq> so_last_reported_op_index w
          then smoothie_emit [CommandDone op_index] (w\<lparr>so_last_reported_op_index := op_index\<rparr>)
          else w)"

text \<open>
  The loop over the lines; the value says whether an exchange failed. \<^verbatim>\<open>yield_now\<close> lets the
  other tasks run for a while.
\<close>

fun smoothie_run_lines ::
  "regex_crate \<Rightarrow> (nat \<rightharpoonup> int) \<Rightarrow> nat \<Rightarrow> string list \<Rightarrow> SmoothieCore \<Rightarrow> env_event list \<Rightarrow> (bool, SmoothieCore) outcome" where
  "smoothie_run_lines X op_map idx [] w es = Ret False w es"
| "smoothie_run_lines X op_map idx (raw_line # rest) w es =
     (if smoothie_stop w then Ret False w es
      else
        let line = trim (strip_gcode_comments X raw_line)
        in if line = [] then smoothie_run_lines X op_map (Suc idx) rest w es
           else bindA (smoothie_ping_pong X line (smoothie_report_op (op_map idx) w) es)
             (\<lambda>r w es. case r of
                Inr _ \<Rightarrow>
                  if so_job_exception w \<noteq> None then Ret False w es
                  else bindA (sleep (smoothie_env X) w es)
                         (\<lambda>_ w es. smoothie_run_lines X op_map (Suc idx) rest w es)
              | Inl e \<Rightarrow> Ret True w es))"

definition smoothie_send_safety_shutdown :: "regex_crate \<Rightarrow> bool \<Rightarrow> SmoothieCore \<Rightarrow> env_event list \<Rightarrow> (unit, SmoothieCore) outcome" where
  "smoothie_send_safety_shutdown X emergency w es =
     (let commands = shutdown_commands (so_dialect w) emergency
      in if commands = [] \<or> \<not> tr_is_open (so_transport w) then Ret () w es
         else bindA (sleep (smoothie_env X) w es) (\<lambda>_ w es.
           Ret () (w\<lparr>so_transport := write_each tr_is_open tr_write (map with_newline commands) (so_transport w)\<rparr>) es))"

definition smoothie_run ::
  "regex_crate \<Rightarrow> string \<Rightarrow> (nat \<rightharpoonup> int) \<Rightarrow> SmoothieCore \<Rightarrow> env_event list \<Rightarrow> (unit, SmoothieCore) outcome" where
  "smoothie_run X gcode op_map w es =
     bindA (smoothie_run_lines X op_map 0 (lines gcode) (smoothie_start_job w) es) (\<lambda>interrupted w es.
       let had_exception = (so_job_exception w \<noteq> None);
           was_cancelled = so_is_cancelled w;
           w = w\<lparr>so_job_exception := None, so_job_running := False, so_is_holding := False\<rparr>
       in bindA (if had_exception \<or> interrupted then smoothie_send_safety_shutdown X True w es else Ret () w es)
            (\<lambda>_ w es. Ret () (if \<not> was_cancelled then smoothie_emit [JobFinished] w else w) es))"

definition smoothie_run_raw ::
  "regex_crate \<Rightarrow> string \<Rightarrow> SmoothieCore \<Rightarrow> env_event list \<Rightarrow> (unit, SmoothieCore) outcome" where
  "smoothie_run_raw X machine_code w es =
     (let ls = filter (\<lambda>l. l \<noteq> []) (map trim (lines machine_code))
      in if ls = [] then Ret () w es else smoothie_run X (join_lines ls) Map.empty w es)"

section \<open>Cancel and hold\<close>

definition smoothie_cancel ::
  "regex_crate \<Rightarrow> bool \<Rightarrow> SmoothieCore \<Rightarrow> env_event list \<Rightarrow> ((SessionError, unit) result, SmoothieCore) outcome" where
  "smoothie_cancel X emergency w es =
     (let job_was_running = so_job_running w;
          w = smoothie_cancel_begin w
      in if \<not> tr_is_open (so_transport w) then Ret (Inl smoothie_not_connected) w es
         else case smoothie_write [CHR 0x03] w of
           (Inl e, w) \<Rightarrow> Ret (Inl e) w es
         | (Inr _, w) \<Rightarrow>
             bindA (smoothie_send_safety_shutdown X emergency w es) (\<lambda>_ w es.
               Ret (Inr ()) (if job_was_running then smoothie_emit [JobFinished] w else w) es))"

definition smoothie_show_status :: "DeviceStatus \<Rightarrow> SmoothieCore \<Rightarrow> SmoothieCore" where
  "smoothie_show_status desired w =
     (if status (so_state w) \<noteq> desired then smoothie_set_state ((so_state w)\<lparr>status := desired\<rparr>) w else w)"

definition smoothie_set_hold :: "bool \<Rightarrow> SmoothieCore \<Rightarrow> (SessionError, unit) result \<times> SmoothieCore" where
  "smoothie_set_hold hold w =
     (let w = w\<lparr>so_is_holding := hold\<rparr>
      in if \<not> tr_is_open (so_transport w) then (Inl smoothie_not_connected, w)
         else case smoothie_write (if hold then ''!'' else ''~'') w of
           (Inl e, w) \<Rightarrow> (Inl e, w)
         | (Inr _, w) \<Rightarrow>
             (Inr (), smoothie_show_status (if hold then Hold else if so_job_running w then Run else Idle) w))"

section \<open>Connecting\<close>

text \<open>
  \<^verbatim>\<open>cleanup\<close> and \<^verbatim>\<open>connect\<close>; the tasks that are aborted are those whose script ends.
\<close>

definition smoothie_cleanup :: "SmoothieCore \<Rightarrow> SmoothieCore" where
  "smoothie_cleanup w =
     (let w = w\<lparr>so_keep_running := False, so_job_running := False\<rparr>;
          w = smoothie_resolve_pending w;
          w = w\<lparr>so_transport := tr_close (so_transport w)\<rparr>
      in smoothie_update_connection_status T_Disconnected None w)"

definition smoothie_connect :: "SmoothieCore \<Rightarrow> SmoothieCore" where
  "smoothie_connect w = (smoothie_cleanup w)\<lparr>so_keep_running := True\<rparr>"

text \<open>A second timer event right after the first says that the overall deadline has passed as well.\<close>

function smoothie_await_handshake :: "regex_crate \<Rightarrow> SmoothieCore \<Rightarrow> env_event list \<Rightarrow> (bool, SmoothieCore) outcome" where
  "smoothie_await_handshake X w es =
     (case smoothie_poll w of
        (Inl e, w) \<Rightarrow> Ret False w es
      | (Inr _, w) \<Rightarrow>
          bindA (await_timeout (smoothie_env X) (\<lambda>w. AsyncEvent_is_set (so_handshake_received w)) w es)
            (\<lambda>received w es.
               if received then Ret True w es
               else case es of
                      EvTimer # es' \<Rightarrow> Ret False w es'
                    | _ \<Rightarrow> smoothie_await_handshake X w es))"
  by pat_completeness auto
termination
  by (relation "measure (\<lambda>(X, w, es). length es)") (auto dest: await_timeout_False_shorter)

declare smoothie_await_handshake.simps [simp del]

text \<open>The first value of a round says whether the loop goes on.\<close>

definition smoothie_poll_round :: "regex_crate \<Rightarrow> SmoothieCore \<Rightarrow> env_event list \<Rightarrow> (bool, SmoothieCore) outcome" where
  "smoothie_poll_round X w es =
     (if soc_poll_status_while_running (so_config w) \<or> \<not> so_job_running w then
        bindA (smoothie_acquire X w es) (\<lambda>_ w es.
          if tr_is_open (so_transport w) then
            (case smoothie_poll w of
               (Inl e, w) \<Rightarrow> Ret False (smoothie_release w) es
             | (Inr _, w) \<Rightarrow> Ret True (smoothie_release w) es)
          else Ret True (smoothie_release w) es)
      else Ret True w es)"

lemma smoothie_acquire_le: "length (events_left (smoothie_acquire X w es)) \<le> length es"
  unfolding smoothie_acquire_def by (rule bindA_le [OF await_le]) simp

lemma smoothie_poll_round_le: "length (events_left (smoothie_poll_round X w es)) \<le> length es"
  unfolding smoothie_poll_round_def
  by (auto intro!: bindA_le [OF smoothie_acquire_le] split: prod.splits sum.splits)

lemma smoothie_poll_round_left:
  "smoothie_poll_round X w es = Ret b w' es' \<Longrightarrow> length es' \<le> length es"
  using smoothie_poll_round_le [of X w es] by simp

function smoothie_status_poll_loop :: "regex_crate \<Rightarrow> SmoothieCore \<Rightarrow> env_event list \<Rightarrow> (unit, SmoothieCore) outcome" where
  "smoothie_status_poll_loop X w es =
     (if \<not> (tr_is_open (so_transport w) \<and> so_keep_running w) then Ret () w es
      else bindA (smoothie_poll_round X w es) (\<lambda>go w es.
        if \<not> go then Ret () w es
        else bindA (sleep (smoothie_env X) w es) (\<lambda>_ w es. smoothie_status_poll_loop X w es)))"
  by pat_completeness auto
termination
  by (relation "measure (\<lambda>(X, w, es). length es)") (auto dest!: sleep_shorter smoothie_poll_round_left)

declare smoothie_status_poll_loop.simps [simp del]

definition smoothie_link_session :: "regex_crate \<Rightarrow> SmoothieCore \<Rightarrow> env_event list \<Rightarrow> (unit, SmoothieCore) outcome" where
  "smoothie_link_session X w es =
     bindA (bindA (smoothie_await_handshake X w es)
              (\<lambda>ok w es.
                 if ok then smoothie_status_poll_loop X (smoothie_update_connection_status T_Connected None w) es
                 else Ret () (smoothie_update_connection_status T_Error (Some ''No response from device'') w) es))
       (\<lambda>_ w es. Ret () (w\<lparr>so_transport := tr_close (so_transport w), so_line_buffer := []\<rparr>) es)"

definition smoothie_open_link :: "regex_crate \<Rightarrow> SmoothieCore \<Rightarrow> env_event list \<Rightarrow> (unit, SmoothieCore) outcome" where
  "smoothie_open_link X w es =
     (let w = w\<lparr>so_handshake_received := AsyncEvent_clear (so_handshake_received w)\<rparr>
      in case tr_open (so_transport w) of
           (Inl e, t) \<Rightarrow>
             Ret () (smoothie_update_connection_status T_Error (Some (transport_error_msg e)) (w\<lparr>so_transport := t\<rparr>)) es
         | (Inr _, t) \<Rightarrow> smoothie_link_session X (w\<lparr>so_transport := t\<rparr>) es)"

text \<open>One round per connection attempt; every round but the last ends with a timer event.\<close>

fun smoothie_connection_rounds :: "nat \<Rightarrow> regex_crate \<Rightarrow> SmoothieCore \<Rightarrow> env_event list \<Rightarrow> (unit, SmoothieCore) outcome" where
  "smoothie_connection_rounds 0 X w es = Blocked w"
| "smoothie_connection_rounds (Suc n) X w es =
     (if \<not> so_keep_running w then Ret () w es
      else bindA (smoothie_open_link X w es) (\<lambda>_ w es.
             if \<not> so_keep_running w then Ret () w es
             else bindA (sleep (smoothie_env X) (smoothie_update_connection_status T_Sleeping None w) es)
                    (\<lambda>_ w es. smoothie_connection_rounds n X w es)))"

definition smoothie_connection_loop :: "regex_crate \<Rightarrow> SmoothieCore \<Rightarrow> env_event list \<Rightarrow> (unit, SmoothieCore) outcome" where
  "smoothie_connection_loop X w es = smoothie_connection_rounds (Suc (length es)) X w es"

section \<open>Device operations\<close>

text \<open>\<^verbatim>\<open>execute_command(..).await?\<close> with the lines dropped.\<close>

definition smoothie_command ::
  "regex_crate \<Rightarrow> string \<Rightarrow> SmoothieCore \<Rightarrow> env_event list \<Rightarrow> ((SessionError, unit) result, SmoothieCore) outcome" where
  "smoothie_command X cmd w es = tryA (smoothie_execute_command X cmd w es) (\<lambda>_ w es. Ret (Inr ()) w es)"

definition smoothie_formatted ::
  "regex_crate \<Rightarrow> (string, string) result \<Rightarrow> SmoothieCore \<Rightarrow> env_event list \<Rightarrow>
   ((SessionError, unit) result, SmoothieCore) outcome" where
  "smoothie_formatted X r w es =
     (case r of Inl m \<Rightarrow> Ret (Inl (Err_Other m)) w es | Inr cmd \<Rightarrow> smoothie_command X cmd w es)"

fun smoothie_home_axes ::
  "regex_crate \<Rightarrow> string \<Rightarrow> string list \<Rightarrow> SmoothieCore \<Rightarrow> env_event list \<Rightarrow> ((SessionError, unit) result, SmoothieCore) outcome"
where
  "smoothie_home_axes X tmpl [] w es = Ret (Inr ()) w es"
| "smoothie_home_axes X tmpl (axis # axes) w es =
     tryA (smoothie_formatted X (format_template tmpl [(''axis_letter'', StrArg axis)]) w es)
       (\<lambda>_ w es. smoothie_home_axes X tmpl axes w es)"

definition smoothie_clear_error :: "SmoothieCore \<Rightarrow> SmoothieCore" where
  "smoothie_clear_error w = smoothie_set_state ((so_state w)\<lparr>dev_error := None\<rparr>) w"

definition smoothie_home ::
  "regex_crate \<Rightarrow> string list option \<Rightarrow> SmoothieCore \<Rightarrow> env_event list \<Rightarrow>
   ((SessionError, unit) result, SmoothieCore) outcome" where
  "smoothie_home X axes w es =
     (let d = so_dialect w in
      tryA (case axes of None \<Rightarrow> smoothie_command X (home_all d) w es
                       | Some as \<Rightarrow> smoothie_home_axes X (home_axis d) as w es)
        (\<lambda>_ w es. Ret (Inr ()) (smoothie_clear_error w) es))"

definition smoothie_move_to ::
  "regex_crate \<Rightarrow> f64 \<Rightarrow> f64 \<Rightarrow> f64 \<Rightarrow> SmoothieCore \<Rightarrow> env_event list \<Rightarrow> ((SessionError, unit) result, SmoothieCore) outcome"
where
  "smoothie_move_to X speed pos_x pos_y w es =
     smoothie_formatted X (format_template (move_to_tmpl (so_dialect w))
       [(''speed'', Speed speed), (''x'', Length pos_x), (''y'', Length pos_y)]) w es"

definition smoothie_jog ::
  "regex_crate \<Rightarrow> (string \<Rightarrow> string) \<Rightarrow> f64 \<Rightarrow> (string \<times> f64) list \<Rightarrow> SmoothieCore \<Rightarrow> env_event list \<Rightarrow>
   ((SessionError, unit) result, SmoothieCore) outcome" where
  "smoothie_jog X uc speed deltas w es =
     (case format_template (jog_tmpl (so_dialect w)) [(''speed'', Speed speed)] of
        Inl m \<Rightarrow> Ret (Inl (Err_Other m)) w es
      | Inr head \<Rightarrow>
          if deltas = [] then Ret (Inr ()) w es
          else smoothie_command X
                 (join_space (head # map (\<lambda>(axis, dist). uc axis @ python_float_repr dist) deltas)) w es)"

definition smoothie_select_tool ::
  "regex_crate \<Rightarrow> int \<Rightarrow> SmoothieCore \<Rightarrow> env_event list \<Rightarrow> ((SessionError, unit) result, SmoothieCore) outcome" where
  "smoothie_select_tool X tool_number w es =
     smoothie_formatted X (format_template (tool_change (so_dialect w)) [(''tool_number'', IntArg tool_number)]) w es"

definition smoothie_clear_alarm ::
  "regex_crate \<Rightarrow> SmoothieCore \<Rightarrow> env_event list \<Rightarrow> ((SessionError, unit) result, SmoothieCore) outcome" where
  "smoothie_clear_alarm X w es =
     tryA (smoothie_execute_command X (clear_alarm (so_dialect w)) w es) (\<lambda>response w es.
       Ret (Inr ()) (if list_ex (\<lambda>l. starts_with l ''error:'') response then w else smoothie_clear_error w) es)"

definition smoothie_set_power ::
  "regex_crate \<Rightarrow> f64 option \<Rightarrow> SmoothieCore \<Rightarrow> env_event list \<Rightarrow> ((SessionError, unit) result, SmoothieCore) outcome" where
  "smoothie_set_power X pw w es =
     (case positive_power pw of
        Some p \<Rightarrow> smoothie_formatted X (format_template (laser_on (so_dialect w)) [(''power'', Length p)]) w es
      | None \<Rightarrow> smoothie_command X (laser_off (so_dialect w)) w es)"

definition smoothie_set_focus_power ::
  "regex_crate \<Rightarrow> f64 option \<Rightarrow> SmoothieCore \<Rightarrow> env_event list \<Rightarrow> ((SessionError, unit) result, SmoothieCore) outcome" where
  "smoothie_set_focus_power X pw w es =
     (case positive_power pw of
        Some p \<Rightarrow> smoothie_formatted X (format_template (focus_laser_on (so_dialect w)) [(''power'', Length p)]) w es
      | None \<Rightarrow> smoothie_command X (laser_off (so_dialect w)) w es)"

definition smoothie_set_wcs_offset ::
  "regex_crate \<Rightarrow> string \<Rightarrow> f64 \<Rightarrow> f64 \<Rightarrow> f64 option \<Rightarrow> SmoothieCore \<Rightarrow> env_event list \<Rightarrow>
   ((SessionError, unit) result, SmoothieCore) outcome" where
  "smoothie_set_wcs_offset X wcs_slot x y z w es =
     (case gcode_to_p_number wcs_slot of
        None \<Rightarrow> Ret (Inl (Err_Other (''Invalid WCS slot: '' @ wcs_slot))) w es
      | Some p_num \<Rightarrow>
          (case format_wcs_offset (so_dialect w) p_num x y z of
             None \<Rightarrow> Panicked w es
           | Some cmd \<Rightarrow> smoothie_command X cmd w es))"

end
