(* ===== verification/Marlin_Parser.thy ===== *)
theory Marlin_Parser
  imports Grbl_Parser
begin

text \<open>
  The parsers of \<^verbatim>\<open>src/marlin/parser.rs\<close>. Besides the regular expressions they use two
  operations of the standard library that are defined by Unicode tables; \<open>tx_alnum\<close> stands for
  \<^verbatim>\<open>char::is_alphanumeric\<close> of the first character of a text and \<open>tx_lower\<close> for
  \<^verbatim>\<open>str::to_lowercase\<close>, and \<open>text_ok\<close> says what they are on ASCII.
\<close>

record text_lib =
  tx_regex :: regex_crate
  tx_alnum :: "string \<Rightarrow> bool"
  tx_lower :: "string \<Rightarrow> string"

definition ascii_alnum :: "char \<Rightarrow> bool" where
  "ascii_alnum c = (is_digit c \<or> (65 \<le> byte c \<and> byte c \<le> 90) \<or> (97 \<le> byte c \<and> byte c \<le> 122))"

definition text_ok :: "text_lib \<Rightarrow> bool" where
  "text_ok L \<longleftrightarrow> regex_ok (tx_regex L) \<and>
     (\<forall>c s. is_ascii c \<longrightarrow> tx_alnum L (c # s) = ascii_alnum c) \<and>
     (\<forall>s. all_ascii s \<longrightarrow> tx_lower L s = to_ascii_lowercase s)"

text \<open>The reference instance, with which witnesses are evaluated.\<close>

definition std_text :: text_lib where
  "std_text = \<lparr>tx_regex = std_regex,
     tx_alnum = (\<lambda>s. case s of [] \<Rightarrow> False | c # _ \<Rightarrow> ascii_alnum c),
     tx_lower = to_ascii_lowercase\<rparr>"

lemma text_ok_std: "text_ok std_text"
  by (simp add: text_ok_def std_text_def regex_ok_std)

section \<open>Patterns\<close>

definition SPACE_RE :: rx where
  "SPACE_RE = Cls (\<lambda>c. c = CHR 0x20 \<or> (9 \<le> byte c \<and> byte c \<le> 13))"

definition SNUM_RE :: rx where
  "SNUM_RE = Seqs [Opt (Cls (\<lambda>c. c = CHR ''+'' \<or> c = CHR ''-'')), Plus D_RE, Opt (Lit CHR ''.''), Star D_RE]"

definition M114_POS_RE :: rx where
  "M114_POS_RE = Seqs [Lits ''X:'', Group 1 SNUM_RE, Plus SPACE_RE, Lits ''Y:'', Group 2 SNUM_RE,
     Plus SPACE_RE, Lits ''Z:'', Group 3 SNUM_RE]"

definition MARLIN_VERSION_RE :: rx where
  "MARLIN_VERSION_RE = Seqs [Lits ''Marlin'', Plus SPACE_RE, Group 1 (Plus (Cls (\<lambda>c. is_digit c \<or> c = CHR ''.'')))]"

definition MARLIN_ERROR_RE :: rx where
  "MARLIN_ERROR_RE = Seqs [Lits ''Error:'', Group 1 (Plus DOT_RE)]"

definition NONSPACE_RE :: rx where
  "NONSPACE_RE = Cls (\<lambda>c. \<not> (c = CHR 0x20 \<or> (9 \<le> byte c \<and> byte c \<le> 13)))"

definition M115_FIRMWARE_RE :: rx where
  "M115_FIRMWARE_RE = Seqs [Lits ''FIRMWARE_NAME:'', Star SPACE_RE, Group 1 (Plus NONSPACE_RE)]"

definition M115_MACHINE_TYPE_RE :: rx where
  "M115_MACHINE_TYPE_RE = Seqs [Lits ''MACHINE_TYPE:'', Group 1 (Seq DOT_RE (Lazy DOT_RE)),
     Alt (Seqs [Plus SPACE_RE, Plus (Cls (\<lambda>c. (65 \<le> byte c \<and> byte c \<le> 90) \<or> c = CHR ''_'')), Lit CHR '':'']) Eos]"

definition M149_UNITS_RE :: rx where
  "M149_UNITS_RE = Seqs [LitsI ''M149'', Plus SPACE_RE, LitsI ''Units'', Plus SPACE_RE, LitsI ''in'', Plus SPACE_RE,
     Group 1 (Alts [LitsI ''inches'', LitsI ''inch'', LitsI ''in'', LitsI ''mm'', LitsI ''millimeters'', LitsI ''millimetres''])]"

definition M203_FEEDRATE_RE :: rx where
  "M203_FEEDRATE_RE = Seqs [Lits ''echo:'', Star SPACE_RE, Lits ''M203'', Plus SPACE_RE, Lit CHR ''X'', Group 1 SNUM_RE,
     Plus SPACE_RE, Lit CHR ''Y'', Group 2 SNUM_RE]"

definition M204_ACCEL_RE :: rx where
  "M204_ACCEL_RE = Seqs [Lits ''echo:'', Star SPACE_RE, Lits ''M204'', Star SPACE_RE, Lit CHR ''S'', Group 1 SNUM_RE]"

definition M211_MAX_RE :: rx where
  "M211_MAX_RE = Seqs [Lit CHR ''X'', Opt (Lit CHR '':''), Star SPACE_RE, Group 1 SNUM_RE, Plus SPACE_RE,
     Lit CHR ''Y'', Opt (Lit CHR '':''), Star SPACE_RE, Group 2 SNUM_RE]"

section \<open>Lines\<close>

definition is_ok :: "text_lib \<Rightarrow> string \<Rightarrow> bool" where
  "is_ok L line =
     (let stripped = trim line
      in starts_with stripped ''ok'' \<and> (length stripped = 2 \<or> \<not> tx_alnum L (drop 2 stripped)))"

definition is_error :: "string \<Rightarrow> bool" where
  "is_error line = starts_with (trim line) ''Error:''"

definition is_boot_message :: "string \<Rightarrow> bool" where
  "is_boot_message line =
     list_ex (\<lambda>p. starts_with (trim line) p) [''start'', ''Marlin'', ''echo:'', ''External Reset'']"

definition is_marlin_output :: "bytes \<Rightarrow> bool" where
  "is_marlin_output data = list_ex is_boot_message (lines (utf8_lossy data))"

fun marlin_banner :: "text_lib \<Rightarrow> string list \<Rightarrow> string option" where
  "marlin_banner L [] = None"
| "marlin_banner L (raw # ls) =
     (let line = trim raw
      in if line = [] \<or> is_ok L line \<or> is_error line then marlin_banner L ls
         else if is_boot_message line then Some (take_chars 80 line)
         else marlin_banner L ls)"

definition extract_marlin_banner_from_output :: "text_lib \<Rightarrow> bytes \<Rightarrow> string option" where
  "extract_marlin_banner_from_output L data = marlin_banner L (lines (utf8_lossy data))"

definition is_m114_position :: "text_lib \<Rightarrow> string \<Rightarrow> bool" where
  "is_m114_position L line = (rx_str (tx_regex L) M114_POS_RE line \<noteq> None)"

definition parse_m114_line :: "text_lib \<Rightarrow> string \<Rightarrow> (f64 \<times> f64 \<times> f64) option" where
  "parse_m114_line L line =
     (case rx_str (tx_regex L) M114_POS_RE line of
        None \<Rightarrow> None
      | Some m \<Rightarrow>
          (case (parse_f64 (cap m 1), parse_f64 (cap m 2), parse_f64 (cap m 3)) of
             (Some x, Some y, Some z) \<Rightarrow> Some (x, y, z)
           | _ \<Rightarrow> None))"

definition parse_m114_position :: "text_lib \<Rightarrow> string list \<Rightarrow> (f64 \<times> f64 \<times> f64) option" where
  "parse_m114_position L ls = find_map (parse_m114_line L) ls"

definition parse_marlin_version :: "text_lib \<Rightarrow> string \<Rightarrow> string option" where
  "parse_marlin_version L line = map_option (\<lambda>m. cap m 1) (rx_str (tx_regex L) MARLIN_VERSION_RE line)"

definition parse_error_message :: "text_lib \<Rightarrow> string \<Rightarrow> string" where
  "parse_error_message L line =
     (case rx_str (tx_regex L) MARLIN_ERROR_RE line of Some m \<Rightarrow> trim (cap m 1) | None \<Rightarrow> [])"

fun parse_m115_firmware_info :: "text_lib \<Rightarrow> string list \<Rightarrow> (string \<times> string) list" where
  "parse_m115_firmware_info L [] = []"
| "parse_m115_firmware_info L (line # ls) =
     (case rx_str (tx_regex L) M115_FIRMWARE_RE line of
        Some m \<Rightarrow> [(''firmware_name'', trim (cap m 1))] | None \<Rightarrow> []) @
     (case rx_str (tx_regex L) M115_MACHINE_TYPE_RE line of
        Some m \<Rightarrow> [(''machine_type'', trim (cap m 1))] | None \<Rightarrow> []) @
     parse_m115_firmware_info L ls"

text \<open>The first line with both limits decides, even when its numbers do not parse.\<close>

fun parse_m211_endstops :: "text_lib \<Rightarrow> string list \<Rightarrow> (f64 \<times> f64) option" where
  "parse_m211_endstops L [] = None"
| "parse_m211_endstops L (line # ls) =
     (case rx_str (tx_regex L) M211_MAX_RE line of
        None \<Rightarrow> parse_m211_endstops L ls
      | Some m \<Rightarrow>
          (case (parse_f64 (cap m 1), parse_f64 (cap m 2)) of
             (Some x, Some y) \<Rightarrow> Some (x, y) | _ \<Rightarrow> None))"

fun parse_m503_settings :: "text_lib \<Rightarrow> string list \<Rightarrow> (string \<times> f64) list" where
  "parse_m503_settings L [] = []"
| "parse_m503_settings L (line # ls) =
     (case rx_str (tx_regex L) M203_FEEDRATE_RE line of
        None \<Rightarrow> []
      | Some m \<Rightarrow>
          (case (parse_f64 (cap m 1), parse_f64 (cap m 2)) of
             (Some x, Some y) \<Rightarrow> [(''max_feedrate_x'', x), (''max_feedrate_y'', y)] | _ \<Rightarrow> [])) @
     (case rx_str (tx_regex L) M204_ACCEL_RE line of
        None \<Rightarrow> []
      | Some m \<Rightarrow> (case parse_f64 (cap m 1) of Some a \<Rightarrow> [(''acceleration'', a)] | None \<Rightarrow> [])) @
     parse_m503_settings L ls"

definition extract_marlin_device_name :: "text_lib \<Rightarrow> string list \<Rightarrow> string list \<Rightarrow> string" where
  "extract_marlin_device_name L m115_lines boot_lines =
     (let info = parse_m115_firmware_info L m115_lines;
          machine = map_of info ''machine_type'';
          firmware = map_of info ''firmware_name'';
          from_boot = (case find_map (parse_marlin_version L) boot_lines of
                         Some version \<Rightarrow> ''Marlin '' @ version | None \<Rightarrow> ''Unknown Marlin Device'');
          from_firmware = (case firmware of Some name \<Rightarrow> if name \<noteq> [] then name else from_boot | None \<Rightarrow> from_boot)
      in case machine of
           None \<Rightarrow> from_firmware
         | Some name \<Rightarrow>
             if list_ex (\<lambda>g. tx_lower L name = g) [''3d printer'', ''default''] then from_firmware else name)"

definition detect_unit_system_from_m149 :: "text_lib \<Rightarrow> string list \<Rightarrow> UnitSystem option" where
  "detect_unit_system_from_m149 L ls =
     find_map (\<lambda>line. map_option
       (\<lambda>m. if tx_lower L (cap m 1) \<in> set [''inches'', ''inch'', ''in''] then Imperial else Metric)
       (rx_str (tx_regex L) M149_UNITS_RE line)) ls"

section \<open>Acknowledgements\<close>

text \<open>A line is never both an acknowledgement and an error.\<close>

lemma ok_not_error: "is_ok L line \<Longrightarrow> \<not> is_error line"
  by (auto simp: is_ok_def is_error_def Let_def starts_with_iff)

end
