(* ===== verification/Marlin.thy ===== *)
theory Marlin
  imports Marlin_Parser Line_Rx Async Grbl_Ops
begin

text \<open>
  The Marlin session, \<^verbatim>\<open>src/marlin/session.rs\<close>: ping-pong exchange with a queue of
  outstanding commands, because the position poll (\<^verbatim>\<open>M114\<close>) does not take the command lock.
  Waiting commands live in a store (\<open>ma_cmds\<close>), the queue \<open>ma_pending_queue\<close> holds indices.
  Three components are not state of the session but of the tasks around it: \<open>ma_poll\<close> is the
  poll in flight, \<open>ma_theirs\<close> the exchange of the caller that holds the lock, \<open>ma_callers\<close>
  lists the commands other callers will send, in the order in which they get the lock.
\<close>

section \<open>Configuration and state\<close>

record MarlinConfig =
  mac_transport :: TransportKind
  mac_poll_status_while_running :: bool
  mac_command_timeout :: f64
  mac_handshake_timeout :: f64
  mac_handshake_poll_interval :: f64
  mac_status_poll_interval :: f64
  mac_reconnect_delay :: f64
  mac_connect_settle :: f64

definition MarlinConfig_new :: "TransportKind \<Rightarrow> MarlinConfig" where
  "MarlinConfig_new kind =
     \<lparr>mac_transport = kind, mac_poll_status_while_running = False, mac_command_timeout = f64_lit 30 0,
      mac_handshake_timeout = f64_lit 5 0, mac_handshake_poll_interval = f64_lit 5 1,
      mac_status_poll_interval = f64_lit 2 0, mac_reconnect_delay = f64_lit 5 0,
      mac_connect_settle = f64_lit 1 0\<rparr>"

record MarlinCore =
  ma_config :: MarlinConfig
  ma_dialect :: Dialect
  ma_events :: "event list"
  ma_transport :: Transport
  ma_state :: DeviceState
  ma_keep_running :: bool
  ma_job_running :: bool
  ma_is_cancelled :: bool
  ma_handshake_received :: AsyncEvent
  ma_connected :: AsyncEvent
  ma_line_buffer :: bytes
  ma_pending_queue :: "nat list"
  ma_job_exception :: "SessionError option"
  ma_last_reported_op_index :: int
  ma_cmd_lock :: lock
  ma_cmds :: "PendingCmd list"
  ma_poll :: "nat option"
  ma_theirs :: "nat option"
  ma_callers :: "string list"

definition MarlinCore_new :: "MarlinConfig \<Rightarrow> Dialect \<Rightarrow> MarlinCore" where
  "MarlinCore_new cfg d =
     \<lparr>ma_config = cfg, ma_dialect = d, ma_events = [], ma_transport = build (mac_transport cfg),
      ma_state = DeviceState_default, ma_keep_running = False, ma_job_running = False,
      ma_is_cancelled = False,
      ma_handshake_received = AsyncEvent_new, ma_connected = AsyncEvent_new, ma_line_buffer = [], ma_pending_queue = [],
      ma_job_exception = None, ma_last_reported_op_index = -1, ma_cmd_lock = Free, ma_cmds = [],
      ma_poll = None, ma_theirs = None, ma_callers = []\<rparr>"

definition marlin_emit :: "event list \<Rightarrow> MarlinCore \<Rightarrow> MarlinCore" where
  "marlin_emit evs w = w\<lparr>ma_events := ma_events w @ evs\<rparr>"

definition marlin_is_job_running :: "MarlinCore \<Rightarrow> bool" where
  "marlin_is_job_running w = ma_job_running w"

definition marlin_resource_uri :: "MarlinCore \<Rightarrow> string option" where
  "marlin_resource_uri w = resource_uri (ma_transport w)"

definition marlin_update_dialect :: "Dialect \<Rightarrow> MarlinCore \<Rightarrow> MarlinCore" where
  "marlin_update_dialect d w = w\<lparr>ma_dialect := d\<rparr>"

definition marlin_set_state :: "DeviceState \<Rightarrow> MarlinCore \<Rightarrow> MarlinCore" where
  "marlin_set_state st w = marlin_emit [StateChanged st] (w\<lparr>ma_state := st\<rparr>)"

definition marlin_update_connection_status :: "TransportStatus \<Rightarrow> string option \<Rightarrow> MarlinCore \<Rightarrow> MarlinCore" where
  "marlin_update_connection_status st msg w = marlin_emit [ConnectionStatus st msg] w"

text \<open>\<^verbatim>\<open>self.transport.write(..)\<close>, with the error as a session error.\<close>

definition marlin_write :: "bytes \<Rightarrow> MarlinCore \<Rightarrow> (SessionError, unit) result \<times> MarlinCore" where
  "marlin_write data w =
     (case tr_write data (ma_transport w) of
        (Inl e, t) \<Rightarrow> (Inl (session_error_from_transport e), w\<lparr>ma_transport := t\<rparr>)
      | (Inr u, t) \<Rightarrow> (Inr (), w\<lparr>ma_transport := t\<rparr>))"

section \<open>The waiting command\<close>

definition marlin_update_cmd :: "nat \<Rightarrow> (PendingCmd \<Rightarrow> PendingCmd) \<Rightarrow> MarlinCore \<Rightarrow> MarlinCore" where
  "marlin_update_cmd i f w = w\<lparr>ma_cmds := (ma_cmds w)[i := f (ma_cmds w ! i)]\<rparr>"

text \<open>The front of the queue owns the next line and the next acknowledgement.\<close>

definition marlin_finish_pending :: "string option \<Rightarrow> MarlinCore \<Rightarrow> MarlinCore" where
  "marlin_finish_pending last_line w =
     (case ma_pending_queue w of
        [] \<Rightarrow> w
      | i # _ \<Rightarrow>
          if pd_is_finished (ma_cmds w ! i) then w
          else let w = (case last_line of Some l \<Rightarrow> marlin_update_cmd i (pd_add_line l) w | None \<Rightarrow> w)
               in marlin_update_cmd i pd_finish w)"

definition marlin_collect_for_pending :: "string \<Rightarrow> MarlinCore \<Rightarrow> MarlinCore" where
  "marlin_collect_for_pending line w =
     (case ma_pending_queue w of
        [] \<Rightarrow> w
      | i # _ \<Rightarrow> if pd_is_finished (ma_cmds w ! i) then w else marlin_update_cmd i (pd_add_line line) w)"

definition marlin_resolve_pending :: "MarlinCore \<Rightarrow> MarlinCore" where
  "marlin_resolve_pending w =
     (let queued = ma_pending_queue w
      in fold (\<lambda>i. marlin_update_cmd i pd_finish) queued (w\<lparr>ma_pending_queue := []\<rparr>))"

text \<open>\<^verbatim>\<open>retain\<close>: the entry of one command leaves the queue.\<close>

definition marlin_drop_entry :: "nat \<Rightarrow> MarlinCore \<Rightarrow> MarlinCore" where
  "marlin_drop_entry i w = w\<lparr>ma_pending_queue := filter (\<lambda>j. j \<noteq> i) (ma_pending_queue w)\<rparr>"

section \<open>Received lines\<close>

definition marlin_halt_job :: "string \<Rightarrow> MarlinCore \<Rightarrow> MarlinCore" where
  "marlin_halt_job msg w = (if ma_job_running w then w\<lparr>ma_job_exception := Some (Err_Device msg)\<rparr> else w)"

definition marlin_handle_error_line :: "text_lib \<Rightarrow> string \<Rightarrow> MarlinCore \<Rightarrow> MarlinCore" where
  "marlin_handle_error_line L line w =
     (let message = parse_error_message L line;
          w = (if dev_error (ma_state w) = None
               then marlin_set_state ((ma_state w)\<lparr>dev_error := Some (DeviceError_new (-1) ''Device Error'' message)\<rparr>) w
               else w);
          w = marlin_finish_pending (Some line) w
      in marlin_halt_job (''Device error: '' @ line) w)"

definition marlin_handle_position_report :: "text_lib \<Rightarrow> string \<Rightarrow> MarlinCore \<Rightarrow> MarlinCore" where
  "marlin_handle_position_report L line w =
     (case parse_m114_line L line of
        None \<Rightarrow> w
      | Some (x, y, z) \<Rightarrow>
          let st = (ma_state w)\<lparr>machine_pos := [Some x, Some y, Some z], work_pos := [Some x, Some y, Some z]\<rparr>
          in marlin_set_state (if status st = Unknown then st\<lparr>status := Idle\<rparr> else st) w)"

definition marlin_maybe_announce_handshake :: "MarlinCore \<Rightarrow> MarlinCore" where
  "marlin_maybe_announce_handshake w =
     (if AsyncEvent_is_set (ma_handshake_received w) then w
      else w\<lparr>ma_handshake_received := AsyncEvent_set (ma_handshake_received w)\<rparr>)"

definition marlin_handle_line :: "text_lib \<Rightarrow> string \<Rightarrow> MarlinCore \<Rightarrow> MarlinCore" where
  "marlin_handle_line L line w =
     (let w = marlin_emit [RawRx line] (marlin_maybe_announce_handshake w)
      in if is_ok L line then marlin_finish_pending (Some line) w
         else if is_error line then marlin_handle_error_line L line w
         else if is_m114_position L line
         then marlin_collect_for_pending line (marlin_handle_position_report L line w)
         else marlin_collect_for_pending line w)"

definition marlin_handle_rx :: "text_lib \<Rightarrow> bytes \<Rightarrow> MarlinCore \<Rightarrow> MarlinCore" where
  "marlin_handle_rx L data w =
     (case drain_lines (ma_line_buffer w @ data) of
        (new_lines, rest) \<Rightarrow> fold (marlin_handle_line L) new_lines (w\<lparr>ma_line_buffer := rest\<rparr>))"

section \<open>The rest of the system\<close>

text \<open>\<^verbatim>\<open>cancel\<close> up to its first suspension point.\<close>

definition marlin_cancel_begin :: "MarlinCore \<Rightarrow> MarlinCore" where
  "marlin_cancel_begin w =
     (let w = w\<lparr>ma_is_cancelled := True, ma_job_running := False\<rparr>;
          w = marlin_resolve_pending w
      in w\<lparr>ma_line_buffer := []\<rparr>)"

text \<open>\<^verbatim>\<open>execute_command\<close> up to the command lock.\<close>

definition marlin_forget_cancel :: "MarlinCore \<Rightarrow> MarlinCore" where
  "marlin_forget_cancel w = (if \<not> ma_job_running w then w\<lparr>ma_is_cancelled := False\<rparr> else w)"

text \<open>\<^verbatim>\<open>enqueue_and_wait\<close> up to its wait: the entry joins the queue, the line is written.\<close>

definition marlin_send :: "string \<Rightarrow> MarlinCore \<Rightarrow> (SessionError, unit) result \<times> MarlinCore" where
  "marlin_send cmd w =
     marlin_write (with_newline cmd)
       (marlin_emit [RawTx cmd]
         (w\<lparr>ma_cmds := ma_cmds w @ [PendingCmd_new],
            ma_pending_queue := ma_pending_queue w @ [length (ma_cmds w)]\<rparr>))"

text \<open>
  The connection task runs: once the device has announced itself it declares the session connected;
  then it starts a poll when one is due, or is woken by the acknowledgement of the poll in flight
  and drops its entry. A poll whose deadline passes drops its entry as well; that ends the
  connection.
\<close>

definition marlin_poll_task :: "bool \<Rightarrow> MarlinCore \<Rightarrow> MarlinCore" where
  "marlin_poll_task expired w =
     (case ma_poll w of
        Some i \<Rightarrow>
          if pd_is_finished (ma_cmds w ! i) then (marlin_drop_entry i w)\<lparr>ma_poll := None\<rparr>
          else if expired
          then (marlin_drop_entry i w)\<lparr>ma_poll := None, ma_transport := tr_close (ma_transport w), ma_line_buffer := []\<rparr>
          else w
      | None \<Rightarrow>
          if \<not> AsyncEvent_is_set (ma_connected w) then
            (if \<not> expired \<and> ma_keep_running w \<and> AsyncEvent_is_set (ma_handshake_received w)
             then marlin_update_connection_status T_Connected None (w\<lparr>ma_connected := AsyncEvent_set (ma_connected w)\<rparr>)
             else w)
          else if \<not> expired \<and> ma_keep_running w \<and> tr_is_open (ma_transport w) \<and>
            (mac_poll_status_while_running (ma_config w) \<or> \<not> ma_job_running w)
          then (case marlin_send ''M114'' w of
                  (Inl e, w') \<Rightarrow> marlin_drop_entry (length (ma_cmds w)) w'
                | (Inr _, w') \<Rightarrow> w'\<lparr>ma_poll := Some (length (ma_cmds w))\<rparr>)
          else w)"

text \<open>
  The other tasks: the reader hands over chunks, \<^verbatim>\<open>cancel\<close> starts, the link goes down, the
  connection task runs, another caller enters \<^verbatim>\<open>execute_command\<close> and sends its command if the lock is free,
  or is done with its exchange.
\<close>

fun marlin_env :: "text_lib \<Rightarrow> env_event \<Rightarrow> MarlinCore \<Rightarrow> MarlinCore" where
  "marlin_env L (EvRx data) w = marlin_handle_rx L data w"
| "marlin_env L EvTimer w = w"
| "marlin_env L EvCancel w = marlin_cancel_begin w"
| "marlin_env L EvLinkDown w = w\<lparr>ma_transport := tr_close (ma_transport w)\<rparr>"
| "marlin_env L (EvTask expired) w = marlin_poll_task expired w"
| "marlin_env L EvLockTaken w =
     (let w = marlin_forget_cancel w
      in if ma_cmd_lock w = Free \<and> AsyncEvent_is_set (ma_connected w) \<and> tr_is_open (ma_transport w) then
           (case ma_callers w of
              [] \<Rightarrow> w
            | c # cs \<Rightarrow>
                (case marlin_send c (w\<lparr>ma_callers := cs\<rparr>) of
                   (Inl e, w') \<Rightarrow> marlin_drop_entry (length (ma_cmds w)) w'
                 | (Inr _, w') \<Rightarrow> w'\<lparr>ma_cmd_lock := Theirs, ma_theirs := Some (length (ma_cmds w))\<rparr>))
         else w)"
| "marlin_env L EvLockFreed w =
     (if ma_cmd_lock w = Theirs then
        (case ma_theirs w of None \<Rightarrow> w | Some i \<Rightarrow> marlin_drop_entry i w)\<lparr>ma_cmd_lock := Free, ma_theirs := None\<rparr>
      else w)"

definition marlin_acquire :: "text_lib \<Rightarrow> MarlinCore \<Rightarrow> env_event list \<Rightarrow> (unit, MarlinCore) outcome" where
  "marlin_acquire L w es =
     bindA (await (marlin_env L) (\<lambda>w. ma_cmd_lock w = Free) w es) (\<lambda>_ w es. Ret () (w\<lparr>ma_cmd_lock := Mine\<rparr>) es)"

definition marlin_release :: "MarlinCore \<Rightarrow> MarlinCore" where
  "marlin_release w = w\<lparr>ma_cmd_lock := Free\<rparr>"

section \<open>Command exchange\<close>

definition marlin_done :: "nat \<Rightarrow> MarlinCore \<Rightarrow> bool" where
  "marlin_done i w = pd_is_finished (ma_cmds w ! i)"

definition marlin_not_connected :: SessionError where
  "marlin_not_connected = Err_Connection ''Serial transport not connected''"

definition marlin_enqueue_and_wait ::
  "text_lib \<Rightarrow> string \<Rightarrow> bool \<Rightarrow> MarlinCore \<Rightarrow> env_event list \<Rightarrow> ((SessionError, string list) result, MarlinCore) outcome" where
  "marlin_enqueue_and_wait L cmd serialize w es =
     bindA (if serialize then marlin_acquire L w es else Ret () w es) (\<lambda>_ w es.
       let unlock = (\<lambda>w. if serialize then marlin_release w else w)
       in if \<not> tr_is_open (ma_transport w) then Ret (Inl marlin_not_connected) (unlock w) es
          else
            let i = length (ma_cmds w)
            in bindA (case marlin_send cmd w of
                        (Inl e, w) \<Rightarrow> Ret (Inl e) w es
                      | (Inr _, w) \<Rightarrow>
                          bindA (await_timeout (marlin_env L) (marlin_done i) w es)
                            (\<lambda>ok w es. Ret (if ok then Inr () else Inl Err_Timeout) w es))
                 (\<lambda>r w es.
                    let w = unlock (marlin_drop_entry i w)
                    in case r of
                         Inl e \<Rightarrow> Ret (Inl e) w es
                       | Inr _ \<Rightarrow> Ret (Inr (pd_lines (ma_cmds w ! i))) w es))"

definition marlin_ping_pong ::
  "text_lib \<Rightarrow> string \<Rightarrow> MarlinCore \<Rightarrow> env_event list \<Rightarrow> ((SessionError, string list) result, MarlinCore) outcome" where
  "marlin_ping_pong L cmd w es =
     bindA (if AsyncEvent_is_set (ma_connected w) then Ret True w es
            else await_timeout (marlin_env L) (\<lambda>w. AsyncEvent_is_set (ma_connected w)) w es)
       (\<lambda>announced w es.
          if \<not> announced then Ret (Inl (Err_Connection ''device did not announce itself'')) w es
          else if \<not> tr_is_open (ma_transport w) then Ret (Inl marlin_not_connected) w es
          else marlin_enqueue_and_wait L cmd True w es)"

definition marlin_execute_command ::
  "text_lib \<Rightarrow> string \<Rightarrow> MarlinCore \<Rightarrow> env_event list \<Rightarrow> ((SessionError, string list) result, MarlinCore) outcome" where
  "marlin_execute_command L cmd w es = marlin_ping_pong L cmd (marlin_forget_cancel w) es"

definition marlin_execute_interactive_command ::
  "text_lib \<Rightarrow> string \<Rightarrow> MarlinCore \<Rightarrow> env_event list \<Rightarrow> ((SessionError, string list) result, MarlinCore) outcome" where
  "marlin_execute_interactive_command L cmd w es = marlin_execute_command L cmd w es"

section \<open>Jobs\<close>

definition marlin_start_job :: "MarlinCore \<Rightarrow> MarlinCore" where
  "marlin_start_job w =
     (let w = w\<lparr>ma_is_cancelled := False, ma_job_running := True,
               ma_last_reported_op_index := -1, ma_job_exception := None\<rparr>
      in marlin_set_state ((ma_state w)\<lparr>status := Run\<rparr>) w)"

definition marlin_stop :: "MarlinCore \<Rightarrow> bool" where
  "marlin_stop w \<longleftrightarrow> ma_is_cancelled w"

definition marlin_report_op :: "int option \<Rightarrow> MarlinCore \<Rightarrow> MarlinCore" where
  "marlin_report_op op w =
     (case op of
        None \<Rightarrow> w
      | Some op_index \<Rightarrow>
          if op_index \<noteq> ma_last_reported_op_index w
          then marlin_emit [CommandDone op_index] (w\<lparr>ma_last_reported_op_index := op_index\<rparr>)
          else w)"

text \<open>
  The loop over the lines; the value says whether an exchange failed. \<^verbatim>\<open>yield_now\<close> lets the
  other tasks run for a while.
\<close>

fun marlin_run_lines ::
  "text_lib \<Rightarrow> (nat \<rightharpoonup> int) \<Rightarrow> nat \<Rightarrow> string list \<Rightarrow> MarlinCore \<Rightarrow> env_event list \<Rightarrow> (bool, MarlinCore) outcome" where
  "marlin_run_lines L op_map idx [] w es = Ret False w es"
| "marlin_run_lines L op_map idx (raw_line # rest) w es =
     (if marlin_stop w then Ret False w es
      else
        let line = trim raw_line
        in if line = [] then marlin_run_lines L op_map (Suc idx) rest w es
           else bindA (marlin_ping_pong L line (marlin_report_op (op_map idx) w) es)
             (\<lambda>r w es. case r of
                Inr _ \<Rightarrow>
                  if ma_job_exception w \<noteq> None then Ret False w es
                  else bindA (sleep (marlin_env L) w es)
                         (\<lambda>_ w es. marlin_run_lines L op_map (Suc idx) rest w es)
              | Inl e \<Rightarrow> Ret True w es))"

definition marlin_send_safety_shutdown :: "bool \<Rightarrow> MarlinCore \<Rightarrow> MarlinCore" where
  "marlin_send_safety_shutdown emergency w =
     w\<lparr>ma_transport := write_each tr_is_open tr_write
         (map with_newline (shutdown_commands (ma_dialect w) emergency)) (ma_transport w)\<rparr>"

definition marlin_run ::
  "text_lib \<Rightarrow> string \<Rightarrow> (nat \<rightharpoonup> int) \<Rightarrow> MarlinCore \<Rightarrow> env_event list \<Rightarrow> (unit, MarlinCore) outcome" where
  "marlin_run L gcode op_map w es =
     bindA (marlin_run_lines L op_map 0 (lines gcode) (marlin_start_job w) es) (\<lambda>interrupted w es.
       let had_exception = (ma_job_exception w \<noteq> None);
           was_cancelled = ma_is_cancelled w;
           w = w\<lparr>ma_job_exception := None, ma_job_running := False\<rparr>;
           w = (if had_exception \<or> interrupted then marlin_send_safety_shutdown True w else w)
       in Ret () (if \<not> was_cancelled then marlin_emit [JobFinished] w else w) es)"

definition marlin_run_raw ::
  "text_lib \<Rightarrow> string \<Rightarrow> MarlinCore \<Rightarrow> env_event list \<Rightarrow> (unit, MarlinCore) outcome" where
  "marlin_run_raw L machine_code w es =
     (let ls = filter (\<lambda>l. l \<noteq> []) (map trim (lines machine_code))
      in if ls = [] then Ret () w es else marlin_run L (join_lines ls) Map.empty w es)"

section \<open>Cancel\<close>

definition marlin_cancel :: "bool \<Rightarrow> MarlinCore \<Rightarrow> (SessionError, unit) result \<times> MarlinCore" where
  "marlin_cancel emergency w =
     (let job_was_running = ma_job_running w;
          w = marlin_cancel_begin w
      in if \<not> tr_is_open (ma_transport w) then (Inl marlin_not_connected, w)
         else case marlin_write (with_newline ''M410'') w of
           (Inl e, w) \<Rightarrow> (Inl e, w)
         | (Inr _, w) \<Rightarrow>
             let w = marlin_send_safety_shutdown emergency w
             in (Inr (), if job_was_running then marlin_emit [JobFinished] w else w))"

section \<open>Connecting\<close>

text \<open>
  \<^verbatim>\<open>cleanup\<close> and \<^verbatim>\<open>connect\<close>; the tasks that are aborted are those whose script ends.
\<close>

definition marlin_cleanup :: "MarlinCore \<Rightarrow> MarlinCore" where
  "marlin_cleanup w =
     (let w = w\<lparr>ma_keep_running := False, ma_job_running := False\<rparr>;
          w = marlin_resolve_pending w;
          w = w\<lparr>ma_transport := tr_close (ma_transport w)\<rparr>
      in marlin_update_connection_status T_Disconnected None w)"

definition marlin_connect :: "MarlinCore \<Rightarrow> MarlinCore" where
  "marlin_connect w = (marlin_cleanup w)\<lparr>ma_keep_running := True\<rparr>"

definition marlin_await_handshake :: "text_lib \<Rightarrow> MarlinCore \<Rightarrow> env_event list \<Rightarrow> (bool, MarlinCore) outcome" where
  "marlin_await_handshake L w es =
     await_timeout (marlin_env L) (\<lambda>w. AsyncEvent_is_set (ma_handshake_received w)) w es"

lemma marlin_acquire_le: "length (events_left (marlin_acquire L w es)) \<le> length es"
  unfolding marlin_acquire_def by (rule bindA_le [OF await_le]) simp

lemma marlin_enqueue_le: "length (events_left (marlin_enqueue_and_wait L cmd b w es)) \<le> length es"
  unfolding marlin_enqueue_and_wait_def Let_def
  by (auto intro!: bindA_le order_trans [OF marlin_acquire_le] order_trans [OF await_timeout_le]
      split: prod.splits sum.splits)

lemma marlin_enqueue_left:
  "marlin_enqueue_and_wait L cmd b w es = Ret r w' es' \<Longrightarrow> length es' \<le> length es"
  using marlin_enqueue_le [of L cmd b w es] by simp

function marlin_position_poll_loop :: "text_lib \<Rightarrow> MarlinCore \<Rightarrow> env_event list \<Rightarrow> (unit, MarlinCore) outcome" where
  "marlin_position_poll_loop L w es =
     bindA (sleep (marlin_env L) w es) (\<lambda>_ w es.
       if \<not> tr_is_open (ma_transport w) \<or> \<not> ma_keep_running w then Ret () w es
       else if mac_poll_status_while_running (ma_config w) \<or> \<not> ma_job_running w then
         bindA (marlin_enqueue_and_wait L ''M114'' False w es) (\<lambda>r w es.
           case r of Inl e \<Rightarrow> Ret () w es | Inr _ \<Rightarrow> marlin_position_poll_loop L w es)
       else marlin_position_poll_loop L w es)"
  by pat_completeness auto
termination
  by (relation "measure (\<lambda>(L, w, es). length es)") (auto dest!: sleep_shorter marlin_enqueue_left)

declare marlin_position_poll_loop.simps [simp del]

definition marlin_link_session :: "text_lib \<Rightarrow> MarlinCore \<Rightarrow> env_event list \<Rightarrow> (unit, MarlinCore) outcome" where
  "marlin_link_session L w es =
     bindA (bindA (marlin_await_handshake L w es) (\<lambda>ok w es.
              if ok then
                bindA (sleep (marlin_env L) w es) (\<lambda>_ w es.
                  marlin_position_poll_loop L
                    (marlin_update_connection_status T_Connected None
                      (w\<lparr>ma_connected := AsyncEvent_set (ma_connected w)\<rparr>)) es)
              else Ret () (marlin_update_connection_status T_Error (Some ''No response from device'') w) es))
       (\<lambda>_ w es. Ret () (w\<lparr>ma_transport := tr_close (ma_transport w), ma_line_buffer := []\<rparr>) es)"

definition marlin_open_link :: "text_lib \<Rightarrow> MarlinCore \<Rightarrow> env_event list \<Rightarrow> (unit, MarlinCore) outcome" where
  "marlin_open_link L w es =
     (let w = w\<lparr>ma_handshake_received := AsyncEvent_clear (ma_handshake_received w)\<rparr>
      in case tr_open (ma_transport w) of
           (Inl e, t) \<Rightarrow>
             Ret () (marlin_update_connection_status T_Error (Some (transport_error_msg e)) (w\<lparr>ma_transport := t\<rparr>)) es
         | (Inr _, t) \<Rightarrow> marlin_link_session L (w\<lparr>ma_transport := t\<rparr>) es)"

text \<open>One round per connection attempt; every round but the last ends with a timer event.\<close>

fun marlin_connection_rounds :: "nat \<Rightarrow> text_lib \<Rightarrow> MarlinCore \<Rightarrow> env_event list \<Rightarrow> (unit, MarlinCore) outcome" where
  "marlin_connection_rounds 0 L w es = Blocked w"
| "marlin_connection_rounds (Suc n) L w es =
     (if \<not> ma_keep_running w then Ret () w es
      else bindA (marlin_open_link L w es) (\<lambda>_ w es.
             if \<not> ma_keep_running w then Ret () w es
             else bindA (sleep (marlin_env L) (marlin_update_connection_status T_Sleeping None w) es)
                    (\<lambda>_ w es. marlin_connection_rounds n L w es)))"

definition marlin_connection_loop :: "text_lib \<Rightarrow> MarlinCore \<Rightarrow> env_event list \<Rightarrow> (unit, MarlinCore) outcome" where
  "marlin_connection_loop L w es = marlin_connection_rounds (Suc (length es)) L w es"

section \<open>Device operations\<close>

text \<open>\<^verbatim>\<open>execute_command(..).await?\<close> with the lines dropped.\<close>

definition marlin_command ::
  "text_lib \<Rightarrow> string \<Rightarrow> MarlinCore \<Rightarrow> env_event list \<Rightarrow> ((SessionError, unit) result, MarlinCore) outcome" where
  "marlin_command L cmd w es = tryA (marlin_execute_command L cmd w es) (\<lambda>_ w es. Ret (Inr ()) w es)"

definition marlin_formatted ::
  "text_lib \<Rightarrow> (string, string) result \<Rightarrow> MarlinCore \<Rightarrow> env_event list \<Rightarrow>
   ((SessionError, unit) result, MarlinCore) outcome" where
  "marlin_formatted L r w es =
     (case r of Inl m \<Rightarrow> Ret (Inl (Err_Other m)) w es | Inr cmd \<Rightarrow> marlin_command L cmd w es)"

fun marlin_home_axes ::
  "text_lib \<Rightarrow> string \<Rightarrow> string list \<Rightarrow> MarlinCore \<Rightarrow> env_event list \<Rightarrow> ((SessionError, unit) result, MarlinCore) outcome"
where
  "marlin_home_axes L tmpl [] w es = Ret (Inr ()) w es"
| "marlin_home_axes L tmpl (axis # axes) w es =
     tryA (marlin_formatted L (format_template tmpl [(''axis_letter'', StrArg axis)]) w es)
       (\<lambda>_ w es. marlin_home_axes L tmpl axes w es)"

definition marlin_clear_error :: "MarlinCore \<Rightarrow> MarlinCore" where
  "marlin_clear_error w = marlin_set_state ((ma_state w)\<lparr>dev_error := None\<rparr>) w"

definition marlin_home ::
  "text_lib \<Rightarrow> string list option \<Rightarrow> MarlinCore \<Rightarrow> env_event list \<Rightarrow> ((SessionError, unit) result, MarlinCore) outcome" where
  "marlin_home L axes w es =
     (let d = ma_dialect w in
      tryA (case axes of None \<Rightarrow> marlin_command L (home_all d) w es
                       | Some as \<Rightarrow> marlin_home_axes L (home_axis d) as w es)
        (\<lambda>_ w es. Ret (Inr ()) (marlin_clear_error w) es))"

definition marlin_move_to ::
  "text_lib \<Rightarrow> f64 \<Rightarrow> f64 \<Rightarrow> f64 \<Rightarrow> MarlinCore \<Rightarrow> env_event list \<Rightarrow> ((SessionError, unit) result, MarlinCore) outcome"
where
  "marlin_move_to L speed pos_x pos_y w es =
     marlin_formatted L (format_template (move_to_tmpl (ma_dialect w))
       [(''speed'', Speed speed), (''x'', Length pos_x), (''y'', Length pos_y)]) w es"

definition marlin_jog ::
  "text_lib \<Rightarrow> (string \<Rightarrow> string) \<Rightarrow> f64 \<Rightarrow> (string \<times> f64) list \<Rightarrow> MarlinCore \<Rightarrow> env_event list \<Rightarrow>
   ((SessionError, unit) result, MarlinCore) outcome" where
  "marlin_jog L uc speed deltas w es =
     (case format_template (jog_tmpl (ma_dialect w)) [(''speed'', Speed speed)] of
        Inl m \<Rightarrow> Ret (Inl (Err_Other m)) w es
      | Inr head \<Rightarrow>
          if deltas = [] then Ret (Inr ()) w es
          else marlin_command L
                 (join_space (head # map (\<lambda>(axis, dist). uc axis @ python_float_repr dist) deltas)) w es)"

definition marlin_select_tool ::
  "text_lib \<Rightarrow> int \<Rightarrow> MarlinCore \<Rightarrow> env_event list \<Rightarrow> ((SessionError, unit) result, MarlinCore) outcome" where
  "marlin_select_tool L tool_number w es =
     marlin_formatted L (format_template (tool_change (ma_dialect w)) [(''tool_number'', IntArg tool_number)]) w es"

definition marlin_clear_alarm ::
  "text_lib \<Rightarrow> MarlinCore \<Rightarrow> env_event list \<Rightarrow> ((SessionError, unit) result, MarlinCore) outcome" where
  "marlin_clear_alarm L w es =
     tryA (marlin_execute_command L (clear_alarm (ma_dialect w)) w es) (\<lambda>response w es.
       Ret (Inr ()) (if list_ex is_error response then w else marlin_clear_error w) es)"

definition marlin_set_power ::
  "text_lib \<Rightarrow> f64 option \<Rightarrow> MarlinCore \<Rightarrow> env_event list \<Rightarrow> ((SessionError, unit) result, MarlinCore) outcome" where
  "marlin_set_power L pw w es =
     (case positive_power pw of
        Some p \<Rightarrow> marlin_formatted L (format_template (laser_on (ma_dialect w)) [(''power'', Length p)]) w es
      | None \<Rightarrow> marlin_command L (laser_off (ma_dialect w)) w es)"

definition marlin_set_focus_power ::
  "text_lib \<Rightarrow> f64 option \<Rightarrow> MarlinCore \<Rightarrow> env_event list \<Rightarrow> ((SessionError, unit) result, MarlinCore) outcome" where
  "marlin_set_focus_power L pw w es =
     (case positive_power pw of
        Some p \<Rightarrow> marlin_formatted L (format_template (focus_laser_on (ma_dialect w)) [(''power'', Length p)]) w es
      | None \<Rightarrow> marlin_command L (laser_off (ma_dialect w)) w es)"

definition marlin_set_wcs_offset ::
  "text_lib \<Rightarrow> string \<Rightarrow> f64 \<Rightarrow> f64 \<Rightarrow> f64 option \<Rightarrow> MarlinCore \<Rightarrow> env_event list \<Rightarrow>
   ((SessionError, unit) result, MarlinCore) outcome" where
  "marlin_set_wcs_offset L wcs_slot x y z w es =
     (case gcode_to_p_number wcs_slot of
        None \<Rightarrow> Ret (Inl (Err_Other (''Invalid WCS slot: '' @ wcs_slot))) w es
      | Some p_num \<Rightarrow>
          (case format_wcs_offset (ma_dialect w) p_num x y z of
             None \<Rightarrow> Panicked w es
           | Some cmd \<Rightarrow> marlin_command L cmd w es))"

definition marlin_detect_unit_system ::
  "text_lib \<Rightarrow> MarlinCore \<Rightarrow> env_event list \<Rightarrow> ((SessionError, UnitSystem option) result, MarlinCore) outcome" where
  "marlin_detect_unit_system L w es =
     bindA (marlin_execute_interactive_command L ''M149'' w es) (\<lambda>r w es. case r of
       Inl _ \<Rightarrow> Ret (Inr None) w es
     | Inr ls \<Rightarrow> Ret (Inr (detect_unit_system_from_m149 L ls)) w es)"

end
