(* ===== verification/Links.thy ===== *)
theory Links
  imports Connection Simple Smoothie Marlin Grbl_Report
begin

text \<open>
  The connection tasks of the three ping-pong sessions, as instances of the loops of \<open>Connection\<close>
  (that of the full GRBL session is one in \<open>Grbl_Report\<close>).
\<close>

section \<open>The minimal GRBL session\<close>

interpretation simple_shake: handshake_polling "simple_env X" simple_poll
  "\<lambda>w. AsyncEvent_is_set (s_handshake_received w)" "simple_await_handshake X"
  "\<lambda>_. False" False True for X
  by unfold_locales (rule simple_await_handshake.simps)

interpretation simple_polls: polling "simple_env X" "\<lambda>w. tr_is_open (s_transport w) \<and> s_keep_running w"
  "simple_poll_round X" "simple_status_poll_loop X" for X
  by unfold_locales (rule simple_status_poll_loop.simps, rule simple_poll_round_le)

lemma simple_open_link_le: "length (events_left (simple_open_link X w es)) \<le> length es"
  unfolding simple_open_link_def simple_link_session_def Let_def
  by (auto split: prod.splits sum.splits
      intro!: bindA_le order_trans [OF simple_shake.shake_le] order_trans [OF simple_polls.loop_le])

interpretation simple_link: reconnecting "simple_env X" s_keep_running "simple_open_link X"
  "simple_update_connection_status T_Sleeping None" "\<lambda>n. simple_connection_rounds n X" for X
  by unfold_locales (simp_all add: simple_open_link_le)

section \<open>The Smoothieware session\<close>

interpretation smoothie_shake: handshake_polling "smoothie_env X" smoothie_poll
  "\<lambda>w. AsyncEvent_is_set (so_handshake_received w)" "smoothie_await_handshake X"
  "\<lambda>_. False" False True for X
  by unfold_locales (rule smoothie_await_handshake.simps)

interpretation smoothie_polls: polling "smoothie_env X" "\<lambda>w. tr_is_open (so_transport w) \<and> so_keep_running w"
  "smoothie_poll_round X" "smoothie_status_poll_loop X" for X
  by unfold_locales (rule smoothie_status_poll_loop.simps, rule smoothie_poll_round_le)

lemma smoothie_open_link_le: "length (events_left (smoothie_open_link X w es)) \<le> length es"
  unfolding smoothie_open_link_def smoothie_link_session_def Let_def
  by (auto split: prod.splits sum.splits
      intro!: bindA_le order_trans [OF smoothie_shake.shake_le] order_trans [OF smoothie_polls.loop_le])

interpretation smoothie_link: reconnecting "smoothie_env X" so_keep_running "smoothie_open_link X"
  "smoothie_update_connection_status T_Sleeping None" "\<lambda>n. smoothie_connection_rounds n X" for X
  by unfold_locales (simp_all add: smoothie_open_link_le)

section \<open>The Marlin session\<close>

lemma marlin_position_poll_le: "length (events_left (marlin_position_poll_loop L w es)) \<le> length es"
proof (induction "length es" arbitrary: w es rule: less_induct)
  case less
  show ?case
  proof (cases "sleep (marlin_env L) w es")
    case (Ret u v vs)
    have vs: "length vs < length es" using Ret by (rule sleep_shorter)
    have rec: "length (events_left (marlin_position_poll_loop L v' es')) \<le> length es" if "length es' \<le> length vs" for v' es'
      using less.hyps [of es' v'] that vs by simp
    have "length (events_left (bindA (marlin_enqueue_and_wait L ''M114'' False v vs) (\<lambda>r w es.
        case r of Inl e \<Rightarrow> Ret () w es | Inr _ \<Rightarrow> marlin_position_poll_loop L w es))) \<le> length es"
      using marlin_enqueue_le [of L "''M114''" False v vs] vs
      by (cases "marlin_enqueue_and_wait L ''M114'' False v vs") (auto split: sum.split intro: rec)
    then show ?thesis
      using vs rec [of vs v] by (subst marlin_position_poll_loop.simps) (simp add: Ret)
  qed (use sleep_le [of "marlin_env L" w es] in \<open>subst marlin_position_poll_loop.simps, simp\<close>)+
qed

lemma marlin_open_link_le: "length (events_left (marlin_open_link L w es)) \<le> length es"
  unfolding marlin_open_link_def marlin_link_session_def marlin_await_handshake_def Let_def
  by (auto split: prod.splits sum.splits
      intro!: bindA_le order_trans [OF await_timeout_le] order_trans [OF sleep_le] order_trans [OF marlin_position_poll_le])

interpretation marlin_link: reconnecting "marlin_env L" ma_keep_running "marlin_open_link L"
  "marlin_update_connection_status T_Sleeping None" "\<lambda>n. marlin_connection_rounds n L" for L
  by unfold_locales (simp_all add: marlin_open_link_le)



end
