(* ===== verification/Smoothie_Props.thy ===== *)
theory Smoothie_Props
  imports Smoothie Ping_Pong
begin

text \<open>
  The Smoothieware session as a ping-pong session: its receiver, its exchange and its job loop
  satisfy the contracts of \<open>Line_Rx\<close> and \<open>Ping_Pong\<close>, and what follows for jobs, replies,
  cancellation and late acknowledgements.
\<close>

section \<open>What a received line does\<close>

definition smoothie_class :: "string \<Rightarrow> line_role" where
  "smoothie_class l =
     (if l = ''ok'' then Finish (Some l)
      else if starts_with l ''error:'' then Finish (Some l)
      else if starts_with l ''<'' \<and> ends_with l ''>'' then Skip
      else if starts_with l ''ALARM:'' then Finish (Some l)
      else Gather)"

lemmas smoothie_line_defs = smoothie_handle_line_def smoothie_handle_error_line_def smoothie_handle_alarm_def
  smoothie_handle_status_report_def smoothie_set_device_error_def smoothie_halt_job_def smoothie_set_handshake_def
  smoothie_emit_state_if_changed_def smoothie_set_state_def smoothie_emit_def smoothie_finish_pending_def
  smoothie_collect_def smoothie_update_cmd_def

lemma smoothie_line_frame:
  "so_transport (smoothie_handle_line X l w) = so_transport w"
  "so_pending (smoothie_handle_line X l w) = so_pending w"
  "so_cmd_lock (smoothie_handle_line X l w) = so_cmd_lock w"
  "so_job_running (smoothie_handle_line X l w) = so_job_running w"
  "so_is_cancelled (smoothie_handle_line X l w) = so_is_cancelled w"
  "so_dialect (smoothie_handle_line X l w) = so_dialect w"
  "so_line_buffer (smoothie_handle_line X l w) = so_line_buffer w"
  "jobs_finished (so_events (smoothie_handle_line X l w)) = jobs_finished (so_events w)"
  by (auto simp: smoothie_line_defs Let_def split: option.splits)

lemma smoothie_parts_buffer:
  "smoothie_emit evs (w\<lparr>so_line_buffer := b\<rparr>) = (smoothie_emit evs w)\<lparr>so_line_buffer := b\<rparr>"
  "smoothie_set_state st (w\<lparr>so_line_buffer := b\<rparr>) = (smoothie_set_state st w)\<lparr>so_line_buffer := b\<rparr>"
  "smoothie_set_handshake (w\<lparr>so_line_buffer := b\<rparr>) = (smoothie_set_handshake w)\<lparr>so_line_buffer := b\<rparr>"
  "smoothie_update_cmd i f (w\<lparr>so_line_buffer := b\<rparr>) = (smoothie_update_cmd i f w)\<lparr>so_line_buffer := b\<rparr>"
  "smoothie_halt_job m (w\<lparr>so_line_buffer := b\<rparr>) = (smoothie_halt_job m w)\<lparr>so_line_buffer := b\<rparr>"
  by (simp_all add: smoothie_emit_def smoothie_set_state_def smoothie_set_handshake_def smoothie_update_cmd_def smoothie_halt_job_def)

lemma smoothie_handlers_buffer:
  "smoothie_finish_pending o' (w\<lparr>so_line_buffer := b\<rparr>) = (smoothie_finish_pending o' w)\<lparr>so_line_buffer := b\<rparr>"
  "smoothie_collect l (w\<lparr>so_line_buffer := b\<rparr>) = (smoothie_collect l w)\<lparr>so_line_buffer := b\<rparr>"
  "smoothie_set_device_error e (w\<lparr>so_line_buffer := b\<rparr>) = (smoothie_set_device_error e w)\<lparr>so_line_buffer := b\<rparr>"
  "smoothie_emit_state_if_changed st (w\<lparr>so_line_buffer := b\<rparr>) = (smoothie_emit_state_if_changed st w)\<lparr>so_line_buffer := b\<rparr>"
  by (simp_all add: smoothie_finish_pending_def smoothie_collect_def smoothie_set_device_error_def
      smoothie_emit_state_if_changed_def smoothie_parts_buffer Let_def split: option.split)

lemma smoothie_line_buffer:
  "smoothie_handle_line X l (w\<lparr>so_line_buffer := b\<rparr>) = (smoothie_handle_line X l w)\<lparr>so_line_buffer := b\<rparr>"
proof -
  have report: "smoothie_handle_status_report X l (v\<lparr>so_line_buffer := b\<rparr>) =
      (smoothie_handle_status_report X l v)\<lparr>so_line_buffer := b\<rparr>" for v
    unfolding smoothie_handle_status_report_def Let_def smoothie_parts_buffer
    by (simp add: smoothie_handlers_buffer smoothie_set_handshake_def)
  show ?thesis
    by (simp add: smoothie_handle_line_def smoothie_handle_error_line_def smoothie_handle_alarm_def report
        smoothie_handlers_buffer smoothie_parts_buffer Let_def split: option.split)
qed

lemma smoothie_finish_cmds:
  "so_cmds (smoothie_finish_pending last_line w) =
     (case so_pending w of None \<Rightarrow> so_cmds w
      | Some i \<Rightarrow> (so_cmds w)[i := give (Finish last_line) l (so_cmds w ! i)])"
proof (cases "so_pending w")
  case (Some i)
  then show ?thesis
    by (cases "i < length (so_cmds w)"; cases last_line)
      (simp_all add: smoothie_finish_pending_def smoothie_update_cmd_def give_def list_update_beyond Let_def)
qed (simp add: smoothie_finish_pending_def)

lemma smoothie_collect_cmds:
  "so_cmds (smoothie_collect l w) =
     (case so_pending w of None \<Rightarrow> so_cmds w | Some i \<Rightarrow> (so_cmds w)[i := give Gather l (so_cmds w ! i)])"
  by (simp add: smoothie_collect_def smoothie_update_cmd_def give_def split: option.split)

lemma smoothie_parts_cmds:
  "so_cmds (smoothie_emit evs w) = so_cmds w" "so_pending (smoothie_emit evs w) = so_pending w"
  "so_cmds (smoothie_set_state st w) = so_cmds w" "so_pending (smoothie_set_state st w) = so_pending w"
  "so_cmds (smoothie_set_handshake w) = so_cmds w" "so_cmds (smoothie_halt_job m w) = so_cmds w"
  "so_cmds (smoothie_set_device_error e w) = so_cmds w" "so_pending (smoothie_set_device_error e w) = so_pending w"
  "so_cmds (smoothie_emit_state_if_changed st w) = so_cmds w"
  by (simp_all add: smoothie_emit_def smoothie_set_state_def smoothie_set_handshake_def smoothie_halt_job_def
      smoothie_set_device_error_def smoothie_emit_state_if_changed_def)

lemma smoothie_line_cmds:
  "so_cmds (smoothie_handle_line X l w) =
     (case so_pending w of None \<Rightarrow> so_cmds w
      | Some i \<Rightarrow> (so_cmds w)[i := give (smoothie_class l) l (so_cmds w ! i)])"
  by (simp add: smoothie_handle_line_def smoothie_handle_error_line_def smoothie_handle_alarm_def
      smoothie_handle_status_report_def smoothie_class_def Let_def starts_with_def smoothie_finish_cmds [of _ _ l]
      smoothie_collect_cmds smoothie_parts_cmds split: option.split)

lemma smoothie_line_counts:
  "ack_count smoothie_class (so_events (smoothie_handle_line X l w)) =
     ack_count smoothie_class (so_events w) + (if is_finish (smoothie_class l) then 1 else 0)"
  by (auto simp: smoothie_line_defs smoothie_class_def Let_def starts_with_def is_finish_def split: option.splits)

interpretation smoothie_rx: line_receiver so_line_buffer "\<lambda>b w. w\<lparr>so_line_buffer := b\<rparr>" "smoothie_handle_line X" "smoothie_handle_rx X"
  for X
  by unfold_locales (simp_all add: smoothie_handle_rx_def smoothie_line_buffer)

lemma smoothie_fold_frame:
  "so_transport (fold (smoothie_handle_line X) ls w) = so_transport w"
  "so_pending (fold (smoothie_handle_line X) ls w) = so_pending w"
  "so_cmd_lock (fold (smoothie_handle_line X) ls w) = so_cmd_lock w"
  "so_job_running (fold (smoothie_handle_line X) ls w) = so_job_running w"
  "so_is_cancelled (fold (smoothie_handle_line X) ls w) = so_is_cancelled w"
  "so_dialect (fold (smoothie_handle_line X) ls w) = so_dialect w"
  "jobs_finished (so_events (fold (smoothie_handle_line X) ls w)) = jobs_finished (so_events w)"
  by (induction ls arbitrary: w) (simp_all add: smoothie_line_frame smoothie_line_counts)

lemma smoothie_fold_acks:
  "ack_count smoothie_class (so_events w) \<le> ack_count smoothie_class (so_events (fold (smoothie_handle_line X) ls w))"
proof (induction ls arbitrary: w)
  case Nil
  show ?case by simp
next
  case (Cons l ls)
  from Cons [of "smoothie_handle_line X l w"] show ?case by (simp add: smoothie_line_counts)
qed

lemma smoothie_line_completes:
  assumes "pd_is_finished (so_cmds (smoothie_handle_line X l w) ! i)" "\<not> pd_is_finished (so_cmds w ! i)"
  shows "is_finish (smoothie_class l)"
  using assms give_completes
  by (cases "so_pending w"; cases "the (so_pending w) < length (so_cmds w)"; cases "the (so_pending w) = i")
    (auto simp: smoothie_line_cmds list_update_beyond)

lemma smoothie_fold_completes:
  "pd_is_finished (so_cmds (fold (smoothie_handle_line X) ls w) ! i) \<Longrightarrow> \<not> pd_is_finished (so_cmds w ! i) \<Longrightarrow>
   ack_count smoothie_class (so_events w) < ack_count smoothie_class (so_events (fold (smoothie_handle_line X) ls w))"
proof (induction ls arbitrary: w)
  case Nil
  then show ?case by simp
next
  case (Cons l ls)
  let ?w = "smoothie_handle_line X l w"
  show ?case
  proof (cases "pd_is_finished (so_cmds ?w ! i)")
    case True
    with smoothie_line_completes [OF _ Cons.prems(2), of X l] have "is_finish (smoothie_class l)" by blast
    then have "ack_count smoothie_class (so_events w) < ack_count smoothie_class (so_events ?w)"
      by (simp add: smoothie_line_counts)
    with smoothie_fold_acks [of ?w X ls] show ?thesis by simp
  next
    case False
    with Cons.IH [of ?w] Cons.prems(1) show ?thesis by (simp add: smoothie_line_counts)
  qed
qed

lemma smoothie_rx_frame:
  "so_transport (smoothie_handle_rx X d w) = so_transport w"
  "so_pending (smoothie_handle_rx X d w) = so_pending w"
  "so_cmd_lock (smoothie_handle_rx X d w) = so_cmd_lock w"
  "so_job_running (smoothie_handle_rx X d w) = so_job_running w"
  "so_is_cancelled (smoothie_handle_rx X d w) = so_is_cancelled w"
  "so_dialect (smoothie_handle_rx X d w) = so_dialect w"
  "jobs_finished (so_events (smoothie_handle_rx X d w)) = jobs_finished (so_events w)"
  by (simp_all add: smoothie_handle_rx_def smoothie_fold_frame split: prod.split)

lemma smoothie_rx_acks:
  "ack_count smoothie_class (so_events w) \<le> ack_count smoothie_class (so_events (smoothie_handle_rx X d w))"
  using smoothie_fold_acks [of "w\<lparr>so_line_buffer := b\<rparr>" X for b] by (simp add: smoothie_handle_rx_def split: prod.split)

lemma smoothie_rx_completes:
  "pd_is_finished (so_cmds (smoothie_handle_rx X d w) ! i) \<Longrightarrow> \<not> pd_is_finished (so_cmds w ! i) \<Longrightarrow>
   ack_count smoothie_class (so_events w) < ack_count smoothie_class (so_events (smoothie_handle_rx X d w))"
  using smoothie_fold_completes [of X _ "w\<lparr>so_line_buffer := b\<rparr>" i for b]
  by (simp add: smoothie_handle_rx_def split: prod.splits)

section \<open>The exchange\<close>

text \<open>The wire without the status polls.\<close>

definition smoothie_wire :: "SmoothieCore \<Rightarrow> bytes list" where
  "smoothie_wire w = filter (\<lambda>c. c \<noteq> ''?'') (tr_wire (so_transport w))"

abbreviation smoothie_inv :: "SmoothieCore \<Rightarrow> bool" where
  "smoothie_inv w \<equiv> tr_inv (so_transport w)"

lemma smoothie_resolve_frame:
  "so_transport (smoothie_resolve_pending w) = so_transport w"
  "so_events (smoothie_resolve_pending w) = so_events w"
  "so_is_cancelled (smoothie_resolve_pending w) = so_is_cancelled w"
  "so_dialect (smoothie_resolve_pending w) = so_dialect w"
  "so_job_running (smoothie_resolve_pending w) = so_job_running w"
  by (simp_all add: smoothie_resolve_pending_def smoothie_update_cmd_def split: option.split)

lemma smoothie_write_frame:
  "so_events (snd (smoothie_write d w)) = so_events w" "so_cmds (snd (smoothie_write d w)) = so_cmds w"
  "so_transport (snd (smoothie_write d w)) = snd (tr_write d (so_transport w))"
  by (auto simp: smoothie_write_def split: prod.split sum.split)

lemma smoothie_write_cases:
  assumes "smoothie_inv w" "smoothie_write d w = (r, w')"
  shows "smoothie_inv w' \<and> (case r of Inr _ \<Rightarrow> tr_wire (so_transport w') = tr_wire (so_transport w) @ [d]
                           | Inl _ \<Rightarrow> tr_wire (so_transport w') = tr_wire (so_transport w))"
  using assms tr.write_cases [of "so_transport w" d]
  by (auto simp: smoothie_write_def split: prod.splits sum.splits)

lemma smoothie_poll_quiet:
  assumes "smoothie_inv w"
  shows "smoothie_inv (snd (smoothie_poll w)) \<and> smoothie_wire (snd (smoothie_poll w)) = smoothie_wire w"
  using assms smoothie_write_cases [of "smoothie_emit [RawTx ''?''] w" "''?''"]
  by (cases "smoothie_poll w") (auto simp: smoothie_poll_def smoothie_wire_def smoothie_emit_def split: sum.splits)

text \<open>Every event but another caller's exchange leaves the wire alone, status polls apart.\<close>

lemma smoothie_env_quiet:
  assumes "e \<noteq> EvLockTaken" "smoothie_inv w"
  shows "smoothie_inv (smoothie_env X e w) \<and> smoothie_wire (smoothie_env X e w) = smoothie_wire w"
  using assms tr.close_frame [of "so_transport w"] smoothie_poll_quiet [of w]
  by (cases e) (auto simp: smoothie_wire_def smoothie_rx_frame smoothie_cancel_begin_def smoothie_resolve_frame smoothie_forget_cancel_def)

lemma smoothie_wire_frame:
  "smoothie_wire (w\<lparr>so_cmd_lock := lk\<rparr>) = smoothie_wire w"
  "smoothie_wire (smoothie_resolve_pending w) = smoothie_wire w"
  by (simp_all add: smoothie_wire_def smoothie_resolve_frame)

lemma smoothie_send_cases:
  assumes "smoothie_inv w" "smoothie_send c w = (r, w')"
  shows "smoothie_inv w' \<and> smoothie_wire w' = smoothie_wire w @ (case r of Inr _ \<Rightarrow> [with_newline c] | Inl _ \<Rightarrow> [])"
proof -
  define v where "v = smoothie_emit [RawTx c]
    (w\<lparr>so_cmds := so_cmds w @ [PendingCmd_new], so_pending := Some (length (so_cmds w))\<rparr>)"
  have v: "so_transport v = so_transport w" by (simp add: v_def smoothie_emit_def)
  from assms(2) have "smoothie_write (with_newline c) v = (r, w')" by (simp add: smoothie_send_def v_def)
  from smoothie_write_cases [OF _ this] assms(1) v with_newline_not_poll [of c] show ?thesis
    by (auto simp: smoothie_wire_def split: sum.splits)
qed

lemma smoothie_send_counts:
  assumes "smoothie_send c w = (r, w')"
  shows "ack_count smoothie_class (so_events w') = ack_count smoothie_class (so_events w) \<and>
    \<not> pd_is_finished (so_cmds w' ! length (so_cmds w))"
  using assms smoothie_write_frame [of "with_newline c"]
  by (auto simp: smoothie_send_def smoothie_emit_def dest!: arg_cong [of _ _ snd])

lemma smoothie_ping_pong_eq:
  "smoothie_ping_pong X c w es =
     bindA (await (smoothie_env X) (\<lambda>w. so_cmd_lock w = Free) w es) (\<lambda>_ w es.
        let w = w\<lparr>so_cmd_lock := Mine\<rparr> in
        if \<not> tr_is_open (so_transport w) then Ret (Inl smoothie_not_connected) (smoothie_release w) es
        else let i = length (so_cmds w) in
          bindA (case smoothie_send c w of
                   (Inl e, w) \<Rightarrow> Ret (Inl e) w es
                 | (Inr _, w) \<Rightarrow> bindA (await_timeout (smoothie_env X) (smoothie_done i) w es)
                                   (\<lambda>ok w es. Ret (if ok then Inr () else Inl Err_Timeout) w es))
            (\<lambda>r w es. let w = smoothie_release (smoothie_resolve_pending w) in
               case r of Inl e \<Rightarrow> Ret (Inl e) w es | Inr _ \<Rightarrow> Ret (Inr (pd_lines (so_cmds w ! i))) w es))"
  by (simp add: smoothie_ping_pong_def smoothie_acquire_def Let_def bindA_def split: outcome.split)

lemma smoothie_exchange_laws:
  assumes "\<And>e. A e \<Longrightarrow> e \<noteq> EvLockTaken"
  shows "ping_pong_exchange (smoothie_env X) A smoothie_wire smoothie_inv
    (\<lambda>w. so_cmd_lock w = Free) (\<lambda>w. w\<lparr>so_cmd_lock := Mine\<rparr>) smoothie_release (\<lambda>w. tr_is_open (so_transport w))
    (\<lambda>w. length (so_cmds w)) smoothie_send smoothie_done (\<lambda>_ w. smoothie_release (smoothie_resolve_pending w))
    (\<lambda>i w. pd_lines (so_cmds w ! i)) smoothie_not_connected (smoothie_ping_pong X)"
proof (unfold_locales, goal_cases)
  case 3
  show ?case by (rule smoothie_ping_pong_eq)
qed (use assms smoothie_env_quiet in \<open>auto simp: smoothie_release_def smoothie_resolve_frame smoothie_wire_frame dest: smoothie_send_cases\<close>)

text \<open>No other caller sends commands, or: a waiting command completes only by a reply of the device.\<close>

definition smoothie_alone :: "env_event \<Rightarrow> bool" where
  "smoothie_alone e = (e \<noteq> EvLockTaken)"

definition smoothie_steady :: "env_event \<Rightarrow> bool" where
  "smoothie_steady e = (e \<noteq> EvLockTaken \<and> e \<noteq> EvLockFreed \<and> e \<noteq> EvCancel)"

interpretation smoothie_ex: ping_pong_exchange "smoothie_env X" smoothie_alone smoothie_wire smoothie_inv
  "\<lambda>w. so_cmd_lock w = Free" "\<lambda>w. w\<lparr>so_cmd_lock := Mine\<rparr>" smoothie_release "\<lambda>w. tr_is_open (so_transport w)"
  "\<lambda>w. length (so_cmds w)" smoothie_send smoothie_done "\<lambda>_ w. smoothie_release (smoothie_resolve_pending w)"
  "\<lambda>i w. pd_lines (so_cmds w ! i)" smoothie_not_connected "smoothie_ping_pong X" for X
  by (rule smoothie_exchange_laws) (simp add: smoothie_alone_def)

interpretation smoothie_sx: ping_pong_exchange "smoothie_env X" smoothie_steady smoothie_wire smoothie_inv
  "\<lambda>w. so_cmd_lock w = Free" "\<lambda>w. w\<lparr>so_cmd_lock := Mine\<rparr>" smoothie_release "\<lambda>w. tr_is_open (so_transport w)"
  "\<lambda>w. length (so_cmds w)" smoothie_send smoothie_done "\<lambda>_ w. smoothie_release (smoothie_resolve_pending w)"
  "\<lambda>i w. pd_lines (so_cmds w ! i)" smoothie_not_connected "smoothie_ping_pong X" for X
  by (rule smoothie_exchange_laws) (simp add: smoothie_steady_def)

lemma smoothie_report_frame:
  "so_transport (smoothie_report_op op w) = so_transport w"
  "smoothie_wire (smoothie_report_op op w) = smoothie_wire w"
  "ack_count cls (so_events (smoothie_report_op op w)) = ack_count cls (so_events w)"
  by (simp_all add: smoothie_report_op_def smoothie_emit_def smoothie_wire_def split: option.split)

section \<open>Jobs\<close>

abbreviation smoothie_failed :: "SmoothieCore \<Rightarrow> bool" where
  "smoothie_failed w \<equiv> so_job_exception w \<noteq> None"

interpretation smoothie_job: ping_pong_job "smoothie_env X" smoothie_alone smoothie_wire smoothie_inv "smoothie_ping_pong X"
  smoothie_stop smoothie_failed "\<lambda>l. trim (strip_gcode_comments X l)" smoothie_report_op "smoothie_run_lines X" for X
  by unfold_locales (simp_all add: smoothie_report_frame smoothie_ex.exchange_sends)

lemma smoothie_env_acks:
  assumes "smoothie_steady e"
  shows "ack_count smoothie_class (so_events w) \<le> ack_count smoothie_class (so_events (smoothie_env X e w)) \<and>
    (smoothie_done i (smoothie_env X e w) \<longrightarrow> smoothie_done i w \<or>
      ack_count smoothie_class (so_events w) < ack_count smoothie_class (so_events (smoothie_env X e w)))"
  using assms smoothie_rx_acks [of w X] smoothie_rx_completes [of X _ w i] smoothie_write_frame [of "''?''" "smoothie_emit [RawTx ''?''] w"]
  by (cases e) (auto simp: smoothie_steady_def smoothie_done_def smoothie_forget_cancel_def smoothie_poll_def smoothie_emit_def)

interpretation smoothie_ack: ping_pong_acks "smoothie_env X" smoothie_steady smoothie_wire smoothie_inv
  "\<lambda>w. so_cmd_lock w = Free" "\<lambda>w. w\<lparr>so_cmd_lock := Mine\<rparr>" smoothie_release "\<lambda>w. tr_is_open (so_transport w)"
  "\<lambda>w. length (so_cmds w)" smoothie_send smoothie_done "\<lambda>_ w. smoothie_release (smoothie_resolve_pending w)"
  "\<lambda>i w. pd_lines (so_cmds w ! i)" smoothie_not_connected "smoothie_ping_pong X"
  "\<lambda>w. length (smoothie_wire w)" "\<lambda>w. ack_count smoothie_class (so_events w)" for X
proof
  fix w c r w'
  assume "smoothie_inv w" "smoothie_send c w = (r, w')"
  then show "length (smoothie_wire w') \<le> Suc (length (smoothie_wire w)) \<and>
      ack_count smoothie_class (so_events w') = ack_count smoothie_class (so_events w) \<and> \<not> smoothie_done (length (so_cmds w)) w'"
    using smoothie_send_cases [of w c r w'] smoothie_send_counts [of c w r w'] by (auto simp: smoothie_done_def split: sum.splits)
qed (use smoothie_sx.step_wire smoothie_env_acks in \<open>auto simp: smoothie_release_def smoothie_resolve_frame smoothie_wire_frame\<close>)

interpretation smoothie_counted: ping_pong_counted_job "smoothie_env X" smoothie_steady smoothie_wire smoothie_inv "smoothie_ping_pong X"
  smoothie_stop smoothie_failed "\<lambda>l. trim (strip_gcode_comments X l)" smoothie_report_op "smoothie_run_lines X"
  "\<lambda>w. length (smoothie_wire w)" "\<lambda>w. ack_count smoothie_class (so_events w)" for X
  by unfold_locales
    (auto simp: smoothie_report_frame smoothie_sx.exchange_sends smoothie_sx.step_wire smoothie_ack.step_ack
      dest: smoothie_ack.exchange_counts [OF _ _ refl])

section \<open>The end of a job\<close>

text \<open>
  The number of reports is what the job's own task makes of it; without a cancel the flag stays down.
\<close>

definition smoothie_ending :: "bool \<Rightarrow> nat \<Rightarrow> SmoothieCore \<Rightarrow> bool" where
  "smoothie_ending calm n w \<longleftrightarrow>
     tr_inv (so_transport w) \<and> jobs_finished (so_events w) = n \<and> (calm \<longrightarrow> \<not> so_is_cancelled w)"

definition smoothie_calm :: "bool \<Rightarrow> env_event \<Rightarrow> bool" where
  "smoothie_calm calm e = (e \<noteq> EvLockTaken \<and> (calm \<longrightarrow> e \<noteq> EvCancel))"

lemma smoothie_write_flags:
  "so_is_cancelled (snd (smoothie_write d w)) = so_is_cancelled w" "so_job_running (snd (smoothie_write d w)) = so_job_running w"
  "so_is_holding (snd (smoothie_write d w)) = so_is_holding w" "so_job_exception (snd (smoothie_write d w)) = so_job_exception w"
  by (auto simp: smoothie_write_def split: prod.split sum.split)

lemma smoothie_env_ending:
  assumes "smoothie_calm calm e" "smoothie_ending calm n w"
  shows "smoothie_ending calm n (smoothie_env X e w)"
proof -
  have "tr_inv (so_transport (smoothie_env X e w))"
    using assms smoothie_env_quiet [of e w X] by (simp add: smoothie_calm_def smoothie_ending_def)
  with assms show ?thesis
    using smoothie_write_frame [of "''?''" "smoothie_emit [RawTx ''?''] w"] smoothie_write_flags [of "''?''" "smoothie_emit [RawTx ''?''] w"]
    by (cases e) (auto simp: smoothie_ending_def smoothie_calm_def smoothie_rx_frame smoothie_cancel_begin_def smoothie_resolve_frame
        smoothie_forget_cancel_def smoothie_poll_def smoothie_emit_def)
qed

lemma smoothie_send_ending:
  assumes "smoothie_ending calm n w" "smoothie_send c w = (r, w')"
  shows "smoothie_ending calm n w'"
proof -
  define v where "v = smoothie_emit [RawTx c]
    (w\<lparr>so_cmds := so_cmds w @ [PendingCmd_new], so_pending := Some (length (so_cmds w))\<rparr>)"
  have v: "so_is_cancelled v = so_is_cancelled w" "jobs_finished (so_events v) = jobs_finished (so_events w)"
    by (simp_all add: v_def smoothie_emit_def)
  from assms(2) have "w' = snd (smoothie_write (with_newline c) v)" by (simp add: smoothie_send_def v_def)
  with assms smoothie_send_cases [of w c r w'] v smoothie_write_frame [of "with_newline c" v] smoothie_write_flags [of "with_newline c" v]
  show ?thesis by (simp add: smoothie_ending_def)
qed

interpretation smoothie_endx: ping_pong_exchange "smoothie_env X" "smoothie_calm calm" smoothie_wire "smoothie_ending calm n"
  "\<lambda>w. so_cmd_lock w = Free" "\<lambda>w. w\<lparr>so_cmd_lock := Mine\<rparr>" smoothie_release "\<lambda>w. tr_is_open (so_transport w)"
  "\<lambda>w. length (so_cmds w)" smoothie_send smoothie_done "\<lambda>_ w. smoothie_release (smoothie_resolve_pending w)"
  "\<lambda>i w. pd_lines (so_cmds w ! i)" smoothie_not_connected "smoothie_ping_pong X" for X calm n
proof (unfold_locales, goal_cases)
  case (2 e w)
  then show ?case using smoothie_env_quiet [of e w X] by (simp add: smoothie_calm_def smoothie_ending_def)
next
  case 3
  show ?case by (rule smoothie_ping_pong_eq)
next
  case (7 w c u w')
  then have "tr_inv (so_transport w)" by (simp add: smoothie_ending_def)
  from smoothie_send_cases [OF this 7(2)] smoothie_send_ending [OF 7] show ?case by simp
next
  case (8 w c e w')
  then have "tr_inv (so_transport w)" by (simp add: smoothie_ending_def)
  from smoothie_send_cases [OF this 8(2)] smoothie_send_ending [OF 8] show ?case by simp
qed (use smoothie_env_ending in \<open>auto simp: smoothie_release_def smoothie_resolve_frame smoothie_wire_frame smoothie_ending_def\<close>)

lemma smoothie_report_ending: "smoothie_ending calm n (smoothie_report_op op w) = smoothie_ending calm n w"
  by (simp add: smoothie_ending_def smoothie_report_op_def smoothie_emit_def split: option.split)

interpretation smoothie_endj: ping_pong_job "smoothie_env X" "smoothie_calm calm" smoothie_wire "smoothie_ending calm n" "smoothie_ping_pong X"
  smoothie_stop smoothie_failed "\<lambda>l. trim (strip_gcode_comments X l)" smoothie_report_op "smoothie_run_lines X" for X calm n
  by unfold_locales (simp_all add: smoothie_endx.exchange_sends smoothie_report_ending smoothie_report_frame)

text \<open>No task but the job's own starts a job, so what has ended stays ended.\<close>

definition smoothie_over :: "SmoothieCore \<Rightarrow> bool" where
  "smoothie_over w \<longleftrightarrow> \<not> so_job_running w \<and> so_job_exception w = None"

lemma smoothie_line_over: "smoothie_over w \<Longrightarrow> smoothie_over (smoothie_handle_line X l w)"
  by (auto simp: smoothie_over_def smoothie_line_defs Let_def split: option.splits)

lemma smoothie_env_over: "smoothie_over w \<Longrightarrow> smoothie_over (smoothie_env X e w)"
proof -
  assume o: "smoothie_over w"
  have f: "smoothie_over v \<Longrightarrow> smoothie_over (fold (smoothie_handle_line X) ls v)" for ls v
    by (induction ls arbitrary: v) (simp_all add: smoothie_line_over)
  have s: "so_job_running (snd (smoothie_send c v)) = so_job_running v \<and> so_job_exception (snd (smoothie_send c v)) = so_job_exception v" for c v
    by (simp add: smoothie_send_def smoothie_write_flags smoothie_emit_def)
  from o show ?thesis
    using f s by (cases e)
      (auto simp: smoothie_over_def smoothie_handle_rx_def smoothie_cancel_begin_def smoothie_resolve_pending_def smoothie_update_cmd_def
        smoothie_forget_cancel_def smoothie_poll_def smoothie_write_flags smoothie_emit_def Let_def split: prod.split option.split list.split)
qed

interpretation smoothie_over: env_invariant "smoothie_env X" "\<lambda>_. True" smoothie_over for X
  by unfold_locales (rule smoothie_env_over)

interpretation smoothie_endv: env_invariant "smoothie_env X" "smoothie_calm calm" "smoothie_ending calm n" for X calm n
  by unfold_locales (rule smoothie_env_ending)

end
