(* ===== verification/Simple_Props.thy ===== *)
theory Simple_Props
  imports Simple Ping_Pong
begin

text \<open>
  The minimal GRBL session as a ping-pong session: its receiver, its exchange and its job loop
  satisfy the contracts of \<open>Line_Rx\<close> and \<open>Ping_Pong\<close>, and what follows for jobs, replies,
  cancellation and late acknowledgements.
\<close>

section \<open>What a received line does\<close>

definition simple_class :: "string \<Rightarrow> line_role" where
  "simple_class l =
     (if l = ''ok'' then Finish None
      else if starts_with l ''error:'' then Finish (Some l)
      else if starts_with l ''<'' \<and> ends_with l ''>'' then Skip
      else if starts_with l ''ALARM:'' then Finish (Some l)
      else if starts_with l ''Grbl '' \<or> starts_with l ''GrblHAL '' then Skip
      else Gather)"

lemmas simple_line_defs = simple_handle_line_def simple_handle_error_line_def simple_handle_alarm_def
  simple_handle_status_report_def simple_set_device_error_def simple_halt_job_def simple_set_handshake_def
  simple_emit_state_if_changed_def simple_set_state_def simple_emit_def simple_finish_pending_def
  simple_collect_def simple_update_cmd_def

lemma simple_line_frame:
  "s_transport (simple_handle_line X l w) = s_transport w"
  "s_pending (simple_handle_line X l w) = s_pending w"
  "s_cmd_lock (simple_handle_line X l w) = s_cmd_lock w"
  "s_job_running (simple_handle_line X l w) = s_job_running w"
  "s_is_cancelled (simple_handle_line X l w) = s_is_cancelled w"
  "s_dialect (simple_handle_line X l w) = s_dialect w"
  "s_line_buffer (simple_handle_line X l w) = s_line_buffer w"
  "jobs_finished (s_events (simple_handle_line X l w)) = jobs_finished (s_events w)"
  by (auto simp: simple_line_defs Let_def split: option.splits)

lemma simple_parts_buffer:
  "simple_emit evs (w\<lparr>s_line_buffer := b\<rparr>) = (simple_emit evs w)\<lparr>s_line_buffer := b\<rparr>"
  "simple_set_state st (w\<lparr>s_line_buffer := b\<rparr>) = (simple_set_state st w)\<lparr>s_line_buffer := b\<rparr>"
  "simple_set_handshake (w\<lparr>s_line_buffer := b\<rparr>) = (simple_set_handshake w)\<lparr>s_line_buffer := b\<rparr>"
  "simple_update_cmd i f (w\<lparr>s_line_buffer := b\<rparr>) = (simple_update_cmd i f w)\<lparr>s_line_buffer := b\<rparr>"
  "simple_halt_job m (w\<lparr>s_line_buffer := b\<rparr>) = (simple_halt_job m w)\<lparr>s_line_buffer := b\<rparr>"
  by (simp_all add: simple_emit_def simple_set_state_def simple_set_handshake_def simple_update_cmd_def simple_halt_job_def)

lemma simple_handlers_buffer:
  "simple_finish_pending o' (w\<lparr>s_line_buffer := b\<rparr>) = (simple_finish_pending o' w)\<lparr>s_line_buffer := b\<rparr>"
  "simple_collect l (w\<lparr>s_line_buffer := b\<rparr>) = (simple_collect l w)\<lparr>s_line_buffer := b\<rparr>"
  "simple_set_device_error e (w\<lparr>s_line_buffer := b\<rparr>) = (simple_set_device_error e w)\<lparr>s_line_buffer := b\<rparr>"
  "simple_emit_state_if_changed st (w\<lparr>s_line_buffer := b\<rparr>) = (simple_emit_state_if_changed st w)\<lparr>s_line_buffer := b\<rparr>"
  by (simp_all add: simple_finish_pending_def simple_collect_def simple_set_device_error_def
      simple_emit_state_if_changed_def simple_parts_buffer Let_def split: option.split)

lemma simple_line_buffer:
  "simple_handle_line X l (w\<lparr>s_line_buffer := b\<rparr>) = (simple_handle_line X l w)\<lparr>s_line_buffer := b\<rparr>"
proof -
  have report: "simple_handle_status_report X l (v\<lparr>s_line_buffer := b\<rparr>) =
      (simple_handle_status_report X l v)\<lparr>s_line_buffer := b\<rparr>" for v
    unfolding simple_handle_status_report_def Let_def simple_parts_buffer
    by (simp add: simple_handlers_buffer simple_set_handshake_def)
  show ?thesis
    by (simp add: simple_handle_line_def simple_handle_error_line_def simple_handle_alarm_def report
        simple_handlers_buffer simple_parts_buffer Let_def split: option.split)
qed

lemma simple_finish_cmds:
  "s_cmds (simple_finish_pending last_line w) =
     (case s_pending w of None \<Rightarrow> s_cmds w
      | Some i \<Rightarrow> (s_cmds w)[i := give (Finish last_line) l (s_cmds w ! i)])"
proof (cases "s_pending w")
  case (Some i)
  then show ?thesis
    by (cases "i < length (s_cmds w)"; cases last_line)
      (simp_all add: simple_finish_pending_def simple_update_cmd_def give_def list_update_beyond Let_def)
qed (simp add: simple_finish_pending_def)

lemma simple_collect_cmds:
  "s_cmds (simple_collect l w) =
     (case s_pending w of None \<Rightarrow> s_cmds w | Some i \<Rightarrow> (s_cmds w)[i := give Gather l (s_cmds w ! i)])"
  by (simp add: simple_collect_def simple_update_cmd_def give_def split: option.split)

lemma simple_parts_cmds:
  "s_cmds (simple_emit evs w) = s_cmds w" "s_pending (simple_emit evs w) = s_pending w"
  "s_cmds (simple_set_state st w) = s_cmds w" "s_pending (simple_set_state st w) = s_pending w"
  "s_cmds (simple_set_handshake w) = s_cmds w" "s_cmds (simple_halt_job m w) = s_cmds w"
  "s_cmds (simple_set_device_error e w) = s_cmds w" "s_pending (simple_set_device_error e w) = s_pending w"
  "s_cmds (simple_emit_state_if_changed st w) = s_cmds w"
  by (simp_all add: simple_emit_def simple_set_state_def simple_set_handshake_def simple_halt_job_def
      simple_set_device_error_def simple_emit_state_if_changed_def)

lemma simple_line_cmds:
  "s_cmds (simple_handle_line X l w) =
     (case s_pending w of None \<Rightarrow> s_cmds w
      | Some i \<Rightarrow> (s_cmds w)[i := give (simple_class l) l (s_cmds w ! i)])"
  by (simp add: simple_handle_line_def simple_handle_error_line_def simple_handle_alarm_def
      simple_handle_status_report_def simple_class_def Let_def starts_with_def simple_finish_cmds [of _ _ l]
      simple_collect_cmds simple_parts_cmds split: option.split)

lemma simple_line_counts:
  "ack_count simple_class (s_events (simple_handle_line X l w)) =
     ack_count simple_class (s_events w) + (if is_finish (simple_class l) then 1 else 0)"
  by (auto simp: simple_line_defs simple_class_def Let_def starts_with_def is_finish_def split: option.splits)

interpretation simple_rx: line_receiver s_line_buffer "\<lambda>b w. w\<lparr>s_line_buffer := b\<rparr>" "simple_handle_line X" "simple_handle_rx X"
  for X
  by unfold_locales (simp_all add: simple_handle_rx_def simple_line_buffer)

lemma simple_fold_frame:
  "s_transport (fold (simple_handle_line X) ls w) = s_transport w"
  "s_pending (fold (simple_handle_line X) ls w) = s_pending w"
  "s_cmd_lock (fold (simple_handle_line X) ls w) = s_cmd_lock w"
  "s_job_running (fold (simple_handle_line X) ls w) = s_job_running w"
  "s_is_cancelled (fold (simple_handle_line X) ls w) = s_is_cancelled w"
  "s_dialect (fold (simple_handle_line X) ls w) = s_dialect w"
  "jobs_finished (s_events (fold (simple_handle_line X) ls w)) = jobs_finished (s_events w)"
  by (induction ls arbitrary: w) (simp_all add: simple_line_frame simple_line_counts)

lemma simple_fold_acks:
  "ack_count simple_class (s_events w) \<le> ack_count simple_class (s_events (fold (simple_handle_line X) ls w))"
proof (induction ls arbitrary: w)
  case Nil
  show ?case by simp
next
  case (Cons l ls)
  from Cons [of "simple_handle_line X l w"] show ?case by (simp add: simple_line_counts)
qed

lemma simple_line_completes:
  assumes "pd_is_finished (s_cmds (simple_handle_line X l w) ! i)" "\<not> pd_is_finished (s_cmds w ! i)"
  shows "is_finish (simple_class l)"
  using assms give_completes
  by (cases "s_pending w"; cases "the (s_pending w) < length (s_cmds w)"; cases "the (s_pending w) = i")
    (auto simp: simple_line_cmds list_update_beyond)

lemma simple_fold_completes:
  "pd_is_finished (s_cmds (fold (simple_handle_line X) ls w) ! i) \<Longrightarrow> \<not> pd_is_finished (s_cmds w ! i) \<Longrightarrow>
   ack_count simple_class (s_events w) < ack_count simple_class (s_events (fold (simple_handle_line X) ls w))"
proof (induction ls arbitrary: w)
  case Nil
  then show ?case by simp
next
  case (Cons l ls)
  let ?w = "simple_handle_line X l w"
  show ?case
  proof (cases "pd_is_finished (s_cmds ?w ! i)")
    case True
    with simple_line_completes [OF _ Cons.prems(2), of X l] have "is_finish (simple_class l)" by blast
    then have "ack_count simple_class (s_events w) < ack_count simple_class (s_events ?w)"
      by (simp add: simple_line_counts)
    with simple_fold_acks [of ?w X ls] show ?thesis by simp
  next
    case False
    with Cons.IH [of ?w] Cons.prems(1) show ?thesis by (simp add: simple_line_counts)
  qed
qed

lemma simple_rx_frame:
  "s_transport (simple_handle_rx X d w) = s_transport w"
  "s_pending (simple_handle_rx X d w) = s_pending w"
  "s_cmd_lock (simple_handle_rx X d w) = s_cmd_lock w"
  "s_job_running (simple_handle_rx X d w) = s_job_running w"
  "s_is_cancelled (simple_handle_rx X d w) = s_is_cancelled w"
  "s_dialect (simple_handle_rx X d w) = s_dialect w"
  "jobs_finished (s_events (simple_handle_rx X d w)) = jobs_finished (s_events w)"
  by (simp_all add: simple_handle_rx_def simple_fold_frame split: prod.split)

lemma simple_rx_acks:
  "ack_count simple_class (s_events w) \<le> ack_count simple_class (s_events (simple_handle_rx X d w))"
  using simple_fold_acks [of "w\<lparr>s_line_buffer := b\<rparr>" X for b] by (simp add: simple_handle_rx_def split: prod.split)

lemma simple_rx_completes:
  "pd_is_finished (s_cmds (simple_handle_rx X d w) ! i) \<Longrightarrow> \<not> pd_is_finished (s_cmds w ! i) \<Longrightarrow>
   ack_count simple_class (s_events w) < ack_count simple_class (s_events (simple_handle_rx X d w))"
  using simple_fold_completes [of X _ "w\<lparr>s_line_buffer := b\<rparr>" i for b]
  by (simp add: simple_handle_rx_def split: prod.splits)

section \<open>The exchange\<close>

text \<open>The wire without the status polls.\<close>

definition simple_wire :: "SimpleCore \<Rightarrow> bytes list" where
  "simple_wire w = filter (\<lambda>c. c \<noteq> ''?'') (tr_wire (s_transport w))"

abbreviation simple_inv :: "SimpleCore \<Rightarrow> bool" where
  "simple_inv w \<equiv> tr_inv (s_transport w)"

lemma simple_resolve_frame:
  "s_transport (simple_resolve_pending w) = s_transport w"
  "s_events (simple_resolve_pending w) = s_events w"
  "s_is_cancelled (simple_resolve_pending w) = s_is_cancelled w"
  "s_dialect (simple_resolve_pending w) = s_dialect w"
  "s_job_running (simple_resolve_pending w) = s_job_running w"
  by (simp_all add: simple_resolve_pending_def simple_update_cmd_def split: option.split)

lemma simple_write_frame:
  "s_events (snd (simple_write d w)) = s_events w" "s_cmds (snd (simple_write d w)) = s_cmds w"
  "s_transport (snd (simple_write d w)) = snd (tr_write d (s_transport w))"
  by (auto simp: simple_write_def split: prod.split sum.split)

lemma simple_write_cases:
  assumes "simple_inv w" "simple_write d w = (r, w')"
  shows "simple_inv w' \<and> (case r of Inr _ \<Rightarrow> tr_wire (s_transport w') = tr_wire (s_transport w) @ [d]
                           | Inl _ \<Rightarrow> tr_wire (s_transport w') = tr_wire (s_transport w))"
  using assms tr.write_cases [of "s_transport w" d]
  by (auto simp: simple_write_def split: prod.splits sum.splits)

lemma simple_poll_quiet:
  assumes "simple_inv w"
  shows "simple_inv (snd (simple_poll w)) \<and> simple_wire (snd (simple_poll w)) = simple_wire w"
  using assms simple_write_cases [of "simple_emit [RawTx ''?''] w" "''?''"]
  by (cases "simple_poll w") (auto simp: simple_poll_def simple_wire_def simple_emit_def split: sum.splits)

text \<open>Every event but another caller's exchange leaves the wire alone, status polls apart.\<close>

lemma simple_env_quiet:
  assumes "e \<noteq> EvLockTaken" "simple_inv w"
  shows "simple_inv (simple_env X e w) \<and> simple_wire (simple_env X e w) = simple_wire w"
  using assms tr.close_frame [of "s_transport w"] simple_poll_quiet [of w]
  by (cases e) (auto simp: simple_wire_def simple_rx_frame simple_cancel_begin_def simple_resolve_frame simple_forget_cancel_def)

lemma simple_wire_frame:
  "simple_wire (w\<lparr>s_cmd_lock := lk\<rparr>) = simple_wire w"
  "simple_wire (simple_resolve_pending w) = simple_wire w"
  by (simp_all add: simple_wire_def simple_resolve_frame)

lemma simple_send_cases:
  assumes "simple_inv w" "simple_send c w = (r, w')"
  shows "simple_inv w' \<and> simple_wire w' = simple_wire w @ (case r of Inr _ \<Rightarrow> [with_newline c] | Inl _ \<Rightarrow> [])"
proof -
  define v where "v = simple_emit [RawTx c]
    (w\<lparr>s_cmds := s_cmds w @ [PendingCmd_new], s_pending := Some (length (s_cmds w))\<rparr>)"
  have v: "s_transport v = s_transport w" by (simp add: v_def simple_emit_def)
  from assms(2) have "simple_write (with_newline c) v = (r, w')" by (simp add: simple_send_def v_def)
  from simple_write_cases [OF _ this] assms(1) v with_newline_not_poll [of c] show ?thesis
    by (auto simp: simple_wire_def split: sum.splits)
qed

lemma simple_send_counts:
  assumes "simple_send c w = (r, w')"
  shows "ack_count simple_class (s_events w') = ack_count simple_class (s_events w) \<and>
    \<not> pd_is_finished (s_cmds w' ! length (s_cmds w))"
  using assms simple_write_frame [of "with_newline c"]
  by (auto simp: simple_send_def simple_emit_def dest!: arg_cong [of _ _ snd])

lemma simple_ping_pong_eq:
  "simple_ping_pong X c w es =
     bindA (await (simple_env X) (\<lambda>w. s_cmd_lock w = Free) w es) (\<lambda>_ w es.
        let w = w\<lparr>s_cmd_lock := Mine\<rparr> in
        if \<not> tr_is_open (s_transport w) then Ret (Inl simple_not_connected) (simple_release w) es
        else let i = length (s_cmds w) in
          bindA (case simple_send c w of
                   (Inl e, w) \<Rightarrow> Ret (Inl e) w es
                 | (Inr _, w) \<Rightarrow> bindA (await_timeout (simple_env X) (simple_done i) w es)
                                   (\<lambda>ok w es. Ret (if ok then Inr () else Inl Err_Timeout) w es))
            (\<lambda>r w es. let w = simple_release (simple_resolve_pending w) in
               case r of Inl e \<Rightarrow> Ret (Inl e) w es | Inr _ \<Rightarrow> Ret (Inr (pd_lines (s_cmds w ! i))) w es))"
  by (simp add: simple_ping_pong_def simple_acquire_def Let_def bindA_def split: outcome.split)

lemma simple_exchange_laws:
  assumes "\<And>e. A e \<Longrightarrow> e \<noteq> EvLockTaken"
  shows "ping_pong_exchange (simple_env X) A simple_wire simple_inv
    (\<lambda>w. s_cmd_lock w = Free) (\<lambda>w. w\<lparr>s_cmd_lock := Mine\<rparr>) simple_release (\<lambda>w. tr_is_open (s_transport w))
    (\<lambda>w. length (s_cmds w)) simple_send simple_done (\<lambda>_ w. simple_release (simple_resolve_pending w))
    (\<lambda>i w. pd_lines (s_cmds w ! i)) simple_not_connected (simple_ping_pong X)"
proof (unfold_locales, goal_cases)
  case 3
  show ?case by (rule simple_ping_pong_eq)
qed (use assms simple_env_quiet in \<open>auto simp: simple_release_def simple_resolve_frame simple_wire_frame dest: simple_send_cases\<close>)

text \<open>No other caller sends commands, or: a waiting command completes only by a reply of the device.\<close>

definition simple_alone :: "env_event \<Rightarrow> bool" where
  "simple_alone e = (e \<noteq> EvLockTaken)"

definition simple_steady :: "env_event \<Rightarrow> bool" where
  "simple_steady e = (e \<noteq> EvLockTaken \<and> e \<noteq> EvLockFreed \<and> e \<noteq> EvCancel)"

interpretation simple_ex: ping_pong_exchange "simple_env X" simple_alone simple_wire simple_inv
  "\<lambda>w. s_cmd_lock w = Free" "\<lambda>w. w\<lparr>s_cmd_lock := Mine\<rparr>" simple_release "\<lambda>w. tr_is_open (s_transport w)"
  "\<lambda>w. length (s_cmds w)" simple_send simple_done "\<lambda>_ w. simple_release (simple_resolve_pending w)"
  "\<lambda>i w. pd_lines (s_cmds w ! i)" simple_not_connected "simple_ping_pong X" for X
  by (rule simple_exchange_laws) (simp add: simple_alone_def)

interpretation simple_sx: ping_pong_exchange "simple_env X" simple_steady simple_wire simple_inv
  "\<lambda>w. s_cmd_lock w = Free" "\<lambda>w. w\<lparr>s_cmd_lock := Mine\<rparr>" simple_release "\<lambda>w. tr_is_open (s_transport w)"
  "\<lambda>w. length (s_cmds w)" simple_send simple_done "\<lambda>_ w. simple_release (simple_resolve_pending w)"
  "\<lambda>i w. pd_lines (s_cmds w ! i)" simple_not_connected "simple_ping_pong X" for X
  by (rule simple_exchange_laws) (simp add: simple_steady_def)

lemma simple_report_frame:
  "s_transport (simple_report_op op w) = s_transport w"
  "simple_wire (simple_report_op op w) = simple_wire w"
  "ack_count cls (s_events (simple_report_op op w)) = ack_count cls (s_events w)"
  by (simp_all add: simple_report_op_def simple_emit_def simple_wire_def split: option.split)

section \<open>Jobs\<close>

abbreviation simple_failed :: "SimpleCore \<Rightarrow> bool" where
  "simple_failed w \<equiv> s_job_exception w \<noteq> None"

interpretation simple_job: ping_pong_job "simple_env X" simple_alone simple_wire simple_inv "simple_ping_pong X"
  simple_stop simple_failed "\<lambda>l. trim (strip_gcode_comments X l)" simple_report_op "simple_run_lines X" for X
  by unfold_locales (simp_all add: simple_report_frame simple_ex.exchange_sends)

lemma simple_env_acks:
  assumes "simple_steady e"
  shows "ack_count simple_class (s_events w) \<le> ack_count simple_class (s_events (simple_env X e w)) \<and>
    (simple_done i (simple_env X e w) \<longrightarrow> simple_done i w \<or>
      ack_count simple_class (s_events w) < ack_count simple_class (s_events (simple_env X e w)))"
  using assms simple_rx_acks [of w X] simple_rx_completes [of X _ w i] simple_write_frame [of "''?''" "simple_emit [RawTx ''?''] w"]
  by (cases e) (auto simp: simple_steady_def simple_done_def simple_forget_cancel_def simple_poll_def simple_emit_def)

interpretation simple_ack: ping_pong_acks "simple_env X" simple_steady simple_wire simple_inv
  "\<lambda>w. s_cmd_lock w = Free" "\<lambda>w. w\<lparr>s_cmd_lock := Mine\<rparr>" simple_release "\<lambda>w. tr_is_open (s_transport w)"
  "\<lambda>w. length (s_cmds w)" simple_send simple_done "\<lambda>_ w. simple_release (simple_resolve_pending w)"
  "\<lambda>i w. pd_lines (s_cmds w ! i)" simple_not_connected "simple_ping_pong X"
  "\<lambda>w. length (simple_wire w)" "\<lambda>w. ack_count simple_class (s_events w)" for X
proof
  fix w c r w'
  assume "simple_inv w" "simple_send c w = (r, w')"
  then show "length (simple_wire w') \<le> Suc (length (simple_wire w)) \<and>
      ack_count simple_class (s_events w') = ack_count simple_class (s_events w) \<and> \<not> simple_done (length (s_cmds w)) w'"
    using simple_send_cases [of w c r w'] simple_send_counts [of c w r w'] by (auto simp: simple_done_def split: sum.splits)
qed (use simple_sx.step_wire simple_env_acks in \<open>auto simp: simple_release_def simple_resolve_frame simple_wire_frame\<close>)

interpretation simple_counted: ping_pong_counted_job "simple_env X" simple_steady simple_wire simple_inv "simple_ping_pong X"
  simple_stop simple_failed "\<lambda>l. trim (strip_gcode_comments X l)" simple_report_op "simple_run_lines X"
  "\<lambda>w. length (simple_wire w)" "\<lambda>w. ack_count simple_class (s_events w)" for X
  by unfold_locales
    (auto simp: simple_report_frame simple_sx.exchange_sends simple_sx.step_wire simple_ack.step_ack
      dest: simple_ack.exchange_counts [OF _ _ refl])

section \<open>The end of a job\<close>

text \<open>
  The number of reports is what the job's own task makes of it; without a cancel the flag stays down.
\<close>

definition simple_ending :: "bool \<Rightarrow> nat \<Rightarrow> SimpleCore \<Rightarrow> bool" where
  "simple_ending calm n w \<longleftrightarrow>
     tr_inv (s_transport w) \<and> jobs_finished (s_events w) = n \<and> (calm \<longrightarrow> \<not> s_is_cancelled w)"

definition simple_calm :: "bool \<Rightarrow> env_event \<Rightarrow> bool" where
  "simple_calm calm e = (e \<noteq> EvLockTaken \<and> (calm \<longrightarrow> e \<noteq> EvCancel))"

lemma simple_write_flags:
  "s_is_cancelled (snd (simple_write d w)) = s_is_cancelled w" "s_job_running (snd (simple_write d w)) = s_job_running w"
  "s_is_holding (snd (simple_write d w)) = s_is_holding w" "s_job_exception (snd (simple_write d w)) = s_job_exception w"
  by (auto simp: simple_write_def split: prod.split sum.split)

lemma simple_env_ending:
  assumes "simple_calm calm e" "simple_ending calm n w"
  shows "simple_ending calm n (simple_env X e w)"
proof -
  have "tr_inv (s_transport (simple_env X e w))"
    using assms simple_env_quiet [of e w X] by (simp add: simple_calm_def simple_ending_def)
  with assms show ?thesis
    using simple_write_frame [of "''?''" "simple_emit [RawTx ''?''] w"] simple_write_flags [of "''?''" "simple_emit [RawTx ''?''] w"]
    by (cases e) (auto simp: simple_ending_def simple_calm_def simple_rx_frame simple_cancel_begin_def simple_resolve_frame
        simple_forget_cancel_def simple_poll_def simple_emit_def)
qed

lemma simple_send_ending:
  assumes "simple_ending calm n w" "simple_send c w = (r, w')"
  shows "simple_ending calm n w'"
proof -
  define v where "v = simple_emit [RawTx c]
    (w\<lparr>s_cmds := s_cmds w @ [PendingCmd_new], s_pending := Some (length (s_cmds w))\<rparr>)"
  have v: "s_is_cancelled v = s_is_cancelled w" "jobs_finished (s_events v) = jobs_finished (s_events w)"
    by (simp_all add: v_def simple_emit_def)
  from assms(2) have "w' = snd (simple_write (with_newline c) v)" by (simp add: simple_send_def v_def)
  with assms simple_send_cases [of w c r w'] v simple_write_frame [of "with_newline c" v] simple_write_flags [of "with_newline c" v]
  show ?thesis by (simp add: simple_ending_def)
qed

interpretation simple_endx: ping_pong_exchange "simple_env X" "simple_calm calm" simple_wire "simple_ending calm n"
  "\<lambda>w. s_cmd_lock w = Free" "\<lambda>w. w\<lparr>s_cmd_lock := Mine\<rparr>" simple_release "\<lambda>w. tr_is_open (s_transport w)"
  "\<lambda>w. length (s_cmds w)" simple_send simple_done "\<lambda>_ w. simple_release (simple_resolve_pending w)"
  "\<lambda>i w. pd_lines (s_cmds w ! i)" simple_not_connected "simple_ping_pong X" for X calm n
proof (unfold_locales, goal_cases)
  case (2 e w)
  then show ?case using simple_env_quiet [of e w X] by (simp add: simple_calm_def simple_ending_def)
next
  case 3
  show ?case by (rule simple_ping_pong_eq)
next
  case (7 w c u w')
  then have "tr_inv (s_transport w)" by (simp add: simple_ending_def)
  from simple_send_cases [OF this 7(2)] simple_send_ending [OF 7] show ?case by simp
next
  case (8 w c e w')
  then have "tr_inv (s_transport w)" by (simp add: simple_ending_def)
  from simple_send_cases [OF this 8(2)] simple_send_ending [OF 8] show ?case by simp
qed (use simple_env_ending in \<open>auto simp: simple_release_def simple_resolve_frame simple_wire_frame simple_ending_def\<close>)

lemma simple_report_ending: "simple_ending calm n (simple_report_op op w) = simple_ending calm n w"
  by (simp add: simple_ending_def simple_report_op_def simple_emit_def split: option.split)

interpretation simple_endj: ping_pong_job "simple_env X" "simple_calm calm" simple_wire "simple_ending calm n" "simple_ping_pong X"
  simple_stop simple_failed "\<lambda>l. trim (strip_gcode_comments X l)" simple_report_op "simple_run_lines X" for X calm n
  by unfold_locales (simp_all add: simple_endx.exchange_sends simple_report_ending simple_report_frame)

text \<open>No task but the job's own starts a job, so what has ended stays ended.\<close>

definition simple_over :: "SimpleCore \<Rightarrow> bool" where
  "simple_over w \<longleftrightarrow> \<not> s_job_running w \<and> s_job_exception w = None"

lemma simple_line_over: "simple_over w \<Longrightarrow> simple_over (simple_handle_line X l w)"
  by (auto simp: simple_over_def simple_line_defs Let_def split: option.splits)

lemma simple_env_over: "simple_over w \<Longrightarrow> simple_over (simple_env X e w)"
proof -
  assume o: "simple_over w"
  have f: "simple_over v \<Longrightarrow> simple_over (fold (simple_handle_line X) ls v)" for ls v
    by (induction ls arbitrary: v) (simp_all add: simple_line_over)
  have s: "s_job_running (snd (simple_send c v)) = s_job_running v \<and> s_job_exception (snd (simple_send c v)) = s_job_exception v" for c v
    by (simp add: simple_send_def simple_write_flags simple_emit_def)
  from o show ?thesis
    using f s by (cases e)
      (auto simp: simple_over_def simple_handle_rx_def simple_cancel_begin_def simple_resolve_pending_def simple_update_cmd_def
        simple_forget_cancel_def simple_poll_def simple_write_flags simple_emit_def Let_def split: prod.split option.split list.split)
qed

interpretation simple_over: env_invariant "simple_env X" "\<lambda>_. True" simple_over for X
  by unfold_locales (rule simple_env_over)

interpretation simple_endv: env_invariant "simple_env X" "simple_calm calm" "simple_ending calm n" for X calm n
  by unfold_locales (rule simple_env_ending)

end
