(* ===== verification/Simple_Jobs.thy ===== *)
theory Simple_Jobs
  imports Simple_Props
begin

text \<open>
  What the contracts of \<open>Simple_Props\<close> give for the minimal GRBL session: the order of a job on
  the wire, the bound on unacknowledged lines, the reply of a command, and two runs in which a
  cancelled job goes on and a late acknowledgement is taken for a later command.
\<close>

section \<open>Concrete sessions\<close>

text \<open>A session on an open mock transport.\<close>

definition simple_demo :: SimpleCore where
  "simple_demo = SimpleCore_new (SimpleConfig_new (Mock (snd (mock_open mock_new)))) Dialect_default"

lemma simple_demo_simps [simp]:
  "s_transport simple_demo = TMock \<lparr>mk_open = True, mk_tx = Some [], mk_sent = [], mk_cursor = 0, mk_write_error = None\<rparr>"
  "s_state simple_demo = DeviceState_default" "s_events simple_demo = []" "s_line_buffer simple_demo = []"
  "s_is_cancelled simple_demo = False" "s_job_running simple_demo = False" "s_keep_running simple_demo = False"
  "s_cmd_lock simple_demo = Free" "s_cmds simple_demo = []" "s_pending simple_demo = None"
  "s_job_exception simple_demo = None" "s_last_reported_op_index simple_demo = -1"
  by (simp_all add: simple_demo_def SimpleCore_new_def SimpleConfig_new_def mock_open_def mock_new_def)

lemma demo_lines:
  "drain_lines [CHR ''o'', CHR ''k'', LF] = ([''ok''], [])"
  "trim (strip_gcode_comments std_regex ''M3'') = ''M3''"
  "trim (strip_gcode_comments std_regex ''M5'') = ''M5''"
  "trim (strip_gcode_comments std_regex ''G0 X1 ; go'') = ''G0 X1''"
  "trim (strip_gcode_comments std_regex ''(note)'') = []"
  by code_simp+

lemmas mock_run_defs = mock_write_def via_def mock_inv_def DeviceState_default_def with_newline_def
  Let_def await.simps await_timeout.simps

lemmas simple_run_defs = simple_ping_pong_eq simple_send_def simple_write_def simple_emit_def simple_handle_rx_def
  simple_handle_line_def simple_finish_pending_def simple_update_cmd_def simple_resolve_pending_def
  simple_release_def simple_done_def simple_stop_def simple_report_op_def simple_wire_def
  simple_alone_def simple_steady_def mock_run_defs

section \<open>Jobs\<close>





lemma simple_ended:
  assumes "simple_ending calm n u" "simple_over u" "list_all (simple_calm calm) vs"
    "simple_send_safety_shutdown X b u vs = Ret y x xs"
  shows "simple_ending calm n x \<and> simple_over x"
proof -
  show ?thesis
  proof (cases "sleep (simple_env X) u vs")
    case (Ret y' v ws)
    have "simple_ending calm n v" using simple_endv.sleep_kept [OF assms(1,3), of X] Ret by simp
    moreover have "simple_over v" using simple_over.sleep_kept [OF assms(2), of vs X] Ret by (simp add: list_all_iff)
    moreover from Ret assms(4) have "x = u \<or> (\<exists>ds. x = v\<lparr>s_transport := write_each tr_is_open tr_write ds (s_transport v)\<rparr>)"
      by (auto simp: simple_send_safety_shutdown_def Let_def split: if_splits)
    ultimately show ?thesis
      using assms(1,2) tr.write_each_inv by (auto simp: simple_ending_def simple_over_def)
  qed (use assms in \<open>auto simp: simple_send_safety_shutdown_def Let_def split: if_splits\<close>)
qed

text \<open>
  When a job of the minimal GRBL session ends, whatever happened meanwhile, no job is running
  and no job error is left over; the job's own task reports its end at most once,
  and exactly once when nobody cancelled (as long as no other caller sends commands).
\<close>

theorem simple_job_end:
  assumes inv: "tr_inv (s_transport w)" and alone: "list_all simple_alone es"
    and run: "simple_run X gcode op_map w es = Ret () w' es'"
  shows "\<not> s_job_running w' \<and> s_job_exception w' = None \<and>
    jobs_finished (s_events w') \<le> Suc (jobs_finished (s_events w)) \<and>
    (EvCancel \<notin> set es \<longrightarrow> jobs_finished (s_events w') = Suc (jobs_finished (s_events w)))"
proof -
  define calm where "calm \<longleftrightarrow> EvCancel \<notin> set es"
  define n where "n = jobs_finished (s_events w)"
  have "simple_ending calm n (simple_start_job w)"
    using inv by (simp add: simple_ending_def n_def simple_start_job_def simple_set_state_def simple_emit_def Let_def)
  moreover have "list_all (simple_calm calm) es"
    using alone by (auto simp: list_all_iff simple_calm_def simple_alone_def calm_def)
  ultimately obtain b v vs where lines: "simple_run_lines X op_map 0 (lines gcode) (simple_start_job w) es = Ret b v vs"
    and v: "simple_ending calm n v" "list_all (simple_calm calm) vs"
    using run simple_endj.run_keeps [of calm n "simple_start_job w" es X op_map 0 "lines gcode"]
    by (cases "simple_run_lines X op_map 0 (lines gcode) (simple_start_job w) es") (simp_all add: simple_run_def)
  define u where "u = v\<lparr>s_job_exception := None, s_job_running := False, s_is_holding := False\<rparr>"
  have u: "simple_ending calm n u" "simple_over u" using v by (simp_all add: u_def simple_ending_def simple_over_def)
  obtain x xs where x: "simple_ending calm n x" "simple_over x"
    and w': "w' = (if \<not> s_is_cancelled v then simple_emit [JobFinished] x else x)"
    using run lines simple_ended [OF u v(2)] u
    by (fastforce simp: simple_run_def u_def [symmetric] Let_def split: if_splits dest!: bindA_congD)
  from x w' v(1) show ?thesis
    by (auto simp: simple_ending_def simple_over_def simple_emit_def calm_def n_def)
qed

theorem simple_job_end_witness:
  "\<exists>w'. simple_run std_regex ''M5'' Map.empty simple_demo [EvRx (''ok'' @ [LF]), EvTimer] = Ret () w' [] \<and>
     jobs_finished (s_events w') = 1"
proof -
  let ?es = "[EvRx (''ok'' @ [LF]), EvTimer]"
  have h: "tr_inv (s_transport simple_demo)" "list_all simple_alone ?es" by (simp_all add: simple_run_defs)
  have "lines ''M5'' = [''M5'']" by code_simp
  then have "\<exists>w'. simple_run std_regex ''M5'' Map.empty simple_demo ?es = Ret () w' []"
    by (simp add: simple_run_def simple_start_job_def simple_set_state_def simple_run_defs demo_lines)
  with simple_job_end [OF h] show ?thesis by fastforce
qed

section \<open>Replies\<close>

lemma simple_fold_cmds:
  "s_pending w = Some i \<Longrightarrow> i < length (s_cmds w) \<Longrightarrow>
   s_cmds (fold (simple_handle_line X) ls w) =
     (s_cmds w)[i := fold (\<lambda>l. give (simple_class l) l) ls (s_cmds w ! i)]"
  by (induction ls arbitrary: w) (simp_all add: simple_line_cmds simple_line_frame)

lemma simple_fold_buffer: "s_line_buffer (fold (simple_handle_line X) ls w) = s_line_buffer w"
  by (induction ls arbitrary: w) (simp_all add: simple_line_frame)

lemma simple_send_state:
  assumes "simple_send c w = (Inr u, v)"
  shows "s_pending v = Some (length (s_cmds w))" "s_cmds v = s_cmds w @ [PendingCmd_new]"
    "s_line_buffer v = s_line_buffer w" "s_cmd_lock v = s_cmd_lock w"
  using assms by (auto simp: simple_send_def simple_write_def simple_emit_def split: prod.splits sum.splits)

text \<open>
  One chunk that contains the end of a reply answers the command that was just sent: its lines are
  the informational lines before the first acknowledgement, error or alarm (with the error or alarm line
  last), status reports left out; afterwards no command waits, the lock is free again and the unfinished rest of
  the chunk stays in the buffer.
\<close>

theorem simple_exchange_reply:
  assumes free: "s_cmd_lock w = Free" and up: "tr_is_open (s_transport w)" and empty: "s_line_buffer w = []"
    and sent: "simple_send c (w\<lparr>s_cmd_lock := Mine\<rparr>) = (Inr (), v)"
    and d: "drain_lines d = (ls, r)" and complete: "snd (reply_of simple_class ls)"
  shows "\<exists>w'. simple_ping_pong X c w (EvRx d # es) = Ret (Inr (fst (reply_of simple_class ls))) w' es \<and>
    s_pending w' = None \<and> s_cmd_lock w' = Free \<and> s_line_buffer w' = r"
proof -
  let ?n = "length (s_cmds w)"
  let ?p = "fold (\<lambda>l. give (simple_class l) l) ls PendingCmd_new"
  let ?u = "simple_handle_rx X d v"
  have v: "s_pending v = Some ?n" "s_cmds v = s_cmds w @ [PendingCmd_new]" "s_line_buffer v = []" "s_cmd_lock v = Mine"
    using simple_send_state [OF sent] empty by simp_all
  have u: "s_cmds ?u = s_cmds w @ [?p]" "s_pending ?u = Some ?n" "s_line_buffer ?u = r"
    by (simp_all add: simple_handle_rx_def v d simple_fold_cmds simple_fold_frame simple_fold_buffer)
  have p: "pd_lines ?p = fst (reply_of simple_class ls)" "pd_is_finished ?p"
    using fold_give [of PendingCmd_new simple_class ls] complete by simp_all
  have go: "await_timeout (simple_env X) (simple_done ?n) v (EvRx d # es) = Ret True ?u es"
    by (simp add: await_timeout.simps simple_done_def v u p)
  have "simple_ping_pong X c w (EvRx d # es) =
      Ret (Inr (fst (reply_of simple_class ls))) (simple_release (simple_resolve_pending ?u)) es"
    using free up sent
    by (simp add: simple_ping_pong_eq await.simps Let_def go simple_release_def simple_resolve_pending_def
        simple_update_cmd_def u p)
  then show ?thesis by (simp add: simple_release_def simple_resolve_pending_def simple_update_cmd_def u)
qed

theorem simple_exchange_reply_witness:
  "\<exists>w'. simple_ping_pong std_regex ''$G'' simple_demo [EvRx (''[GC:G0]'' @ [LF] @ ''ok'' @ [LF] @ ''<Id'')] =
     Ret (Inr [''[GC:G0]'']) w' [] \<and> s_pending w' = None \<and> s_cmd_lock w' = Free \<and> s_line_buffer w' = ''<Id''"
proof -
  have d: "drain_lines (''[GC:G0]'' @ [LF] @ ''ok'' @ [LF] @ ''<Id'') = ([''[GC:G0]'', ''ok''], ''<Id'')" by code_simp
  have c: "reply_of simple_class [''[GC:G0]'', ''ok''] = ([''[GC:G0]''], True)" by code_simp
  have s: "\<exists>v. simple_send ''$G'' (simple_demo\<lparr>s_cmd_lock := Mine\<rparr>) = (Inr (), v)" by (simp add: simple_run_defs)
  then obtain v where s: "simple_send ''$G'' (simple_demo\<lparr>s_cmd_lock := Mine\<rparr>) = (Inr (), v)" ..
  from simple_exchange_reply [OF _ _ _ s d, of std_regex "[]"] c show ?thesis by simp
qed

section \<open>What goes wrong\<close>

text \<open>
  A cancelled job can go on. The job sends its first line; another task cancels it, which ends
  the wait; before the job looks at the flag again a third task calls execute_command (or set_hold), which clears
  the flag because no job is marked as running any more; the job then sends its next line.
\<close>

theorem simple_cancelled_job_goes_on:
  "let w = (simple_start_job simple_demo);
       v = world_of (simple_run_lines std_regex Map.empty 0 [''M3'', ''M5''] w [EvCancel, EvTask True, EvTimer])
   in simple_wire v = [''M3'' @ [LF], ''M5'' @ [LF]] \<and> \<not> s_job_running v"
  by (simp add: simple_run_defs demo_lines simple_start_job_def simple_set_state_def simple_cancel_begin_def
      simple_forget_cancel_def)

text \<open>
  A late acknowledgement is taken for a later command. The first command times out; its acknowledgement arrives
  while the second one waits and completes the second one, with no other reply received.
\<close>

theorem simple_late_ack_resolves_later:
  "\<exists>w1 w2. simple_ping_pong std_regex ''M3'' simple_demo [EvTimer] = Ret (Inl Err_Timeout) w1 [] \<and>
     simple_ping_pong std_regex ''M5'' w1 [EvRx (''ok'' @ [LF])] = Ret (Inr []) w2 [] \<and>
     simple_wire w2 = [''M3'' @ [LF], ''M5'' @ [LF]] \<and> ack_count simple_class (s_events w2) = 1"
  by (simp add: simple_run_defs demo_lines simple_class_def is_finish_def)

end
