(* ===== verification/Smoothie_Jobs.thy ===== *)
theory Smoothie_Jobs
  imports Smoothie_Props Simple_Jobs
begin

text \<open>
  Jobs of the Smoothieware session: their order on the wire, the bound on unacknowledged lines, and
  their end.
\<close>

section \<open>Concrete sessions\<close>

text \<open>A session on an open mock transport.\<close>

definition smoothie_demo :: SmoothieCore where
  "smoothie_demo = SmoothieCore_new (SmoothieConfig_new (Mock (snd (mock_open mock_new)))) Dialect_default"

lemma smoothie_demo_simps [simp]:
  "so_transport smoothie_demo = TMock \<lparr>mk_open = True, mk_tx = Some [], mk_sent = [], mk_cursor = 0, mk_write_error = None\<rparr>"
  "so_state smoothie_demo = DeviceState_default" "so_events smoothie_demo = []" "so_line_buffer smoothie_demo = []"
  "so_is_cancelled smoothie_demo = False" "so_job_running smoothie_demo = False" "so_keep_running smoothie_demo = False"
  "so_cmd_lock smoothie_demo = Free" "so_cmds smoothie_demo = []" "so_pending smoothie_demo = None"
  "so_job_exception smoothie_demo = None" "so_last_reported_op_index smoothie_demo = -1"
  by (simp_all add: smoothie_demo_def SmoothieCore_new_def SmoothieConfig_new_def mock_open_def mock_new_def)

lemmas smoothie_run_defs = smoothie_ping_pong_eq smoothie_send_def smoothie_write_def smoothie_emit_def smoothie_handle_rx_def
  smoothie_handle_line_def smoothie_finish_pending_def smoothie_update_cmd_def smoothie_resolve_pending_def
  smoothie_release_def smoothie_done_def smoothie_stop_def smoothie_report_op_def smoothie_wire_def
  smoothie_alone_def smoothie_steady_def mock_run_defs

section \<open>Jobs\<close>

text \<open>
  Whatever the other tasks do between the suspension points of a job of the Smoothieware session,
  as long as no other caller sends commands, the lines of the job reach the wire (status polls apart)
  without their comments, blank ones left out, each once and in the order of the program, and nothing
  else does. When the loop ends without a failed exchange, and the job is neither cancelled, nor in
  alarm, nor ended by an error of the device, all lines have been sent.
\<close>

theorem smoothie_job_in_order:
  assumes "tr_inv (so_transport w)" and "list_all smoothie_alone es"
  shows "\<exists>k \<le> length (sent_lines (\<lambda>l. trim (strip_gcode_comments X l)) ls).
      smoothie_wire (world_of (smoothie_run_lines X op_map 0 ls w es)) =
        smoothie_wire w @ map with_newline (take k (sent_lines (\<lambda>l. trim (strip_gcode_comments X l)) ls)) \<and>
      (\<forall>w' es'. smoothie_run_lines X op_map 0 ls w es = Ret False w' es' \<longrightarrow>
         \<not> so_is_cancelled w' \<longrightarrow> status (so_state w') \<noteq> Alarm \<longrightarrow> so_job_exception w' = None \<longrightarrow>
         k = length (sent_lines (\<lambda>l. trim (strip_gcode_comments X l)) ls))"
  using smoothie_job.run_in_order [OF assms, of X ls op_map 0] unfolding smoothie_job.in_order_def smoothie_stop_def by blast

theorem smoothie_job_in_order_witness:
  "smoothie_wire (world_of (smoothie_run_lines std_regex Map.empty 0 [''G0 X1 ; go'', ''(note)'', ''M5'']
     smoothie_demo [EvRx (''ok'' @ [LF]), EvTimer, EvRx (''ok'' @ [LF]), EvTimer])) =
     [''G0 X1'' @ [LF], ''M5'' @ [LF]]"
proof -
  let ?es = "[EvRx (''ok'' @ [LF]), EvTimer, EvRx (''ok'' @ [LF]), EvTimer]"
  let ?ls = "[''G0 X1 ; go'', ''(note)'', ''M5'']"
  have h: "tr_inv (so_transport smoothie_demo)" "list_all smoothie_alone ?es" by (simp_all add: smoothie_run_defs)
  have "\<exists>w'. smoothie_run_lines std_regex Map.empty 0 ?ls smoothie_demo ?es = Ret False w' [] \<and>
      \<not> so_is_cancelled w' \<and> status (so_state w') \<noteq> Alarm \<and> so_job_exception w' = None"
    by (simp add: smoothie_run_defs demo_lines)
  with smoothie_job_in_order [OF h, of std_regex ?ls Map.empty] show ?thesis
    by (auto simp: demo_lines smoothie_wire_def with_newline_def)
qed

text \<open>
  The Smoothieware session never runs ahead of the device. In a job, whenever it is suspended or
  has ended, the lines put on the wire exceed the acknowledgements, errors and alarms received since its
  start by at most one, as long as nobody else uses the session, cancel included.
\<close>

theorem smoothie_one_outstanding:
  assumes "tr_inv (so_transport w)" and "list_all smoothie_steady es"
    and "v = world_of (smoothie_run_lines X op_map 0 ls w es)"
  shows "length (smoothie_wire v) + ack_count smoothie_class (so_events w) \<le>
    Suc (length (smoothie_wire w) + ack_count smoothie_class (so_events v))"
  using smoothie_counted.run_outstanding [OF assms(1,2)] unfolding assms(3) .

theorem smoothie_one_outstanding_witness:
  "length (smoothie_wire (world_of (smoothie_run_lines std_regex Map.empty 0 [''M3'', ''M3'', ''M5''] smoothie_demo
     [EvRx (''ok'' @ [LF]), EvTimer, EvTask False]))) \<le> Suc 1"
proof -
  let ?es = "[EvRx (''ok'' @ [LF]), EvTimer, EvTask False]"
  let ?v = "world_of (smoothie_run_lines std_regex Map.empty 0 [''M3'', ''M3'', ''M5''] smoothie_demo ?es)"
  have h: "tr_inv (so_transport smoothie_demo)" "list_all smoothie_steady ?es" by (simp_all add: smoothie_run_defs)
  have "ack_count smoothie_class (so_events ?v) = 1"
    by (simp add: smoothie_run_defs demo_lines smoothie_class_def is_finish_def)
  with smoothie_one_outstanding [OF h refl, of std_regex Map.empty "[''M3'', ''M3'', ''M5'']"] show ?thesis
    by (simp add: smoothie_wire_def)
qed

lemma smoothie_ended:
  assumes "smoothie_ending calm n u" "smoothie_over u" "list_all (smoothie_calm calm) vs"
    "smoothie_send_safety_shutdown X b u vs = Ret y x xs"
  shows "smoothie_ending calm n x \<and> smoothie_over x"
proof -
  show ?thesis
  proof (cases "sleep (smoothie_env X) u vs")
    case (Ret y' v ws)
    have "smoothie_ending calm n v" using smoothie_endv.sleep_kept [OF assms(1,3), of X] Ret by simp
    moreover have "smoothie_over v" using smoothie_over.sleep_kept [OF assms(2), of vs X] Ret by (simp add: list_all_iff)
    moreover from Ret assms(4) have "x = u \<or> (\<exists>ds. x = v\<lparr>so_transport := write_each tr_is_open tr_write ds (so_transport v)\<rparr>)"
      by (auto simp: smoothie_send_safety_shutdown_def Let_def split: if_splits)
    ultimately show ?thesis
      using assms(1,2) tr.write_each_inv by (auto simp: smoothie_ending_def smoothie_over_def)
  qed (use assms in \<open>auto simp: smoothie_send_safety_shutdown_def Let_def split: if_splits\<close>)
qed

text \<open>
  When a job of the Smoothieware session ends, whatever happened meanwhile, no job is running
  and no job error is left over; the job's own task reports its end at most once,
  and exactly once when nobody cancelled (as long as no other caller sends commands).
\<close>

theorem smoothie_job_end:
  assumes inv: "tr_inv (so_transport w)" and alone: "list_all smoothie_alone es"
    and run: "smoothie_run X gcode op_map w es = Ret () w' es'"
  shows "\<not> so_job_running w' \<and> so_job_exception w' = None \<and>
    jobs_finished (so_events w') \<le> Suc (jobs_finished (so_events w)) \<and>
    (EvCancel \<notin> set es \<longrightarrow> jobs_finished (so_events w') = Suc (jobs_finished (so_events w)))"
proof -
  define calm where "calm \<longleftrightarrow> EvCancel \<notin> set es"
  define n where "n = jobs_finished (so_events w)"
  have "smoothie_ending calm n (smoothie_start_job w)"
    using inv by (simp add: smoothie_ending_def n_def smoothie_start_job_def smoothie_set_state_def smoothie_emit_def Let_def)
  moreover have "list_all (smoothie_calm calm) es"
    using alone by (auto simp: list_all_iff smoothie_calm_def smoothie_alone_def calm_def)
  ultimately obtain b v vs where lines: "smoothie_run_lines X op_map 0 (lines gcode) (smoothie_start_job w) es = Ret b v vs"
    and v: "smoothie_ending calm n v" "list_all (smoothie_calm calm) vs"
    using run smoothie_endj.run_keeps [of calm n "smoothie_start_job w" es X op_map 0 "lines gcode"]
    by (cases "smoothie_run_lines X op_map 0 (lines gcode) (smoothie_start_job w) es") (simp_all add: smoothie_run_def)
  define u where "u = v\<lparr>so_job_exception := None, so_job_running := False, so_is_holding := False\<rparr>"
  have u: "smoothie_ending calm n u" "smoothie_over u" using v by (simp_all add: u_def smoothie_ending_def smoothie_over_def)
  obtain x xs where x: "smoothie_ending calm n x" "smoothie_over x"
    and w': "w' = (if \<not> so_is_cancelled v then smoothie_emit [JobFinished] x else x)"
    using run lines smoothie_ended [OF u v(2)] u
    by (fastforce simp: smoothie_run_def u_def [symmetric] Let_def split: if_splits dest!: bindA_congD)
  from x w' v(1) show ?thesis
    by (auto simp: smoothie_ending_def smoothie_over_def smoothie_emit_def calm_def n_def)
qed

theorem smoothie_job_end_witness:
  "\<exists>w'. smoothie_run std_regex ''M5'' Map.empty smoothie_demo [EvRx (''ok'' @ [LF]), EvTimer] = Ret () w' [] \<and>
     jobs_finished (so_events w') = 1"
proof -
  let ?es = "[EvRx (''ok'' @ [LF]), EvTimer]"
  have h: "tr_inv (so_transport smoothie_demo)" "list_all smoothie_alone ?es" by (simp_all add: smoothie_run_defs)
  have "lines ''M5'' = [''M5'']" by code_simp
  then have "\<exists>w'. smoothie_run std_regex ''M5'' Map.empty smoothie_demo ?es = Ret () w' []"
    by (simp add: smoothie_run_def smoothie_start_job_def smoothie_set_state_def smoothie_run_defs demo_lines)
  with smoothie_job_end [OF h] show ?thesis by fastforce
qed

end
