(* ===== verification/Marlin_Props.thy ===== *)
theory Marlin_Props
  imports Marlin Ping_Pong
begin

text \<open>
  The Marlin session as a ping-pong session. Its receiver gives the lines to the front of a queue of
  commands; its exchange first waits for the device to announce itself. The position poll is not under the
  command lock, so the contract of the job is stated for a running job with polling switched off, which
  is the default.
\<close>

section \<open>What a received line does\<close>

definition marlin_class :: "text_lib \<Rightarrow> string \<Rightarrow> line_role" where
  "marlin_class L l = (if is_ok L l \<or> is_error l then Finish (Some l) else Gather)"

lemmas marlin_line_defs = marlin_handle_line_def marlin_handle_error_line_def marlin_handle_position_report_def
  marlin_maybe_announce_handshake_def marlin_halt_job_def marlin_set_state_def marlin_emit_def
  marlin_finish_pending_def marlin_collect_for_pending_def marlin_update_cmd_def

lemma marlin_line_frame:
  "ma_transport (marlin_handle_line L l w) = ma_transport w"
  "ma_pending_queue (marlin_handle_line L l w) = ma_pending_queue w"
  "ma_cmd_lock (marlin_handle_line L l w) = ma_cmd_lock w"
  "ma_job_running (marlin_handle_line L l w) = ma_job_running w"
  "ma_is_cancelled (marlin_handle_line L l w) = ma_is_cancelled w"
  "ma_config (marlin_handle_line L l w) = ma_config w"
  "ma_line_buffer (marlin_handle_line L l w) = ma_line_buffer w"
  by (auto simp: marlin_line_defs Let_def split: option.splits list.splits)

lemma marlin_parts_buffer:
  "marlin_emit evs (w\<lparr>ma_line_buffer := b\<rparr>) = (marlin_emit evs w)\<lparr>ma_line_buffer := b\<rparr>"
  "marlin_set_state st (w\<lparr>ma_line_buffer := b\<rparr>) = (marlin_set_state st w)\<lparr>ma_line_buffer := b\<rparr>"
  "marlin_update_cmd i f (w\<lparr>ma_line_buffer := b\<rparr>) = (marlin_update_cmd i f w)\<lparr>ma_line_buffer := b\<rparr>"
  "marlin_halt_job m (w\<lparr>ma_line_buffer := b\<rparr>) = (marlin_halt_job m w)\<lparr>ma_line_buffer := b\<rparr>"
  "marlin_maybe_announce_handshake (w\<lparr>ma_line_buffer := b\<rparr>) = (marlin_maybe_announce_handshake w)\<lparr>ma_line_buffer := b\<rparr>"
  by (simp_all add: marlin_emit_def marlin_set_state_def marlin_update_cmd_def marlin_halt_job_def marlin_maybe_announce_handshake_def)

lemma marlin_handlers_buffer:
  "marlin_finish_pending o' (w\<lparr>ma_line_buffer := b\<rparr>) = (marlin_finish_pending o' w)\<lparr>ma_line_buffer := b\<rparr>"
  "marlin_collect_for_pending l (w\<lparr>ma_line_buffer := b\<rparr>) = (marlin_collect_for_pending l w)\<lparr>ma_line_buffer := b\<rparr>"
  "marlin_handle_position_report L l (w\<lparr>ma_line_buffer := b\<rparr>) = (marlin_handle_position_report L l w)\<lparr>ma_line_buffer := b\<rparr>"
  by (simp_all add: marlin_finish_pending_def marlin_collect_for_pending_def marlin_handle_position_report_def
      marlin_parts_buffer Let_def split: option.split list.split)

lemma marlin_line_buffer:
  "marlin_handle_line L l (w\<lparr>ma_line_buffer := b\<rparr>) = (marlin_handle_line L l w)\<lparr>ma_line_buffer := b\<rparr>"
  by (simp add: marlin_handle_line_def marlin_handle_error_line_def marlin_handlers_buffer marlin_parts_buffer Let_def)

lemma marlin_finish_cmds:
  "ma_cmds (marlin_finish_pending (Some l) w) =
     (case ma_pending_queue w of [] \<Rightarrow> ma_cmds w
      | i # _ \<Rightarrow> (ma_cmds w)[i := give (Finish (Some l)) l (ma_cmds w ! i)])"
proof (cases "ma_pending_queue w")
  case (Cons i rest)
  then show ?thesis
    by (cases "i < length (ma_cmds w)")
      (simp_all add: marlin_finish_pending_def marlin_update_cmd_def give_def list_update_beyond Let_def)
qed (simp add: marlin_finish_pending_def)

lemma marlin_collect_cmds:
  "ma_cmds (marlin_collect_for_pending l w) =
     (case ma_pending_queue w of [] \<Rightarrow> ma_cmds w | i # _ \<Rightarrow> (ma_cmds w)[i := give Gather l (ma_cmds w ! i)])"
  by (simp add: marlin_collect_for_pending_def marlin_update_cmd_def give_def split: list.split)

lemma marlin_parts_cmds:
  "ma_cmds (marlin_emit evs w) = ma_cmds w" "ma_pending_queue (marlin_emit evs w) = ma_pending_queue w"
  "ma_cmds (marlin_set_state st w) = ma_cmds w" "ma_pending_queue (marlin_set_state st w) = ma_pending_queue w"
  "ma_cmds (marlin_halt_job m w) = ma_cmds w"
  "ma_cmds (marlin_maybe_announce_handshake w) = ma_cmds w"
  "ma_pending_queue (marlin_maybe_announce_handshake w) = ma_pending_queue w"
  "ma_cmds (marlin_handle_position_report L l w) = ma_cmds w"
  "ma_pending_queue (marlin_handle_position_report L l w) = ma_pending_queue w"
  by (simp_all add: marlin_emit_def marlin_set_state_def marlin_halt_job_def marlin_maybe_announce_handshake_def
      marlin_handle_position_report_def Let_def split: option.split)

lemma marlin_line_cmds:
  "ma_cmds (marlin_handle_line L l w) =
     (case ma_pending_queue w of [] \<Rightarrow> ma_cmds w
      | i # _ \<Rightarrow> (ma_cmds w)[i := give (marlin_class L l) l (ma_cmds w ! i)])"
  by (simp add: marlin_handle_line_def marlin_handle_error_line_def marlin_class_def Let_def marlin_finish_cmds
      marlin_collect_cmds marlin_parts_cmds split: list.split)

lemma marlin_line_counts:
  "ack_count (marlin_class L) (ma_events (marlin_handle_line L l w)) =
     ack_count (marlin_class L) (ma_events w) + (if is_finish (marlin_class L l) then 1 else 0)"
  by (auto simp: marlin_line_defs marlin_class_def Let_def is_finish_def split: option.splits list.splits)

interpretation marlin_rx: line_receiver ma_line_buffer "\<lambda>b w. w\<lparr>ma_line_buffer := b\<rparr>" "marlin_handle_line L" "marlin_handle_rx L"
  for L
  by unfold_locales (simp_all add: marlin_handle_rx_def marlin_line_buffer)

lemma marlin_fold_frame:
  "ma_transport (fold (marlin_handle_line L) ls w) = ma_transport w"
  "ma_pending_queue (fold (marlin_handle_line L) ls w) = ma_pending_queue w"
  "ma_cmd_lock (fold (marlin_handle_line L) ls w) = ma_cmd_lock w"
  "ma_job_running (fold (marlin_handle_line L) ls w) = ma_job_running w"
  "ma_config (fold (marlin_handle_line L) ls w) = ma_config w"
  "ma_line_buffer (fold (marlin_handle_line L) ls w) = ma_line_buffer w"
  by (induction ls arbitrary: w) (simp_all add: marlin_line_frame)

lemma marlin_fold_cmds:
  "ma_pending_queue w = i # rest \<Longrightarrow> i < length (ma_cmds w) \<Longrightarrow>
   ma_cmds (fold (marlin_handle_line L) ls w) =
     (ma_cmds w)[i := fold (\<lambda>l. give (marlin_class L l) l) ls (ma_cmds w ! i)]"
  by (induction ls arbitrary: w) (simp_all add: marlin_line_cmds marlin_line_frame)

lemma marlin_fold_acks:
  "ack_count (marlin_class L) (ma_events w) \<le> ack_count (marlin_class L) (ma_events (fold (marlin_handle_line L) ls w))"
proof (induction ls arbitrary: w)
  case Nil
  show ?case by simp
next
  case (Cons l ls)
  from Cons [of "marlin_handle_line L l w"] show ?case by (simp add: marlin_line_counts)
qed

lemma marlin_line_completes:
  assumes "pd_is_finished (ma_cmds (marlin_handle_line L l w) ! i)" "\<not> pd_is_finished (ma_cmds w ! i)"
  shows "is_finish (marlin_class L l)"
proof (cases "ma_pending_queue w")
  case Nil
  with assms show ?thesis by (simp add: marlin_line_cmds)
next
  case (Cons j js)
  with assms give_completes show ?thesis
    by (cases "j < length (ma_cmds w)"; cases "j = i") (auto simp: marlin_line_cmds list_update_beyond)
qed

lemma marlin_fold_completes:
  "pd_is_finished (ma_cmds (fold (marlin_handle_line L) ls w) ! i) \<Longrightarrow> \<not> pd_is_finished (ma_cmds w ! i) \<Longrightarrow>
   ack_count (marlin_class L) (ma_events w) < ack_count (marlin_class L) (ma_events (fold (marlin_handle_line L) ls w))"
proof (induction ls arbitrary: w)
  case Nil
  then show ?case by simp
next
  case (Cons l ls)
  let ?w = "marlin_handle_line L l w"
  show ?case
  proof (cases "pd_is_finished (ma_cmds ?w ! i)")
    case True
    with marlin_line_completes [OF _ Cons.prems(2), of L l] have "is_finish (marlin_class L l)" by blast
    then have "ack_count (marlin_class L) (ma_events w) < ack_count (marlin_class L) (ma_events ?w)"
      by (simp add: marlin_line_counts)
    with marlin_fold_acks [of L ?w ls] show ?thesis by simp
  next
    case False
    with Cons.IH [of ?w] Cons.prems(1) show ?thesis by (simp add: marlin_line_counts)
  qed
qed

lemma marlin_rx_frame:
  "ma_transport (marlin_handle_rx L d w) = ma_transport w"
  "ma_job_running (marlin_handle_rx L d w) = ma_job_running w"
  "ma_config (marlin_handle_rx L d w) = ma_config w"
  by (simp_all add: marlin_handle_rx_def marlin_fold_frame split: prod.split)

lemma marlin_rx_acks:
  "ack_count (marlin_class L) (ma_events w) \<le> ack_count (marlin_class L) (ma_events (marlin_handle_rx L d w))"
  using marlin_fold_acks [of L "w\<lparr>ma_line_buffer := b\<rparr>" for b] by (simp add: marlin_handle_rx_def split: prod.split)

lemma marlin_rx_completes:
  "pd_is_finished (ma_cmds (marlin_handle_rx L d w) ! i) \<Longrightarrow> \<not> pd_is_finished (ma_cmds w ! i) \<Longrightarrow>
   ack_count (marlin_class L) (ma_events w) < ack_count (marlin_class L) (ma_events (marlin_handle_rx L d w))"
  using marlin_fold_completes [of L _ "w\<lparr>ma_line_buffer := b\<rparr>" i for b]
  by (simp add: marlin_handle_rx_def split: prod.splits)

section \<open>The exchange\<close>

text \<open>A running job, and no polls while it runs.\<close>

definition marlin_inv :: "MarlinCore \<Rightarrow> bool" where
  "marlin_inv w \<longleftrightarrow> tr_inv (ma_transport w) \<and> ma_job_running w \<and> \<not> mac_poll_status_while_running (ma_config w)"

abbreviation marlin_wire :: "MarlinCore \<Rightarrow> bytes list" where
  "marlin_wire w \<equiv> tr_wire (ma_transport w)"

abbreviation marlin_acks :: "text_lib \<Rightarrow> MarlinCore \<Rightarrow> nat" where
  "marlin_acks L w \<equiv> ack_count (marlin_class L) (ma_events w)"

text \<open>Nobody else sends commands, and nobody cancels.\<close>

definition marlin_alone :: "env_event \<Rightarrow> bool" where
  "marlin_alone e = (e \<noteq> EvLockTaken \<and> e \<noteq> EvCancel)"

lemma marlin_drop_frame:
  "ma_transport (marlin_drop_entry i w) = ma_transport w" "ma_cmds (marlin_drop_entry i w) = ma_cmds w"
  "ma_events (marlin_drop_entry i w) = ma_events w" "ma_job_running (marlin_drop_entry i w) = ma_job_running w"
  "ma_config (marlin_drop_entry i w) = ma_config w"
  by (simp_all add: marlin_drop_entry_def)

lemma marlin_freed_frame:
  "ma_transport (marlin_env L EvLockFreed w) = ma_transport w" "ma_cmds (marlin_env L EvLockFreed w) = ma_cmds w"
  "ma_events (marlin_env L EvLockFreed w) = ma_events w" "ma_job_running (marlin_env L EvLockFreed w) = ma_job_running w"
  "ma_config (marlin_env L EvLockFreed w) = ma_config w"
  by (simp_all add: marlin_drop_frame split: option.split)

text \<open>While a job runs the connection task sends nothing.\<close>

lemma marlin_task_frame:
  assumes "marlin_inv w"
  shows "marlin_inv (marlin_poll_task b w)" "marlin_wire (marlin_poll_task b w) = marlin_wire w"
    "ma_cmds (marlin_poll_task b w) = ma_cmds w" "marlin_acks L (marlin_poll_task b w) = marlin_acks L w"
  using assms tr.close_frame [of "ma_transport w"]
  by (auto simp: marlin_poll_task_def marlin_inv_def marlin_drop_frame marlin_update_connection_status_def marlin_emit_def
      split: option.split)

lemma marlin_env_quiet:
  assumes "marlin_alone e" "marlin_inv w"
  shows "marlin_inv (marlin_env L e w) \<and> marlin_wire (marlin_env L e w) = marlin_wire w"
  using assms tr.close_frame [of "ma_transport w"] marlin_task_frame [of w] marlin_freed_frame [of L w]
  by (cases e) (auto simp: marlin_alone_def marlin_rx_frame marlin_inv_def simp del: marlin_env.simps(7))

lemma marlin_env_acks:
  assumes "marlin_alone e" "marlin_inv w"
  shows "marlin_acks L w \<le> marlin_acks L (marlin_env L e w) \<and>
    (marlin_done i (marlin_env L e w) \<longrightarrow> marlin_done i w \<or> marlin_acks L w < marlin_acks L (marlin_env L e w))"
  using assms marlin_rx_acks [of L w] marlin_rx_completes [of L _ w i] marlin_task_frame [of w] marlin_freed_frame [of L w]
  by (cases e) (auto simp: marlin_alone_def marlin_done_def simp del: marlin_env.simps(7))

lemma marlin_write_frame:
  "ma_events (snd (marlin_write d w)) = ma_events w" "ma_cmds (snd (marlin_write d w)) = ma_cmds w"
  "ma_job_running (snd (marlin_write d w)) = ma_job_running w" "ma_config (snd (marlin_write d w)) = ma_config w"
  by (auto simp: marlin_write_def split: prod.split sum.split)

lemma marlin_send_cases:
  assumes "marlin_inv w" "marlin_send c w = (r, w')"
  shows "marlin_inv w'" "marlin_wire w' = marlin_wire w @ (case r of Inr _ \<Rightarrow> [with_newline c] | Inl _ \<Rightarrow> [])"
    "marlin_acks L w' = marlin_acks L w" "\<not> marlin_done (length (ma_cmds w)) w'"
proof -
  define v where "v = marlin_emit [RawTx c]
    (w\<lparr>ma_cmds := ma_cmds w @ [PendingCmd_new], ma_pending_queue := ma_pending_queue w @ [length (ma_cmds w)]\<rparr>)"
  have v: "ma_transport v = ma_transport w" "ma_job_running v = ma_job_running w" "ma_config v = ma_config w"
    "ma_cmds v = ma_cmds w @ [PendingCmd_new]" "marlin_acks L v = marlin_acks L w"
    by (simp_all add: v_def marlin_emit_def)
  from assms(2) have s: "marlin_write (with_newline c) v = (r, w')" by (simp add: marlin_send_def v_def)
  note f = marlin_write_frame [of "with_newline c" v, unfolded s snd_conv]
  have "tr_inv (ma_transport v)" using assms(1) v by (simp add: marlin_inv_def)
  with s tr.write_cases [of "ma_transport v" "with_newline c"]
  have t: "tr_inv (ma_transport w')" "marlin_wire w' = marlin_wire v @ (case r of Inr _ \<Rightarrow> [with_newline c] | Inl _ \<Rightarrow> [])"
    by (auto simp: marlin_write_def split: prod.splits sum.splits)
  from t(2) v show "marlin_wire w' = marlin_wire w @ (case r of Inr _ \<Rightarrow> [with_newline c] | Inl _ \<Rightarrow> [])" by simp
  from t(1) assms(1) f v show "marlin_inv w'" by (simp add: marlin_inv_def)
  from f v show "marlin_acks L w' = marlin_acks L w" "\<not> marlin_done (length (ma_cmds w)) w'"
    by (simp_all add: marlin_done_def)
qed

lemma marlin_enqueue_eq:
  "marlin_enqueue_and_wait L c True w es =
     bindA (await (marlin_env L) (\<lambda>w. ma_cmd_lock w = Free) w es) (\<lambda>_ w es.
        let w = w\<lparr>ma_cmd_lock := Mine\<rparr> in
        if \<not> tr_is_open (ma_transport w) then Ret (Inl marlin_not_connected) (marlin_release w) es
        else let i = length (ma_cmds w) in
          bindA (case marlin_send c w of
                   (Inl e, w) \<Rightarrow> Ret (Inl e) w es
                 | (Inr _, w) \<Rightarrow> bindA (await_timeout (marlin_env L) (marlin_done i) w es)
                                   (\<lambda>ok w es. Ret (if ok then Inr () else Inl Err_Timeout) w es))
            (\<lambda>r w es. let w = marlin_release (marlin_drop_entry i w) in
               case r of Inl e \<Rightarrow> Ret (Inl e) w es | Inr _ \<Rightarrow> Ret (Inr (pd_lines (ma_cmds w ! i))) w es))"
  by (simp add: marlin_enqueue_and_wait_def marlin_acquire_def Let_def bindA_def split: outcome.split)

interpretation marlin_ack: ping_pong_acks "marlin_env L" marlin_alone marlin_wire marlin_inv
  "\<lambda>w. ma_cmd_lock w = Free" "\<lambda>w. w\<lparr>ma_cmd_lock := Mine\<rparr>" marlin_release "\<lambda>w. tr_is_open (ma_transport w)"
  "\<lambda>w. length (ma_cmds w)" marlin_send marlin_done "\<lambda>i w. marlin_release (marlin_drop_entry i w)"
  "\<lambda>i w. pd_lines (ma_cmds w ! i)" marlin_not_connected "\<lambda>c. marlin_enqueue_and_wait L c True"
  "\<lambda>w. length (marlin_wire w)" "marlin_acks L" for L
proof (unfold_locales, goal_cases)
  case 3
  show ?case by (rule marlin_enqueue_eq)
next
  case (7 w c u w')
  then show ?case using marlin_send_cases(1,2) [OF 7] by simp
next
  case (8 w c e w')
  then show ?case using marlin_send_cases(1,2) [OF 8] by simp
next
  case (15 w c r w')
  then show ?case using marlin_send_cases(1,2,4) [OF 15] marlin_send_cases(3) [OF 15, of L] by (simp split: sum.split)
qed (use marlin_env_quiet marlin_env_acks in
      \<open>auto simp: marlin_release_def marlin_drop_frame marlin_inv_def\<close>)

text \<open>The wait for the announcement of the device before it changes nothing of this.\<close>

lemma marlin_ping_pong_sends:
  assumes "marlin_inv w" "list_all marlin_alone es"
  shows "line_sent marlin_inv marlin_alone marlin_wire (marlin_wire w) (with_newline c) (marlin_ping_pong L c w es)"
proof -
  let ?m = "if AsyncEvent_is_set (ma_connected w) then Ret True w es
            else await_timeout (marlin_env L) (\<lambda>w. AsyncEvent_is_set (ma_connected w)) w es"
  have q: "marlin_inv (world_of ?m) \<and> marlin_wire (world_of ?m) = marlin_wire w \<and> list_all marlin_alone (events_left ?m)"
    using marlin_ack.await_timeout_quiet [OF assms] assms by simp
  show ?thesis
  proof (cases ?m)
    case (Ret b v vs)
    with q have v: "marlin_inv v" "marlin_wire v = marlin_wire w" "list_all marlin_alone vs" by simp_all
    from marlin_ack.exchange_sends [OF v(1,3), of c L] v Ret show ?thesis
      by (simp add: marlin_ping_pong_def line_sent_def)
  qed (use q in \<open>simp_all add: marlin_ping_pong_def line_sent_def\<close>)
qed

lemma marlin_ping_pong_counts:
  assumes "marlin_inv w" "list_all marlin_alone es" "m = marlin_ping_pong L c w es"
  shows "marlin_acks L w \<le> marlin_acks L (world_of m) \<and> length (marlin_wire (world_of m)) \<le> Suc (length (marlin_wire w)) \<and>
    (\<forall>r w' es'. m = Ret (Inr r) w' es' \<longrightarrow> marlin_acks L w < marlin_acks L w')"
proof -
  let ?m = "if AsyncEvent_is_set (ma_connected w) then Ret True w es
            else await_timeout (marlin_env L) (\<lambda>w. AsyncEvent_is_set (ma_connected w)) w es"
  have q: "marlin_inv (world_of ?m) \<and> length (marlin_wire (world_of ?m)) = length (marlin_wire w) \<and>
      marlin_acks L w \<le> marlin_acks L (world_of ?m) \<and> list_all marlin_alone (events_left ?m)"
    using marlin_ack.waits_keep(2) [where w = w and t = "length (marlin_wire w)" and a = "marlin_acks L w" and es = es and L = L, unfolded marlin_ack.kept_counts] assms
    by simp
  show ?thesis
  proof (cases ?m)
    case (Ret b v vs)
    with q have v: "marlin_inv v" "length (marlin_wire v) = length (marlin_wire w)" "marlin_acks L w \<le> marlin_acks L v"
      "list_all marlin_alone vs" by simp_all
    have "m = (if \<not> b then Ret (Inl (Err_Connection ''device did not announce itself'')) v vs
        else if \<not> tr_is_open (ma_transport v) then Ret (Inl marlin_not_connected) v vs
        else marlin_enqueue_and_wait L c True v vs)"
      using Ret assms(3) by (simp only: marlin_ping_pong_def bindA_simps)
    with marlin_ack.exchange_counts [OF v(1,4) refl, of L c] v show ?thesis
      by (auto intro: le_less_trans order_trans)
  qed (use q assms(3) in \<open>simp_all add: marlin_ping_pong_def\<close>)
qed

section \<open>Jobs\<close>

abbreviation marlin_failed :: "MarlinCore \<Rightarrow> bool" where
  "marlin_failed w \<equiv> ma_job_exception w \<noteq> None"

lemma marlin_report_frame:
  "ma_transport (marlin_report_op op w) = ma_transport w" "marlin_inv (marlin_report_op op w) = marlin_inv w"
  "ack_count cls (ma_events (marlin_report_op op w)) = ack_count cls (ma_events w)"
  by (simp_all add: marlin_report_op_def marlin_emit_def marlin_inv_def split: option.split)

interpretation marlin_job: ping_pong_counted_job "marlin_env L" marlin_alone marlin_wire marlin_inv "marlin_ping_pong L"
  marlin_stop marlin_failed trim marlin_report_op "marlin_run_lines L" "\<lambda>w. length (marlin_wire w)" "marlin_acks L" for L
  by unfold_locales
    (auto simp: marlin_report_frame marlin_ping_pong_sends marlin_ack.step_tx marlin_ack.step_ack
      dest: marlin_ping_pong_counts [OF _ _ refl] marlin_env_quiet)

end
