(* ===== verification/Marlin_Jobs.thy ===== *)
theory Marlin_Jobs
  imports Marlin_Props Simple_Jobs
begin

text \<open>
  What the contracts of \<open>Marlin_Props\<close> give for the Marlin session: the order of a job on the wire
  and the bound on unacknowledged lines; and two runs that contradict what the source says of them: of
  two acknowledgements in one chunk the second is lost, and after a reconnection commands are sent before the
  device has announced itself.
\<close>

section \<open>Concrete sessions\<close>

text \<open>A connected session on an open mock transport, and one that was never connected.\<close>

definition marlin_fresh :: MarlinCore where
  "marlin_fresh = (MarlinCore_new (MarlinConfig_new (Mock mock_new)) Dialect_default)\<lparr>ma_keep_running := True\<rparr>"

definition marlin_demo :: MarlinCore where
  "marlin_demo = marlin_fresh\<lparr>ma_transport := TMock (snd (mock_open mock_new)), ma_connected := AsyncEvent_set AsyncEvent_new\<rparr>"

lemma marlin_fresh_simps [simp]:
  "ma_transport marlin_fresh = TMock \<lparr>mk_open = False, mk_tx = None, mk_sent = [], mk_cursor = 0, mk_write_error = None\<rparr>"
  "ma_state marlin_fresh = DeviceState_default" "ma_events marlin_fresh = []" "ma_line_buffer marlin_fresh = []"
  "ma_is_cancelled marlin_fresh = False" "ma_job_running marlin_fresh = False" "ma_keep_running marlin_fresh"
  "ma_cmd_lock marlin_fresh = Free" "ma_cmds marlin_fresh = []" "ma_pending_queue marlin_fresh = []"
  "ma_job_exception marlin_fresh = None" "ma_last_reported_op_index marlin_fresh = -1"
  "ma_poll marlin_fresh = None" "\<not> mac_poll_status_while_running (ma_config marlin_fresh)"
  "ma_connected marlin_fresh = AsyncEvent_new" "ma_handshake_received marlin_fresh = AsyncEvent_new"
  by (simp_all add: marlin_fresh_def MarlinCore_new_def MarlinConfig_new_def mock_new_def)

lemma marlin_demo_lines:
  "drain_lines [CHR ''o'', CHR ''k'', LF, CHR ''o'', CHR ''k'', LF] = ([''ok'', ''ok''], [])"
  "drain_lines [CHR ''s'', CHR ''t'', CHR ''a'', CHR ''r'', CHR ''t'', LF] = ([''start''], [])"
  "trim ''M3'' = ''M3''" "trim ''M5 '' = ''M5''" "trim '' '' = []"
  "is_ok std_text ''ok''" "\<not> is_ok std_text ''start''" "\<not> is_error ''start''" "\<not> is_m114_position std_text ''start''"
  by code_simp+

lemmas marlin_run_defs = marlin_demo_def marlin_ping_pong_def marlin_enqueue_eq marlin_send_def marlin_write_def
  marlin_emit_def marlin_handle_rx_def marlin_handle_line_def marlin_maybe_announce_handshake_def
  marlin_finish_pending_def marlin_collect_for_pending_def marlin_update_cmd_def marlin_drop_entry_def
  marlin_release_def marlin_done_def marlin_stop_def marlin_report_op_def marlin_alone_def marlin_inv_def
  marlin_start_job_def marlin_set_state_def marlin_poll_task_def marlin_update_connection_status_def
  marlin_class_def is_finish_def mock_open_def mock_close_def mock_new_def mock_run_defs demo_lines(1) marlin_demo_lines

section \<open>Jobs\<close>

text \<open>
  C10: Whatever the other tasks do between the suspension points of a running job of the Marlin session
  that does not poll while it runs, as long as no other caller sends commands and nobody cancels, the
  trimmed lines of the job reach the wire, blank ones left out, each once and in the order of the program,
  and nothing else does. When the loop ends without a failed exchange, a cancel or an error of the device,
  all lines have been sent.
\<close>

theorem marlin_job_in_order:
  assumes "marlin_inv w" and "list_all marlin_alone es"
  shows "\<exists>k \<le> length (sent_lines trim ls).
      marlin_wire (world_of (marlin_run_lines L op_map 0 ls w es)) =
        marlin_wire w @ map with_newline (take k (sent_lines trim ls)) \<and>
      (\<forall>w' es'. marlin_run_lines L op_map 0 ls w es = Ret False w' es' \<longrightarrow>
         \<not> ma_is_cancelled w' \<longrightarrow> ma_job_exception w' = None \<longrightarrow> k = length (sent_lines trim ls))"
  using marlin_job.run_in_order [OF assms, of ls L op_map 0] unfolding marlin_job.in_order_def marlin_stop_def by blast

theorem marlin_job_in_order_witness:
  "marlin_wire (world_of (marlin_run_lines std_text Map.empty 0 [''M3'', '' '', ''M5 ''] (marlin_start_job marlin_demo)
     [EvRx (''ok'' @ [LF]), EvTimer, EvRx (''ok'' @ [LF]), EvTimer])) = [''M3'' @ [LF], ''M5'' @ [LF]]"
proof -
  let ?es = "[EvRx (''ok'' @ [LF]), EvTimer, EvRx (''ok'' @ [LF]), EvTimer]"
  let ?ls = "[''M3'', '' '', ''M5 '']"
  let ?w = "marlin_start_job marlin_demo"
  have h: "marlin_inv ?w" "list_all marlin_alone ?es" by (simp_all add: marlin_run_defs)
  have "\<exists>w'. marlin_run_lines std_text Map.empty 0 ?ls ?w ?es = Ret False w' [] \<and>
      \<not> ma_is_cancelled w' \<and> ma_job_exception w' = None"
    by (simp add: marlin_run_defs)
  moreover have "marlin_wire ?w = []" by (simp add: marlin_run_defs)
  ultimately show ?thesis using marlin_job_in_order [OF h, of ?ls std_text Map.empty]
    by (auto simp: marlin_demo_lines with_newline_def)
qed

text \<open>
  A running job of the Marlin session never runs ahead of the device: whenever it is suspended or
  has ended, the lines put on the wire exceed the acknowledgements and errors received since its start
  by at most one, as long as nobody else sends commands or cancels and the session does not poll meanwhile.
\<close>

theorem marlin_one_outstanding:
  assumes "marlin_inv w" and "list_all marlin_alone es" and "v = world_of (marlin_run_lines L op_map 0 ls w es)"
  shows "length (marlin_wire v) + ack_count (marlin_class L) (ma_events w) \<le>
    Suc (length (marlin_wire w) + ack_count (marlin_class L) (ma_events v))"
  using marlin_job.run_outstanding [OF assms(1,2)] unfolding assms(3) .

theorem marlin_one_outstanding_witness:
  "length (marlin_wire (world_of (marlin_run_lines std_text Map.empty 0 [''M3'', ''M5 '', ''M3''] (marlin_start_job marlin_demo)
     [EvRx (''ok'' @ [LF]), EvTimer, EvTask False]))) \<le> Suc 1"
proof -
  let ?es = "[EvRx (''ok'' @ [LF]), EvTimer, EvTask False]"
  let ?w = "marlin_start_job marlin_demo"
  let ?v = "world_of (marlin_run_lines std_text Map.empty 0 [''M3'', ''M5 '', ''M3''] ?w ?es)"
  have h: "marlin_inv ?w" "list_all marlin_alone ?es" by (simp_all add: marlin_run_defs)
  have "ack_count (marlin_class std_text) (ma_events ?v) = 1" by (simp add: marlin_run_defs)
  moreover have "marlin_wire ?w = []" "ack_count (marlin_class std_text) (ma_events ?w) = 0" by (simp_all add: marlin_run_defs)
  ultimately show ?thesis
    using marlin_one_outstanding [OF h refl, of std_text Map.empty "[''M3'', ''M5 '', ''M3'']"] by simp
qed

section \<open>What goes wrong\<close>

text \<open>
  Of two acknowledgements in one chunk the second is lost. A position poll and a command are in
  flight; the device acknowledges both and the two acknowledgements arrive together; the poll completes,
  the command runs into its deadline although it was acknowledged.
\<close>

theorem marlin_second_ack_lost:
  "let w1 = marlin_env std_text (EvTask False) marlin_demo
   in \<exists>w2. marlin_ping_pong std_text ''M3'' w1 [EvRx (''ok'' @ [LF] @ ''ok'' @ [LF]), EvTask False, EvTimer] =
        Ret (Inl Err_Timeout) w2 [] \<and>
      marlin_wire w2 = [''M114'' @ [LF], ''M3'' @ [LF]] \<and> ack_count (marlin_class std_text) (ma_events w2) = 2"
  by (simp add: marlin_run_defs)

text \<open>
  After a reconnection, commands are sent before the device has announced itself. The session
  connects, the device announces itself, the link goes down; the connection task opens the link again and waits
  for the announcement; a command is sent at once, because the event that holds commands back is never cleared.
\<close>

theorem marlin_sends_before_handshake:
  "let w1 = world_of (marlin_open_link std_text marlin_fresh [EvRx (''start'' @ [LF]), EvTimer, EvLinkDown, EvTimer]);
       w2 = world_of (marlin_open_link std_text w1 [])
   in \<not> AsyncEvent_is_set (ma_handshake_received w2) \<and> marlin_wire w2 = [] \<and>
      marlin_wire (world_of (marlin_ping_pong std_text ''M3'' w2 [])) = [''M3'' @ [LF]]"
  by (simp add: marlin_run_defs marlin_open_link_def marlin_link_session_def marlin_await_handshake_def
      marlin_position_poll_loop.simps)

end
