(* ===== verification/Mute_Link.thy ===== *)
theory Mute_Link
  imports Links Smoothie_Jobs Marlin_Jobs
begin

text \<open>
  What the connection tasks report when the device says nothing: ports open and close, other callers come
  and go, time-outs pass, but no byte is received.
\<close>

section \<open>The loops\<close>

definition connected_reports :: "event list \<Rightarrow> nat" where
  "connected_reports evs = length (filter (\<lambda>e. case e of ConnectionStatus T_Connected _ \<Rightarrow> True | _ \<Rightarrow> False) evs)"

lemma connected_reports_simps [simp]:
  "connected_reports [] = 0"
  "connected_reports (a @ b) = connected_reports a + connected_reports b"
  "connected_reports [RawTx t] = 0" "connected_reports [ConnectionStatus T_Error m] = 0"
  "connected_reports [ConnectionStatus T_Sleeping m] = 0" "connected_reports [StateChanged s] = 0"
  "connected_reports [CommandStatus st m] = 0"
  by (simp_all add: connected_reports_def)

definition mute :: "env_event \<Rightarrow> bool" where
  "mute e = (case e of EvRx _ \<Rightarrow> False | _ \<Rightarrow> True)"

text \<open>The handshake of a device that never becomes ready does not succeed.\<close>

locale mute_shake = handshake_polling step poll ready shake lost late shaken + env_invariant step A P
  for step :: "env_event \<Rightarrow> 'w \<Rightarrow> 'w" and poll :: "'w \<Rightarrow> ('e, unit) result \<times> 'w" and ready :: "'w \<Rightarrow> bool"
    and shake :: "'w \<Rightarrow> env_event list \<Rightarrow> ('r, 'w) outcome" and lost late shaken A P +
  assumes poll_keeps: "P w \<Longrightarrow> P (snd (poll w))" and not_ready: "P w \<Longrightarrow> \<not> ready w"
    and results: "lost e \<noteq> shaken" "late \<noteq> shaken"
begin

lemma shake_mute: "P w \<Longrightarrow> list_all A es \<Longrightarrow> kept (shake w es) \<and> (\<forall>v fs. shake w es \<noteq> Ret shaken v fs)"
proof (induction "length es" arbitrary: w es rule: less_induct)
  case less
  obtain r v where v: "poll w = (r, v)" by fastforce
  with poll_keeps [OF less.prems(1)] have P: "P v" by simp
  note k = await_timeout_kept [OF P less.prems(2), of ready]
  show ?case
  proof (cases "await_timeout step ready v es")
    case (Ret b v1 es1)
    with k have k1: "P v1" "list_all A es1" by simp_all
    have "\<not> b" using Ret not_ready [OF k1(1)] await_timeout_True by fastforce
    with Ret await_timeout_False_shorter have "length es1 < length es" by fastforce
    from less.hyps [OF this k1] Ret \<open>\<not> b\<close> v k1 less.prems(2) P show ?thesis
      by (auto simp: shake_eq [of w es] results split: sum.splits list.splits env_event.splits)
  qed (use v P k less.prems(2) in \<open>auto simp: shake_eq [of w es] results split: sum.splits\<close>)
qed

end

text \<open>What one connection attempt keeps, the loop keeps.\<close>

locale mute_rounds = reconnecting step alive link asleep rounds + env_invariant step A P
  for step :: "env_event \<Rightarrow> 'w \<Rightarrow> 'w" and alive :: "'w \<Rightarrow> bool" and link :: "'w \<Rightarrow> env_event list \<Rightarrow> (unit, 'w) outcome"
    and asleep :: "'w \<Rightarrow> 'w" and rounds :: "nat \<Rightarrow> 'w \<Rightarrow> env_event list \<Rightarrow> (unit, 'w) outcome" and A P +
  assumes rounds_0: "rounds 0 w es = Blocked w"
    and link_keeps: "P w \<Longrightarrow> list_all A es \<Longrightarrow> kept (link w es)" and asleep_keeps: "P w \<Longrightarrow> P (asleep w)"
begin

lemma rounds_mute: "P w \<Longrightarrow> list_all A es \<Longrightarrow> kept (rounds n w es)"
proof (induction n arbitrary: w es)
  case 0
  then show ?case by (simp add: rounds_0)
next
  case (Suc n)
  show ?case unfolding rounds_Suc
    using Suc.prems
    by (auto intro!: bindA_kept [OF link_keeps] bindA_kept [OF sleep_kept] Suc.IH asleep_keeps)
qed

end

section \<open>The Smoothieware session\<close>

definition smoothie_mute :: "bool \<Rightarrow> nat \<Rightarrow> SmoothieCore \<Rightarrow> bool" where
  "smoothie_mute b k w \<longleftrightarrow>
     connected_reports (so_events w) = k \<and> (b \<longrightarrow> \<not> AsyncEvent_is_set (so_handshake_received w))"

lemma smoothie_handshake_frame:
  "so_handshake_received (snd (smoothie_write d w)) = so_handshake_received w"
  "so_handshake_received (smoothie_resolve_pending w) = so_handshake_received w"
  by (auto simp: smoothie_write_def smoothie_resolve_pending_def smoothie_update_cmd_def split: prod.split sum.split option.split)

lemma smoothie_mute_parts [simp]:
  "smoothie_mute b k (snd (smoothie_poll w)) = smoothie_mute b k w"
  "smoothie_mute b k (snd (smoothie_send c w)) = smoothie_mute b k w"
  "smoothie_mute b k (smoothie_resolve_pending w) = smoothie_mute b k w"
  "smoothie_mute b k (smoothie_forget_cancel w) = smoothie_mute b k w"
  "smoothie_mute b k (w\<lparr>so_transport := t\<rparr>) = smoothie_mute b k w"
  "smoothie_mute b k (w\<lparr>so_cmd_lock := l\<rparr>) = smoothie_mute b k w"
  "smoothie_mute b k (w\<lparr>so_callers := cs\<rparr>) = smoothie_mute b k w"
  "smoothie_mute b k (w\<lparr>so_line_buffer := lb\<rparr>) = smoothie_mute b k w"
  "smoothie_mute b k (smoothie_cancel_begin w) = smoothie_mute b k w"
  "smoothie_mute b k (smoothie_update_connection_status T_Error m w) = smoothie_mute b k w"
  "smoothie_mute b k (smoothie_update_connection_status T_Sleeping m w) = smoothie_mute b k w"
  by (simp_all add: smoothie_mute_def smoothie_poll_def smoothie_send_def smoothie_emit_def smoothie_handshake_frame
      smoothie_write_frame smoothie_resolve_frame smoothie_forget_cancel_def smoothie_cancel_begin_def
      smoothie_update_connection_status_def Let_def)

interpretation smoothie_quiet: env_invariant "smoothie_env X" mute "smoothie_mute b k" for X b k
proof
  fix e and w :: SmoothieCore
  assume "mute e" "smoothie_mute b k w"
  then show "smoothie_mute b k (smoothie_env X e w)"
    by (cases e) (auto simp: mute_def Let_def split: list.split)
qed

interpretation smoothie_mute_shake: mute_shake "smoothie_env X" smoothie_poll
  "\<lambda>w. AsyncEvent_is_set (so_handshake_received w)" "smoothie_await_handshake X"
  "\<lambda>_. False" False True mute "smoothie_mute True k" for X k
  by unfold_locales (simp_all, simp add: smoothie_mute_def)

lemma smoothie_link_mute:
  assumes "smoothie_mute False k w" "list_all mute es"
  shows "smoothie_quiet.kept False k (smoothie_open_link X w es)"
proof -
  have m: "smoothie_mute True k (w\<lparr>so_handshake_received := AsyncEvent_clear (so_handshake_received w)\<rparr>)"
    using assms(1) by (simp add: smoothie_mute_def)
  have weak: "smoothie_mute False k v" if "smoothie_mute True k v" for v using that by (simp add: smoothie_mute_def)
  have "smoothie_quiet.kept False k (smoothie_link_session X v es)" if "smoothie_mute True k v" for v
    using smoothie_mute_shake.shake_mute [OF that assms(2), of X]
    by (cases "smoothie_await_handshake X v es") (auto simp: smoothie_link_session_def smoothie_quiet.kept_def weak)
  with m assms(2) show ?thesis
    by (auto simp: smoothie_open_link_def Let_def weak split: prod.split sum.split)
qed

interpretation smoothie_mute_rounds: mute_rounds "smoothie_env X" so_keep_running "smoothie_open_link X"
  "smoothie_update_connection_status T_Sleeping None" "\<lambda>n. smoothie_connection_rounds n X" mute "smoothie_mute False k" for X k
  by unfold_locales (simp_all add: smoothie_link_mute)

section \<open>The Marlin session\<close>

text \<open>The connection task is the one that runs here.\<close>

definition marlin_silent :: "env_event \<Rightarrow> bool" where
  "marlin_silent e = (mute e \<and> (case e of EvTask _ \<Rightarrow> False | _ \<Rightarrow> True))"

definition marlin_mute :: "bool \<Rightarrow> nat \<Rightarrow> MarlinCore \<Rightarrow> bool" where
  "marlin_mute b k w \<longleftrightarrow>
     connected_reports (ma_events w) = k \<and> (b \<longrightarrow> \<not> AsyncEvent_is_set (ma_handshake_received w))"

lemma marlin_mute_updates [simp]:
  "marlin_mute b k (w\<lparr>ma_transport := t\<rparr>) = marlin_mute b k w"
  "marlin_mute b k (w\<lparr>ma_cmds := ps\<rparr>) = marlin_mute b k w"
  "marlin_mute b k (w\<lparr>ma_pending_queue := q\<rparr>) = marlin_mute b k w"
  "marlin_mute b k (w\<lparr>ma_cmd_lock := l\<rparr>) = marlin_mute b k w"
  "marlin_mute b k (w\<lparr>ma_callers := cs\<rparr>) = marlin_mute b k w"
  "marlin_mute b k (w\<lparr>ma_theirs := i\<rparr>) = marlin_mute b k w"
  "marlin_mute b k (w\<lparr>ma_line_buffer := lb\<rparr>) = marlin_mute b k w"
  "marlin_mute b k (w\<lparr>ma_is_cancelled := c\<rparr>) = marlin_mute b k w"
  "marlin_mute b k (w\<lparr>ma_job_running := r\<rparr>) = marlin_mute b k w"
  "marlin_mute b k (marlin_emit [RawTx c'] w) = marlin_mute b k w"
  "marlin_mute b k (marlin_update_connection_status T_Error m w) = marlin_mute b k w"
  "marlin_mute b k (marlin_update_connection_status T_Sleeping m w) = marlin_mute b k w"
  by (simp_all add: marlin_mute_def marlin_emit_def marlin_update_connection_status_def)

lemma marlin_mute_parts [simp]:
  "marlin_mute b k (snd (marlin_write d w)) = marlin_mute b k w"
  "marlin_mute b k (snd (marlin_send c w)) = marlin_mute b k w"
  "marlin_mute b k (marlin_drop_entry j w) = marlin_mute b k w"
  "marlin_mute b k (marlin_forget_cancel w) = marlin_mute b k w"
  "marlin_mute b k (marlin_cancel_begin w) = marlin_mute b k w"
proof -
  show wr: "marlin_mute b k (snd (marlin_write d w)) = marlin_mute b k w" for d w
    by (simp add: marlin_write_def split: prod.split sum.split)
  show "marlin_mute b k (snd (marlin_send c w)) = marlin_mute b k w" by (simp add: marlin_send_def wr)
  have "marlin_mute b k (fold (\<lambda>i. marlin_update_cmd i f) is v) = marlin_mute b k v" for "is" f v
    by (induction "is" arbitrary: v) (simp_all add: marlin_update_cmd_def)
  then show "marlin_mute b k (marlin_cancel_begin w) = marlin_mute b k w"
    by (simp add: marlin_cancel_begin_def marlin_resolve_pending_def Let_def)
qed (simp_all add: marlin_drop_entry_def marlin_forget_cancel_def)

lemma marlin_mute_send:
  "marlin_send c w = (r, v) \<Longrightarrow> marlin_mute b k v = marlin_mute b k w"
  using marlin_mute_parts(2) [of b k c w] by simp

interpretation marlin_quiet: env_invariant "marlin_env L" marlin_silent "marlin_mute b k" for L b k
proof
  fix e and w :: MarlinCore
  assume "marlin_silent e" "marlin_mute b k w"
  then show "marlin_mute b k (marlin_env L e w)"
    by (cases e)
      (auto simp: marlin_silent_def mute_def Let_def marlin_mute_send split: list.split option.split prod.split sum.split)
qed

lemma marlin_link_mute:
  assumes "marlin_mute False k w" "list_all marlin_silent es"
  shows "marlin_quiet.kept False k (marlin_open_link L w es)"
proof -
  have m: "marlin_mute True k (w\<lparr>ma_handshake_received := AsyncEvent_clear (ma_handshake_received w)\<rparr>)"
    using assms(1) by (simp add: marlin_mute_def)
  have weak: "marlin_mute False k v" if "marlin_mute True k v" for v using that by (simp add: marlin_mute_def)
  have "marlin_quiet.kept False k (marlin_link_session L v es)" if v: "marlin_mute True k v" for v
  proof -
    note kept = marlin_quiet.await_timeout_kept [OF v assms(2), of L "\<lambda>w. AsyncEvent_is_set (ma_handshake_received w)"]
    have "\<not> ok" if "marlin_await_handshake L v es = Ret ok v' es'" for ok v' es'
      using that kept await_timeout_True by (fastforce simp: marlin_await_handshake_def marlin_mute_def)
    with kept show ?thesis
      by (cases "marlin_await_handshake L v es")
        (auto simp: marlin_link_session_def marlin_await_handshake_def marlin_quiet.kept_def weak)
  qed
  with m assms(2) show ?thesis
    by (auto simp: marlin_open_link_def Let_def weak split: prod.split sum.split)
qed

interpretation marlin_mute_rounds: mute_rounds "marlin_env L" ma_keep_running "marlin_open_link L"
  "marlin_update_connection_status T_Sleeping None" "\<lambda>n. marlin_connection_rounds n L" marlin_silent "marlin_mute False k" for L k
  by unfold_locales (simp_all add: marlin_link_mute)

section \<open>The full GRBL session\<close>

definition grbl_mute :: "bool \<Rightarrow> nat \<Rightarrow> GrblCore \<Rightarrow> bool" where
  "grbl_mute b k w \<longleftrightarrow>
     connected_reports (g_events w) = k \<and> (b \<longrightarrow> \<not> AsyncEvent_is_set (g_handshake_received w))"

lemma grbl_mute_updates [simp]:
  "grbl_mute b k (w\<lparr>g_transport := t\<rparr>) = grbl_mute b k w" "grbl_mute b k (w\<lparr>g_flow := f\<rparr>) = grbl_mute b k w"
  "grbl_mute b k (w\<lparr>g_requests := rs\<rparr>) = grbl_mute b k w" "grbl_mute b k (w\<lparr>g_cmd_lock := l\<rparr>) = grbl_mute b k w"
  "grbl_mute b k (w\<lparr>g_cmd_task := ct\<rparr>) = grbl_mute b k w" "grbl_mute b k (w\<lparr>g_cmd_queue := q\<rparr>) = grbl_mute b k w"
  "grbl_mute b k (w\<lparr>g_current_request := r\<rparr>) = grbl_mute b k w"
  "grbl_mute b k (w\<lparr>g_queued_requests := qs\<rparr>) = grbl_mute b k w"
  "grbl_mute b k (w\<lparr>g_is_cancelled := c\<rparr>) = grbl_mute b k w" "grbl_mute b k (w\<lparr>g_job_running := j\<rparr>) = grbl_mute b k w"
  "grbl_mute b k (grbl_emit [RawTx tx] w) = grbl_mute b k w"
  "grbl_mute b k (update_connection_status T_Error m w) = grbl_mute b k w"
  "grbl_mute b k (update_connection_status T_Sleeping m w) = grbl_mute b k w"
  by (simp_all add: grbl_mute_def grbl_emit_def update_connection_status_def)

lemma grbl_mute_write [simp]: "grbl_mute b k (snd (grbl_write d w)) = grbl_mute b k w"
  by (simp add: grbl_write_def split: prod.split sum.split)

lemma grbl_mute_send: "track_and_write d op w = (r, v) \<Longrightarrow> grbl_mute b k v = grbl_mute b k w"
proof -
  have "grbl_mute b k (snd (track_and_write d op w)) = grbl_mute b k w" by (simp add: track_and_write_def Let_def)
  then show "track_and_write d op w = (r, v) \<Longrightarrow> grbl_mute b k v = grbl_mute b k w" by simp
qed

lemma grbl_mute_task [simp]: "grbl_mute b k (cmd_task_step x w) = grbl_mute b k w"
proof -
  have fail: "grbl_mute b k (cmd_task_fail e v) = grbl_mute b k v" for e v
    by (simp add: cmd_task_fail_def cmd_task_leave_def)
  have send: "grbl_mute b k (cmd_task_send i v) = grbl_mute b k v" for i v
    by (auto simp: cmd_task_send_def fail grbl_mute_send split: prod.split sum.split)
  show ?thesis
    by (simp add: cmd_task_step_def cmd_task_recv_def cmd_task_lock_def cmd_task_locked_def cmd_task_next_def
        cmd_task_leave_def update_request_def send fail Let_def split: cmd_task.split list.split option.split)
qed

interpretation grbl_quiet_link: env_invariant "grbl_env X" mute "grbl_mute b k" for X b k
proof
  fix e w
  assume "mute e" "grbl_mute b k w"
  then show "grbl_mute b k (grbl_env X e w)"
    by (cases e) (simp_all add: mute_def cancel_begin_def signal_space_def)
qed

interpretation grbl_mute_shake: mute_shake "grbl_env X" "\<lambda>w. grbl_write ''?'' (grbl_emit [RawTx ''?''] w)"
  "\<lambda>w. AsyncEvent_is_set (g_handshake_received w)" "await_handshake X" Inl "Inr False" "Inr True" mute "grbl_mute True k" for X k
  by unfold_locales (simp_all, simp add: grbl_mute_def)

lemma grbl_link_mute:
  assumes "grbl_mute False k w" "list_all mute es"
  shows "grbl_quiet_link.kept False k (open_link X w es)"
proof -
  have m: "grbl_mute True k (w\<lparr>g_handshake_received := AsyncEvent_clear (g_handshake_received w)\<rparr>)"
    using assms(1) by (simp add: grbl_mute_def)
  have weak: "grbl_mute False k v" if "grbl_mute True k v" for v using that by (simp add: grbl_mute_def)
  have "grbl_quiet_link.kept False k (link_session X v es)" if "grbl_mute True k v" for v
    using grbl_mute_shake.shake_mute [OF that assms(2), of X]
    by (cases "await_handshake X v es")
      (auto simp: link_session_def grbl_quiet_link.kept_def weak split: sum.split bool.split)
  with m assms(2) show ?thesis
    by (auto simp: open_link_def Let_def weak split: prod.split sum.split)
qed

interpretation grbl_mute_rounds: mute_rounds "grbl_env X" g_keep_running "open_link X"
  "update_connection_status T_Sleeping None" "\<lambda>n. connection_rounds n X" mute "grbl_mute False k" for X k
  by unfold_locales (simp_all add: grbl_link_mute)

section \<open>A silent device\<close>

text \<open>
  C15: A silent device is never reported as connected. As long as no byte is received, the connection tasks of the
  full GRBL, the Smoothieware and the Marlin session report no \<^verbatim>\<open>Connected\<close>, however often the port
  opens, whatever time-outs pass and whatever other tasks do, also when the device had
  answered in an earlier attempt. (The minimal GRBL session reports it as soon as the port is open.)
\<close>

theorem silent_device_never_connected:
  assumes "list_all mute es" "list_all marlin_silent fs"
  shows "connected_reports (g_events (world_of (connection_loop X w es))) = connected_reports (g_events w) \<and>
    connected_reports (so_events (world_of (smoothie_connection_loop X v es))) = connected_reports (so_events v) \<and>
    connected_reports (ma_events (world_of (marlin_connection_loop L u fs))) = connected_reports (ma_events u)"
  using grbl_mute_rounds.rounds_mute [OF _ assms(1), of "connected_reports (g_events w)" w]
    smoothie_mute_rounds.rounds_mute [OF _ assms(1), of "connected_reports (so_events v)" v]
    marlin_mute_rounds.rounds_mute [OF _ assms(2), of "connected_reports (ma_events u)" u]
  unfolding connection_loop_def smoothie_connection_loop_def marlin_connection_loop_def
    grbl_quiet_link.kept_def smoothie_quiet.kept_def marlin_quiet.kept_def grbl_mute_def smoothie_mute_def marlin_mute_def
  by (simp del: connection_rounds.simps smoothie_connection_rounds.simps marlin_connection_rounds.simps)

theorem silent_device_never_connected_witness:
  "connected_reports (g_events (world_of (connection_loop std_regex demo [EvTimer, EvTimer, EvTimer, EvTimer]))) = 0"
  using silent_device_never_connected
    [of "[EvTimer, EvTimer, EvTimer, EvTimer]" "[]" std_regex demo, THEN conjunct1]
  by (simp add: mute_def)

end
