(* ===== verification/Cancel_Link.thy ===== *)
theory Cancel_Link
  imports Simple_Jobs Smoothie_Jobs Marlin_Jobs
begin

text \<open>What \<^verbatim>\<open>cancel\<close> of the three ping-pong sessions does when the link is already down.\<close>

lemma marlin_resolve_frame:
  "ma_transport (marlin_resolve_pending w) = ma_transport w" "ma_events (marlin_resolve_pending w) = ma_events w"
  "ma_is_cancelled (marlin_resolve_pending w) = ma_is_cancelled w"
  "ma_job_running (marlin_resolve_pending w) = ma_job_running w"
proof -
  have "ma_transport (fold (\<lambda>i. marlin_update_cmd i f) is v) = ma_transport v \<and>
      ma_events (fold (\<lambda>i. marlin_update_cmd i f) is v) = ma_events v \<and>
      ma_is_cancelled (fold (\<lambda>i. marlin_update_cmd i f) is v) = ma_is_cancelled v \<and>
      ma_job_running (fold (\<lambda>i. marlin_update_cmd i f) is v) = ma_job_running v" for "is" f v
    by (induction "is" arbitrary: v) (simp_all add: marlin_update_cmd_def)
  then show "ma_transport (marlin_resolve_pending w) = ma_transport w" "ma_events (marlin_resolve_pending w) = ma_events w"
    "ma_is_cancelled (marlin_resolve_pending w) = ma_is_cancelled w"
    "ma_job_running (marlin_resolve_pending w) = ma_job_running w"
    by (simp_all add: marlin_resolve_pending_def Let_def)
qed

text \<open>
  The job is marked cancelled and not running before the link is looked at, the caller gets an error, and no
  \<^verbatim>\<open>JobFinished\<close> is reported. The task of the job, which sees it cancelled, reports none either
  (\<open>simple_job_end\<close>), and another \<^verbatim>\<open>cancel\<close> finds no job running.
\<close>

theorem cancel_without_link_unreported:
  assumes "\<not> tr_is_open (s_transport w)" "\<not> tr_is_open (so_transport u)" "\<not> tr_is_open (ma_transport v)"
  shows "(\<exists>w'. simple_cancel X emergency w es = Ret (Inl simple_not_connected) w' es \<and>
      s_is_cancelled w' \<and> \<not> s_job_running w' \<and> s_events w' = s_events w) \<and>
    (\<exists>u'. smoothie_cancel X emergency u es = Ret (Inl smoothie_not_connected) u' es \<and>
      so_is_cancelled u' \<and> \<not> so_job_running u' \<and> so_events u' = so_events u) \<and>
    (\<exists>v'. marlin_cancel emergency v = (Inl marlin_not_connected, v') \<and>
      ma_is_cancelled v' \<and> \<not> ma_job_running v' \<and> ma_events v' = ma_events v)"
  using assms
  by (simp add: simple_cancel_def simple_cancel_begin_def simple_resolve_frame
      smoothie_cancel_def smoothie_cancel_begin_def smoothie_resolve_frame
      marlin_cancel_def marlin_cancel_begin_def marlin_resolve_frame Let_def)

end
