(* ===== verification/Simple_Live.thy ===== *)
theory Simple_Live
  imports Simple_Jobs Ping_Pong_Live
begin

text \<open>
  Liveness of the minimal GRBL session: on a device that answers every line, a job ends with every
  line sent and its end reported.
\<close>

definition simple_healthy :: "nat \<Rightarrow> SimpleCore \<Rightarrow> bool" where
  "simple_healthy n w \<longleftrightarrow> tr_sound (s_transport w) \<and> s_cmd_lock w = Free \<and> s_line_buffer w = [] \<and>
     \<not> simple_stop w \<and> s_job_exception w = None \<and> jobs_finished (s_events w) = n"

definition simple_waiting :: "nat \<Rightarrow> nat \<Rightarrow> bytes list \<Rightarrow> SimpleCore \<Rightarrow> bool" where
  "simple_waiting n i W w \<longleftrightarrow> simple_healthy n (simple_release w) \<and> simple_wire w = W \<and>
     s_pending w = Some i \<and> i < length (s_cmds w) \<and> \<not> simple_done i w"

text \<open>The lines of a reply: those that are collected, and the acknowledgement.\<close>

abbreviation simple_gather :: "string \<Rightarrow> bool" where
  "simple_gather l \<equiv> simple_class l = Gather"

lemma simple_rx_whole:
  "whole_line l \<Longrightarrow> s_line_buffer w = [] \<Longrightarrow>
   simple_handle_rx X (line_chunk l) w = simple_handle_line X l (w\<lparr>s_line_buffer := []\<rparr>)"
  by (simp add: simple_handle_rx_def whole_line_def)

lemma simple_gather_line:
  "simple_gather l \<Longrightarrow> simple_handle_line X l w = simple_collect l (simple_emit [RawRx l] w)"
  by (auto simp: simple_class_def simple_handle_line_def starts_with_def split: if_splits option.splits)

lemmas simple_live_defs = simple_waiting_def simple_healthy_def simple_emit_def simple_update_cmd_def
  simple_done_def simple_stop_def simple_wire_def simple_release_def

lemma simple_send_waits:
  assumes "simple_healthy n w"
  shows "\<exists>v. simple_send c (w\<lparr>s_cmd_lock := Mine\<rparr>) = (Inr (), v) \<and>
    simple_waiting n (length (s_cmds w)) (simple_wire w @ [with_newline c]) v"
  using assms tr_sound_write [of "s_transport w" "with_newline c"] with_newline_not_poll [of c]
  by (auto simp: simple_send_def simple_write_def simple_live_defs)

interpretation simple_answered: ping_pong_answered "simple_env X" simple_wire "\<lambda>w. s_cmd_lock w = Free"
  "\<lambda>w. w\<lparr>s_cmd_lock := Mine\<rparr>" simple_release "\<lambda>w. tr_is_open (s_transport w)" "\<lambda>w. length (s_cmds w)" simple_send
  simple_done "\<lambda>_ w. simple_release (simple_resolve_pending w)" "\<lambda>i w. pd_lines (s_cmds w ! i)" simple_not_connected
  "simple_ping_pong X" "simple_healthy n" "simple_waiting n" simple_gather "\<lambda>l. l = ''ok''" for X n
proof (unfold_locales, goal_cases)
  case 1
  show ?case by (rule simple_ping_pong_eq)
next
  case (2 w)
  then show ?case using tr_sound_open [of "s_transport w"] by (simp add: simple_healthy_def)
next
  case (3 w c)
  then show ?case using simple_send_waits by simp
next
  case (4 i W w)
  then show ?case by (simp add: simple_waiting_def)
next
  case (5 i W w l)
  then show ?case by (simp add: simple_rx_whole simple_gather_line simple_collect_def simple_live_defs)
next
  case (6 i W w l v)
  then show ?case
    by (simp add: simple_rx_whole simple_handle_line_def simple_finish_pending_def simple_resolve_pending_def
        simple_live_defs Let_def)
qed

lemma simple_report_healthy: "simple_healthy n (simple_report_op p w) = simple_healthy n w"
  by (simp add: simple_healthy_def simple_report_op_def simple_emit_def simple_stop_def split: option.split)

interpretation simple_live: ping_pong_progress "simple_env X" simple_wire "simple_ping_pong X" simple_stop simple_failed
  "\<lambda>l. trim (strip_gcode_comments X l)" simple_report_op "simple_run_lines X" "simple_healthy n" simple_answered.answer
  for X n
  by unfold_locales
    (simp_all add: simple_answered.exchange_answered simple_report_healthy simple_report_frame, simp_all add: simple_healthy_def)

lemma simple_start_healthy:
  assumes "tr_sound (s_transport w)" "s_cmd_lock w = Free" "s_line_buffer w = []"
  shows "simple_healthy (jobs_finished (s_events w)) (simple_start_job w)" "simple_wire (simple_start_job w) = simple_wire w"
  using assms by (simp_all add: simple_start_job_def simple_healthy_def simple_stop_def simple_set_state_def simple_emit_def
      simple_wire_def Let_def)

text \<open>The replies a device may give to the lines of a job.\<close>

definition simple_answer :: "string list \<times> string \<Rightarrow> bool" where
  "simple_answer r \<longleftrightarrow> list_all (\<lambda>l. whole_line l \<and> simple_gather l) (fst r) \<and> whole_line (snd r) \<and> snd r = ''ok''"

lemma simple_answers: "list_all simple_answered.answer rs = list_all simple_answer rs"
  by (simp add: simple_answered.answer_def simple_answer_def list_all_iff)

text \<open>
  C11: A job of the minimal GRBL session on a device that answers every line comes to its end. The link
  is up and accepts what is written, the session is idle; for each line of the job that is not blank the device
  sends any number of informational lines and then ok, in chunks of a line. Then the job returns, its
  lines without comments and blank ones are on the wire once each and in order, no job is running,
  and the end is reported exactly once.
\<close>

theorem simple_job_completes:
  assumes "tr_sound (s_transport w)" "s_cmd_lock w = Free" "s_line_buffer w = []"
    and "list_all simple_answer rs"
    and "length rs = length (sent_lines (\<lambda>l. trim (strip_gcode_comments X l)) (lines gcode))"
  shows "\<exists>w'. simple_run X gcode op_map w (job_script rs) = Ret () w' [] \<and> \<not> s_job_running w' \<and>
     simple_wire w' = simple_wire w @ map with_newline (sent_lines (\<lambda>l. trim (strip_gcode_comments X l)) (lines gcode)) \<and>
     jobs_finished (s_events w') = Suc (jobs_finished (s_events w))"
proof -
  from simple_live.run_completes [OF simple_start_healthy(1) [OF assms(1-3)], of rs X "lines gcode" op_map 0 "[]"]
    simple_start_healthy(2) [OF assms(1-3)] assms(4,5)
  obtain v where "simple_run_lines X op_map 0 (lines gcode) (simple_start_job w) (job_script rs) = Ret False v []"
    "simple_healthy (jobs_finished (s_events w)) v"
    "simple_wire v = simple_wire w @ map with_newline (sent_lines (\<lambda>l. trim (strip_gcode_comments X l)) (lines gcode))"
    by (auto simp: simple_answers)
  then show ?thesis
    by (simp add: simple_run_def simple_healthy_def simple_stop_def simple_emit_def simple_wire_def Let_def)
qed

theorem simple_job_completes_witness:
  "\<exists>w'. simple_run std_regex (''G0 X1 ; go'' @ [LF] @ ''(note)'' @ [LF] @ ''M5'') Map.empty simple_demo
       (job_script [([], ''ok''), ([''[MSG:done]''], ''ok'')]) = Ret () w' [] \<and> \<not> s_job_running w' \<and>
     simple_wire w' = map with_newline [''G0 X1'', ''M5''] \<and> jobs_finished (s_events w') = 1"
proof -
  define g rs where "g = ''G0 X1 ; go'' @ [LF] @ ''(note)'' @ [LF] @ ''M5''"
    and "rs = [([], ''ok''), ([''[MSG:done]''], ''ok'')]"
  have l: "sent_lines (\<lambda>l. trim (strip_gcode_comments std_regex l)) (lines g) = [''G0 X1'', ''M5'']"
  proof -
    have "lines g = [''G0 X1 ; go'', ''(note)'', ''M5'']" unfolding g_def by code_simp
    then show ?thesis by (simp add: demo_lines)
  qed
  have a: "list_all simple_answer rs" "length rs = length (sent_lines (\<lambda>l. trim (strip_gcode_comments std_regex l)) (lines g))"
    unfolding l rs_def by code_simp+
  have d: "tr_sound (s_transport simple_demo)" "s_cmd_lock simple_demo = Free" "s_line_buffer simple_demo = []"
    "simple_wire simple_demo = []" "s_events simple_demo = []"
    by (simp_all add: mock_inv_def simple_wire_def)
  from simple_job_completes [OF d(1-3) a, of Map.empty] show ?thesis
    unfolding l d(4,5) g_def [symmetric] rs_def [symmetric] append_Nil jobs_finished_simps One_nat_def .
qed

end
