(* ===== verification/Smoothie_Live.thy ===== *)
theory Smoothie_Live
  imports Smoothie_Jobs Ping_Pong_Live
begin

text \<open>
  Liveness of the Smoothieware session: on a device that answers every line, a job ends with every
  line sent and its end reported.
\<close>

definition smoothie_healthy :: "nat \<Rightarrow> SmoothieCore \<Rightarrow> bool" where
  "smoothie_healthy n w \<longleftrightarrow> tr_sound (so_transport w) \<and> so_cmd_lock w = Free \<and> so_line_buffer w = [] \<and>
     \<not> smoothie_stop w \<and> so_job_exception w = None \<and> jobs_finished (so_events w) = n"

definition smoothie_waiting :: "nat \<Rightarrow> nat \<Rightarrow> bytes list \<Rightarrow> SmoothieCore \<Rightarrow> bool" where
  "smoothie_waiting n i W w \<longleftrightarrow> smoothie_healthy n (smoothie_release w) \<and> smoothie_wire w = W \<and>
     so_pending w = Some i \<and> i < length (so_cmds w) \<and> \<not> smoothie_done i w"

text \<open>The lines of a reply: those that are collected, and the acknowledgement.\<close>

abbreviation smoothie_gather :: "string \<Rightarrow> bool" where
  "smoothie_gather l \<equiv> smoothie_class l = Gather"

lemma smoothie_rx_whole:
  "whole_line l \<Longrightarrow> so_line_buffer w = [] \<Longrightarrow>
   smoothie_handle_rx X (line_chunk l) w = smoothie_handle_line X l (w\<lparr>so_line_buffer := []\<rparr>)"
  by (simp add: smoothie_handle_rx_def whole_line_def)

lemma smoothie_gather_line:
  "smoothie_gather l \<Longrightarrow> smoothie_handle_line X l w = smoothie_collect l (smoothie_emit [RawRx l] w)"
  by (auto simp: smoothie_class_def smoothie_handle_line_def starts_with_def split: if_splits option.splits)

lemmas smoothie_live_defs = smoothie_waiting_def smoothie_healthy_def smoothie_emit_def smoothie_update_cmd_def
  smoothie_done_def smoothie_stop_def smoothie_wire_def smoothie_release_def

lemma smoothie_send_waits:
  assumes "smoothie_healthy n w"
  shows "\<exists>v. smoothie_send c (w\<lparr>so_cmd_lock := Mine\<rparr>) = (Inr (), v) \<and>
    smoothie_waiting n (length (so_cmds w)) (smoothie_wire w @ [with_newline c]) v"
  using assms tr_sound_write [of "so_transport w" "with_newline c"] with_newline_not_poll [of c]
  by (auto simp: smoothie_send_def smoothie_write_def smoothie_live_defs)

interpretation smoothie_answered: ping_pong_answered "smoothie_env X" smoothie_wire "\<lambda>w. so_cmd_lock w = Free"
  "\<lambda>w. w\<lparr>so_cmd_lock := Mine\<rparr>" smoothie_release "\<lambda>w. tr_is_open (so_transport w)" "\<lambda>w. length (so_cmds w)" smoothie_send
  smoothie_done "\<lambda>_ w. smoothie_release (smoothie_resolve_pending w)" "\<lambda>i w. pd_lines (so_cmds w ! i)" smoothie_not_connected
  "smoothie_ping_pong X" "smoothie_healthy n" "smoothie_waiting n" smoothie_gather "\<lambda>l. l = ''ok''" for X n
proof (unfold_locales, goal_cases)
  case 1
  show ?case by (rule smoothie_ping_pong_eq)
next
  case (2 w)
  then show ?case using tr_sound_open [of "so_transport w"] by (simp add: smoothie_healthy_def)
next
  case (3 w c)
  then show ?case using smoothie_send_waits by simp
next
  case (4 i W w)
  then show ?case by (simp add: smoothie_waiting_def)
next
  case (5 i W w l)
  then show ?case by (simp add: smoothie_rx_whole smoothie_gather_line smoothie_collect_def smoothie_live_defs)
next
  case (6 i W w l v)
  then show ?case
    by (simp add: smoothie_rx_whole smoothie_handle_line_def smoothie_finish_pending_def smoothie_resolve_pending_def
        smoothie_live_defs Let_def)
qed

lemma smoothie_report_healthy: "smoothie_healthy n (smoothie_report_op p w) = smoothie_healthy n w"
  by (simp add: smoothie_healthy_def smoothie_report_op_def smoothie_emit_def smoothie_stop_def split: option.split)

interpretation smoothie_live: ping_pong_progress "smoothie_env X" smoothie_wire "smoothie_ping_pong X" smoothie_stop smoothie_failed
  "\<lambda>l. trim (strip_gcode_comments X l)" smoothie_report_op "smoothie_run_lines X" "smoothie_healthy n" smoothie_answered.answer
  for X n
  by unfold_locales
    (simp_all add: smoothie_answered.exchange_answered smoothie_report_healthy smoothie_report_frame, simp_all add: smoothie_healthy_def)

lemma smoothie_start_healthy:
  assumes "tr_sound (so_transport w)" "so_cmd_lock w = Free" "so_line_buffer w = []"
  shows "smoothie_healthy (jobs_finished (so_events w)) (smoothie_start_job w)" "smoothie_wire (smoothie_start_job w) = smoothie_wire w"
  using assms by (simp_all add: smoothie_start_job_def smoothie_healthy_def smoothie_stop_def smoothie_set_state_def smoothie_emit_def
      smoothie_wire_def Let_def)

text \<open>The replies a device may give to the lines of a job.\<close>

definition smoothie_answer :: "string list \<times> string \<Rightarrow> bool" where
  "smoothie_answer r \<longleftrightarrow> list_all (\<lambda>l. whole_line l \<and> smoothie_gather l) (fst r) \<and> whole_line (snd r) \<and> snd r = ''ok''"

lemma smoothie_answers: "list_all smoothie_answered.answer rs = list_all smoothie_answer rs"
  by (simp add: smoothie_answered.answer_def smoothie_answer_def list_all_iff)

text \<open>
  A job of the Smoothieware session on a device that answers every line comes to its end. The link
  is up and accepts what is written, the session is idle; for each line of the job that is not blank the device
  sends any number of informational lines and then ok, in chunks of a line. Then the job returns, its
  lines without comments and blank ones are on the wire once each and in order, no job is running,
  and the end is reported exactly once.
\<close>

theorem smoothie_job_completes:
  assumes "tr_sound (so_transport w)" "so_cmd_lock w = Free" "so_line_buffer w = []"
    and "list_all smoothie_answer rs"
    and "length rs = length (sent_lines (\<lambda>l. trim (strip_gcode_comments X l)) (lines gcode))"
  shows "\<exists>w'. smoothie_run X gcode op_map w (job_script rs) = Ret () w' [] \<and> \<not> so_job_running w' \<and>
     smoothie_wire w' = smoothie_wire w @ map with_newline (sent_lines (\<lambda>l. trim (strip_gcode_comments X l)) (lines gcode)) \<and>
     jobs_finished (so_events w') = Suc (jobs_finished (so_events w))"
proof -
  from smoothie_live.run_completes [OF smoothie_start_healthy(1) [OF assms(1-3)], of rs X "lines gcode" op_map 0 "[]"]
    smoothie_start_healthy(2) [OF assms(1-3)] assms(4,5)
  obtain v where "smoothie_run_lines X op_map 0 (lines gcode) (smoothie_start_job w) (job_script rs) = Ret False v []"
    "smoothie_healthy (jobs_finished (so_events w)) v"
    "smoothie_wire v = smoothie_wire w @ map with_newline (sent_lines (\<lambda>l. trim (strip_gcode_comments X l)) (lines gcode))"
    by (auto simp: smoothie_answers)
  then show ?thesis
    by (simp add: smoothie_run_def smoothie_healthy_def smoothie_stop_def smoothie_emit_def smoothie_wire_def Let_def)
qed

theorem smoothie_job_completes_witness:
  "\<exists>w'. smoothie_run std_regex (''G0 X1 ; go'' @ [LF] @ ''(note)'' @ [LF] @ ''M5'') Map.empty smoothie_demo
       (job_script [([], ''ok''), ([''[MSG:done]''], ''ok'')]) = Ret () w' [] \<and> \<not> so_job_running w' \<and>
     smoothie_wire w' = map with_newline [''G0 X1'', ''M5''] \<and> jobs_finished (so_events w') = 1"
proof -
  define g rs where "g = ''G0 X1 ; go'' @ [LF] @ ''(note)'' @ [LF] @ ''M5''"
    and "rs = [([], ''ok''), ([''[MSG:done]''], ''ok'')]"
  have l: "sent_lines (\<lambda>l. trim (strip_gcode_comments std_regex l)) (lines g) = [''G0 X1'', ''M5'']"
  proof -
    have "lines g = [''G0 X1 ; go'', ''(note)'', ''M5'']" unfolding g_def by code_simp
    then show ?thesis by (simp add: demo_lines)
  qed
  have a: "list_all smoothie_answer rs" "length rs = length (sent_lines (\<lambda>l. trim (strip_gcode_comments std_regex l)) (lines g))"
    unfolding l rs_def by code_simp+
  have d: "tr_sound (so_transport smoothie_demo)" "so_cmd_lock smoothie_demo = Free" "so_line_buffer smoothie_demo = []"
    "smoothie_wire smoothie_demo = []" "so_events smoothie_demo = []"
    by (simp_all add: mock_inv_def smoothie_wire_def)
  from smoothie_job_completes [OF d(1-3) a, of Map.empty] show ?thesis
    unfolding l d(4,5) g_def [symmetric] rs_def [symmetric] append_Nil jobs_finished_simps One_nat_def .
qed

end
