(* ===== verification/Marlin_Live.thy ===== *)
theory Marlin_Live
  imports Marlin_Jobs Ping_Pong_Live
begin

text \<open>
  Liveness of the Marlin session: once the device has announced itself and as long as it answers every
  line, a job ends with every line sent and its end reported.
\<close>

definition marlin_healthy :: "nat \<Rightarrow> MarlinCore \<Rightarrow> bool" where
  "marlin_healthy n w \<longleftrightarrow> tr_sound (ma_transport w) \<and> ma_cmd_lock w = Free \<and> ma_line_buffer w = [] \<and>
     ma_pending_queue w = [] \<and> AsyncEvent_is_set (ma_connected w) \<and> \<not> ma_is_cancelled w \<and>
     ma_job_exception w = None \<and> jobs_finished (ma_events w) = n"

definition marlin_waiting :: "nat \<Rightarrow> nat \<Rightarrow> bytes list \<Rightarrow> MarlinCore \<Rightarrow> bool" where
  "marlin_waiting n i W w \<longleftrightarrow> marlin_healthy n (marlin_release (w\<lparr>ma_pending_queue := []\<rparr>)) \<and> marlin_wire w = W \<and>
     ma_pending_queue w = [i] \<and> i < length (ma_cmds w) \<and> \<not> marlin_done i w"

abbreviation marlin_gather :: "text_lib \<Rightarrow> string \<Rightarrow> bool" where
  "marlin_gather L l \<equiv> \<not> is_ok L l \<and> \<not> is_error l"

lemma marlin_rx_whole:
  "whole_line l \<Longrightarrow> ma_line_buffer w = [] \<Longrightarrow>
   marlin_handle_rx L (line_chunk l) w = marlin_handle_line L l (w\<lparr>ma_line_buffer := []\<rparr>)"
  by (simp add: marlin_handle_rx_def whole_line_def)

lemmas marlin_live_defs = marlin_waiting_def marlin_healthy_def marlin_emit_def marlin_update_cmd_def marlin_done_def
  marlin_release_def marlin_drop_entry_def

lemma marlin_send_waits:
  assumes "marlin_healthy n w"
  shows "\<exists>v. marlin_send c (w\<lparr>ma_cmd_lock := Mine\<rparr>) = (Inr (), v) \<and>
    marlin_waiting n (length (ma_cmds w)) (marlin_wire w @ [with_newline c]) v"
  using assms tr_sound_write [of "ma_transport w" "with_newline c"]
  by (auto simp: marlin_send_def marlin_write_def marlin_live_defs)

lemma marlin_gather_waits:
  assumes "marlin_waiting n i W w" "whole_line l" "marlin_gather L l"
  shows "marlin_waiting n i W (marlin_handle_rx L (line_chunk l) w)"
  using assms
  by (auto simp: marlin_rx_whole marlin_handle_line_def marlin_maybe_announce_handshake_def
      marlin_handle_position_report_def marlin_set_state_def marlin_collect_for_pending_def marlin_live_defs Let_def
      split: option.split)

lemma marlin_ok_completes:
  assumes "marlin_waiting n i W w" "whole_line l" "is_ok L l" "v = marlin_handle_rx L (line_chunk l) w"
  shows "marlin_done i v \<and> marlin_healthy n (marlin_release (marlin_drop_entry i v)) \<and>
    marlin_wire (marlin_release (marlin_drop_entry i v)) = W"
  using assms
  by (simp add: marlin_rx_whole marlin_handle_line_def marlin_maybe_announce_handshake_def marlin_finish_pending_def
      marlin_live_defs Let_def)

interpretation marlin_answered: ping_pong_answered "marlin_env L" marlin_wire "\<lambda>w. ma_cmd_lock w = Free"
  "\<lambda>w. w\<lparr>ma_cmd_lock := Mine\<rparr>" marlin_release "\<lambda>w. tr_is_open (ma_transport w)" "\<lambda>w. length (ma_cmds w)" marlin_send
  marlin_done "\<lambda>i w. marlin_release (marlin_drop_entry i w)" "\<lambda>i w. pd_lines (ma_cmds w ! i)" marlin_not_connected
  "\<lambda>c. marlin_enqueue_and_wait L c True" "marlin_healthy n" "marlin_waiting n" "marlin_gather L" "is_ok L" for L n
proof (unfold_locales, goal_cases)
  case 1
  show ?case by (rule marlin_enqueue_eq)
next
  case (2 w)
  then show ?case using tr_sound_open [of "ma_transport w"] by (simp add: marlin_healthy_def)
next
  case (3 w c)
  then show ?case using marlin_send_waits by simp
next
  case (4 i W w)
  then show ?case by (simp add: marlin_waiting_def)
next
  case (5 i W w l)
  then show ?case by (simp add: marlin_gather_waits)
next
  case (6 i W w l v)
  then show ?case by (simp add: marlin_ok_completes)
qed

lemma marlin_ping_answered:
  assumes "marlin_healthy n w" "marlin_answered.answer L r"
  shows "\<exists>l w'. marlin_ping_pong L c w (reply_script r @ es) = Ret (Inr l) w' (EvTimer # es) \<and>
    marlin_healthy n w' \<and> marlin_wire w' = marlin_wire w @ [with_newline c]"
  using marlin_answered.exchange_answered [OF assms, of c es] assms(1) tr_sound_open [of "ma_transport w"]
  by (simp add: marlin_ping_pong_def marlin_healthy_def)

lemma marlin_report_healthy: "marlin_healthy n (marlin_report_op p w) = marlin_healthy n w"
  by (simp add: marlin_healthy_def marlin_report_op_def marlin_emit_def split: option.split)

interpretation marlin_live: ping_pong_progress "marlin_env L" marlin_wire "marlin_ping_pong L" marlin_stop marlin_failed
  trim marlin_report_op "marlin_run_lines L" "marlin_healthy n" "marlin_answered.answer L" for L n
  by unfold_locales
    (simp_all add: marlin_ping_answered marlin_report_healthy marlin_report_frame,
      simp_all add: marlin_healthy_def marlin_stop_def)

lemma marlin_start_healthy:
  assumes "tr_sound (ma_transport w)" "ma_cmd_lock w = Free" "ma_line_buffer w = []" "ma_pending_queue w = []"
    "AsyncEvent_is_set (ma_connected w)"
  shows "marlin_healthy (jobs_finished (ma_events w)) (marlin_start_job w)" "marlin_wire (marlin_start_job w) = marlin_wire w"
  using assms by (simp_all add: marlin_start_job_def marlin_healthy_def marlin_set_state_def marlin_emit_def Let_def)

text \<open>The replies a device may give to the lines of a job.\<close>

definition marlin_answer :: "text_lib \<Rightarrow> string list \<times> string \<Rightarrow> bool" where
  "marlin_answer L r \<longleftrightarrow>
     list_all (\<lambda>l. whole_line l \<and> marlin_gather L l) (fst r) \<and> whole_line (snd r) \<and> is_ok L (snd r)"

lemma marlin_answers: "list_all (marlin_answered.answer L) rs = list_all (marlin_answer L) rs"
  by (simp add: marlin_answered.answer_def marlin_answer_def list_all_iff)

text \<open>
  C12: A job of the Marlin session on a device that answers every line comes to its end. The device has
  announced itself, the link is up and accepts what is written, the session is idle; for each line of the
  job that is not blank the device sends any number of informational or position lines and then an acknowledgement, in
  chunks of a line. Then the job returns, its trimmed lines, blank ones left out, are on the wire once each
  and in order, no job is running, and the end is reported exactly once.
\<close>

theorem marlin_job_completes:
  assumes "tr_sound (ma_transport w)" "ma_cmd_lock w = Free" "ma_line_buffer w = []" "ma_pending_queue w = []"
    and "AsyncEvent_is_set (ma_connected w)" and "list_all (marlin_answer L) rs"
    and "length rs = length (sent_lines trim (lines gcode))"
  shows "\<exists>w'. marlin_run L gcode op_map w (job_script rs) = Ret () w' [] \<and> \<not> ma_job_running w' \<and>
     marlin_wire w' = marlin_wire w @ map with_newline (sent_lines trim (lines gcode)) \<and>
     jobs_finished (ma_events w') = Suc (jobs_finished (ma_events w))"
proof -
  from marlin_live.run_completes [OF marlin_start_healthy(1) [OF assms(1-5)], of L rs "lines gcode" op_map 0 "[]"]
    marlin_start_healthy(2) [OF assms(1-5)] assms(6,7)
  obtain v where "marlin_run_lines L op_map 0 (lines gcode) (marlin_start_job w) (job_script rs) = Ret False v []"
    "marlin_healthy (jobs_finished (ma_events w)) v"
    "marlin_wire v = marlin_wire w @ map with_newline (sent_lines trim (lines gcode))"
    by (auto simp: marlin_answers)
  then show ?thesis by (simp add: marlin_run_def marlin_healthy_def marlin_emit_def Let_def)
qed

theorem marlin_job_completes_witness:
  "\<exists>w'. marlin_run std_text (''G28'' @ [LF] @ '' M5 '') Map.empty marlin_demo
       (job_script [([''echo:busy: processing''], ''ok''), ([], ''ok P15 B3'')]) = Ret () w' [] \<and> \<not> ma_job_running w' \<and>
     marlin_wire w' = map with_newline [''G28'', ''M5''] \<and> jobs_finished (ma_events w') = 1"
proof -
  define g rs where "g = ''G28'' @ [LF] @ '' M5 ''" and "rs = [([''echo:busy: processing''], ''ok''), ([], ''ok P15 B3'')]"
  have l: "sent_lines trim (lines g) = [''G28'', ''M5'']" unfolding g_def by code_simp
  have a: "list_all (marlin_answer std_text) rs" "length rs = length (sent_lines trim (lines g))"
    unfolding l rs_def by code_simp+
  have d: "tr_sound (ma_transport marlin_demo)" "ma_cmd_lock marlin_demo = Free" "ma_line_buffer marlin_demo = []"
    "ma_pending_queue marlin_demo = []" "AsyncEvent_is_set (ma_connected marlin_demo)"
    "marlin_wire marlin_demo = []" "ma_events marlin_demo = []"
    by (simp_all add: marlin_demo_def mock_inv_def mock_open_def mock_new_def)
  from marlin_job_completes [OF d(1-5) a, of Map.empty] show ?thesis
    unfolding l d(6,7) g_def [symmetric] rs_def [symmetric] append_Nil jobs_finished_simps One_nat_def .
qed

end
