(* ===== verification/Grbl_Live.thy ===== *)
theory Grbl_Live
  imports Grbl_Order Flow_Stream Ping_Pong_Live
begin

text \<open>
  Liveness of the full GRBL session: a streaming job on a device that acknowledges what it receives and
  makes room in time comes to its end. The device is described by how many acknowledgements it sends in each
  round of the scheduler; what the host keeps outstanding follows from it.
\<close>

section \<open>What one acknowledgement does\<close>

text \<open>
  A session that streams: \<open>q\<close> are the lengths of the outstanding lines, \<open>n\<close> is the size of the
  receive buffer, \<open>k\<close> the number of job ends reported so far.
\<close>

definition streaming :: "nat \<Rightarrow> SessionConfig \<Rightarrow> nat \<Rightarrow> lock \<Rightarrow> nat list \<Rightarrow> bytes list \<Rightarrow> GrblCore \<Rightarrow> bool" where
  "streaming n cfg k l q W w \<longleftrightarrow>
     tr_sound (g_transport w) \<and> job_wire w = W \<and> g_config w = cfg \<and> g_cmd_lock w = l \<and>
     \<not> stop_streaming w \<and> jobs_finished (g_events w) = k \<and>
     map pc_length (pending (g_flow w)) = q \<and> balanced (g_flow w) \<and> rx_buffer_size (g_flow w) = n \<and>
     status_buffer (g_flow w) = [] \<and> \<not> acked_since_flush (g_flow w) \<and> \<not> drained_since_flush (g_flow w)"

lemma scan_ok_line:
  assumes "regex_ok X" "ok_line d"
  shows "scan X d = ([(R_Ok, ''ok'')], [])"
proof -
  have "scan_ok X d = (1, [])"
    using scan_ok_lines [OF assms(1), of "[]" "[]" "[d]"] assms(2) by simp
  then show ?thesis
    by (simp add: scan_def scan_null_no_NUL scan_errors.simps find_subslice_def ERROR_MARKER_def scan_lines.simps)
qed

lemma handle_ok_frame:
  "g_state (handle_ok p w) = g_state w" "g_job_exception (handle_ok p w) = g_job_exception w"
  "g_flow (handle_ok p w) = g_flow w"
  by (simp_all add: handle_ok_def note_device_response_def complete_request_def update_request_def report_done_def
      grbl_emit_def Let_def split: option.split)

lemma ack_chunk:
  assumes "regex_ok X" "ok_line d" "status_buffer (g_flow w) = []"
  defines "v \<equiv> handle_rx X d w" and "fc \<equiv> g_flow w"
  shows "g_state v = g_state w" "g_job_exception v = g_job_exception w" "rx_size (g_flow v) = rx_size fc"
    "pending (g_flow v) = tl (pending fc)" "status_buffer (g_flow v) = []"
    "\<not> acked_since_flush (g_flow v)" "\<not> drained_since_flush (g_flow v)"
    "space_available (g_flow v) = Suc (space_available fc)"
    "pending_drained (g_flow v) =
       (if drained_since_flush fc \<or> length (pending fc) \<le> 1 then Suc (pending_drained fc) else pending_drained fc)"
proof -
  define fc0 where "fc0 = fc\<lparr>status_buffer := []\<rparr>"
  obtain r fc1 where r: "respond1 (R_Ok, ''ok'') fc0 = (r, fc1)" "rtype r = R_Ok"
    by (cases "respond1 (R_Ok, ''ok'') fc0") (auto simp: respond1_def ok_response_def split: prod.splits)
  have p: "parse_incoming X d (g_flow w) = ([r], fc1)"
    using assms(3) r(1) by (simp add: parse_incoming_scan scan_ok_line [OF assms(1,2)] fc0_def fc_def)
  have v: "v = (let u = handle_ok (r_pending r) (grbl_emit [RawRx ''ok''] (w\<lparr>g_flow := fc1\<rparr>))
                in u\<lparr>g_flow := flush_notifications (g_flow u)\<rparr>)"
    by (simp add: v_def handle_rx_def p lines_first_def r(2) handle_response_def)
  note f = respond1_frame [of "(R_Ok, ''ok'')" fc0, unfolded r snd_conv]
  have d: "drained_since_flush fc1 = (drained_since_flush fc \<or> length (pending fc) \<le> 1)"
    using respond_drained [of "[(R_Ok, ''ok'')]" fc0] r(1) by (simp add: is_ack_def fc0_def)
  have b: "status_buffer fc1 = []" using status_buffer_respond1 [of "(R_Ok, ''ok'')" fc0, unfolded r(1) snd_conv] by (simp add: fc0_def)
  show "g_state v = g_state w" "g_job_exception v = g_job_exception w" "rx_size (g_flow v) = rx_size fc"
    "pending (g_flow v) = tl (pending fc)" "status_buffer (g_flow v) = []"
    "\<not> acked_since_flush (g_flow v)" "\<not> drained_since_flush (g_flow v)"
    "space_available (g_flow v) = Suc (space_available fc)"
    "pending_drained (g_flow v) =
       (if drained_since_flush fc \<or> length (pending fc) \<le> 1 then Suc (pending_drained fc) else pending_drained fc)"
    using f b d by (simp_all add: v Let_def handle_ok_frame grbl_emit_def flush_notifications_def
        signal_space_available_def notify_drained_def is_ack_def fc0_def)
qed

lemma streaming_ack:
  assumes "regex_ok X" "ok_line d" "streaming n cfg k l q W w"
  shows "streaming n cfg k l (tl q) W (handle_rx X d w)"
    "space_available (g_flow (handle_rx X d w)) = Suc (space_available (g_flow w))"
    "pending_drained (g_flow (handle_rx X d w)) =
       (if length q \<le> 1 then Suc (pending_drained (g_flow w)) else pending_drained (g_flow w))"
proof -
  from assms(3) have b: "status_buffer (g_flow w) = []" "\<not> drained_since_flush (g_flow w)"
    "length (pending (g_flow w)) = length q" by (auto simp: streaming_def)
  note a = ack_chunk [OF assms(1,2) b(1)]
  show "space_available (g_flow (handle_rx X d w)) = Suc (space_available (g_flow w))"
    "pending_drained (g_flow (handle_rx X d w)) =
       (if length q \<le> 1 then Suc (pending_drained (g_flow w)) else pending_drained (g_flow w))"
    using a b by simp_all
  have "rx_buffer_size (g_flow (handle_rx X d w)) = rx_buffer_size (g_flow w)"
    using a(3) by (simp add: rx_buffer_size_def)
  moreover have "stop_streaming (handle_rx X d w) = stop_streaming w"
    using a(1,2) by (simp add: stop_streaming_def handle_rx_frame)
  ultimately show "streaming n cfg k l (tl q) W (handle_rx X d w)"
    using assms(3) a handle_rx_balanced [of w X d]
    by (simp add: streaming_def handle_rx_frame job_wire_def map_tl)
qed

lemma streaming_space: "streaming n cfg k l q W w \<Longrightarrow> needs_space (g_flow w) m = (sum_list q + m > n)"
  by (auto simp: streaming_def needs_space_def balanced_iff bytes_of_def)

section \<open>The waits\<close>

text \<open>A wait for room ends as soon as enough acknowledgements have come.\<close>

lemma room_found:
  assumes X: "regex_ok X"
  shows "streaming n cfg k l q W w \<Longrightarrow> list_all ok_line ds \<Longrightarrow> sum_list (drop (length ds) q) + m \<le> n \<Longrightarrow>
   \<exists>w' a. a \<le> length ds \<and> a \<le> length q \<and> streaming n cfg k l (drop a q) W w' \<and> sum_list (drop a q) + m \<le> n \<and>
     wait_for_space (grbl_env X) g_flow m w (map EvRx ds @ es) = Ret (Inr ()) w' (map EvRx (drop a ds) @ es)"
proof (induction ds arbitrary: q w)
  case Nil
  then show ?case using streaming_space [OF Nil.prems(1), of m] by (auto simp: wait_for_space_def)
next
  case (Cons d ds)
  show ?case
  proof (cases "needs_space (g_flow w) m")
    case False
    with Cons.prems streaming_space [OF Cons.prems(1), of m] show ?thesis
      by (intro exI [of _ w] exI [of _ 0]) (simp add: wait_for_space_def)
  next
    case True
    let ?v = "handle_rx X d w"
    from Cons.prems(2) have d: "ok_line d" "list_all ok_line ds" by simp_all
    from True Cons.prems(3) streaming_space [OF Cons.prems(1), of m] obtain x q' where q: "q = x # q'"
      by (cases q) auto
    note v = streaming_ack [OF X d(1) Cons.prems(1)]
    from v(1) q have s: "streaming n cfg k l q' W ?v" by simp
    from Cons.IH [OF s d(2)] Cons.prems(3) q obtain w' a where
      a: "a \<le> length ds" "a \<le> length q'" "streaming n cfg k l (drop a q') W w'" "sum_list (drop a q') + m \<le> n"
        "wait_for_space (grbl_env X) g_flow m ?v (map EvRx ds @ es) = Ret (Inr ()) w' (map EvRx (drop a ds) @ es)" by auto
    have "wait_for_space (grbl_env X) g_flow m w (map EvRx (d # ds) @ es) =
        wait_for_space (grbl_env X) g_flow m ?v (map EvRx ds @ es)"
      using True v(2) by (simp add: wait_for_space_def)
    with a q show ?thesis by (intro exI [of _ w'] exI [of _ "Suc a"]) simp
  qed
qed

lemma pause_acks:
  assumes X: "regex_ok X"
  shows "streaming n cfg k l q W w \<Longrightarrow> list_all ok_line ds \<Longrightarrow>
   \<exists>w'. sleep (grbl_env X) w (map EvRx ds @ EvTimer # es) = Ret () w' es \<and> streaming n cfg k l (drop (length ds) q) W w'"
proof (induction ds arbitrary: q w)
  case Nil
  then show ?case by simp
next
  case (Cons d ds)
  from Cons.IH [OF streaming_ack(1) [OF X _ Cons.prems(1)], of d] Cons.prems(2) show ?case
    by (simp add: drop_Suc)
qed

lemma drain_acks:
  assumes X: "regex_ok X"
  shows "streaming n cfg k l q W w \<Longrightarrow> list_all ok_line ds \<Longrightarrow> length ds = length q \<Longrightarrow> q \<noteq> [] \<Longrightarrow>
   \<exists>w'. drain_wait (grbl_env X) g_flow b (pending_drained (g_flow w)) w (map EvRx ds @ es) = Ret (Inr ()) w' es \<and>
     streaming n cfg k l [] W w'"
proof (induction ds arbitrary: q w)
  case Nil
  then show ?case by simp
next
  case (Cons d ds)
  let ?v = "handle_rx X d w"
  from Cons.prems(2) have d: "ok_line d" "list_all ok_line ds" by simp_all
  note v = streaming_ack [OF X d(1) Cons.prems(1)]
  show ?case
  proof (cases "ds = []")
    case True
    with Cons.prems obtain x where q: "q = [x]" by (cases q) auto
    with v(1) have "pending (g_flow ?v) = []" by (simp add: streaming_def)
    with v q True show ?thesis by simp
  next
    case False
    with Cons.prems(3) have q: "length (tl q) = length ds" "tl q \<noteq> []" "\<not> length q \<le> 1" by (cases q; auto)+
    from Cons.IH [OF v(1) d(2) q(1) [symmetric] q(2)] v(3) q(3) show ?thesis by simp
  qed
qed

section \<open>A device that keeps up\<close>

text \<open>
  \<open>as\<close> counts the acknowledgements in each round: before the first line is written, between it and
  the next, and so on, and at last after the last line. The device acknowledges only what it has received,
  makes room for a line before the round of that line ends, and acknowledges everything in the end.
\<close>

fun keeps_up :: "nat \<Rightarrow> nat list \<Rightarrow> nat list \<Rightarrow> nat list \<Rightarrow> bool" where
  "keeps_up n q [] as \<longleftrightarrow> as = [length q]"
| "keeps_up n q (m # ms) [] \<longleftrightarrow> False"
| "keeps_up n q (m # ms) (a # as) \<longleftrightarrow>
     sum_list (drop a q) + m \<le> n \<and> a \<le> Suc (length q) \<and> keeps_up n (drop a (q @ [m])) ms as"

fun ack_script :: "bytes list list \<Rightarrow> env_event list" where
  "ack_script [] = []"
| "ack_script [ds] = map EvRx ds"
| "ack_script (ds # dss) = map EvRx ds @ EvTimer # ack_script dss"

lemma keeps_up_rounds: "keeps_up n q ms as \<Longrightarrow> as \<noteq> []"
  by (cases ms; cases as) auto

definition line_size :: "string \<Rightarrow> nat" where
  "line_size l = length (with_newline l)"

lemma line_written:
  assumes "streaming n cfg k Mine q W w" "d \<noteq> ''?''"
  shows "\<exists>w'. track_and_write d op w = (Inr (), w') \<and> streaming n cfg k Mine (q @ [length d]) (W @ [d]) w'"
proof -
  from assms(1) tr_sound_write [of "g_transport w" d] obtain t where
    t: "tr_write d (g_transport w) = (Inr (), t)" "tr_sound t" "tr_wire t = tr_wire (g_transport w) @ [d]"
    by (auto simp: streaming_def)
  with assms show ?thesis
    by (auto simp: track_and_write_def grbl_write_def grbl_emit_def streaming_def job_wire_def track_command_def
        stop_streaming_def balanced_iff rx_buffer_size_def Let_def)
qed

lemma line_sent_in_time:
  assumes X: "regex_ok X" and w: "streaming n cfg k Free q W w" and ds: "list_all ok_line ds"
    and room: "sum_list (drop (length ds) q) + length d \<le> n" and truth: "length ds \<le> Suc (length q)" and d: "d \<noteq> ''?''"
  shows "\<exists>w' ds'. send_gcode_line X d op w (map EvRx ds @ es) = Ret (Inr ()) w' (map EvRx ds' @ es) \<and> list_all ok_line ds' \<and>
    (\<exists>q'. streaming n cfg k Free q' (W @ [d]) w' \<and> drop (length ds') q' = drop (length ds) (q @ [length d]))"
proof -
  have free: "g_cmd_lock w = Free" using w by (simp add: streaming_def)
  have m: "streaming n cfg k Mine q W (w\<lparr>g_cmd_lock := Mine\<rparr>)"
    using w by (simp add: streaming_def stop_streaming_def job_wire_def)
  from room_found [OF X m ds room, of es] obtain v a where
    a: "a \<le> length ds" "a \<le> length q" "streaming n cfg k Mine (drop a q) W v"
      "wait_for_space (grbl_env X) g_flow (length d) (w\<lparr>g_cmd_lock := Mine\<rparr>) (map EvRx ds @ es) =
         Ret (Inr ()) v (map EvRx (drop a ds) @ es)" by auto
  from line_written [OF a(3) d, of op] obtain u where
    u: "track_and_write d op v = (Inr (), u)" "streaming n cfg k Mine (drop a q @ [length d]) (W @ [d]) u" by blast
  have open_link: "tr_is_open (g_transport w)" using w tr_sound_open by (simp add: streaming_def)
  have "send_gcode_with_stall X d op (w\<lparr>g_cmd_lock := Mine\<rparr>) (map EvRx ds @ es) =
      Ret (Inr ()) u (map EvRx (drop a ds) @ es)"
    by (subst send_gcode_with_stall.simps) (simp add: a(4) u(1))
  then have "send_gcode_line X d op w (map EvRx ds @ es) = Ret (Inr ()) (release u) (map EvRx (drop a ds) @ es)"
    by (simp add: send_gcode_line_def acquire_def await.simps free open_link)
  moreover have "streaming n cfg k Free (drop a q @ [length d]) (W @ [d]) (release u)"
    using u(2) by (simp add: streaming_def release_def stop_streaming_def job_wire_def)
  moreover have "list_all ok_line (drop a ds)" using ds by (simp add: list_all_iff) (meson in_set_dropD)
  moreover have "drop (length (drop a ds)) (drop a q @ [length d]) = drop (length ds) (q @ [length d])"
    using a(1,2) by simp
  ultimately show ?thesis by blast
qed

section \<open>The job\<close>

lemma lines_streamed:
  assumes X: "regex_ok X" and tm: "\<And>op. line_timeout cfg tms op \<noteq> None"
  shows "streaming n cfg k Free q W w \<Longrightarrow> list_all (list_all ok_line) dss \<Longrightarrow>
   keeps_up n q (map line_size (job_lines X ls)) (map length dss) \<Longrightarrow>
   \<exists>w' q'. stream_lines X op_map tms idx ls w (ack_script dss) = Ret (Inr ()) w' (map EvRx (last dss)) \<and>
     streaming n cfg k Free q' (W @ map with_newline (job_lines X ls)) w' \<and> length (last dss) = length q' \<and>
     list_all ok_line (last dss)"
proof (induction ls arbitrary: idx q W w dss)
  case Nil
  then obtain ds where "dss = [ds]" by (auto simp: job_lines_def)
  with Nil show ?case by (auto simp: job_lines_def)
next
  case (Cons l ls)
  define j where "j = strip_gcode_comments X l"
  have go: "\<not> stop_streaming w" "g_config w = cfg" using Cons.prems(1) by (simp_all add: streaming_def)
  show ?case
  proof (cases "j = []")
    case True
    with Cons.IH [OF Cons.prems(1,2)] Cons.prems(3) go show ?thesis by (simp add: j_def job_lines_Cons Let_def)
  next
    case False
    then have jl: "job_lines X (l # ls) = j # job_lines X ls" by (simp add: j_def job_lines_Cons)
    from Cons.prems(3) obtain ds dss' where dss: "dss = ds # dss'"
      and room: "sum_list (drop (length ds) q) + length (with_newline j) \<le> n" "length ds \<le> Suc (length q)"
      and rest: "keeps_up n (drop (length ds) (q @ [length (with_newline j)])) (map line_size (job_lines X ls)) (map length dss')"
      by (cases dss) (auto simp: jl line_size_def [of j])
    from keeps_up_rounds [OF rest] obtain e es where es: "dss' = e # es" by (cases dss') auto
    from Cons.prems(2) dss have ok: "list_all ok_line ds" "list_all (list_all ok_line) dss'" by simp_all
    define op where "op = Option.bind op_map (\<lambda>m. m idx)"
    from line_sent_in_time [OF X Cons.prems(1) ok(1) room with_newline_not_poll, of op "EvTimer # ack_script dss'"]
    obtain u ds' q' where u: "send_gcode_line X (with_newline j) op w (ack_script dss) = Ret (Inr ()) u (map EvRx ds' @ EvTimer # ack_script dss')"
      "list_all ok_line ds'" "streaming n cfg k Free q' (W @ [with_newline j]) u"
      "drop (length ds') q' = drop (length ds) (q @ [length (with_newline j)])"
      unfolding dss es by auto
    from pause_acks [OF X u(3,2), of "ack_script dss'"] obtain v where
      v: "sleep (grbl_env X) u (map EvRx ds' @ EvTimer # ack_script dss') = Ret () v (ack_script dss')"
        "streaming n cfg k Free (drop (length ds) (q @ [length (with_newline j)])) (W @ [with_newline j]) v"
      using u(4) by auto
    from u(3) have u': "g_job_exception u = None" "status (g_state u) \<noteq> Alarm"
      by (auto simp: streaming_def stop_streaming_def)
    from tm [of op] have "stream_lines X op_map tms idx (l # ls) w (ack_script dss) =
        stream_lines X op_map tms (Suc idx) ls v (ack_script dss')"
      using False go u(1) u' v(1) by (auto simp: j_def [symmetric] op_def [symmetric] Let_def)
    with Cons.IH [OF v(2) ok(2) rest, of "Suc idx"] show ?thesis
      using es by (simp add: jl dss del: stream_lines.simps)
  qed
qed

lemma all_acknowledged:
  assumes "regex_ok X" "streaming n cfg k Free q W w" "list_all ok_line ds" "length ds = length q"
  shows "\<exists>w'. drain_pending_acks X w (map EvRx ds) = Ret () w' [] \<and> streaming n cfg k Free [] W w'"
proof (cases "q = []")
  case True
  with assms have "pending (g_flow w) = []" by (simp add: streaming_def)
  with assms True show ?thesis by (subst drain_pending_acks.simps) auto
next
  case False
  from drain_acks [OF assms(1-4) False, of True "[]"] obtain v where
    v: "drain_wait (grbl_env X) g_flow True (pending_drained (g_flow w)) w (map EvRx ds) = Ret (Inr ()) v []"
      "streaming n cfg k Free [] W v" by auto
  have "pending (g_flow w) \<noteq> []" using assms(2) False by (auto simp: streaming_def)
  with v assms(2) show ?thesis
    by (subst drain_pending_acks.simps) (simp add: wait_pending_empty_def streaming_def stop_streaming_def)
qed

lemma start_streams:
  assumes "tr_sound (g_transport w)" "g_cmd_lock w = Free" "status (g_state w) \<noteq> Alarm" "status_buffer (g_flow w) = []"
    "\<not> acked_since_flush (g_flow w)" "\<not> drained_since_flush (g_flow w)"
  shows "streaming (rx_buffer_size (g_flow w)) (g_config w) (jobs_finished (g_events w)) Free [] (job_wire w) (start_job w)"
  using assms
  by (simp add: streaming_def start_job_def reset_flow_control_def signal_space_available_def notify_drained_def
      stop_streaming_def grbl_emit_def job_wire_def balanced_iff rx_buffer_size_def Let_def)

lemma streaming_task_fields:
  "streaming n cfg k l q W (w\<lparr>g_stream_task := t\<rparr>) = streaming n cfg k l q W w"
  "streaming n cfg k l q W (w\<lparr>g_stream_done := d\<rparr>) = streaming n cfg k l q W w"
  by (simp_all add: streaming_def stop_streaming_def job_wire_def)

lemma streaming_aborted: "streaming n cfg k l q W (abort_stream_task b w) = streaming n cfg k l q W w"
  by (simp add: abort_stream_task_def streaming_task_fields split: option.split)

lemma job_streams:
  assumes X: "regex_ok X" and w: "streaming n cfg k Free [] W w" and tm: "\<And>op. line_timeout cfg tms op \<noteq> None"
    and dss: "list_all (list_all ok_line) dss" "keeps_up n [] (map line_size (job_lines X ls)) (map length dss)"
  shows "\<exists>v. stream_gcode X ls op_map tms w (ack_script dss) = Ret () (finish_stream (Inr ()) v) [] \<and>
    streaming n cfg k Free [] (W @ map with_newline (job_lines X ls)) v"
proof -
  from lines_streamed [OF X tm w dss, of op_map 0] obtain u q' where
    u: "stream_lines X op_map tms 0 ls w (ack_script dss) = Ret (Inr ()) u (map EvRx (last dss))"
      "streaming n cfg k Free q' (W @ map with_newline (job_lines X ls)) u" "length (last dss) = length q'"
      "list_all ok_line (last dss)" by blast
  from all_acknowledged [OF X u(2,4,3)] obtain v where
    v: "drain_pending_acks X u (map EvRx (last dss)) = Ret () v []"
      "streaming n cfg k Free [] (W @ map with_newline (job_lines X ls)) v" by blast
  from u(2) v(2) have "\<not> g_is_cancelled u" "g_job_exception u = None" "g_job_exception v = None"
    by (simp_all add: streaming_def stop_streaming_def)
  with u(1) v show ?thesis by (intro exI [of _ v]) (simp add: stream_gcode_def stream_gcode_inner_def)
qed

lemma job_runs_to_end:
  assumes "regex_ok X" and "tr_sound (g_transport w)" "g_cmd_lock w = Free" "status (g_state w) \<noteq> Alarm"
    "status_buffer (g_flow w) = []" "\<not> acked_since_flush (g_flow w)" "\<not> drained_since_flush (g_flow w)"
    and limits: "fle (cfg_stall_timeout_min (g_config w)) (cfg_stall_timeout_max (g_config w))"
    and acks: "list_all (list_all ok_line) dss"
    and device: "keeps_up (rx_buffer_size (g_flow w)) [] (map line_size (job_lines X (lines gcode))) (map length dss)"
  shows "\<exists>w'. run X join_msg gcode op_map estimates w (ack_script dss) = Ret () w' [] \<and>
    job_wire w' = job_wire w @ map with_newline (job_lines X (lines gcode)) \<and> pending (g_flow w') = [] \<and>
    rx_count (g_flow w') = 0 \<and> \<not> g_job_running w' \<and> g_job_exception w' = None \<and>
    jobs_finished (g_events w') = Suc (jobs_finished (g_events w))"
proof -
  let ?n = "rx_buffer_size (g_flow w)" and ?k = "jobs_finished (g_events w)"
    and ?W = "job_wire w @ map with_newline (job_lines X (lines gcode))"
  define v0 where "v0 = abort_stream_task False (start_job w)"
  define v1 where "v1 = v0\<lparr>g_stream_done := g_stream_done v0 @ [False], g_stream_task := Some (length (g_stream_done v0))\<rparr>"
  have "streaming ?n (g_config w) ?k Free [] (job_wire w) v1"
    unfolding v1_def v0_def streaming_task_fields streaming_aborted by (rule start_streams) (use assms in simp_all)
  moreover have "line_timeout (g_config w) tms op \<noteq> None" for tms op
    using limits by (simp add: line_timeout_def fclamp_def split: option.split)
  ultimately obtain v where
    v: "stream_gcode X (lines gcode) (Some op_map) (Some estimates) v1 (ack_script dss) = Ret () (finish_stream (Inr ()) v) []"
      "streaming ?n (g_config w) ?k Free [] ?W v"
    using job_streams [OF assms(1) _ _ acks device] by blast
  have "run X join_msg gcode op_map estimates w (ack_script dss) =
      Ret () (stream_ended (length (g_stream_done v0)) (finish_stream (Inr ()) v)) []"
    using v(1) by (simp add: run_def run_streaming_job_def Let_def v0_def [symmetric] v1_def [symmetric])
  with v(2) show ?thesis
    by (simp add: streaming_def stop_streaming_def stream_ended_def finish_stream_def grbl_emit_def job_wire_def
        balanced_iff Let_def)
qed

text \<open>A job of two lines with a comment and a blank line, and a device that answers it.\<close>

definition demo_gcode :: string where
  "demo_gcode = ''G0 X1 ; go'' @ [LF] @ ''(note)'' @ [LF] @ ''M5''"

definition demo_acks :: "string list list" where
  "demo_acks = [[], [''ok'' @ [LF]], [''ok'' @ [CR, LF]]]"

lemma demo_job_lines: "job_lines std_regex (lines demo_gcode) = [''G0 X1'', ''M5'']"
proof -
  have "lines demo_gcode = [''G0 X1 ; go'', ''(note)'', ''M5'']" by code_simp
  moreover have "strip_gcode_comments std_regex ''G0 X1 ; go'' = ''G0 X1''" "strip_gcode_comments std_regex ''(note)'' = []"
    "strip_gcode_comments std_regex ''M5'' = ''M5''" by code_simp+
  ultimately show ?thesis by (simp add: job_lines_def)
qed

lemma demo_job:
  "tr_sound (g_transport demo)" "g_cmd_lock demo = Free" "status (g_state demo) \<noteq> Alarm"
  "status_buffer (g_flow demo) = []" "\<not> acked_since_flush (g_flow demo)" "\<not> drained_since_flush (g_flow demo)"
  "fle (cfg_stall_timeout_min (g_config demo)) (cfg_stall_timeout_max (g_config demo))"
  "list_all (list_all ok_line) demo_acks"
  "keeps_up (rx_buffer_size (g_flow demo)) [] (map line_size (job_lines std_regex (lines demo_gcode))) (map length demo_acks)"
  "job_wire demo = []" "g_events demo = []"
proof -
  show "list_all (list_all ok_line) demo_acks" by code_simp
  show "keeps_up (rx_buffer_size (g_flow demo)) [] (map line_size (job_lines std_regex (lines demo_gcode))) (map length demo_acks)"
    unfolding demo_job_lines demo_acks_def demo_simps by code_simp
  show "fle (cfg_stall_timeout_min (g_config demo)) (cfg_stall_timeout_max (g_config demo))"
    unfolding demo_simps by code_simp
qed (simp_all add: mock_inv_def DeviceState_default_def FlowControl_new_def job_wire_def)

text \<open>
  C2: A streaming job on a device that keeps up comes to its end. The link is up and accepts what is
  written, the session is at rest and not in alarm, the configured stall limits are ordered. In each round
  of the scheduler the device sends acknowledgements, in chunks of one: never more than lines received, enough to make
  room for the next line before the round ends, and in the end one for every line. Then the job
  returns, its lines without comments and blank ones are on the wire once each and in order, nothing is
  outstanding, no job runs, no error is left, and its end is reported exactly once.
\<close>

theorem grbl_job_completes:
  assumes "regex_ok X" and "tr_sound (g_transport w)" "g_cmd_lock w = Free" "status (g_state w) \<noteq> Alarm"
    "status_buffer (g_flow w) = []" "\<not> acked_since_flush (g_flow w)" "\<not> drained_since_flush (g_flow w)"
    and limits: "fle (cfg_stall_timeout_min (g_config w)) (cfg_stall_timeout_max (g_config w))"
    and acks: "list_all (list_all ok_line) dss"
    and device: "keeps_up (rx_buffer_size (g_flow w)) [] (map line_size (job_lines X (lines gcode))) (map length dss)"
  shows "\<exists>w'. run X join_msg gcode op_map estimates w (ack_script dss) = Ret () w' [] \<and>
    job_wire w' = job_wire w @ map with_newline (job_lines X (lines gcode)) \<and> pending (g_flow w') = [] \<and>
    rx_count (g_flow w') = 0 \<and> \<not> g_job_running w' \<and> g_job_exception w' = None \<and>
    jobs_finished (g_events w') = Suc (jobs_finished (g_events w))"
  using assms by (rule job_runs_to_end)

theorem grbl_job_completes_witness:
  "\<exists>w'. run std_regex [] demo_gcode Map.empty [] demo (ack_script demo_acks) = Ret () w' [] \<and>
    job_wire w' = map with_newline [''G0 X1'', ''M5''] \<and> jobs_finished (g_events w') = 1"
  using grbl_job_completes [OF regex_ok_std demo_job(1-9), of "[]" Map.empty "[]", unfolded demo_job_lines demo_job(10,11)]
  unfolding append_Nil jobs_finished_simps One_nat_def by blast

end
