(* ===== verification/Py_Types.thy ===== *)
theory Py_Types
  imports Core_Session
begin

text \<open>
  The value types the extension module shows to Python, \<^verbatim>\<open>src/python/core/types.rs\<close>:
  the status enumeration with its two conversions and its integer values, and the wrappers of
  the device error and the device state with their getters and setters. A setter takes
  \<^verbatim>\<open>&mut self\<close> and becomes a function to the updated wrapper. The Python
  representation of a device error quotes its title with the escapes of the standard library's
  Unicode tables and is left out.
\<close>

datatype PyDeviceStatus =
    PS_Unknown | PS_Idle | PS_Run | PS_Hold | PS_Jog | PS_Alarm | PS_Door | PS_Check | PS_Home
  | PS_Sleep | PS_Tool | PS_Queue | PS_Lock | PS_Unlock | PS_Cycle | PS_Test

fun py_status_of :: "DeviceStatus \<Rightarrow> PyDeviceStatus" where
  "py_status_of Unknown = PS_Unknown"
| "py_status_of Idle = PS_Idle"
| "py_status_of Run = PS_Run"
| "py_status_of Hold = PS_Hold"
| "py_status_of Jog = PS_Jog"
| "py_status_of Alarm = PS_Alarm"
| "py_status_of Door = PS_Door"
| "py_status_of Check = PS_Check"
| "py_status_of Home = PS_Home"
| "py_status_of Sleep = PS_Sleep"
| "py_status_of Tool = PS_Tool"
| "py_status_of Queue = PS_Queue"
| "py_status_of Lock = PS_Lock"
| "py_status_of Unlock = PS_Unlock"
| "py_status_of Cycle = PS_Cycle"
| "py_status_of Test = PS_Test"

fun core_status_of :: "PyDeviceStatus \<Rightarrow> DeviceStatus" where
  "core_status_of PS_Unknown = Unknown"
| "core_status_of PS_Idle = Idle"
| "core_status_of PS_Run = Run"
| "core_status_of PS_Hold = Hold"
| "core_status_of PS_Jog = Jog"
| "core_status_of PS_Alarm = Alarm"
| "core_status_of PS_Door = Door"
| "core_status_of PS_Check = Check"
| "core_status_of PS_Home = Home"
| "core_status_of PS_Sleep = Sleep"
| "core_status_of PS_Tool = Tool"
| "core_status_of PS_Queue = Queue"
| "core_status_of PS_Lock = Lock"
| "core_status_of PS_Unlock = Unlock"
| "core_status_of PS_Cycle = Cycle"
| "core_status_of PS_Test = Test"

text \<open>The discriminants, which Python compares and converts to integers (\<^verbatim>\<open>eq_int\<close>).\<close>

fun py_status_value :: "PyDeviceStatus \<Rightarrow> int" where
  "py_status_value PS_Unknown = 0"
| "py_status_value PS_Idle = 1"
| "py_status_value PS_Run = 2"
| "py_status_value PS_Hold = 3"
| "py_status_value PS_Jog = 4"
| "py_status_value PS_Alarm = 5"
| "py_status_value PS_Door = 6"
| "py_status_value PS_Check = 7"
| "py_status_value PS_Home = 8"
| "py_status_value PS_Sleep = 9"
| "py_status_value PS_Tool = 10"
| "py_status_value PS_Queue = 11"
| "py_status_value PS_Lock = 12"
| "py_status_value PS_Unlock = 13"
| "py_status_value PS_Cycle = 14"
| "py_status_value PS_Test = 15"

fun py_status_name :: "PyDeviceStatus \<Rightarrow> string" where
  "py_status_name PS_Unknown = ''UNKNOWN''"
| "py_status_name PS_Idle = ''IDLE''"
| "py_status_name PS_Run = ''RUN''"
| "py_status_name PS_Hold = ''HOLD''"
| "py_status_name PS_Jog = ''JOG''"
| "py_status_name PS_Alarm = ''ALARM''"
| "py_status_name PS_Door = ''DOOR''"
| "py_status_name PS_Check = ''CHECK''"
| "py_status_name PS_Home = ''HOME''"
| "py_status_name PS_Sleep = ''SLEEP''"
| "py_status_name PS_Tool = ''TOOL''"
| "py_status_name PS_Queue = ''QUEUE''"
| "py_status_name PS_Lock = ''LOCK''"
| "py_status_name PS_Unlock = ''UNLOCK''"
| "py_status_name PS_Cycle = ''CYCLE''"
| "py_status_name PS_Test = ''TEST''"

definition py_status_repr :: "PyDeviceStatus \<Rightarrow> string" where
  "py_status_repr st = ''DeviceStatus.'' @ py_status_name st"

lemma py_status_of_core [simp]: "py_status_of (core_status_of p) = p"
  by (cases p) simp_all

lemma core_status_of_py [simp]: "core_status_of (py_status_of st) = st"
  by (cases st) simp_all

lemma py_status_value_inj: "py_status_value p = py_status_value q \<longleftrightarrow> p = q"
  by (cases p; cases q) simp_all

text \<open>The Python name is the name of the core in capitals, so it is one the core reads back.\<close>

lemma py_status_name_upper: "py_status_name (py_status_of st) = to_ascii_uppercase (status_name st)"
  by (induction st; code_simp)

lemma from_name_py_status_name: "from_name (py_status_name p) = core_status_of p"
  by (induction p; code_simp)

subsection \<open>Device errors\<close>

record PyDeviceError =
  pe_inner :: DeviceError

definition PyDeviceError_new :: "DeviceError \<Rightarrow> PyDeviceError" where
  "PyDeviceError_new e = \<lparr>pe_inner = e\<rparr>"

definition PyDeviceError_new_py :: "int \<Rightarrow> string \<Rightarrow> string \<Rightarrow> PyDeviceError" where
  "PyDeviceError_new_py code title descr = \<lparr>pe_inner = DeviceError_new code title descr\<rparr>"

definition py_error_code :: "PyDeviceError \<Rightarrow> int" where
  "py_error_code e = err_code (pe_inner e)"

definition py_error_title :: "PyDeviceError \<Rightarrow> string" where
  "py_error_title e = err_title (pe_inner e)"

definition py_error_description :: "PyDeviceError \<Rightarrow> string" where
  "py_error_description e = err_description (pe_inner e)"

lemma py_error_getters [simp]:
  "py_error_code (PyDeviceError_new_py c t d) = c"
  "py_error_title (PyDeviceError_new_py c t d) = t"
  "py_error_description (PyDeviceError_new_py c t d) = d"
  by (simp_all add: PyDeviceError_new_py_def py_error_code_def py_error_title_def
        py_error_description_def)

lemma PyDeviceError_rebuild:
  "PyDeviceError_new_py (py_error_code e) (py_error_title e) (py_error_description e) = e"
  by (simp add: PyDeviceError_new_py_def py_error_code_def py_error_title_def
        py_error_description_def DeviceError_new_def)

subsection \<open>Device states\<close>

record PyDeviceState =
  ps_inner :: DeviceState

definition PyDeviceState_new :: "DeviceState \<Rightarrow> PyDeviceState" where
  "PyDeviceState_new s = \<lparr>ps_inner = s\<rparr>"

definition PyDeviceState_new_py :: PyDeviceState where
  "PyDeviceState_new_py = PyDeviceState_new DeviceState_default"

text \<open>The derived \<^verbatim>\<open>PartialEq\<close>, which Python's \<^verbatim>\<open>==\<close> uses.\<close>

definition py_state_eq :: "PyDeviceState \<Rightarrow> PyDeviceState \<Rightarrow> bool" where
  "py_state_eq a b = state_eq (ps_inner a) (ps_inner b)"

definition py_get_status :: "PyDeviceState \<Rightarrow> PyDeviceStatus" where
  "py_get_status s = py_status_of (status (ps_inner s))"

definition py_set_status :: "PyDeviceStatus \<Rightarrow> PyDeviceState \<Rightarrow> PyDeviceState" where
  "py_set_status v s = s\<lparr>ps_inner := (ps_inner s)\<lparr>status := core_status_of v\<rparr>\<rparr>"

definition py_get_error :: "PyDeviceState \<Rightarrow> PyDeviceError option" where
  "py_get_error s = map_option PyDeviceError_new (dev_error (ps_inner s))"

definition py_set_error :: "PyDeviceError option \<Rightarrow> PyDeviceState \<Rightarrow> PyDeviceState" where
  "py_set_error v s = s\<lparr>ps_inner := (ps_inner s)\<lparr>dev_error := map_option pe_inner v\<rparr>\<rparr>"

definition py_get_machine_pos :: "PyDeviceState \<Rightarrow> Pos" where
  "py_get_machine_pos s = machine_pos (ps_inner s)"

definition py_set_machine_pos :: "Pos \<Rightarrow> PyDeviceState \<Rightarrow> PyDeviceState" where
  "py_set_machine_pos v s = s\<lparr>ps_inner := (ps_inner s)\<lparr>machine_pos := v\<rparr>\<rparr>"

definition py_get_work_pos :: "PyDeviceState \<Rightarrow> Pos" where
  "py_get_work_pos s = work_pos (ps_inner s)"

definition py_set_work_pos :: "Pos \<Rightarrow> PyDeviceState \<Rightarrow> PyDeviceState" where
  "py_set_work_pos v s = s\<lparr>ps_inner := (ps_inner s)\<lparr>work_pos := v\<rparr>\<rparr>"

definition py_get_wco :: "PyDeviceState \<Rightarrow> Pos" where
  "py_get_wco s = wco (ps_inner s)"

definition py_set_wco :: "Pos \<Rightarrow> PyDeviceState \<Rightarrow> PyDeviceState" where
  "py_set_wco v s = s\<lparr>ps_inner := (ps_inner s)\<lparr>wco := v\<rparr>\<rparr>"

definition py_get_feed_rate :: "PyDeviceState \<Rightarrow> int option" where
  "py_get_feed_rate s = feed_rate (ps_inner s)"

definition py_set_feed_rate :: "int option \<Rightarrow> PyDeviceState \<Rightarrow> PyDeviceState" where
  "py_set_feed_rate v s = s\<lparr>ps_inner := (ps_inner s)\<lparr>feed_rate := v\<rparr>\<rparr>"

definition py_get_spindle_speed :: "PyDeviceState \<Rightarrow> int option" where
  "py_get_spindle_speed s = spindle_speed (ps_inner s)"

definition py_set_spindle_speed :: "int option \<Rightarrow> PyDeviceState \<Rightarrow> PyDeviceState" where
  "py_set_spindle_speed v s = s\<lparr>ps_inner := (ps_inner s)\<lparr>spindle_speed := v\<rparr>\<rparr>"

definition py_get_buffer_available :: "PyDeviceState \<Rightarrow> int option" where
  "py_get_buffer_available s = buffer_available (ps_inner s)"

definition py_set_buffer_available :: "int option \<Rightarrow> PyDeviceState \<Rightarrow> PyDeviceState" where
  "py_set_buffer_available v s = s\<lparr>ps_inner := (ps_inner s)\<lparr>buffer_available := v\<rparr>\<rparr>"

definition py_get_buffer_rx_available :: "PyDeviceState \<Rightarrow> int option" where
  "py_get_buffer_rx_available s = buffer_rx_available (ps_inner s)"

definition py_set_buffer_rx_available :: "int option \<Rightarrow> PyDeviceState \<Rightarrow> PyDeviceState" where
  "py_set_buffer_rx_available v s = s\<lparr>ps_inner := (ps_inner s)\<lparr>buffer_rx_available := v\<rparr>\<rparr>"

text \<open>\<^verbatim>\<open>{:?}\<close> of an optional integer.\<close>

definition debug_int_option :: "int option \<Rightarrow> string" where
  "debug_int_option v = (case v of None \<Rightarrow> ''None'' | Some i \<Rightarrow> ''Some('' @ show_int i @ '')'')"

definition py_state_repr :: "PyDeviceState \<Rightarrow> string" where
  "py_state_repr s =
     ''DeviceState(status='' @ status_name (status (ps_inner s)) @ '', feed_rate='' @
     debug_int_option (feed_rate (ps_inner s)) @ '')''"

lemmas py_state_defs =
  py_get_status_def py_set_status_def py_get_error_def py_set_error_def
  py_get_machine_pos_def py_set_machine_pos_def py_get_work_pos_def py_set_work_pos_def
  py_get_wco_def py_set_wco_def py_get_feed_rate_def py_set_feed_rate_def
  py_get_spindle_speed_def py_set_spindle_speed_def
  py_get_buffer_available_def py_set_buffer_available_def
  py_get_buffer_rx_available_def py_set_buffer_rx_available_def

text \<open>
  Everything of a device state crosses the boundary: a state rebuilt through the setters from
  the values of the getters, starting from any other state, is the state itself.
\<close>

definition py_state_copy :: "PyDeviceState \<Rightarrow> PyDeviceState \<Rightarrow> PyDeviceState" where
  "py_state_copy s t =
     py_set_status (py_get_status s) (py_set_error (py_get_error s)
       (py_set_machine_pos (py_get_machine_pos s) (py_set_work_pos (py_get_work_pos s)
         (py_set_wco (py_get_wco s) (py_set_feed_rate (py_get_feed_rate s)
           (py_set_spindle_speed (py_get_spindle_speed s)
             (py_set_buffer_available (py_get_buffer_available s)
               (py_set_buffer_rx_available (py_get_buffer_rx_available s) t))))))))"

lemma map_option_pe_inner_new [simp]:
  "map_option pe_inner (map_option PyDeviceError_new e) = e"
  by (cases e) (simp_all add: PyDeviceError_new_def)

lemma py_state_copy_id: "py_state_copy s t = s"
  by (cases s; cases t; cases "ps_inner s"; cases "ps_inner t")
    (simp add: py_state_copy_def py_state_defs)

end
