(* ===== verification/Py_Queue.thy ===== *)
theory Py_Queue
  imports Main
begin

text \<open>
  The contract of a queue whose producers share one wake-up: a producer learns whether it must wake
  the consumer, the consumer takes everything at once and thereby asks for the next wake-up. What
  a client may conclude from the contract is proved here once; the event queue of the Python
  module is an instance (\<open>Py_Events\<close>).
\<close>

datatype 'e queue_op = Put 'e | Drain

text \<open>
  A history of a queue: what was put, how many wake-ups it asked for, the batches, and the queue
  after it.
\<close>

fun queue_run ::
  "('e \<Rightarrow> 'q \<Rightarrow> bool \<times> 'q) \<Rightarrow> ('q \<Rightarrow> 'e list \<times> 'q) \<Rightarrow> 'e queue_op list \<Rightarrow> 'q \<Rightarrow>
   'e list \<times> nat \<times> 'e list list \<times> 'q" where
  "queue_run put drain [] q = ([], 0, [], q)"
| "queue_run put drain (Put e # ops) q =
     (case queue_run put drain ops (snd (put e q)) of
        (es, n, bs, q') \<Rightarrow> (e # es, (if fst (put e q) then Suc n else n), bs, q'))"
| "queue_run put drain (Drain # ops) q =
     (case queue_run put drain ops (snd (drain q)) of
        (es, n, bs, q') \<Rightarrow> (es, n, fst (drain q) # bs, q'))"

locale wake_queue =
  fixes put :: "'e \<Rightarrow> 'q \<Rightarrow> bool \<times> 'q"
    and drain :: "'q \<Rightarrow> 'e list \<times> 'q"
    and waiting :: "'q \<Rightarrow> 'e list"
    and awake :: "'q \<Rightarrow> bool"
  assumes put_waiting: "waiting (snd (put e q)) = waiting q @ [e]"
    and put_wakes: "fst (put e q) = (\<not> awake q)"
    and put_awake: "awake (snd (put e q))"
    and drain_all: "fst (drain q) = waiting q"
    and drain_empty: "waiting (snd (drain q)) = []"
    and drain_sleeps: "\<not> awake (snd (drain q))"
begin

text \<open>Batches and rest are what was put, in order.\<close>

lemma batches_conserve:
  "queue_run put drain ops q = (es, n, bs, q') \<Longrightarrow> concat bs @ waiting q' = waiting q @ es"
proof (induction ops arbitrary: q es n bs)
  case (Cons a ops)
  thus ?case
    by (cases a) (auto simp: put_waiting drain_all drain_empty split: prod.splits)
qed simp

text \<open>
  One wake-up per batch: a consumer that is awake exactly while something waits is woken once for
  each batch that is not empty and once for what still waits.
\<close>

lemma one_wake_per_batch:
  "queue_run put drain ops q = (es, n, bs, q') \<Longrightarrow> awake q = (waiting q \<noteq> []) \<Longrightarrow>
     awake q' = (waiting q' \<noteq> []) \<and>
     n + of_bool (waiting q \<noteq> []) = length (filter (\<lambda>b. b \<noteq> []) bs) + of_bool (waiting q' \<noteq> [])"
proof (induction ops arbitrary: q es n bs)
  case (Cons a ops)
  let ?q = "case a of Put e \<Rightarrow> snd (put e q) | Drain \<Rightarrow> snd (drain q)"
  obtain es1 n1 bs1 q1 where r: "queue_run put drain ops ?q = (es1, n1, bs1, q1)"
    by (cases "queue_run put drain ops ?q") auto
  hence q1: "q1 = q'" using Cons.prems(1) by (cases a) auto
  have "awake ?q = (waiting ?q \<noteq> [])"
    by (cases a) (simp_all add: put_waiting put_awake drain_empty drain_sleeps)
  from Cons.IH [OF r [unfolded q1] this] Cons.prems r show ?case
    by (cases a) (auto simp: put_waiting put_wakes put_awake drain_all drain_empty drain_sleeps
      split: if_splits)
qed simp

end

end
