(* ===== verification/Py_Events.thy ===== *)
theory Py_Events
  imports Py_Types Py_Queue
begin

text \<open>
  The delivery of session events to Python, \<^verbatim>\<open>src/python/events.rs\<close>. A session's
  tasks run on worker threads; \<^verbatim>\<open>schedule\<close> and \<^verbatim>\<open>schedule_progress\<close>
  put an event in a queue and signal the caller's event loop at most once per batch, and a
  drainer on the loop thread takes the whole queue and calls back. The two functions are
  programs of several critical sections, which other threads interleave: each is the
  \<open>call\<close> values it goes through, and \<open>advance\<close> is its next section. A Python object
  (callback, event loop) is its identity. The event loop is environment: it may accept or refuse
  a handle, runs the handles it holds in any order, one at a time, and when closed runs and
  accepts none.
\<close>

type_synonym py_obj = nat

datatype SessionEvent =
    E_StateChanged PyDeviceState
  | E_ConnectionStatusChanged string "string option"
  | E_CommandStatusChanged string "string option"
  | E_JobFinished
  | E_ProbeStatusChanged string
  | E_WcsUpdated "string \<rightharpoonup> f64 \<times> f64 \<times> f64"
  | E_ConfigChanged string int
  | E_RawRx string
  | E_RawTx string

datatype QueuedEvent = Q_Session SessionEvent | Q_Progress int

subsection \<open>The queue\<close>

record EventQueue =
  eq_pending :: "QueuedEvent list"
  eq_scheduled :: bool

definition EventQueue_default :: EventQueue where
  "EventQueue_default = \<lparr>eq_pending = [], eq_scheduled = False\<rparr>"

text \<open>The answer says whether the caller must schedule a drain.\<close>

definition EventQueue_push :: "QueuedEvent \<Rightarrow> EventQueue \<Rightarrow> bool \<times> EventQueue" where
  "EventQueue_push ev q =
     (\<not> eq_scheduled q, q\<lparr>eq_pending := eq_pending q @ [ev], eq_scheduled := True\<rparr>)"

definition EventQueue_unschedule :: "EventQueue \<Rightarrow> EventQueue" where
  "EventQueue_unschedule q = q\<lparr>eq_scheduled := False\<rparr>"

definition EventQueue_take :: "EventQueue \<Rightarrow> QueuedEvent list \<times> EventQueue" where
  "EventQueue_take q = (eq_pending q, q\<lparr>eq_scheduled := False, eq_pending := []\<rparr>)"

interpretation event_queue: wake_queue EventQueue_push EventQueue_take eq_pending eq_scheduled
  by unfold_locales (simp_all add: EventQueue_push_def EventQueue_take_def)

subsection \<open>The event sink of a session\<close>

record EventDrainer =
  d_events :: "py_obj option"
  d_progress :: "py_obj option"

record PyEvents =
  ev_callback :: "py_obj option"
  ev_loop :: "py_obj option"
  ev_progress :: "py_obj option"
  ev_queue :: EventQueue

definition PyEvents_new :: "py_obj option \<Rightarrow> PyEvents" where
  "PyEvents_new cb =
     \<lparr>ev_callback = cb, ev_loop = None, ev_progress = None, ev_queue = EventQueue_default\<rparr>"

text \<open>
  \<open>running\<close> is the answer of \<^verbatim>\<open>asyncio.get_running_loop()\<close>, an exception when
  the caller is outside a running loop; it is asked only while the slot is empty.
\<close>

definition capture_loop :: "('e, py_obj) result \<Rightarrow> PyEvents \<Rightarrow> ('e, unit) result \<times> PyEvents" where
  "capture_loop running p =
     (case ev_loop p of
        Some _ \<Rightarrow> (Inr (), p)
      | None \<Rightarrow>
          (case running of
             Inl e \<Rightarrow> (Inl e, p)
           | Inr l \<Rightarrow> (Inr (), p\<lparr>ev_loop := Some l\<rparr>)))"

definition set_progress_callback :: "py_obj option \<Rightarrow> PyEvents \<Rightarrow> PyEvents" where
  "set_progress_callback cb p = p\<lparr>ev_progress := cb\<rparr>"

text \<open>
  A call in flight: where \<^verbatim>\<open>schedule\<close> (\<open>S_\<close>) or \<^verbatim>\<open>schedule_progress\<close>
  (\<open>P_\<close>) stands, with the objects it has read so far.
\<close>

datatype call =
    S_Start SessionEvent
  | S_Push SessionEvent
  | S_Loop
  | S_Drainer py_obj
  | S_Call py_obj EventDrainer
  | S_Undo
  | P_Start int
  | P_Callback int
  | P_Loop int py_obj
  | P_Push int py_obj py_obj
  | P_Drainer py_obj py_obj
  | P_Call py_obj EventDrainer
  | P_Undo

definition pe_push :: "QueuedEvent \<Rightarrow> PyEvents \<Rightarrow> bool \<times> PyEvents" where
  "pe_push ev p = (let (must, q) = EventQueue_push ev (ev_queue p) in (must, p\<lparr>ev_queue := q\<rparr>))"

definition pe_unschedule :: "PyEvents \<Rightarrow> PyEvents" where
  "pe_unschedule p = p\<lparr>ev_queue := EventQueue_unschedule (ev_queue p)\<rparr>"

text \<open>
  The next section of a call: where it stands afterwards (\<open>None\<close> when it has returned) and
  the sink. \<open>ok\<close> is the answer of Python where the section asks for one: the creation of
  the drainer object, or \<^verbatim>\<open>call_soon_threadsafe\<close>. \<open>S_Undo\<close> is the
  \<^verbatim>\<open>unschedule\<close> of the error handler at the end of both functions; a progress call whose
  signal fails has undone its push once already.
\<close>

fun advance :: "bool \<Rightarrow> call \<Rightarrow> PyEvents \<Rightarrow> call option \<times> PyEvents" where
  "advance ok (S_Start ev) p =
     (case ev_callback p of None \<Rightarrow> (None, p) | Some _ \<Rightarrow> (Some (S_Push ev), p))"
| "advance ok (S_Push ev) p =
     (let (must, p) = pe_push (Q_Session ev) p in (if must then Some S_Loop else None, p))"
| "advance ok S_Loop p =
     (case ev_loop p of None \<Rightarrow> (None, pe_unschedule p) | Some l \<Rightarrow> (Some (S_Drainer l), p))"
| "advance ok (S_Drainer l) p =
     (if ok then (Some (S_Call l \<lparr>d_events = ev_callback p, d_progress = ev_progress p\<rparr>), p)
      else (Some S_Undo, p))"
| "advance ok (S_Call l d) p = (if ok then None else Some S_Undo, p)"
| "advance ok S_Undo p = (None, pe_unschedule p)"
| "advance ok (P_Start i) p =
     (case ev_progress p of None \<Rightarrow> (None, p) | Some _ \<Rightarrow> (Some (P_Callback i), p))"
| "advance ok (P_Callback i) p =
     (case ev_progress p of None \<Rightarrow> (None, p) | Some cb \<Rightarrow> (Some (P_Loop i cb), p))"
| "advance ok (P_Loop i cb) p =
     (case ev_loop p of None \<Rightarrow> (None, p) | Some l \<Rightarrow> (Some (P_Push i cb l), p))"
| "advance ok (P_Push i cb l) p =
     (let (must, p) = pe_push (Q_Progress i) p
      in (if must then Some (P_Drainer cb l) else None, p))"
| "advance ok (P_Drainer cb l) p =
     (if ok then (Some (P_Call l \<lparr>d_events = ev_callback p, d_progress = Some cb\<rparr>), p)
      else (Some S_Undo, p))"
| "advance ok (P_Call l d) p = (if ok then None else Some P_Undo, p)"
| "advance ok P_Undo p = (Some S_Undo, pe_unschedule p)"

text \<open>The handle a section hands to a loop when the loop accepts it.\<close>

fun call_handle :: "call \<Rightarrow> (py_obj \<times> EventDrainer) option" where
  "call_handle (S_Call l d) = Some (l, d)"
| "call_handle (P_Call l d) = Some (l, d)"
| "call_handle _ = None"

text \<open>The event a section puts in the queue.\<close>

fun call_push :: "call \<Rightarrow> QueuedEvent option" where
  "call_push (S_Push ev) = Some (Q_Session ev)"
| "call_push (P_Push i cb l) = Some (Q_Progress i)"
| "call_push _ = None"

subsection \<open>The session's notifications\<close>

text \<open>The call each method of \<^verbatim>\<open>SessionEvents\<close> makes.\<close>

fun notify :: "event \<Rightarrow> call" where
  "notify (StateChanged s) = S_Start (E_StateChanged (PyDeviceState_new s))"
| "notify (ConnectionStatus st m) = S_Start (E_ConnectionStatusChanged (transport_status_name st) m)"
| "notify (CommandStatus st m) = S_Start (E_CommandStatusChanged (transport_status_name st) m)"
| "notify JobFinished = S_Start E_JobFinished"
| "notify (ProbeStatus m) = S_Start (E_ProbeStatusChanged m)"
| "notify (WcsUpdated offs) = S_Start (E_WcsUpdated offs)"
| "notify (ConfigChanged k v) = S_Start (E_ConfigChanged k v)"
| "notify (CommandDone i) = P_Start i"
| "notify (RawRx l) = S_Start (E_RawRx l)"
| "notify (RawTx l) = S_Start (E_RawTx l)"

text \<open>No information is lost on the way: the notification can be read back from the call.\<close>

lemma notify_inj: "notify a = notify b \<Longrightarrow> a = b"
  by (cases a; cases b) (auto simp: PyDeviceState_new_def dest: transport_status_name_inj)

subsection \<open>Delivery on the loop thread\<close>

text \<open>
  What became of a queued event: its callback was called (whatever the callback raised, which is
  only logged), its Python object could not be made, or there was no callback to call.
\<close>

datatype delivery = Called py_obj | Failed | Skipped

fun deliver :: "bool \<Rightarrow> EventDrainer \<Rightarrow> QueuedEvent \<Rightarrow> delivery" where
  "deliver ok d (Q_Session ev) =
     (case d_events d of None \<Rightarrow> Skipped | Some cb \<Rightarrow> if ok then Called cb else Failed)"
| "deliver ok d (Q_Progress i) =
     (case d_progress d of None \<Rightarrow> Skipped | Some cb \<Rightarrow> Called cb)"

record py_loop =
  lp_ready :: "EventDrainer list"
  lp_draining :: "(EventDrainer \<times> QueuedEvent list) option"
  lp_closed :: bool

definition fresh_loop :: py_loop where
  "fresh_loop = \<lparr>lp_ready = [], lp_draining = None, lp_closed = False\<rparr>"

text \<open>
  A session's sink, the threads that report to it, the event loops, and the history: what was
  handled, with its outcome, which thread queued what, and which thread reported what while the
  session had an event callback.
\<close>

record py_world =
  w_sink :: PyEvents
  w_calls :: "nat \<Rightarrow> call option"
  w_loops :: "py_obj \<Rightarrow> py_loop"
  w_handled :: "(QueuedEvent \<times> delivery) list"
  w_pushed :: "(nat \<times> QueuedEvent) list"
  w_reported :: "(nat \<times> SessionEvent) list"

definition py_world_init :: "py_obj option \<Rightarrow> py_world" where
  "py_world_init cb =
     \<lparr>w_sink = PyEvents_new cb, w_calls = (\<lambda>t. None), w_loops = (\<lambda>l. fresh_loop),
      w_handled = [], w_pushed = [], w_reported = []\<rparr>"

datatype py_label =
    L_Notify nat event
  | L_Advance nat bool
  | L_SetProgress "py_obj option"
  | L_Capture py_obj
  | L_Run py_obj nat
  | L_Deliver py_obj bool
  | L_Drained py_obj
  | L_Close py_obj

definition upd_loop :: "py_obj \<Rightarrow> (py_loop \<Rightarrow> py_loop) \<Rightarrow> py_world \<Rightarrow> py_world" where
  "upd_loop l f w = w\<lparr>w_loops := (w_loops w)(l := f (w_loops w l))\<rparr>"

text \<open>One thread calls a method of the sink; it makes one call at a time.\<close>

definition exec_notify :: "nat \<Rightarrow> event \<Rightarrow> py_world \<Rightarrow> py_world option" where
  "exec_notify t ev w =
     (if w_calls w t = None then Some (w\<lparr>w_calls := (w_calls w)(t := Some (notify ev))\<rparr>)
      else None)"

text \<open>One thread goes on by one section.\<close>

definition record_report :: "nat \<Rightarrow> call \<Rightarrow> py_world \<Rightarrow> py_world" where
  "record_report t c w =
     (case c of
        S_Start ev \<Rightarrow>
          (if ev_callback (w_sink w) = None then w else w\<lparr>w_reported := w_reported w @ [(t, ev)]\<rparr>)
      | _ \<Rightarrow> w)"

definition record_push :: "nat \<Rightarrow> call \<Rightarrow> py_world \<Rightarrow> py_world" where
  "record_push t c w =
     (case call_push c of None \<Rightarrow> w | Some ev \<Rightarrow> w\<lparr>w_pushed := w_pushed w @ [(t, ev)]\<rparr>)"

definition hand_over :: "bool \<Rightarrow> call \<Rightarrow> py_world \<Rightarrow> py_world" where
  "hand_over ok c w =
     (case call_handle c of
        Some (l, d) \<Rightarrow>
          if ok then upd_loop l (\<lambda>lp. lp\<lparr>lp_ready := lp_ready lp @ [d]\<rparr>) w else w
      | None \<Rightarrow> w)"

definition may_answer :: "bool \<Rightarrow> call \<Rightarrow> py_world \<Rightarrow> bool" where
  "may_answer ok c w =
     (case call_handle c of Some (l, d) \<Rightarrow> \<not> ok \<or> \<not> lp_closed (w_loops w l) | None \<Rightarrow> True)"

definition exec_advance :: "nat \<Rightarrow> bool \<Rightarrow> py_world \<Rightarrow> py_world option" where
  "exec_advance t ok w =
     (case w_calls w t of
        None \<Rightarrow> None
      | Some c \<Rightarrow>
          if may_answer ok c w
          then let (c', p) = advance ok c (w_sink w);
                   w1 = hand_over ok c (record_push t c (record_report t c w))
               in Some (w1\<lparr>w_sink := p, w_calls := (w_calls w1)(t := c')\<rparr>)
          else None)"

text \<open>
  A loop runs one of its handles: the drainer takes the queue. Then it calls back for each event
  in turn.
\<close>

definition exec_run :: "py_obj \<Rightarrow> nat \<Rightarrow> py_world \<Rightarrow> py_world option" where
  "exec_run l k w =
     (let lp = w_loops w l
      in if lp_closed lp \<or> lp_draining lp \<noteq> None \<or> length (lp_ready lp) \<le> k then None
         else let (batch, q) = EventQueue_take (ev_queue (w_sink w))
              in Some (upd_loop l
                   (\<lambda>lp. lp\<lparr>lp_ready := take k (lp_ready lp) @ drop (Suc k) (lp_ready lp),
                           lp_draining := Some (lp_ready lp ! k, batch)\<rparr>)
                   (w\<lparr>w_sink := (w_sink w)\<lparr>ev_queue := q\<rparr>\<rparr>)))"

definition exec_deliver :: "py_obj \<Rightarrow> bool \<Rightarrow> py_world \<Rightarrow> py_world option" where
  "exec_deliver l ok w =
     (case lp_draining (w_loops w l) of
        Some (d, ev # evs) \<Rightarrow>
          Some (upd_loop l (\<lambda>lp. lp\<lparr>lp_draining := Some (d, evs)\<rparr>)
            (w\<lparr>w_handled := w_handled w @ [(ev, deliver ok d ev)]\<rparr>))
      | _ \<Rightarrow> None)"

definition exec_drained :: "py_obj \<Rightarrow> py_world \<Rightarrow> py_world option" where
  "exec_drained l w =
     (case lp_draining (w_loops w l) of
        Some (d, []) \<Rightarrow> Some (upd_loop l (\<lambda>lp. lp\<lparr>lp_draining := None\<rparr>) w)
      | _ \<Rightarrow> None)"

definition exec_close :: "py_obj \<Rightarrow> py_world \<Rightarrow> py_world option" where
  "exec_close l w =
     (if lp_draining (w_loops w l) = None
      then Some (upd_loop l (\<lambda>lp. lp\<lparr>lp_ready := [], lp_closed := True\<rparr>) w) else None)"

fun exec :: "py_label \<Rightarrow> py_world \<Rightarrow> py_world option" where
  "exec (L_Notify t ev) w = exec_notify t ev w"
| "exec (L_Advance t ok) w = exec_advance t ok w"
| "exec (L_SetProgress cb) w = Some (w\<lparr>w_sink := set_progress_callback cb (w_sink w)\<rparr>)"
| "exec (L_Capture l) w =
     (if lp_closed (w_loops w l) then None
      else Some (w\<lparr>w_sink := snd (capture_loop (Inr l :: (unit, py_obj) result) (w_sink w))\<rparr>))"
| "exec (L_Run l k) w = exec_run l k w"
| "exec (L_Deliver l ok) w = exec_deliver l ok w"
| "exec (L_Drained l) w = exec_drained l w"
| "exec (L_Close l) w = exec_close l w"

fun exec_all :: "py_label list \<Rightarrow> py_world \<Rightarrow> py_world option" where
  "exec_all [] w = Some w"
| "exec_all (a # as) w = Option.bind (exec a w) (exec_all as)"

text \<open>The worlds that can follow a world.\<close>

inductive py_run :: "py_world \<Rightarrow> py_label list \<Rightarrow> py_world \<Rightarrow> bool" for w0 where
  py_run_start: "py_run w0 [] w0"
| py_run_step: "py_run w0 as w \<Longrightarrow> exec a w = Some w' \<Longrightarrow> py_run w0 (as @ [a]) w'"

lemma exec_all_append: "exec_all (as @ bs) w = Option.bind (exec_all as w) (exec_all bs)"
  by (induction as arbitrary: w) (simp_all split: Option.bind_split)

lemma py_run_exec_all: "py_run w0 as w \<longleftrightarrow> exec_all as w0 = Some w"
proof
  assume "py_run w0 as w"
  thus "exec_all as w0 = Some w"
    by induction (simp_all add: exec_all_append)
next
  assume "exec_all as w0 = Some w"
  thus "py_run w0 as w"
  proof (induction as arbitrary: w rule: rev_induct)
    case Nil
    thus ?case by (simp add: py_run_start)
  next
    case (snoc a as)
    then obtain w1 where "exec_all as w0 = Some w1" "exec a w1 = Some w"
      by (auto simp: exec_all_append split: bind_splits)
    with snoc.IH show ?case by (blast intro: py_run_step)
  qed
qed

end
