(* ===== verification/Py_Config.thy ===== *)
theory Py_Config
  imports Py_Events Grbl_Session Simple Smoothie Marlin "HOL-Library.Word"
begin

text \<open>
  How a session is built from Python arguments: \<^verbatim>\<open>src/python/grbl/session.rs\<close> and the
  configuration functions of the other three session wrappers. PyO3 is a parameter: reading a
  dictionary and extracting a Rust value from a Python object are functions of the record
  \<open>pyo3\<close> over a type of dictionaries and a type of Python values. An extracted
  \<^verbatim>\<open>i64\<close> is a word of 64 bits, and \<^verbatim>\<open>as u16\<close> and \<^verbatim>\<open>as u32\<close>
  keep its low bits.
\<close>

subsection \<open>Errors\<close>

datatype PyErr =
    PyConnectionError string
  | PyTimeoutError string
  | PyRuntimeError string
  | PyRaised py_obj

text \<open>\<^verbatim>\<open>impl From<SessionError> for PyErr\<close>.\<close>

fun pyerr_of :: "SessionError \<Rightarrow> PyErr" where
  "pyerr_of (Err_Connection msg) = PyConnectionError msg"
| "pyerr_of Err_Timeout = PyTimeoutError (session_error_msg Err_Timeout)"
| "pyerr_of (Err_Device msg) = PyRuntimeError msg"
| "pyerr_of (Err_BufferStall msg) = PyConnectionError (''buffer stall: '' @ msg)"
| "pyerr_of (Err_Other msg) = PyRuntimeError msg"

text \<open>The \<^verbatim>\<open>?\<close> operator.\<close>

definition tryR :: "('e, 'a) result \<Rightarrow> ('a \<Rightarrow> ('e, 'b) result) \<Rightarrow> ('e, 'b) result" where
  "tryR m k = (case m of Inl e \<Rightarrow> Inl e | Inr a \<Rightarrow> k a)"

lemma tryR_simps [simp]: "tryR (Inl e) k = Inl e" "tryR (Inr a) k = k a"
  by (simp_all add: tryR_def)

lemma tryR_Inr: "tryR m k = Inr b \<longleftrightarrow> (\<exists>a. m = Inr a \<and> k a = Inr b)"
  by (cases m) simp_all

subsection \<open>Reading a dictionary\<close>

record ('d, 'v) pyo3 =
  get_item :: "'d \<Rightarrow> string \<Rightarrow> (PyErr, 'v option) result"
  dict_items :: "'d \<Rightarrow> ('v \<times> 'v) list"
  extract_bool :: "'v \<Rightarrow> (PyErr, bool) result"
  extract_f64 :: "'v \<Rightarrow> (PyErr, f64) result"
  extract_i64 :: "'v \<Rightarrow> (PyErr, 64 word) result"
  extract_string :: "'v \<Rightarrow> (PyErr, string) result"
  extract_strings :: "'v \<Rightarrow> (PyErr, string list) result"

definition get_bool :: "('d, 'v) pyo3 \<Rightarrow> 'd \<Rightarrow> string \<Rightarrow> (PyErr, bool option) result" where
  "get_bool P d key =
     tryR (get_item P d key) (\<lambda>v. case v of
       Some v \<Rightarrow> tryR (extract_bool P v) (\<lambda>b. Inr (Some b))
     | None \<Rightarrow> Inr None)"

definition get_f64 :: "('d, 'v) pyo3 \<Rightarrow> 'd \<Rightarrow> string \<Rightarrow> (PyErr, f64 option) result" where
  "get_f64 P d key =
     tryR (get_item P d key) (\<lambda>v. case v of
       Some v \<Rightarrow>
         (case extract_bool P v of
            Inr b \<Rightarrow> Inr (Some (if b then f64_of_int 1 else f64_zero))
          | Inl _ \<Rightarrow> tryR (extract_f64 P v) (\<lambda>x. Inr (Some x)))
     | None \<Rightarrow> Inr None)"

definition get_i64 :: "('d, 'v) pyo3 \<Rightarrow> 'd \<Rightarrow> string \<Rightarrow> (PyErr, 64 word option) result" where
  "get_i64 P d key =
     tryR (get_item P d key) (\<lambda>v. case v of
       Some v \<Rightarrow> tryR (extract_i64 P v) (\<lambda>i. Inr (Some i))
     | None \<Rightarrow> Inr None)"

definition get_str :: "('d, 'v) pyo3 \<Rightarrow> 'd \<Rightarrow> string \<Rightarrow> (PyErr, string option) result" where
  "get_str P d key =
     tryR (get_item P d key) (\<lambda>v. case v of
       Some v \<Rightarrow> tryR (extract_string P v) (\<lambda>s. Inr (Some s))
     | None \<Rightarrow> Inr None)"

text \<open>One \<^verbatim>\<open>if let Some(v) = get(dict, key)? { config.field = v; }\<close>.\<close>

definition assign :: "(PyErr, 'a option) result \<Rightarrow> ('a \<Rightarrow> 'c \<Rightarrow> 'c) \<Rightarrow> 'c \<Rightarrow> (PyErr, 'c) result" where
  "assign got set_field config =
     tryR got (\<lambda>v. Inr (case v of Some v \<Rightarrow> set_field v config | None \<Rightarrow> config))"

text \<open>\<^verbatim>\<open>v.max(0) as u32\<close>.\<close>

definition limit_u32 :: "64 word \<Rightarrow> nat" where
  "limit_u32 v = unat (ucast (if sint v < 0 then 0 else v) :: 32 word)"

definition as_u16 :: "64 word \<Rightarrow> int" where
  "as_u16 v = uint (ucast v :: 16 word)"

definition as_u32 :: "64 word \<Rightarrow> int" where
  "as_u32 v = uint (ucast v :: 32 word)"

subsection \<open>The four configurations\<close>

definition build_config ::
  "('d, 'v) pyo3 \<Rightarrow> TransportKind \<Rightarrow> 'd option \<Rightarrow> (PyErr, SessionConfig) result" where
  "build_config P kind dict =
     (case dict of
        None \<Rightarrow> Inr (SessionConfig_new kind)
      | Some d \<Rightarrow>
        tryR (assign (get_bool P d ''poll_status_while_running'')
               (\<lambda>v c. c\<lparr>cfg_poll_status_while_running := v\<rparr>) (SessionConfig_new kind)) (\<lambda>c.
        tryR (assign (get_bool P d ''deadlock_detection'')
               (\<lambda>v c. c\<lparr>cfg_deadlock_detection := v\<rparr>) c) (\<lambda>c.
        tryR (assign (get_i64 P d ''rx_buffer_size_override'')
               (\<lambda>v c. c\<lparr>cfg_rx_buffer_size_override := sint v\<rparr>) c) (\<lambda>c.
        tryR (assign (get_i64 P d ''cached_rx_buffer_size'')
               (\<lambda>v c. c\<lparr>cfg_cached_rx_buffer_size := if 0 < sint v then Some (sint v) else None\<rparr>) c) (\<lambda>c.
        tryR (assign (get_f64 P d ''stall_timeout_min'')
               (\<lambda>v c. c\<lparr>cfg_stall_timeout_min := v\<rparr>) c) (\<lambda>c.
        tryR (assign (get_f64 P d ''stall_timeout_max'')
               (\<lambda>v c. c\<lparr>cfg_stall_timeout_max := v\<rparr>) c) (\<lambda>c.
        tryR (assign (get_f64 P d ''stall_timeout_safety_factor'')
               (\<lambda>v c. c\<lparr>cfg_stall_timeout_safety_factor := v\<rparr>) c) (\<lambda>c.
        tryR (assign (get_f64 P d ''stall_timeout_default'')
               (\<lambda>v c. c\<lparr>cfg_stall_timeout_default := v\<rparr>) c) (\<lambda>c.
        tryR (assign (get_f64 P d ''safety_shutdown_delay'')
               (\<lambda>v c. c\<lparr>cfg_safety_shutdown_delay := v\<rparr>) c) (\<lambda>c.
        tryR (assign (get_i64 P d ''unanswered_poll_limit'')
               (\<lambda>v c. c\<lparr>cfg_unanswered_poll_limit := limit_u32 v\<rparr>) c) (\<lambda>c.
        tryR (assign (get_i64 P d ''poll_response_attempts'')
               (\<lambda>v c. c\<lparr>cfg_poll_response_attempts := limit_u32 v\<rparr>) c) (\<lambda>c.
        tryR (assign (get_f64 P d ''poll_response_interval'')
               (\<lambda>v c. c\<lparr>cfg_poll_response_interval := v\<rparr>) c) (\<lambda>c.
        tryR (assign (get_f64 P d ''handshake_timeout'')
               (\<lambda>v c. c\<lparr>cfg_handshake_timeout := v\<rparr>) c) (\<lambda>c.
        tryR (assign (get_f64 P d ''handshake_poll_interval'')
               (\<lambda>v c. c\<lparr>cfg_handshake_poll_interval := v\<rparr>) c) (\<lambda>c.
        tryR (assign (get_f64 P d ''status_poll_interval'')
               (\<lambda>v c. c\<lparr>cfg_status_poll_interval := v\<rparr>) c) (\<lambda>c.
        tryR (assign (get_f64 P d ''reconnect_delay'')
               (\<lambda>v c. c\<lparr>cfg_reconnect_delay := v\<rparr>) c) (\<lambda>c.
        assign (get_f64 P d ''command_timeout'')
               (\<lambda>v c. c\<lparr>cfg_command_timeout := v\<rparr>) c)))))))))))))))))"

definition build_simple_config ::
  "('d, 'v) pyo3 \<Rightarrow> TransportKind \<Rightarrow> 'd option \<Rightarrow> (PyErr, SimpleConfig) result" where
  "build_simple_config P kind dict =
     (case dict of
        None \<Rightarrow> Inr (SimpleConfig_new kind)
      | Some d \<Rightarrow>
        tryR (assign (get_bool P d ''poll_status_while_running'')
               (\<lambda>v c. c\<lparr>sc_poll_status_while_running := v\<rparr>) (SimpleConfig_new kind)) (\<lambda>c.
        tryR (assign (get_f64 P d ''command_timeout'') (\<lambda>v c. c\<lparr>sc_command_timeout := v\<rparr>) c) (\<lambda>c.
        tryR (assign (get_f64 P d ''handshake_timeout'') (\<lambda>v c. c\<lparr>sc_handshake_timeout := v\<rparr>) c) (\<lambda>c.
        tryR (assign (get_f64 P d ''handshake_poll_interval'')
               (\<lambda>v c. c\<lparr>sc_handshake_poll_interval := v\<rparr>) c) (\<lambda>c.
        tryR (assign (get_f64 P d ''status_poll_interval'')
               (\<lambda>v c. c\<lparr>sc_status_poll_interval := v\<rparr>) c) (\<lambda>c.
        tryR (assign (get_f64 P d ''reconnect_delay'') (\<lambda>v c. c\<lparr>sc_reconnect_delay := v\<rparr>) c) (\<lambda>c.
        assign (get_f64 P d ''safety_shutdown_delay'')
               (\<lambda>v c. c\<lparr>sc_safety_shutdown_delay := v\<rparr>) c)))))))"

definition build_smoothie_config ::
  "('d, 'v) pyo3 \<Rightarrow> TransportKind \<Rightarrow> 'd option \<Rightarrow> (PyErr, SmoothieConfig) result" where
  "build_smoothie_config P kind dict =
     (case dict of
        None \<Rightarrow> Inr (SmoothieConfig_new kind)
      | Some d \<Rightarrow>
        tryR (assign (get_bool P d ''poll_status_while_running'')
               (\<lambda>v c. c\<lparr>soc_poll_status_while_running := v\<rparr>) (SmoothieConfig_new kind)) (\<lambda>c.
        tryR (assign (get_f64 P d ''command_timeout'') (\<lambda>v c. c\<lparr>soc_command_timeout := v\<rparr>) c) (\<lambda>c.
        tryR (assign (get_f64 P d ''handshake_timeout'') (\<lambda>v c. c\<lparr>soc_handshake_timeout := v\<rparr>) c) (\<lambda>c.
        tryR (assign (get_f64 P d ''handshake_poll_interval'')
               (\<lambda>v c. c\<lparr>soc_handshake_poll_interval := v\<rparr>) c) (\<lambda>c.
        tryR (assign (get_f64 P d ''status_poll_interval'')
               (\<lambda>v c. c\<lparr>soc_status_poll_interval := v\<rparr>) c) (\<lambda>c.
        tryR (assign (get_f64 P d ''reconnect_delay'') (\<lambda>v c. c\<lparr>soc_reconnect_delay := v\<rparr>) c) (\<lambda>c.
        assign (get_f64 P d ''safety_shutdown_delay'')
               (\<lambda>v c. c\<lparr>soc_safety_shutdown_delay := v\<rparr>) c)))))))"

definition build_marlin_config ::
  "('d, 'v) pyo3 \<Rightarrow> TransportKind \<Rightarrow> 'd option \<Rightarrow> (PyErr, MarlinConfig) result" where
  "build_marlin_config P kind dict =
     (case dict of
        None \<Rightarrow> Inr (MarlinConfig_new kind)
      | Some d \<Rightarrow>
        tryR (assign (get_bool P d ''poll_status_while_running'')
               (\<lambda>v c. c\<lparr>mac_poll_status_while_running := v\<rparr>) (MarlinConfig_new kind)) (\<lambda>c.
        tryR (assign (get_f64 P d ''command_timeout'') (\<lambda>v c. c\<lparr>mac_command_timeout := v\<rparr>) c) (\<lambda>c.
        tryR (assign (get_f64 P d ''handshake_timeout'') (\<lambda>v c. c\<lparr>mac_handshake_timeout := v\<rparr>) c) (\<lambda>c.
        tryR (assign (get_f64 P d ''handshake_poll_interval'')
               (\<lambda>v c. c\<lparr>mac_handshake_poll_interval := v\<rparr>) c) (\<lambda>c.
        tryR (assign (get_f64 P d ''status_poll_interval'')
               (\<lambda>v c. c\<lparr>mac_status_poll_interval := v\<rparr>) c) (\<lambda>c.
        tryR (assign (get_f64 P d ''reconnect_delay'') (\<lambda>v c. c\<lparr>mac_reconnect_delay := v\<rparr>) c) (\<lambda>c.
        assign (get_f64 P d ''connect_settle'') (\<lambda>v c. c\<lparr>mac_connect_settle := v\<rparr>) c)))))))"

subsection \<open>Transport and dialect\<close>

definition config_required :: string where
  "config_required = ''config with a 'port' (serial) or 'host' (telnet) is required''"

definition transport_kind_from_config ::
  "('d, 'v) pyo3 \<Rightarrow> 'd option \<Rightarrow> (PyErr, TransportKind) result" where
  "transport_kind_from_config P dict =
     (case dict of
        None \<Rightarrow> Inl (PyRuntimeError config_required)
      | Some d \<Rightarrow>
        tryR (get_str P d ''host'') (\<lambda>host. case host of
          Some host \<Rightarrow>
            tryR (get_i64 P d ''tcp_port'') (\<lambda>port.
              Inr (Telnet host (as_u16 (case port of Some v \<Rightarrow> v | None \<Rightarrow> 23))))
        | None \<Rightarrow>
            tryR (get_str P d ''port'') (\<lambda>port.
            tryR (get_i64 P d ''baudrate'') (\<lambda>baud.
              Inr (Serial (case port of Some p \<Rightarrow> p | None \<Rightarrow> [])
                     (as_u32 (case baud of Some v \<Rightarrow> v | None \<Rightarrow> 115200)))))))"

text \<open>
  The loop over the items: a key that is not a string is an error, the safety commands must be a
  list of strings, and any other value that is not a string is passed over.
\<close>

fun dialect_items ::
  "('d, 'v) pyo3 \<Rightarrow> ('v \<times> 'v) list \<Rightarrow> (string \<rightharpoonup> string) \<Rightarrow> string list option \<Rightarrow>
   (PyErr, (string \<rightharpoonup> string) \<times> string list option) result" where
  "dialect_items P [] m safety = Inr (m, safety)"
| "dialect_items P ((key, v) # kvs) m safety =
     tryR (extract_string P key) (\<lambda>key.
       if key = ''safety_off_commands''
       then tryR (extract_strings P v) (\<lambda>cmds. dialect_items P kvs m (Some cmds))
       else case extract_string P v of
              Inr s \<Rightarrow> dialect_items P kvs (m(key \<mapsto> s)) safety
            | Inl _ \<Rightarrow> dialect_items P kvs m safety)"

definition parse_dialect :: "('d, 'v) pyo3 \<Rightarrow> 'd option \<Rightarrow> (PyErr, Dialect) result" where
  "parse_dialect P dict =
     tryR (case dict of
             None \<Rightarrow> Inr (Map.empty, None)
           | Some d \<Rightarrow> dialect_items P (dict_items P d) Map.empty None)
       (\<lambda>(m, safety).
          let dialect = from_map m
          in Inr (case safety of Some cmds \<Rightarrow> dialect\<lparr>safety_off_commands := cmds\<rparr> | None \<Rightarrow> dialect))"

end
