(* ===== verification/Py_Sessions.thy ===== *)
theory Py_Sessions
  imports Py_Config Grbl_Job Grbl_Ops
begin

text \<open>
  The four session classes Python sees, \<^verbatim>\<open>src/python/*/session.rs\<close> and
  \<^verbatim>\<open>src/python/grbl/simple.rs\<close>, and the bridge from the runtime to asyncio,
  \<^verbatim>\<open>src/python/pyfuture.rs\<close> and \<^verbatim>\<open>src/python/runtime.rs\<close>. A session
  object is a core and an event sink. An asynchronous method is the body of the task it spawns, a
  function of the session and of what its environment does; \<open>spawn_future\<close> turns it into the
  asyncio future the caller holds. Arguments with a default value in the Python signature are
  optional. What a session shows under \<^verbatim>\<open>repr\<close> quotes its address with the standard
  library's escapes and is left out.
\<close>

subsection \<open>The runtime\<close>

text \<open>
  The process-wide runtime: whether the lazily built handle exists, whether the runtime behind it
  is still owned (and so alive), and the flag the watchdog reads.
\<close>

record Runtime =
  rt_handle :: bool
  rt_runtime :: bool
  rt_shutdown :: bool

definition Runtime_initial :: Runtime where
  "Runtime_initial = \<lparr>rt_handle = False, rt_runtime = False, rt_shutdown = False\<rparr>"

definition runtime_handle :: "Runtime \<Rightarrow> Runtime" where
  "runtime_handle r = (if rt_handle r then r else r\<lparr>rt_handle := True, rt_runtime := True\<rparr>)"

definition runtime_shutdown :: "Runtime \<Rightarrow> Runtime" where
  "runtime_shutdown r = r\<lparr>rt_shutdown := True, rt_runtime := False\<rparr>"

lemma runtime_shutdown_idem [simp]: "runtime_shutdown (runtime_shutdown r) = runtime_shutdown r"
  by (simp add: runtime_shutdown_def)

lemma runtime_not_revived:
  "rt_handle r \<Longrightarrow> \<not> rt_runtime (runtime_handle (runtime_shutdown r))"
  by (simp add: runtime_handle_def runtime_shutdown_def)

subsection \<open>Futures\<close>

datatype 'a PyFuture = F_Pending | F_Result 'a | F_Exception PyErr

text \<open>
  The end of the spawned task: the loop is asked to set the result or the exception; when it
  refuses, the error is printed and the future stays as it is. A task that never ends, or that
  panics, does not get here.
\<close>

definition complete_future :: "bool \<Rightarrow> (PyErr, 'a) result \<Rightarrow> 'a PyFuture" where
  "complete_future accepted outcome =
     (if accepted then (case outcome of Inr v \<Rightarrow> F_Result v | Inl e \<Rightarrow> F_Exception e) else F_Pending)"

definition future_after :: "bool \<Rightarrow> ((PyErr, 'a) result, 'w) outcome \<Rightarrow> 'a PyFuture" where
  "future_after accepted m =
     (case m of
        Ret r w es \<Rightarrow> complete_future accepted r
      | Blocked w \<Rightarrow> F_Pending
      | Panicked w es \<Rightarrow> F_Pending)"

text \<open>
  \<open>running\<close> and \<open>created\<close> are the answers of \<^verbatim>\<open>get_running_loop()\<close> and
  \<^verbatim>\<open>create_future()\<close>; without them nothing is spawned.
\<close>

definition spawn_future ::
  "(PyErr, py_obj) result \<Rightarrow> (PyErr, unit) result \<Rightarrow> bool \<Rightarrow>
   ('w \<Rightarrow> env_event list \<Rightarrow> ((PyErr, 'a) result, 'w) outcome) \<Rightarrow> 'w \<Rightarrow> env_event list \<Rightarrow>
   (PyErr, 'a PyFuture \<times> 'w) result" where
  "spawn_future running created accepted body w es =
     tryR running (\<lambda>_. tryR created (\<lambda>_.
       Inr (future_after accepted (body w es), world_of (body w es))))"

subsection \<open>Sessions\<close>

record 'c PySession =
  py_core :: 'c
  py_sink :: PyEvents

definition on_core ::
  "('c \<Rightarrow> env_event list \<Rightarrow> ('a, 'c) outcome) \<Rightarrow> 'c PySession \<Rightarrow> env_event list \<Rightarrow>
   ('a, 'c PySession) outcome" where
  "on_core f s es =
     (case f (py_core s) es of
        Ret a c es' \<Rightarrow> Ret a (s\<lparr>py_core := c\<rparr>) es'
      | Blocked c \<Rightarrow> Blocked (s\<lparr>py_core := c\<rparr>)
      | Panicked c es' \<Rightarrow> Panicked (s\<lparr>py_core := c\<rparr>) es')"

definition map_value :: "('a \<Rightarrow> 'b) \<Rightarrow> (('e, 'a) result, 'w) outcome \<Rightarrow> (('e, 'b) result, 'w) outcome" where
  "map_value g m =
     bindA m (\<lambda>r w es. Ret (case r of Inl e \<Rightarrow> Inl e | Inr a \<Rightarrow> Inr (g a)) w es)"

text \<open>\<^verbatim>\<open>core.f().await; Ok(None)\<close>.\<close>

definition awaiting ::
  "('c \<Rightarrow> env_event list \<Rightarrow> (unit, 'c) outcome) \<Rightarrow> 'c PySession \<Rightarrow> env_event list \<Rightarrow>
   ((PyErr, unit) result, 'c PySession) outcome" where
  "awaiting f s es = bindA (on_core f s es) (\<lambda>_ s es. Ret (Inr ()) s es)"

text \<open>\<^verbatim>\<open>Ok(core.f().await?)\<close>: an error of the core becomes a Python exception.\<close>

definition awaiting_result ::
  "('c \<Rightarrow> env_event list \<Rightarrow> ((SessionError, 'a) result, 'c) outcome) \<Rightarrow> 'c PySession \<Rightarrow>
   env_event list \<Rightarrow> ((PyErr, 'a) result, 'c PySession) outcome" where
  "awaiting_result f s es =
     bindA (on_core f s es) (\<lambda>r s es. Ret (case r of Inl e \<Rightarrow> Inl (pyerr_of e) | Inr a \<Rightarrow> Inr a) s es)"

text \<open>Operations of a core that never suspend.\<close>

definition at_once :: "('c \<Rightarrow> 'c) \<Rightarrow> 'c \<Rightarrow> env_event list \<Rightarrow> (unit, 'c) outcome" where
  "at_once f c es = Ret () (f c) es"

definition at_once_result :: "('c \<Rightarrow> 'r \<times> 'c) \<Rightarrow> 'c \<Rightarrow> env_event list \<Rightarrow> ('r, 'c) outcome" where
  "at_once_result f c es = (case f c of (r, c) \<Rightarrow> Ret r c es)"

definition install_progress :: "py_obj option \<Rightarrow> 'c PySession \<Rightarrow> 'c PySession" where
  "install_progress cb s = s\<lparr>py_sink := set_progress_callback cb (py_sink s)\<rparr>"

text \<open>\<^verbatim>\<open>connect\<close> captures the running loop before it spawns the task.\<close>

definition connect_session ::
  "('c \<Rightarrow> 'c) \<Rightarrow> (PyErr, py_obj) result \<Rightarrow> (PyErr, unit) result \<Rightarrow> bool \<Rightarrow> 'c PySession \<Rightarrow>
   env_event list \<Rightarrow> (PyErr, unit PyFuture \<times> 'c PySession) result" where
  "connect_session f running created accepted s es =
     (let (captured, p) = capture_loop running (py_sink s)
      in tryR captured (\<lambda>_.
           spawn_future running created accepted (awaiting (at_once f)) (s\<lparr>py_sink := p\<rparr>) es))"

fun unit_name :: "UnitSystem \<Rightarrow> string" where
  "unit_name Metric = ''metric''"
| "unit_name Imperial = ''imperial''"

subsection \<open>The character-counting GRBL session\<close>

definition pyg_build ::
  "('d, 'v) pyo3 \<Rightarrow> SessionConfig \<Rightarrow> 'd option \<Rightarrow> py_obj option \<Rightarrow> (PyErr, GrblCore PySession) result" where
  "pyg_build P config dialect cb =
     tryR (parse_dialect P dialect) (\<lambda>d.
       Inr \<lparr>py_core = GrblCore_new config d, py_sink = PyEvents_new cb\<rparr>)"

definition pyg_new ::
  "('d, 'v) pyo3 \<Rightarrow> 'd option \<Rightarrow> 'd option \<Rightarrow> py_obj option \<Rightarrow> (PyErr, GrblCore PySession) result" where
  "pyg_new P config dialect cb =
     tryR (transport_kind_from_config P config) (\<lambda>kind.
     tryR (build_config P kind config) (\<lambda>cfg.
       pyg_build P cfg dialect cb))"

definition pyg_with_transport ::
  "('d, 'v) pyo3 \<Rightarrow> MockInner \<Rightarrow> 'd option \<Rightarrow> 'd option \<Rightarrow> py_obj option \<Rightarrow> (PyErr, GrblCore PySession) result" where
  "pyg_with_transport P inner config dialect cb =
     tryR (build_config P (Mock inner) config) (\<lambda>cfg.
       pyg_build P cfg dialect cb)"

definition pyg_connect ::
  "(PyErr, py_obj) result \<Rightarrow> (PyErr, unit) result \<Rightarrow> bool \<Rightarrow> GrblCore PySession \<Rightarrow> env_event list \<Rightarrow> 
   (PyErr, unit PyFuture \<times> GrblCore PySession) result" where
  "pyg_connect = connect_session connect"

definition pyg_disconnect ::
  "GrblCore PySession \<Rightarrow> env_event list \<Rightarrow> ((PyErr, unit) result, GrblCore PySession) outcome" where
  "pyg_disconnect = awaiting (at_once cleanup)"

definition pyg_execute_interactive_command ::
  "regex_crate \<Rightarrow> string \<Rightarrow> GrblCore PySession \<Rightarrow> env_event list \<Rightarrow> ((PyErr, string list) result, GrblCore PySession) outcome" where
  "pyg_execute_interactive_command X cmd = awaiting_result (execute_interactive_command X cmd)"

definition pyg_execute_command ::
  "regex_crate \<Rightarrow> string \<Rightarrow> GrblCore PySession \<Rightarrow> env_event list \<Rightarrow> ((PyErr, string list) result, GrblCore PySession) outcome" where
  "pyg_execute_command X cmd = awaiting_result (execute_command X cmd)"

definition pyg_run ::
  "regex_crate \<Rightarrow> string \<Rightarrow> string \<Rightarrow> (nat \<rightharpoonup> int) option \<Rightarrow> f64 list option \<Rightarrow> py_obj option \<Rightarrow> 
   GrblCore PySession \<Rightarrow> env_event list \<Rightarrow> ((PyErr, unit) result, GrblCore PySession) outcome" where
  "pyg_run X join_msg gcode op_line_map op_estimates cb s es =
     (let op_map = (case op_line_map of Some m \<Rightarrow> m | None \<Rightarrow> Map.empty);
          estimates = (case op_estimates of Some l \<Rightarrow> l | None \<Rightarrow> [])
      in awaiting (run X join_msg gcode op_map estimates) (install_progress cb s) es)"

definition pyg_run_raw ::
  "regex_crate \<Rightarrow> string \<Rightarrow> string \<Rightarrow> GrblCore PySession \<Rightarrow> env_event list \<Rightarrow> ((PyErr, unit) result, GrblCore PySession) outcome" where
  "pyg_run_raw X join_msg machine_code = awaiting (run_raw X join_msg machine_code)"

definition pyg_set_hold ::
  "bool option \<Rightarrow> GrblCore PySession \<Rightarrow> env_event list \<Rightarrow> ((PyErr, unit) result, GrblCore PySession) outcome" where
  "pyg_set_hold hold =
     awaiting_result (at_once_result (set_hold (case hold of Some b \<Rightarrow> b | None \<Rightarrow> True)))"

definition pyg_cancel ::
  "regex_crate \<Rightarrow> bool option \<Rightarrow> GrblCore PySession \<Rightarrow> env_event list \<Rightarrow> ((PyErr, unit) result, GrblCore PySession) outcome" where
  "pyg_cancel X emergency =
     awaiting_result (cancel X False (case emergency of Some b \<Rightarrow> b | None \<Rightarrow> False))"

definition pyg_home ::
  "regex_crate \<Rightarrow> string list option \<Rightarrow> string option \<Rightarrow> GrblCore PySession \<Rightarrow> env_event list \<Rightarrow> ((PyErr, unit) result, GrblCore PySession) outcome" where
  "pyg_home X axes active_wcs =
     awaiting_result (home X axes (case active_wcs of Some s \<Rightarrow> s | None \<Rightarrow> ''G54''))"

definition pyg_move_to ::
  "regex_crate \<Rightarrow> f64 \<Rightarrow> f64 \<Rightarrow> f64 \<Rightarrow> GrblCore PySession \<Rightarrow> env_event list \<Rightarrow> ((PyErr, unit) result, GrblCore PySession) outcome" where
  "pyg_move_to X speed x y = awaiting_result (move_to X speed x y)"

definition pyg_jog ::
  "regex_crate \<Rightarrow> (string \<Rightarrow> string) \<Rightarrow> f64 \<Rightarrow> (string \<times> f64) list \<Rightarrow> GrblCore PySession \<Rightarrow> env_event list \<Rightarrow> ((PyErr, unit) result, GrblCore PySession) outcome" where
  "pyg_jog X uc speed deltas = awaiting_result (jog X uc speed deltas)"

definition pyg_select_tool ::
  "regex_crate \<Rightarrow> int \<Rightarrow> GrblCore PySession \<Rightarrow> env_event list \<Rightarrow> ((PyErr, unit) result, GrblCore PySession) outcome" where
  "pyg_select_tool X tool_number = awaiting_result (select_tool X tool_number)"

definition pyg_set_power ::
  "regex_crate \<Rightarrow> f64 option \<Rightarrow> GrblCore PySession \<Rightarrow> env_event list \<Rightarrow> ((PyErr, unit) result, GrblCore PySession) outcome" where
  "pyg_set_power X pow = awaiting_result (set_power X pow)"

definition pyg_set_focus_power ::
  "regex_crate \<Rightarrow> f64 option \<Rightarrow> GrblCore PySession \<Rightarrow> env_event list \<Rightarrow> ((PyErr, unit) result, GrblCore PySession) outcome" where
  "pyg_set_focus_power X pow = awaiting_result (set_focus_power X pow)"

definition pyg_read_settings ::
  "regex_crate \<Rightarrow> GrblCore PySession \<Rightarrow> env_event list \<Rightarrow> ((PyErr, (string \<times> string) list) result, GrblCore PySession) outcome" where
  "pyg_read_settings X = awaiting_result (read_settings X)"

definition pyg_write_setting ::
  "regex_crate \<Rightarrow> string \<Rightarrow> string \<Rightarrow> GrblCore PySession \<Rightarrow> env_event list \<Rightarrow> ((PyErr, unit) result, GrblCore PySession) outcome" where
  "pyg_write_setting X key val = awaiting_result (write_setting X key val)"

definition pyg_set_wcs_offset ::
  "regex_crate \<Rightarrow> string \<Rightarrow> f64 \<Rightarrow> f64 \<Rightarrow> f64 option \<Rightarrow> 
   GrblCore PySession \<Rightarrow> env_event list \<Rightarrow> ((PyErr, unit) result, GrblCore PySession) outcome" where
  "pyg_set_wcs_offset X wcs_slot x y z = awaiting_result (set_wcs_offset X wcs_slot x y z)"

definition pyg_read_wcs_offsets ::
  "regex_crate \<Rightarrow> GrblCore PySession \<Rightarrow> env_event list \<Rightarrow> ((PyErr, string \<rightharpoonup> f64 \<times> f64 \<times> f64) result, GrblCore PySession) outcome" where
  "pyg_read_wcs_offsets X = awaiting_result (read_wcs_offsets X)"

definition pyg_read_parser_state ::
  "regex_crate \<Rightarrow> GrblCore PySession \<Rightarrow> env_event list \<Rightarrow> ((PyErr, string option) result, GrblCore PySession) outcome" where
  "pyg_read_parser_state X = awaiting_result (read_parser_state X)"

definition pyg_run_probe_cycle ::
  "regex_crate \<Rightarrow> (string \<Rightarrow> string) \<Rightarrow> string \<Rightarrow> f64 \<Rightarrow> f64 \<Rightarrow> 
   GrblCore PySession \<Rightarrow> env_event list \<Rightarrow> ((PyErr, (f64 \<times> f64 \<times> f64) option) result, GrblCore PySession) outcome" where
  "pyg_run_probe_cycle X uc axis_letter max_travel feed =
     awaiting_result (run_probe_cycle X uc axis_letter max_travel feed)"

definition pyg_detect_unit_system ::
  "regex_crate \<Rightarrow> GrblCore PySession \<Rightarrow> env_event list \<Rightarrow> ((PyErr, string option) result, GrblCore PySession) outcome" where
  "pyg_detect_unit_system X s es =
     map_value (map_option unit_name) (awaiting_result (detect_unit_system X) s es)"

definition pyg_update_dialect ::
  "('d, 'v) pyo3 \<Rightarrow> 'd \<Rightarrow> GrblCore PySession \<Rightarrow> (PyErr, unit) result \<times> GrblCore PySession" where
  "pyg_update_dialect P dialect s =
     (case parse_dialect P (Some dialect) of
        Inl e \<Rightarrow> (Inl e, s)
      | Inr d \<Rightarrow> (Inr (), s\<lparr>py_core := update_dialect d (py_core s)\<rparr>))"

definition pyg_state ::
  "GrblCore PySession \<Rightarrow> PyDeviceState" where
  "pyg_state s = PyDeviceState_new (g_state (py_core s))"

definition pyg_buffer_count ::
  "GrblCore PySession \<Rightarrow> nat" where
  "pyg_buffer_count s = buffer_count (g_flow (py_core s))"

definition pyg_rx_buffer_size ::
  "GrblCore PySession \<Rightarrow> nat" where
  "pyg_rx_buffer_size s = rx_buffer_size (g_flow (py_core s))"

definition pyg_pending_commands ::
  "GrblCore PySession \<Rightarrow> string list" where
  "pyg_pending_commands s = pending_commands (py_core s)"

definition pyg_job_running ::
  "GrblCore PySession \<Rightarrow> bool" where
  "pyg_job_running s = is_job_running (py_core s)"

definition pyg_resource_uri ::
  "GrblCore PySession \<Rightarrow> string option" where
  "pyg_resource_uri s = resource_uri (g_transport (py_core s))"

subsection \<open>The simple GRBL session\<close>

definition pys_build ::
  "('d, 'v) pyo3 \<Rightarrow> SimpleConfig \<Rightarrow> 'd option \<Rightarrow> py_obj option \<Rightarrow> (PyErr, SimpleCore PySession) result" where
  "pys_build P config dialect cb =
     tryR (parse_dialect P dialect) (\<lambda>d.
       Inr \<lparr>py_core = SimpleCore_new config d, py_sink = PyEvents_new cb\<rparr>)"

definition pys_new ::
  "('d, 'v) pyo3 \<Rightarrow> 'd option \<Rightarrow> 'd option \<Rightarrow> py_obj option \<Rightarrow> (PyErr, SimpleCore PySession) result" where
  "pys_new P config dialect cb =
     tryR (transport_kind_from_config P config) (\<lambda>kind.
     tryR (build_simple_config P kind config) (\<lambda>cfg.
       pys_build P cfg dialect cb))"

definition pys_with_transport ::
  "('d, 'v) pyo3 \<Rightarrow> MockInner \<Rightarrow> 'd option \<Rightarrow> 'd option \<Rightarrow> py_obj option \<Rightarrow> (PyErr, SimpleCore PySession) result" where
  "pys_with_transport P inner config dialect cb =
     tryR (build_simple_config P (Mock inner) config) (\<lambda>cfg.
       pys_build P cfg dialect cb)"

definition pys_connect ::
  "(PyErr, py_obj) result \<Rightarrow> (PyErr, unit) result \<Rightarrow> bool \<Rightarrow> SimpleCore PySession \<Rightarrow> env_event list \<Rightarrow> 
   (PyErr, unit PyFuture \<times> SimpleCore PySession) result" where
  "pys_connect = connect_session simple_connect"

definition pys_disconnect ::
  "SimpleCore PySession \<Rightarrow> env_event list \<Rightarrow> ((PyErr, unit) result, SimpleCore PySession) outcome" where
  "pys_disconnect = awaiting (at_once simple_cleanup)"

definition pys_execute_interactive_command ::
  "regex_crate \<Rightarrow> string \<Rightarrow> SimpleCore PySession \<Rightarrow> env_event list \<Rightarrow> ((PyErr, string list) result, SimpleCore PySession) outcome" where
  "pys_execute_interactive_command X cmd = awaiting_result (simple_execute_interactive_command X cmd)"

definition pys_execute_command ::
  "regex_crate \<Rightarrow> string \<Rightarrow> SimpleCore PySession \<Rightarrow> env_event list \<Rightarrow> ((PyErr, string list) result, SimpleCore PySession) outcome" where
  "pys_execute_command X cmd = awaiting_result (simple_execute_command X cmd)"

definition pys_run ::
  "regex_crate \<Rightarrow> string \<Rightarrow> (nat \<rightharpoonup> int) option \<Rightarrow> py_obj option \<Rightarrow> SimpleCore PySession \<Rightarrow> env_event list \<Rightarrow> ((PyErr, unit) result, SimpleCore PySession) outcome" where
  "pys_run X gcode op_line_map cb s es =
     (let op_map = (case op_line_map of Some m \<Rightarrow> m | None \<Rightarrow> Map.empty)
      in awaiting (simple_run X gcode op_map) (install_progress cb s) es)"

definition pys_run_raw ::
  "regex_crate \<Rightarrow> string \<Rightarrow> SimpleCore PySession \<Rightarrow> env_event list \<Rightarrow> ((PyErr, unit) result, SimpleCore PySession) outcome" where
  "pys_run_raw X machine_code = awaiting (simple_run_raw X machine_code)"

definition pys_set_hold ::
  "bool option \<Rightarrow> SimpleCore PySession \<Rightarrow> env_event list \<Rightarrow> ((PyErr, unit) result, SimpleCore PySession) outcome" where
  "pys_set_hold hold =
     awaiting_result (at_once_result (simple_set_hold (case hold of Some b \<Rightarrow> b | None \<Rightarrow> True)))"

definition pys_cancel ::
  "regex_crate \<Rightarrow> bool option \<Rightarrow> SimpleCore PySession \<Rightarrow> env_event list \<Rightarrow> ((PyErr, unit) result, SimpleCore PySession) outcome" where
  "pys_cancel X emergency =
     awaiting_result (simple_cancel X (case emergency of Some b \<Rightarrow> b | None \<Rightarrow> False))"

definition pys_home ::
  "regex_crate \<Rightarrow> string list option \<Rightarrow> string option \<Rightarrow> SimpleCore PySession \<Rightarrow> env_event list \<Rightarrow> ((PyErr, unit) result, SimpleCore PySession) outcome" where
  "pys_home X axes active_wcs =
     awaiting_result (simple_home X axes (case active_wcs of Some s \<Rightarrow> s | None \<Rightarrow> ''G54''))"

definition pys_move_to ::
  "regex_crate \<Rightarrow> f64 \<Rightarrow> f64 \<Rightarrow> f64 \<Rightarrow> SimpleCore PySession \<Rightarrow> env_event list \<Rightarrow> ((PyErr, unit) result, SimpleCore PySession) outcome" where
  "pys_move_to X speed x y = awaiting_result (simple_move_to X speed x y)"

definition pys_jog ::
  "regex_crate \<Rightarrow> (string \<Rightarrow> string) \<Rightarrow> f64 \<Rightarrow> (string \<times> f64) list \<Rightarrow> SimpleCore PySession \<Rightarrow> env_event list \<Rightarrow> ((PyErr, unit) result, SimpleCore PySession) outcome" where
  "pys_jog X uc speed deltas = awaiting_result (simple_jog X uc speed deltas)"

definition pys_select_tool ::
  "regex_crate \<Rightarrow> int \<Rightarrow> SimpleCore PySession \<Rightarrow> env_event list \<Rightarrow> ((PyErr, unit) result, SimpleCore PySession) outcome" where
  "pys_select_tool X tool_number = awaiting_result (simple_select_tool X tool_number)"

definition pys_set_power ::
  "regex_crate \<Rightarrow> f64 option \<Rightarrow> SimpleCore PySession \<Rightarrow> env_event list \<Rightarrow> ((PyErr, unit) result, SimpleCore PySession) outcome" where
  "pys_set_power X pow = awaiting_result (simple_set_power X pow)"

definition pys_set_focus_power ::
  "regex_crate \<Rightarrow> f64 option \<Rightarrow> SimpleCore PySession \<Rightarrow> env_event list \<Rightarrow> ((PyErr, unit) result, SimpleCore PySession) outcome" where
  "pys_set_focus_power X pow = awaiting_result (simple_set_focus_power X pow)"

definition pys_read_settings ::
  "regex_crate \<Rightarrow> SimpleCore PySession \<Rightarrow> env_event list \<Rightarrow> ((PyErr, (string \<times> string) list) result, SimpleCore PySession) outcome" where
  "pys_read_settings X = awaiting_result (simple_read_settings X)"

definition pys_write_setting ::
  "regex_crate \<Rightarrow> string \<Rightarrow> string \<Rightarrow> SimpleCore PySession \<Rightarrow> env_event list \<Rightarrow> ((PyErr, unit) result, SimpleCore PySession) outcome" where
  "pys_write_setting X key val = awaiting_result (simple_write_setting X key val)"

definition pys_set_wcs_offset ::
  "regex_crate \<Rightarrow> string \<Rightarrow> f64 \<Rightarrow> f64 \<Rightarrow> f64 option \<Rightarrow> 
   SimpleCore PySession \<Rightarrow> env_event list \<Rightarrow> ((PyErr, unit) result, SimpleCore PySession) outcome" where
  "pys_set_wcs_offset X wcs_slot x y z = awaiting_result (simple_set_wcs_offset X wcs_slot x y z)"

definition pys_read_wcs_offsets ::
  "regex_crate \<Rightarrow> SimpleCore PySession \<Rightarrow> env_event list \<Rightarrow> ((PyErr, string \<rightharpoonup> f64 \<times> f64 \<times> f64) result, SimpleCore PySession) outcome" where
  "pys_read_wcs_offsets X = awaiting_result (simple_read_wcs_offsets X)"

definition pys_read_parser_state ::
  "regex_crate \<Rightarrow> SimpleCore PySession \<Rightarrow> env_event list \<Rightarrow> ((PyErr, string option) result, SimpleCore PySession) outcome" where
  "pys_read_parser_state X = awaiting_result (simple_read_parser_state X)"

definition pys_run_probe_cycle ::
  "regex_crate \<Rightarrow> (string \<Rightarrow> string) \<Rightarrow> string \<Rightarrow> f64 \<Rightarrow> f64 \<Rightarrow> 
   SimpleCore PySession \<Rightarrow> env_event list \<Rightarrow> ((PyErr, (f64 \<times> f64 \<times> f64) option) result, SimpleCore PySession) outcome" where
  "pys_run_probe_cycle X uc axis_letter max_travel feed =
     awaiting_result (simple_run_probe_cycle X uc axis_letter max_travel feed)"

definition pys_detect_unit_system ::
  "regex_crate \<Rightarrow> SimpleCore PySession \<Rightarrow> env_event list \<Rightarrow> ((PyErr, string option) result, SimpleCore PySession) outcome" where
  "pys_detect_unit_system X s es =
     map_value (map_option unit_name) (awaiting_result (simple_detect_unit_system X) s es)"

definition pys_update_dialect ::
  "('d, 'v) pyo3 \<Rightarrow> 'd \<Rightarrow> SimpleCore PySession \<Rightarrow> (PyErr, unit) result \<times> SimpleCore PySession" where
  "pys_update_dialect P dialect s =
     (case parse_dialect P (Some dialect) of
        Inl e \<Rightarrow> (Inl e, s)
      | Inr d \<Rightarrow> (Inr (), s\<lparr>py_core := simple_update_dialect d (py_core s)\<rparr>))"

definition pys_state ::
  "SimpleCore PySession \<Rightarrow> PyDeviceState" where
  "pys_state s = PyDeviceState_new (s_state (py_core s))"

definition pys_job_running ::
  "SimpleCore PySession \<Rightarrow> bool" where
  "pys_job_running s = simple_is_job_running (py_core s)"

definition pys_resource_uri ::
  "SimpleCore PySession \<Rightarrow> string option" where
  "pys_resource_uri s = simple_resource_uri (py_core s)"

subsection \<open>The Smoothie session\<close>

definition pyo_build ::
  "('d, 'v) pyo3 \<Rightarrow> SmoothieConfig \<Rightarrow> 'd option \<Rightarrow> py_obj option \<Rightarrow> (PyErr, SmoothieCore PySession) result" where
  "pyo_build P config dialect cb =
     tryR (parse_dialect P dialect) (\<lambda>d.
       Inr \<lparr>py_core = SmoothieCore_new config d, py_sink = PyEvents_new cb\<rparr>)"

definition pyo_new ::
  "('d, 'v) pyo3 \<Rightarrow> 'd option \<Rightarrow> 'd option \<Rightarrow> py_obj option \<Rightarrow> (PyErr, SmoothieCore PySession) result" where
  "pyo_new P config dialect cb =
     tryR (transport_kind_from_config P config) (\<lambda>kind.
     tryR (build_smoothie_config P kind config) (\<lambda>cfg.
       pyo_build P cfg dialect cb))"

definition pyo_with_transport ::
  "('d, 'v) pyo3 \<Rightarrow> MockInner \<Rightarrow> 'd option \<Rightarrow> 'd option \<Rightarrow> py_obj option \<Rightarrow> (PyErr, SmoothieCore PySession) result" where
  "pyo_with_transport P inner config dialect cb =
     tryR (build_smoothie_config P (Mock inner) config) (\<lambda>cfg.
       pyo_build P cfg dialect cb)"

definition pyo_connect ::
  "(PyErr, py_obj) result \<Rightarrow> (PyErr, unit) result \<Rightarrow> bool \<Rightarrow> SmoothieCore PySession \<Rightarrow> env_event list \<Rightarrow> 
   (PyErr, unit PyFuture \<times> SmoothieCore PySession) result" where
  "pyo_connect = connect_session smoothie_connect"

definition pyo_disconnect ::
  "SmoothieCore PySession \<Rightarrow> env_event list \<Rightarrow> ((PyErr, unit) result, SmoothieCore PySession) outcome" where
  "pyo_disconnect = awaiting (at_once smoothie_cleanup)"

definition pyo_execute_interactive_command ::
  "regex_crate \<Rightarrow> string \<Rightarrow> SmoothieCore PySession \<Rightarrow> env_event list \<Rightarrow> ((PyErr, string list) result, SmoothieCore PySession) outcome" where
  "pyo_execute_interactive_command X cmd = awaiting_result (smoothie_execute_interactive_command X cmd)"

definition pyo_execute_command ::
  "regex_crate \<Rightarrow> string \<Rightarrow> SmoothieCore PySession \<Rightarrow> env_event list \<Rightarrow> ((PyErr, string list) result, SmoothieCore PySession) outcome" where
  "pyo_execute_command X cmd = awaiting_result (smoothie_execute_command X cmd)"

definition pyo_run ::
  "regex_crate \<Rightarrow> string \<Rightarrow> (nat \<rightharpoonup> int) option \<Rightarrow> py_obj option \<Rightarrow> SmoothieCore PySession \<Rightarrow> env_event list \<Rightarrow> ((PyErr, unit) result, SmoothieCore PySession) outcome" where
  "pyo_run X gcode op_line_map cb s es =
     (let op_map = (case op_line_map of Some m \<Rightarrow> m | None \<Rightarrow> Map.empty)
      in awaiting (smoothie_run X gcode op_map) (install_progress cb s) es)"

definition pyo_run_raw ::
  "regex_crate \<Rightarrow> string \<Rightarrow> SmoothieCore PySession \<Rightarrow> env_event list \<Rightarrow> ((PyErr, unit) result, SmoothieCore PySession) outcome" where
  "pyo_run_raw X machine_code = awaiting (smoothie_run_raw X machine_code)"

definition pyo_set_hold ::
  "bool option \<Rightarrow> SmoothieCore PySession \<Rightarrow> env_event list \<Rightarrow> ((PyErr, unit) result, SmoothieCore PySession) outcome" where
  "pyo_set_hold hold =
     awaiting_result (at_once_result (smoothie_set_hold (case hold of Some b \<Rightarrow> b | None \<Rightarrow> True)))"

definition pyo_cancel ::
  "regex_crate \<Rightarrow> bool option \<Rightarrow> SmoothieCore PySession \<Rightarrow> env_event list \<Rightarrow> ((PyErr, unit) result, SmoothieCore PySession) outcome" where
  "pyo_cancel X emergency =
     awaiting_result (smoothie_cancel X (case emergency of Some b \<Rightarrow> b | None \<Rightarrow> False))"

definition pyo_home ::
  "regex_crate \<Rightarrow> string list option \<Rightarrow> SmoothieCore PySession \<Rightarrow> env_event list \<Rightarrow> ((PyErr, unit) result, SmoothieCore PySession) outcome" where
  "pyo_home X axes = awaiting_result (smoothie_home X axes)"

definition pyo_move_to ::
  "regex_crate \<Rightarrow> f64 \<Rightarrow> f64 \<Rightarrow> f64 \<Rightarrow> SmoothieCore PySession \<Rightarrow> env_event list \<Rightarrow> ((PyErr, unit) result, SmoothieCore PySession) outcome" where
  "pyo_move_to X speed x y = awaiting_result (smoothie_move_to X speed x y)"

definition pyo_jog ::
  "regex_crate \<Rightarrow> (string \<Rightarrow> string) \<Rightarrow> f64 \<Rightarrow> (string \<times> f64) list \<Rightarrow> SmoothieCore PySession \<Rightarrow> env_event list \<Rightarrow> ((PyErr, unit) result, SmoothieCore PySession) outcome" where
  "pyo_jog X uc speed deltas = awaiting_result (smoothie_jog X uc speed deltas)"

definition pyo_select_tool ::
  "regex_crate \<Rightarrow> int \<Rightarrow> SmoothieCore PySession \<Rightarrow> env_event list \<Rightarrow> ((PyErr, unit) result, SmoothieCore PySession) outcome" where
  "pyo_select_tool X tool_number = awaiting_result (smoothie_select_tool X tool_number)"

definition pyo_clear_alarm ::
  "regex_crate \<Rightarrow> SmoothieCore PySession \<Rightarrow> env_event list \<Rightarrow> ((PyErr, unit) result, SmoothieCore PySession) outcome" where
  "pyo_clear_alarm X = awaiting_result (smoothie_clear_alarm X)"

definition pyo_set_power ::
  "regex_crate \<Rightarrow> f64 option \<Rightarrow> SmoothieCore PySession \<Rightarrow> env_event list \<Rightarrow> ((PyErr, unit) result, SmoothieCore PySession) outcome" where
  "pyo_set_power X pow = awaiting_result (smoothie_set_power X pow)"

definition pyo_set_focus_power ::
  "regex_crate \<Rightarrow> f64 option \<Rightarrow> SmoothieCore PySession \<Rightarrow> env_event list \<Rightarrow> ((PyErr, unit) result, SmoothieCore PySession) outcome" where
  "pyo_set_focus_power X pow = awaiting_result (smoothie_set_focus_power X pow)"

definition pyo_set_wcs_offset ::
  "regex_crate \<Rightarrow> string \<Rightarrow> f64 \<Rightarrow> f64 \<Rightarrow> f64 option \<Rightarrow> 
   SmoothieCore PySession \<Rightarrow> env_event list \<Rightarrow> ((PyErr, unit) result, SmoothieCore PySession) outcome" where
  "pyo_set_wcs_offset X wcs_slot x y z = awaiting_result (smoothie_set_wcs_offset X wcs_slot x y z)"

definition pyo_update_dialect ::
  "('d, 'v) pyo3 \<Rightarrow> 'd \<Rightarrow> SmoothieCore PySession \<Rightarrow> (PyErr, unit) result \<times> SmoothieCore PySession" where
  "pyo_update_dialect P dialect s =
     (case parse_dialect P (Some dialect) of
        Inl e \<Rightarrow> (Inl e, s)
      | Inr d \<Rightarrow> (Inr (), s\<lparr>py_core := smoothie_update_dialect d (py_core s)\<rparr>))"

definition pyo_state ::
  "SmoothieCore PySession \<Rightarrow> PyDeviceState" where
  "pyo_state s = PyDeviceState_new (so_state (py_core s))"

definition pyo_job_running ::
  "SmoothieCore PySession \<Rightarrow> bool" where
  "pyo_job_running s = smoothie_is_job_running (py_core s)"

definition pyo_resource_uri ::
  "SmoothieCore PySession \<Rightarrow> string option" where
  "pyo_resource_uri s = smoothie_resource_uri (py_core s)"

subsection \<open>The Marlin session\<close>

definition pym_build ::
  "('d, 'v) pyo3 \<Rightarrow> MarlinConfig \<Rightarrow> 'd option \<Rightarrow> py_obj option \<Rightarrow> (PyErr, MarlinCore PySession) result" where
  "pym_build P config dialect cb =
     tryR (parse_dialect P dialect) (\<lambda>d.
       Inr \<lparr>py_core = MarlinCore_new config d, py_sink = PyEvents_new cb\<rparr>)"

definition pym_new ::
  "('d, 'v) pyo3 \<Rightarrow> 'd option \<Rightarrow> 'd option \<Rightarrow> py_obj option \<Rightarrow> (PyErr, MarlinCore PySession) result" where
  "pym_new P config dialect cb =
     tryR (transport_kind_from_config P config) (\<lambda>kind.
     tryR (build_marlin_config P kind config) (\<lambda>cfg.
       pym_build P cfg dialect cb))"

definition pym_with_transport ::
  "('d, 'v) pyo3 \<Rightarrow> MockInner \<Rightarrow> 'd option \<Rightarrow> 'd option \<Rightarrow> py_obj option \<Rightarrow> (PyErr, MarlinCore PySession) result" where
  "pym_with_transport P inner config dialect cb =
     tryR (build_marlin_config P (Mock inner) config) (\<lambda>cfg.
       pym_build P cfg dialect cb)"

definition pym_connect ::
  "(PyErr, py_obj) result \<Rightarrow> (PyErr, unit) result \<Rightarrow> bool \<Rightarrow> MarlinCore PySession \<Rightarrow> env_event list \<Rightarrow> 
   (PyErr, unit PyFuture \<times> MarlinCore PySession) result" where
  "pym_connect = connect_session marlin_connect"

definition pym_disconnect ::
  "MarlinCore PySession \<Rightarrow> env_event list \<Rightarrow> ((PyErr, unit) result, MarlinCore PySession) outcome" where
  "pym_disconnect = awaiting (at_once marlin_cleanup)"

definition pym_execute_interactive_command ::
  "text_lib \<Rightarrow> string \<Rightarrow> MarlinCore PySession \<Rightarrow> env_event list \<Rightarrow> ((PyErr, string list) result, MarlinCore PySession) outcome" where
  "pym_execute_interactive_command X cmd = awaiting_result (marlin_execute_interactive_command X cmd)"

definition pym_execute_command ::
  "text_lib \<Rightarrow> string \<Rightarrow> MarlinCore PySession \<Rightarrow> env_event list \<Rightarrow> ((PyErr, string list) result, MarlinCore PySession) outcome" where
  "pym_execute_command X cmd = awaiting_result (marlin_execute_command X cmd)"

definition pym_run ::
  "text_lib \<Rightarrow> string \<Rightarrow> (nat \<rightharpoonup> int) option \<Rightarrow> py_obj option \<Rightarrow> MarlinCore PySession \<Rightarrow> env_event list \<Rightarrow> ((PyErr, unit) result, MarlinCore PySession) outcome" where
  "pym_run X gcode op_line_map cb s es =
     (let op_map = (case op_line_map of Some m \<Rightarrow> m | None \<Rightarrow> Map.empty)
      in awaiting (marlin_run X gcode op_map) (install_progress cb s) es)"

definition pym_run_raw ::
  "text_lib \<Rightarrow> string \<Rightarrow> MarlinCore PySession \<Rightarrow> env_event list \<Rightarrow> ((PyErr, unit) result, MarlinCore PySession) outcome" where
  "pym_run_raw X machine_code = awaiting (marlin_run_raw X machine_code)"

definition pym_cancel ::
  "bool option \<Rightarrow> MarlinCore PySession \<Rightarrow> env_event list \<Rightarrow> ((PyErr, unit) result, MarlinCore PySession) outcome" where
  "pym_cancel emergency =
     awaiting_result (at_once_result (marlin_cancel (case emergency of Some b \<Rightarrow> b | None \<Rightarrow> False)))"

definition pym_home ::
  "text_lib \<Rightarrow> string list option \<Rightarrow> MarlinCore PySession \<Rightarrow> env_event list \<Rightarrow> ((PyErr, unit) result, MarlinCore PySession) outcome" where
  "pym_home X axes = awaiting_result (marlin_home X axes)"

definition pym_move_to ::
  "text_lib \<Rightarrow> f64 \<Rightarrow> f64 \<Rightarrow> f64 \<Rightarrow> MarlinCore PySession \<Rightarrow> env_event list \<Rightarrow> ((PyErr, unit) result, MarlinCore PySession) outcome" where
  "pym_move_to X speed x y = awaiting_result (marlin_move_to X speed x y)"

definition pym_jog ::
  "text_lib \<Rightarrow> (string \<Rightarrow> string) \<Rightarrow> f64 \<Rightarrow> (string \<times> f64) list \<Rightarrow> MarlinCore PySession \<Rightarrow> env_event list \<Rightarrow> ((PyErr, unit) result, MarlinCore PySession) outcome" where
  "pym_jog X uc speed deltas = awaiting_result (marlin_jog X uc speed deltas)"

definition pym_select_tool ::
  "text_lib \<Rightarrow> int \<Rightarrow> MarlinCore PySession \<Rightarrow> env_event list \<Rightarrow> ((PyErr, unit) result, MarlinCore PySession) outcome" where
  "pym_select_tool X tool_number = awaiting_result (marlin_select_tool X tool_number)"

definition pym_clear_alarm ::
  "text_lib \<Rightarrow> MarlinCore PySession \<Rightarrow> env_event list \<Rightarrow> ((PyErr, unit) result, MarlinCore PySession) outcome" where
  "pym_clear_alarm X = awaiting_result (marlin_clear_alarm X)"

definition pym_set_power ::
  "text_lib \<Rightarrow> f64 option \<Rightarrow> MarlinCore PySession \<Rightarrow> env_event list \<Rightarrow> ((PyErr, unit) result, MarlinCore PySession) outcome" where
  "pym_set_power X pow = awaiting_result (marlin_set_power X pow)"

definition pym_set_focus_power ::
  "text_lib \<Rightarrow> f64 option \<Rightarrow> MarlinCore PySession \<Rightarrow> env_event list \<Rightarrow> ((PyErr, unit) result, MarlinCore PySession) outcome" where
  "pym_set_focus_power X pow = awaiting_result (marlin_set_focus_power X pow)"

definition pym_set_wcs_offset ::
  "text_lib \<Rightarrow> string \<Rightarrow> f64 \<Rightarrow> f64 \<Rightarrow> f64 option \<Rightarrow> 
   MarlinCore PySession \<Rightarrow> env_event list \<Rightarrow> ((PyErr, unit) result, MarlinCore PySession) outcome" where
  "pym_set_wcs_offset X wcs_slot x y z = awaiting_result (marlin_set_wcs_offset X wcs_slot x y z)"

definition pym_detect_unit_system ::
  "text_lib \<Rightarrow> MarlinCore PySession \<Rightarrow> env_event list \<Rightarrow> ((PyErr, string option) result, MarlinCore PySession) outcome" where
  "pym_detect_unit_system X s es =
     map_value (map_option unit_name) (awaiting_result (marlin_detect_unit_system X) s es)"

definition pym_update_dialect ::
  "('d, 'v) pyo3 \<Rightarrow> 'd \<Rightarrow> MarlinCore PySession \<Rightarrow> (PyErr, unit) result \<times> MarlinCore PySession" where
  "pym_update_dialect P dialect s =
     (case parse_dialect P (Some dialect) of
        Inl e \<Rightarrow> (Inl e, s)
      | Inr d \<Rightarrow> (Inr (), s\<lparr>py_core := marlin_update_dialect d (py_core s)\<rparr>))"

definition pym_state ::
  "MarlinCore PySession \<Rightarrow> PyDeviceState" where
  "pym_state s = PyDeviceState_new (ma_state (py_core s))"

definition pym_job_running ::
  "MarlinCore PySession \<Rightarrow> bool" where
  "pym_job_running s = marlin_is_job_running (py_core s)"

definition pym_resource_uri ::
  "MarlinCore PySession \<Rightarrow> string option" where
  "pym_resource_uri s = marlin_resource_uri (py_core s)"

end
