(* ===== verification/Py_Config_Props.thy ===== *)
theory Py_Config_Props
  imports Py_Config Grbl_Job
begin

text \<open>
  What the construction of a session from Python arguments guarantees, and what it lets through.
\<close>

subsection \<open>Reading options one after the other\<close>

text \<open>The value a field ends up with: the one given, through \<open>h\<close>, or its default.\<close>

definition given :: "('a \<Rightarrow> 'b) \<Rightarrow> (PyErr, 'a option) result \<Rightarrow> 'b \<Rightarrow> 'b" where
  "given h r dflt = (case r of Inr (Some v) \<Rightarrow> h v | _ \<Rightarrow> dflt)"

lemma given_simps [simp]:
  "given h (Inr None) d = d" "given h (Inr (Some v)) d = h v" "given h (Inl e) d = d"
  by (simp_all add: given_def)

lemma given_fun: "given h (Inr None) = (\<lambda>d. d)" "given h (Inr (Some v)) = (\<lambda>d. h v)"
  by (simp_all add: fun_eq_iff)

definition failure :: "(PyErr, 'a) result \<Rightarrow> PyErr list" where
  "failure r = (case r of Inl e \<Rightarrow> [e] | Inr _ \<Rightarrow> [])"

lemma failure_simps [simp]: "failure (Inl e) = [e]" "failure (Inr v) = []"
  by (simp_all add: failure_def)

text \<open>The first error of a sequence of reads, or the result when there is none.\<close>

definition unless_failed :: "PyErr list \<Rightarrow> (PyErr, 'a) result \<Rightarrow> (PyErr, 'a) result" where
  "unless_failed es r = (case es of [] \<Rightarrow> r | e # _ \<Rightarrow> Inl e)"

lemma unless_failed_append: "unless_failed (a @ b) r = unless_failed a (unless_failed b r)"
  by (cases a) (simp_all add: unless_failed_def)

lemma unless_failed_Inr: "unless_failed es r = Inr c \<longleftrightarrow> es = [] \<and> r = Inr c"
  by (cases es) (simp_all add: unless_failed_def)

lemma tryR_unless_failed: "tryR (unless_failed es (Inr c)) k = unless_failed es (k c)"
  by (cases es) (simp_all add: unless_failed_def)

lemma assign_field:
  "U (\<lambda>x. x) c = c \<Longrightarrow>
     assign got (\<lambda>v. U (\<lambda>_. h v)) c = unless_failed (failure got) (Inr (U (given h got) c))"
  by (cases got) (auto simp: assign_def unless_failed_def given_fun split: option.split)

lemma config_update_id [simp]:
  "cfg_poll_status_while_running_update (\<lambda>x. x) c = c"
  "cfg_deadlock_detection_update (\<lambda>x. x) c = c"
  "cfg_rx_buffer_size_override_update (\<lambda>x. x) c = c"
  "cfg_cached_rx_buffer_size_update (\<lambda>x. x) c = c"
  "cfg_stall_timeout_min_update (\<lambda>x. x) c = c"
  "cfg_stall_timeout_max_update (\<lambda>x. x) c = c"
  "cfg_stall_timeout_safety_factor_update (\<lambda>x. x) c = c"
  "cfg_stall_timeout_default_update (\<lambda>x. x) c = c"
  "cfg_safety_shutdown_delay_update (\<lambda>x. x) c = c"
  "cfg_unanswered_poll_limit_update (\<lambda>x. x) c = c"
  "cfg_poll_response_attempts_update (\<lambda>x. x) c = c"
  "cfg_poll_response_interval_update (\<lambda>x. x) c = c"
  "cfg_handshake_timeout_update (\<lambda>x. x) c = c"
  "cfg_handshake_poll_interval_update (\<lambda>x. x) c = c"
  "cfg_status_poll_interval_update (\<lambda>x. x) c = c"
  "cfg_reconnect_delay_update (\<lambda>x. x) c = c"
  "cfg_command_timeout_update (\<lambda>x. x) c = c"
  by (rule SessionConfig.equality; simp)+

lemmas config_fields =
  assign_field [where U = cfg_poll_status_while_running_update]
  assign_field [where U = cfg_deadlock_detection_update]
  assign_field [where U = cfg_rx_buffer_size_override_update]
  assign_field [where U = cfg_cached_rx_buffer_size_update]
  assign_field [where U = cfg_stall_timeout_min_update]
  assign_field [where U = cfg_stall_timeout_max_update]
  assign_field [where U = cfg_stall_timeout_safety_factor_update]
  assign_field [where U = cfg_stall_timeout_default_update]
  assign_field [where U = cfg_safety_shutdown_delay_update]
  assign_field [where U = cfg_unanswered_poll_limit_update]
  assign_field [where U = cfg_poll_response_attempts_update]
  assign_field [where U = cfg_poll_response_interval_update]
  assign_field [where U = cfg_handshake_timeout_update]
  assign_field [where U = cfg_handshake_poll_interval_update]
  assign_field [where U = cfg_status_poll_interval_update]
  assign_field [where U = cfg_reconnect_delay_update]
  assign_field [where U = cfg_command_timeout_update]

lemma simple_config_update_id [simp]:
  "sc_poll_status_while_running_update (\<lambda>x. x) c = c"
  "sc_command_timeout_update (\<lambda>x. x) c = c"
  "sc_handshake_timeout_update (\<lambda>x. x) c = c"
  "sc_handshake_poll_interval_update (\<lambda>x. x) c = c"
  "sc_status_poll_interval_update (\<lambda>x. x) c = c"
  "sc_reconnect_delay_update (\<lambda>x. x) c = c"
  "sc_safety_shutdown_delay_update (\<lambda>x. x) c = c"
  by (rule SimpleConfig.equality; simp)+

lemmas simple_config_fields =
  assign_field [where U = sc_poll_status_while_running_update]
  assign_field [where U = sc_command_timeout_update]
  assign_field [where U = sc_handshake_timeout_update]
  assign_field [where U = sc_handshake_poll_interval_update]
  assign_field [where U = sc_status_poll_interval_update]
  assign_field [where U = sc_reconnect_delay_update]
  assign_field [where U = sc_safety_shutdown_delay_update]

lemma smoothie_config_update_id [simp]:
  "soc_poll_status_while_running_update (\<lambda>x. x) c = c"
  "soc_command_timeout_update (\<lambda>x. x) c = c"
  "soc_handshake_timeout_update (\<lambda>x. x) c = c"
  "soc_handshake_poll_interval_update (\<lambda>x. x) c = c"
  "soc_status_poll_interval_update (\<lambda>x. x) c = c"
  "soc_reconnect_delay_update (\<lambda>x. x) c = c"
  "soc_safety_shutdown_delay_update (\<lambda>x. x) c = c"
  by (rule SmoothieConfig.equality; simp)+

lemmas smoothie_config_fields =
  assign_field [where U = soc_poll_status_while_running_update]
  assign_field [where U = soc_command_timeout_update]
  assign_field [where U = soc_handshake_timeout_update]
  assign_field [where U = soc_handshake_poll_interval_update]
  assign_field [where U = soc_status_poll_interval_update]
  assign_field [where U = soc_reconnect_delay_update]
  assign_field [where U = soc_safety_shutdown_delay_update]

lemma marlin_config_update_id [simp]:
  "mac_poll_status_while_running_update (\<lambda>x. x) c = c"
  "mac_command_timeout_update (\<lambda>x. x) c = c"
  "mac_handshake_timeout_update (\<lambda>x. x) c = c"
  "mac_handshake_poll_interval_update (\<lambda>x. x) c = c"
  "mac_status_poll_interval_update (\<lambda>x. x) c = c"
  "mac_reconnect_delay_update (\<lambda>x. x) c = c"
  "mac_connect_settle_update (\<lambda>x. x) c = c"
  by (rule MarlinConfig.equality; simp)+

lemmas marlin_config_fields =
  assign_field [where U = mac_poll_status_while_running_update]
  assign_field [where U = mac_command_timeout_update]
  assign_field [where U = mac_handshake_timeout_update]
  assign_field [where U = mac_handshake_poll_interval_update]
  assign_field [where U = mac_status_poll_interval_update]
  assign_field [where U = mac_reconnect_delay_update]
  assign_field [where U = mac_connect_settle_update]

subsection \<open>The configurations, field by field\<close>

definition cached_size :: "64 word \<Rightarrow> int option" where
  "cached_size v = (if 0 < sint v then Some (sint v) else None)"

definition config_failures :: "('d, 'v) pyo3 \<Rightarrow> 'd \<Rightarrow> PyErr list" where
  "config_failures P d =
     failure (get_bool P d ''poll_status_while_running'') @
     failure (get_bool P d ''deadlock_detection'') @
     failure (get_i64 P d ''rx_buffer_size_override'') @
     failure (get_i64 P d ''cached_rx_buffer_size'') @
     failure (get_f64 P d ''stall_timeout_min'') @
     failure (get_f64 P d ''stall_timeout_max'') @
     failure (get_f64 P d ''stall_timeout_safety_factor'') @
     failure (get_f64 P d ''stall_timeout_default'') @
     failure (get_f64 P d ''safety_shutdown_delay'') @
     failure (get_i64 P d ''unanswered_poll_limit'') @
     failure (get_i64 P d ''poll_response_attempts'') @
     failure (get_f64 P d ''poll_response_interval'') @
     failure (get_f64 P d ''handshake_timeout'') @
     failure (get_f64 P d ''handshake_poll_interval'') @
     failure (get_f64 P d ''status_poll_interval'') @
     failure (get_f64 P d ''reconnect_delay'') @
     failure (get_f64 P d ''command_timeout'')"

definition config_spec :: "('d, 'v) pyo3 \<Rightarrow> TransportKind \<Rightarrow> 'd \<Rightarrow> SessionConfig" where
  "config_spec P kind d =
     \<lparr>cfg_transport = kind,
      cfg_poll_status_while_running =
        given (\<lambda>v. v) (get_bool P d ''poll_status_while_running'') False,
      cfg_deadlock_detection =
        given (\<lambda>v. v) (get_bool P d ''deadlock_detection'') False,
      cfg_rx_buffer_size_override =
        given sint (get_i64 P d ''rx_buffer_size_override'') 0,
      cfg_cached_rx_buffer_size =
        given cached_size (get_i64 P d ''cached_rx_buffer_size'') None,
      cfg_stall_timeout_min =
        given (\<lambda>v. v) (get_f64 P d ''stall_timeout_min'') (f64_lit 5 0),
      cfg_stall_timeout_max =
        given (\<lambda>v. v) (get_f64 P d ''stall_timeout_max'') (f64_lit 120 0),
      cfg_stall_timeout_safety_factor =
        given (\<lambda>v. v) (get_f64 P d ''stall_timeout_safety_factor'') (f64_lit 3 0),
      cfg_stall_timeout_default =
        given (\<lambda>v. v) (get_f64 P d ''stall_timeout_default'') (f64_lit 30 0),
      cfg_safety_shutdown_delay =
        given (\<lambda>v. v) (get_f64 P d ''safety_shutdown_delay'') (f64_lit 2 1),
      cfg_unanswered_poll_limit =
        given limit_u32 (get_i64 P d ''unanswered_poll_limit'') 3,
      cfg_poll_response_attempts =
        given limit_u32 (get_i64 P d ''poll_response_attempts'') 10,
      cfg_poll_response_interval =
        given (\<lambda>v. v) (get_f64 P d ''poll_response_interval'') (f64_lit 1 1),
      cfg_handshake_timeout =
        given (\<lambda>v. v) (get_f64 P d ''handshake_timeout'') (f64_lit 6 0),
      cfg_handshake_poll_interval =
        given (\<lambda>v. v) (get_f64 P d ''handshake_poll_interval'') (f64_lit 5 1),
      cfg_status_poll_interval =
        given (\<lambda>v. v) (get_f64 P d ''status_poll_interval'') (f64_lit 5 1),
      cfg_reconnect_delay =
        given (\<lambda>v. v) (get_f64 P d ''reconnect_delay'') (f64_lit 5 0),
      cfg_command_timeout =
        given (\<lambda>v. v) (get_f64 P d ''command_timeout'') (f64_lit 10 0)\<rparr>"

lemma build_config_eq:
  "build_config P kind (Some d) = unless_failed (config_failures P d) (Inr (config_spec P kind d))"
  by (simp add: build_config_def config_failures_def config_spec_def unless_failed_append
        config_fields tryR_unless_failed SessionConfig_new_def flip: cached_size_def)

definition simple_config_failures :: "('d, 'v) pyo3 \<Rightarrow> 'd \<Rightarrow> PyErr list" where
  "simple_config_failures P d =
     failure (get_bool P d ''poll_status_while_running'') @
     failure (get_f64 P d ''command_timeout'') @
     failure (get_f64 P d ''handshake_timeout'') @
     failure (get_f64 P d ''handshake_poll_interval'') @
     failure (get_f64 P d ''status_poll_interval'') @
     failure (get_f64 P d ''reconnect_delay'') @
     failure (get_f64 P d ''safety_shutdown_delay'')"

definition simple_config_spec :: "('d, 'v) pyo3 \<Rightarrow> TransportKind \<Rightarrow> 'd \<Rightarrow> SimpleConfig" where
  "simple_config_spec P kind d =
     \<lparr>sc_transport = kind,
      sc_poll_status_while_running =
        given (\<lambda>v. v) (get_bool P d ''poll_status_while_running'') False,
      sc_command_timeout =
        given (\<lambda>v. v) (get_f64 P d ''command_timeout'') (f64_lit 30 0),
      sc_handshake_timeout =
        given (\<lambda>v. v) (get_f64 P d ''handshake_timeout'') (f64_lit 3 0),
      sc_handshake_poll_interval =
        given (\<lambda>v. v) (get_f64 P d ''handshake_poll_interval'') (f64_lit 5 1),
      sc_status_poll_interval =
        given (\<lambda>v. v) (get_f64 P d ''status_poll_interval'') (f64_lit 1 0),
      sc_reconnect_delay =
        given (\<lambda>v. v) (get_f64 P d ''reconnect_delay'') (f64_lit 5 0),
      sc_safety_shutdown_delay =
        given (\<lambda>v. v) (get_f64 P d ''safety_shutdown_delay'') (f64_lit 2 1)\<rparr>"

lemma build_simple_config_eq:
  "build_simple_config P kind (Some d) = unless_failed (simple_config_failures P d) (Inr (simple_config_spec P kind d))"
  by (simp add: build_simple_config_def simple_config_failures_def simple_config_spec_def unless_failed_append
        simple_config_fields tryR_unless_failed SimpleConfig_new_def)

definition smoothie_config_failures :: "('d, 'v) pyo3 \<Rightarrow> 'd \<Rightarrow> PyErr list" where
  "smoothie_config_failures P d =
     failure (get_bool P d ''poll_status_while_running'') @
     failure (get_f64 P d ''command_timeout'') @
     failure (get_f64 P d ''handshake_timeout'') @
     failure (get_f64 P d ''handshake_poll_interval'') @
     failure (get_f64 P d ''status_poll_interval'') @
     failure (get_f64 P d ''reconnect_delay'') @
     failure (get_f64 P d ''safety_shutdown_delay'')"

definition smoothie_config_spec :: "('d, 'v) pyo3 \<Rightarrow> TransportKind \<Rightarrow> 'd \<Rightarrow> SmoothieConfig" where
  "smoothie_config_spec P kind d =
     \<lparr>soc_transport = kind,
      soc_poll_status_while_running =
        given (\<lambda>v. v) (get_bool P d ''poll_status_while_running'') False,
      soc_command_timeout =
        given (\<lambda>v. v) (get_f64 P d ''command_timeout'') (f64_lit 30 0),
      soc_handshake_timeout =
        given (\<lambda>v. v) (get_f64 P d ''handshake_timeout'') (f64_lit 15 0),
      soc_handshake_poll_interval =
        given (\<lambda>v. v) (get_f64 P d ''handshake_poll_interval'') (f64_lit 5 1),
      soc_status_poll_interval =
        given (\<lambda>v. v) (get_f64 P d ''status_poll_interval'') (f64_lit 1 0),
      soc_reconnect_delay =
        given (\<lambda>v. v) (get_f64 P d ''reconnect_delay'') (f64_lit 5 0),
      soc_safety_shutdown_delay =
        given (\<lambda>v. v) (get_f64 P d ''safety_shutdown_delay'') (f64_lit 2 1)\<rparr>"

lemma build_smoothie_config_eq:
  "build_smoothie_config P kind (Some d) = unless_failed (smoothie_config_failures P d) (Inr (smoothie_config_spec P kind d))"
  by (simp add: build_smoothie_config_def smoothie_config_failures_def smoothie_config_spec_def unless_failed_append
        smoothie_config_fields tryR_unless_failed SmoothieConfig_new_def)

definition marlin_config_failures :: "('d, 'v) pyo3 \<Rightarrow> 'd \<Rightarrow> PyErr list" where
  "marlin_config_failures P d =
     failure (get_bool P d ''poll_status_while_running'') @
     failure (get_f64 P d ''command_timeout'') @
     failure (get_f64 P d ''handshake_timeout'') @
     failure (get_f64 P d ''handshake_poll_interval'') @
     failure (get_f64 P d ''status_poll_interval'') @
     failure (get_f64 P d ''reconnect_delay'') @
     failure (get_f64 P d ''connect_settle'')"

definition marlin_config_spec :: "('d, 'v) pyo3 \<Rightarrow> TransportKind \<Rightarrow> 'd \<Rightarrow> MarlinConfig" where
  "marlin_config_spec P kind d =
     \<lparr>mac_transport = kind,
      mac_poll_status_while_running =
        given (\<lambda>v. v) (get_bool P d ''poll_status_while_running'') False,
      mac_command_timeout =
        given (\<lambda>v. v) (get_f64 P d ''command_timeout'') (f64_lit 30 0),
      mac_handshake_timeout =
        given (\<lambda>v. v) (get_f64 P d ''handshake_timeout'') (f64_lit 5 0),
      mac_handshake_poll_interval =
        given (\<lambda>v. v) (get_f64 P d ''handshake_poll_interval'') (f64_lit 5 1),
      mac_status_poll_interval =
        given (\<lambda>v. v) (get_f64 P d ''status_poll_interval'') (f64_lit 2 0),
      mac_reconnect_delay =
        given (\<lambda>v. v) (get_f64 P d ''reconnect_delay'') (f64_lit 5 0),
      mac_connect_settle =
        given (\<lambda>v. v) (get_f64 P d ''connect_settle'') (f64_lit 1 0)\<rparr>"

lemma build_marlin_config_eq:
  "build_marlin_config P kind (Some d) = unless_failed (marlin_config_failures P d) (Inr (marlin_config_spec P kind d))"
  by (simp add: build_marlin_config_def marlin_config_failures_def marlin_config_spec_def unless_failed_append
        marlin_config_fields tryR_unless_failed MarlinConfig_new_def)

subsection \<open>The properties\<close>


text \<open>What the core takes for granted of a configuration.\<close>

fun kind_typed :: "TransportKind \<Rightarrow> bool" where
  "kind_typed (Serial port baud) = (0 \<le> baud \<and> baud < 2 ^ 32)"
| "kind_typed (Telnet host port) = (0 \<le> port \<and> port < 2 ^ 16)"
| "kind_typed (Mock m) = True"

definition i64_typed :: "int \<Rightarrow> bool" where
  "i64_typed i \<longleftrightarrow> - (2 ^ 63) \<le> i \<and> i < 2 ^ 63"

definition config_typed :: "SessionConfig \<Rightarrow> bool" where
  "config_typed c \<longleftrightarrow>
     kind_typed (cfg_transport c) \<and> i64_typed (cfg_rx_buffer_size_override c) \<and>
     (\<forall>v. cfg_cached_rx_buffer_size c = Some v \<longrightarrow> 0 < v \<and> i64_typed v) \<and>
     cfg_unanswered_poll_limit c < 2 ^ 32 \<and> cfg_poll_response_attempts c < 2 ^ 32"

lemma as_u16_eq: "as_u16 v = sint v mod 2 ^ 16"
proof -
  have "as_u16 v = take_bit 16 (uint v)"
    by (simp add: as_u16_def unsigned_ucast_eq unsigned_take_bit_eq)
  also have "uint v = take_bit 64 (sint v)" by (simp add: uint_sint)
  also have "take_bit 16 (take_bit 64 (sint v)) = sint v mod 2 ^ 16"
    by (simp add: take_bit_take_bit) (simp add: take_bit_eq_mod)
  finally show ?thesis .
qed

lemma as_u32_eq: "as_u32 v = sint v mod 2 ^ 32"
proof -
  have "as_u32 v = take_bit 32 (uint v)"
    by (simp add: as_u32_def unsigned_ucast_eq unsigned_take_bit_eq)
  also have "uint v = take_bit 64 (sint v)" by (simp add: uint_sint)
  also have "take_bit 32 (take_bit 64 (sint v)) = sint v mod 2 ^ 32"
    by (simp add: take_bit_take_bit) (simp add: take_bit_eq_mod)
  finally show ?thesis .
qed

lemma limit_u32_eq: "limit_u32 v = nat (max 0 (sint v) mod 2 ^ 32)"
proof -
  have "int (limit_u32 v) = as_u32 (if sint v < 0 then 0 else v)"
    by (simp add: limit_u32_def as_u32_def)
  also have "\<dots> = max 0 (sint v) mod 2 ^ 32" by (simp add: as_u32_eq max_def)
  finally show ?thesis by simp
qed

lemma limit_u32_less: "limit_u32 v < 2 ^ 32"
  unfolding limit_u32_def by (rule order.strict_trans2 [OF unsigned_less]) simp

lemma i64_typed_sint: "i64_typed (sint (v :: 64 word))"
  using sint_greater_eq [of v] sint_less [of v] by (simp add: i64_typed_def)

lemma kind_typed_from_config:
  "transport_kind_from_config P dict = Inr kind \<Longrightarrow> kind_typed kind"
  by (auto simp: transport_kind_from_config_def tryR_Inr as_u16_eq as_u32_eq split: option.splits)


text \<open>
  A small dictionary library for examples: association lists with string keys, in which each
  value extracts as its own type only (and an integer also as a float).
\<close>

datatype demo_val = DBool bool | DInt "64 word" | DFloat f64 | DStr string | DList "string list"

definition demo_pyo3 :: "((string \<times> demo_val) list, demo_val) pyo3" where
  "demo_pyo3 =
     \<lparr>get_item = (\<lambda>d k. Inr (map_of d k)),
      dict_items = map (\<lambda>(k, v). (DStr k, v)),
      extract_bool = (\<lambda>v. case v of DBool b \<Rightarrow> Inr b | _ \<Rightarrow> Inl (PyRaised 0)),
      extract_f64 = (\<lambda>v. case v of DFloat x \<Rightarrow> Inr x | DInt i \<Rightarrow> Inr (f64_of_int (sint i)) | _ \<Rightarrow> Inl (PyRaised 0)),
      extract_i64 = (\<lambda>v. case v of DInt i \<Rightarrow> Inr i | _ \<Rightarrow> Inl (PyRaised 0)),
      extract_string = (\<lambda>v. case v of DStr s \<Rightarrow> Inr s | _ \<Rightarrow> Inl (PyRaised 0)),
      extract_strings = (\<lambda>v. case v of DList l \<Rightarrow> Inr l | _ \<Rightarrow> Inl (PyRaised 0))\<rparr>"

definition demo_config :: "(string \<times> demo_val) list" where
  "demo_config =
     [(''host'', DStr ''laser''), (''tcp_port'', DInt 65559), (''cached_rx_buffer_size'', DInt 0),
      (''stall_timeout_min'', DInt 200), (''unanswered_poll_limit'', DInt 4294967296)]"

lemmas demo_config_simps = demo_config_def demo_pyo3_def get_bool_def get_f64_def get_i64_def get_str_def

lemma demo_kind: "transport_kind_from_config demo_pyo3 (Some demo_config) = Inr (Telnet ''laser'' 23)"
  by (simp add: transport_kind_from_config_def demo_config_simps as_u16_eq)

lemma demo_build:
  "build_config demo_pyo3 kind (Some demo_config) = Inr (config_spec demo_pyo3 kind demo_config)"
  by (simp add: build_config_eq unless_failed_Inr config_failures_def demo_config_simps)


text \<open>
  Out-of-range numbers wrap instead of being refused. A TCP port is taken modulo
  \<open>2\<^sup>1\<^sup>6\<close>, a baud rate and the two poll limits modulo \<open>2\<^sup>3\<^sup>2\<close> (the limits after negative
  numbers become 0), so port 65559 connects to port 23 and a limit of \<open>2\<^sup>3\<^sup>2\<close> is 0.
\<close>

theorem out_of_range_options_wrap:
  assumes "get_str P d ''host'' = Inr host"
    and "get_i64 P d ''tcp_port'' = Inr (Some tcp)" "get_i64 P d ''baudrate'' = Inr (Some baud)"
    and "get_str P d ''port'' = Inr (Some port)" "get_i64 P d ''unanswered_poll_limit'' = Inr (Some lim)"
  shows "transport_kind_from_config P (Some d) =
      Inr (case host of Some h \<Rightarrow> Telnet h (sint tcp mod 2 ^ 16) | None \<Rightarrow> Serial port (sint baud mod 2 ^ 32))"
    and "build_config P kind (Some d) = Inr cfg \<Longrightarrow>
      int (cfg_unanswered_poll_limit cfg) = max 0 (sint lim) mod 2 ^ 32"
  using assms
  by (auto simp: transport_kind_from_config_def as_u16_eq as_u32_eq build_config_eq unless_failed_Inr
        config_spec_def limit_u32_eq split: option.split)

definition wrap_config :: "(string \<times> demo_val) list" where
  "wrap_config = demo_config @ [(''baudrate'', DInt 115200), (''port'', DStr ''COM1'')]"

theorem out_of_range_options_wrap_witness:
  "transport_kind_from_config demo_pyo3 (Some wrap_config) = Inr (Telnet ''laser'' 23) \<and>
   (\<forall>cfg. build_config demo_pyo3 (Telnet ''laser'' 23) (Some wrap_config) = Inr cfg \<longrightarrow> cfg_unanswered_poll_limit cfg = 0)"
  using out_of_range_options_wrap [of demo_pyo3 wrap_config "Some ''laser''" 65559 115200 "''COM1''" 4294967296]
  by (simp add: wrap_config_def demo_config_simps)

text \<open>
  The limits of the stall time-out are not compared with each other: when the accepted
  configuration has a minimum that is not at most the maximum, streaming a line that belongs to an
  operation with an estimate panics.
\<close>

lemma stall_limits_panic:
  assumes "build_config P kind (Some d) = Inr cfg"
    and "\<not> fle (given (\<lambda>v. v) (get_f64 P d ''stall_timeout_min'') (f64_lit 5 0))
                 (given (\<lambda>v. v) (get_f64 P d ''stall_timeout_max'') (f64_lit 120 0))"
    and "g_config w = cfg" "\<not> stop_streaming w" "strip_gcode_comments X raw_line \<noteq> []"
    and "m idx = Some oi" "as_usize oi < length ts"
  shows "stream_lines X (Some m) (Some ts) idx (raw_line # rest) w es = Panicked w es"
proof -
  have "line_timeout cfg (Some ts) (Some oi) = None"
    using assms(1,2,7)
    by (auto simp: build_config_eq unless_failed_Inr config_spec_def line_timeout_def fclamp_def)
  with assms(3-6) show ?thesis by simp
qed

definition panic_world :: "GrblCore" where
  "panic_world = GrblCore_new (config_spec demo_pyo3 (Telnet ''laser'' 23) demo_config) Dialect_default"

lemma panic_limits:
  "\<not> fle (given (\<lambda>v. v) (get_f64 demo_pyo3 demo_config ''stall_timeout_min'') (f64_lit 5 0))
         (given (\<lambda>v. v) (get_f64 demo_pyo3 demo_config ''stall_timeout_max'') (f64_lit 120 0))"
  by code_simp

lemma panic_world_facts:
  "g_config panic_world = config_spec demo_pyo3 (Telnet ''laser'' 23) demo_config"
  "status (g_state panic_world) \<noteq> Alarm"
  by (simp_all add: panic_world_def GrblCore_new_def DeviceState_default_def)

end
