(* ===== verification/Py_Events_Props.thy ===== *)
theory Py_Events_Props
  imports Py_Events
begin

text \<open>
  What the event sink promises, for every interleaving of the reporting threads with the event
  loops: an invariant of the reachable worlds and its consequences.
\<close>

named_theorems world_simps \<open>fields of a world after an elementary change\<close>

lemma upd_loop_simps [simp, world_simps]:
  "w_sink (upd_loop l f w) = w_sink w"
  "w_calls (upd_loop l f w) = w_calls w"
  "w_loops (upd_loop l f w) = (w_loops w)(l := f (w_loops w l))"
  "w_handled (upd_loop l f w) = w_handled w"
  "w_pushed (upd_loop l f w) = w_pushed w"
  "w_reported (upd_loop l f w) = w_reported w"
  by (simp_all add: upd_loop_def)

lemma record_report_simps [simp]:
  "w_sink (record_report t c w) = w_sink w"
  "w_calls (record_report t c w) = w_calls w"
  "w_loops (record_report t c w) = w_loops w"
  "w_handled (record_report t c w) = w_handled w"
  "w_pushed (record_report t c w) = w_pushed w"
  by (cases c; simp add: record_report_def)+

lemma record_push_simps [simp]:
  "w_sink (record_push t c w) = w_sink w"
  "w_calls (record_push t c w) = w_calls w"
  "w_loops (record_push t c w) = w_loops w"
  "w_handled (record_push t c w) = w_handled w"
  "w_reported (record_push t c w) = w_reported w"
  by (cases c; simp add: record_push_def)+

lemma hand_over_simps [simp]:
  "w_sink (hand_over ok c w) = w_sink w"
  "w_calls (hand_over ok c w) = w_calls w"
  "w_handled (hand_over ok c w) = w_handled w"
  "w_pushed (hand_over ok c w) = w_pushed w"
  "w_reported (hand_over ok c w) = w_reported w"
  by (simp_all add: hand_over_def split: option.split prod.split)

lemma queue_simps [simp]:
  "fst (pe_push ev p) = (\<not> eq_scheduled (ev_queue p))"
  "ev_callback (snd (pe_push ev p)) = ev_callback p"
  "ev_loop (snd (pe_push ev p)) = ev_loop p"
  "ev_progress (snd (pe_push ev p)) = ev_progress p"
  "eq_pending (ev_queue (snd (pe_push ev p))) = eq_pending (ev_queue p) @ [ev]"
  "eq_scheduled (ev_queue (snd (pe_push ev p)))"
  "ev_callback (pe_unschedule p) = ev_callback p"
  "ev_loop (pe_unschedule p) = ev_loop p"
  "ev_progress (pe_unschedule p) = ev_progress p"
  "eq_pending (ev_queue (pe_unschedule p)) = eq_pending (ev_queue p)"
  "\<not> eq_scheduled (ev_queue (pe_unschedule p))"
  by (simp_all add: pe_push_def pe_unschedule_def EventQueue_push_def EventQueue_unschedule_def Let_def)

lemmas exec_defs = exec_notify_def exec_run_def exec_deliver_def exec_drained_def
  exec_close_def set_progress_callback_def capture_loop_def EventQueue_take_def

text \<open>What a section of a call leaves unchanged, and what it does to the queue.\<close>

lemma advance_frame [simp]:
  "ev_callback (snd (advance ok c p)) = ev_callback p"
  "ev_loop (snd (advance ok c p)) = ev_loop p"
  "ev_progress (snd (advance ok c p)) = ev_progress p"
  by (cases c; simp add: case_prod_unfold Let_def split: option.split)+

lemma advance_pending [simp]:
  "eq_pending (ev_queue (snd (advance ok c p))) =
     eq_pending (ev_queue p) @ (case call_push c of None \<Rightarrow> [] | Some ev \<Rightarrow> [ev])"
  by (cases c) (simp_all add: case_prod_unfold Let_def split: option.split)

lemma w_pushed_record_push [simp]:
  "w_pushed (record_push t c w) =
     w_pushed w @ (case call_push c of None \<Rightarrow> [] | Some ev \<Rightarrow> [(t, ev)])"
  by (simp add: record_push_def split: option.split)

lemma hand_over_loops [simp]:
  "lp_draining (w_loops (hand_over ok c w) l) = lp_draining (w_loops w l)"
  "lp_closed (w_loops (hand_over ok c w) l) = lp_closed (w_loops w l)"
  by (auto simp: hand_over_def split: option.split prod.split)

lemma hand_over_ready:
  "lp_ready (w_loops (hand_over ok c w) l) =
     lp_ready (w_loops w l) @
     (case call_handle c of Some (l', d) \<Rightarrow> if ok \<and> l' = l then [d] else [] | None \<Rightarrow> [])"
  by (auto simp: hand_over_def split: option.split prod.split)

lemma exec_advance_Some:
  "exec_advance t ok w = Some w' \<longleftrightarrow>
     (\<exists>c. w_calls w t = Some c \<and> may_answer ok c w \<and>
        w' = (hand_over ok c (record_push t c (record_report t c w)))
               \<lparr>w_sink := snd (advance ok c (w_sink w)),
                w_calls := (w_calls w)(t := fst (advance ok c (w_sink w)))\<rparr>)"
  by (auto simp: exec_advance_def case_prod_unfold Let_def split: option.split)

subsection \<open>The callback never changes and the loop is captured once\<close>

lemma exec_callback: "exec a w = Some w' \<Longrightarrow> ev_callback (w_sink w') = ev_callback (w_sink w)"
  by (cases a) (auto simp: exec_defs exec_advance_Some Let_def split: if_splits option.splits list.splits)

lemma exec_loop:
  "exec a w = Some w' \<Longrightarrow> ev_loop (w_sink w) = Some l \<Longrightarrow> ev_loop (w_sink w') = Some l"
  by (cases a) (auto simp: exec_defs exec_advance_Some Let_def split: if_splits option.splits list.splits)

subsection \<open>The invariant\<close>

text \<open>What a call in flight knows: its loop is the captured one, its drainer the session's.\<close>

fun call_ok :: "PyEvents \<Rightarrow> call \<Rightarrow> bool" where
  "call_ok p (S_Start ev) = True"
| "call_ok p (S_Push ev) = (ev_callback p \<noteq> None)"
| "call_ok p (S_Drainer l) = (ev_loop p = Some l)"
| "call_ok p (S_Call l d) = (ev_loop p = Some l \<and> d_events d = ev_callback p)"
| "call_ok p (P_Push i cb l) = (ev_loop p = Some l)"
| "call_ok p (P_Drainer cb l) = (ev_loop p = Some l)"
| "call_ok p (P_Call l d) = (ev_loop p = Some l \<and> d_events d = ev_callback p)"
| "call_ok p c = True"

definition calls_ok :: "py_world \<Rightarrow> bool" where
  "calls_ok w = (\<forall>t c. w_calls w t = Some c \<longrightarrow> call_ok (w_sink w) c)"

text \<open>Only the captured loop holds drainers, and they are the session's.\<close>

definition drainers :: "py_loop \<Rightarrow> EventDrainer list" where
  "drainers lp = lp_ready lp @ (case lp_draining lp of None \<Rightarrow> [] | Some (d, _) \<Rightarrow> [d])"

definition loops_ok :: "py_world \<Rightarrow> bool" where
  "loops_ok w =
     (\<forall>l. (drainers (w_loops w l) \<noteq> [] \<longrightarrow> ev_loop (w_sink w) = Some l) \<and>
          (\<forall>d \<in> set (drainers (w_loops w l)). d_events d = ev_callback (w_sink w)))"

lemma call_ok_capture:
  "call_ok p c \<Longrightarrow> ev_loop p = None \<Longrightarrow> call_ok (p\<lparr>ev_loop := Some l\<rparr>) c"
  by (cases c) auto

lemma call_ok_frame:
  "call_ok p c \<Longrightarrow> ev_callback p' = ev_callback p \<Longrightarrow> ev_loop p' = ev_loop p \<Longrightarrow> call_ok p' c"
  by (cases c) auto

lemma call_ok_update [simp]:
  "call_ok (p\<lparr>ev_queue := q\<rparr>) c = call_ok p c"
  "call_ok (p\<lparr>ev_progress := cb\<rparr>) c = call_ok p c"
  by (cases c; simp)+

lemma call_ok_notify: "call_ok p (notify ev)"
  by (cases ev) simp_all

lemma call_ok_advance:
  "call_ok p c \<Longrightarrow> fst (advance ok c p) = Some c' \<Longrightarrow> call_ok (snd (advance ok c p)) c'"
  by (cases c) (auto simp: case_prod_unfold Let_def split: option.splits if_splits)

lemma calls_ok_exec: "exec a w = Some w' \<Longrightarrow> calls_ok w \<Longrightarrow> calls_ok w'"
proof (cases a)
  case (L_Advance t ok)
  assume ok: "exec a w = Some w'" "calls_ok w"
  then obtain c where c: "w_calls w t = Some c"
    "w_sink w' = snd (advance ok c (w_sink w))"
    "w_calls w' = (w_calls w)(t := fst (advance ok c (w_sink w)))"
    using L_Advance by (auto simp: exec_advance_Some)
  show ?thesis unfolding calls_ok_def
  proof (intro allI impI)
    fix t' c' assume "w_calls w' t' = Some c'"
    with ok(2) c show "call_ok (w_sink w') c'"
      by (cases "t' = t")
        (auto simp: calls_ok_def intro: call_ok_advance call_ok_frame [of "w_sink w"])
  qed
next
  case (L_Capture l)
  assume "exec a w = Some w'" "calls_ok w"
  with L_Capture show ?thesis
    unfolding calls_ok_def
    by (cases "ev_loop (w_sink w)") (auto simp: exec_defs call_ok_capture split: if_splits)
qed (auto simp: exec_defs calls_ok_def call_ok_notify Let_def split: if_splits option.splits list.splits)

lemma drainers_simps [simp]:
  "drainers fresh_loop = []"
  "lp_draining lp = None \<Longrightarrow> drainers (lp\<lparr>lp_ready := [], lp_closed := b\<rparr>) = []"
  "drainers (lp\<lparr>lp_draining := None\<rparr>) = lp_ready lp"
  "drainers (lp\<lparr>lp_draining := Some (d, evs)\<rparr>) = lp_ready lp @ [d]"
  "drainers (lp\<lparr>lp_ready := r, lp_draining := Some (d, evs)\<rparr>) = r @ [d]"
  by (simp_all add: drainers_def fresh_loop_def)

lemma set_drainers:
  "set (drainers lp) =
     set (lp_ready lp) \<union> (case lp_draining lp of None \<Rightarrow> {} | Some (d, _) \<Rightarrow> {d})"
  by (simp add: drainers_def split: option.split prod.split)

lemma drainers_empty: "drainers lp = [] \<longleftrightarrow> lp_ready lp = [] \<and> lp_draining lp = None"
  by (auto simp: drainers_def split: option.splits)

lemma drainers_hand_over:
  "set (drainers (w_loops (hand_over ok c w) l)) \<subseteq>
     set (drainers (w_loops w l)) \<union> {d. ok \<and> call_handle c = Some (l, d)}"
  by (auto simp: set_drainers hand_over_ready split: option.splits if_splits)

lemma call_ok_handle:
  "call_ok p c \<Longrightarrow> call_handle c = Some (l, d) \<Longrightarrow> ev_loop p = Some l \<and> d_events d = ev_callback p"
  by (cases c) auto

lemma loops_ok_alt:
  "loops_ok w \<longleftrightarrow> (\<forall>l. \<forall>d \<in> set (drainers (w_loops w l)).
     ev_loop (w_sink w) = Some l \<and> d_events d = ev_callback (w_sink w))"
  unfolding loops_ok_def by (metis list.set_intros(1) neq_Nil_conv empty_iff list.set(1))

lemma drainers_run:
  "k < length (lp_ready lp) \<Longrightarrow>
     set (drainers (lp\<lparr>lp_ready := take k (lp_ready lp) @ drop (Suc k) (lp_ready lp),
                     lp_draining := Some (lp_ready lp ! k, evs)\<rparr>)) \<subseteq> set (drainers lp)"
  by (auto simp: drainers_def dest: in_set_takeD in_set_dropD)

lemma exec_run_Some:
  "exec_run l k w = Some w' \<longleftrightarrow>
     \<not> lp_closed (w_loops w l) \<and> lp_draining (w_loops w l) = None \<and> k < length (lp_ready (w_loops w l)) \<and>
     w' = upd_loop l
       (\<lambda>lp. lp\<lparr>lp_ready := take k (lp_ready lp) @ drop (Suc k) (lp_ready lp),
               lp_draining := Some (lp_ready lp ! k, eq_pending (ev_queue (w_sink w)))\<rparr>)
       (w\<lparr>w_sink := (w_sink w)\<lparr>ev_queue :=
          (ev_queue (w_sink w))\<lparr>eq_scheduled := False, eq_pending := []\<rparr>\<rparr>\<rparr>)"
  by (cases "lp_draining (w_loops w l)") (auto simp: exec_run_def EventQueue_take_def Let_def)

lemma exec_drainers:
  assumes "exec a w = Some w'" "\<And>t ok. a \<noteq> L_Advance t ok"
  shows "set (drainers (w_loops w' l')) \<subseteq> set (drainers (w_loops w l'))"
proof (cases a)
  case (L_Run l k)
  with assms(1) drainers_run [of k "w_loops w l"] show ?thesis by (auto simp: exec_run_Some)
next
  case (L_Deliver l ok)
  with assms(1) show ?thesis
    by (cases "l' = l") (auto simp: exec_defs set_drainers split: option.splits list.splits)
next
  case (L_Drained l)
  with assms(1) show ?thesis
    by (cases "l' = l") (auto simp: exec_defs set_drainers split: option.splits list.splits)
next
  case (L_Close l)
  with assms(1) show ?thesis
    by (cases "l' = l") (auto simp: exec_defs set_drainers split: if_splits)
qed (use assms in \<open>auto simp: exec_defs split: if_splits\<close>)

lemma loops_ok_exec:
  assumes "exec a w = Some w'" "loops_ok w" "calls_ok w"
  shows "loops_ok w'"
proof -
  have "ev_loop (w_sink w') = Some l \<and> d_events d = ev_callback (w_sink w')"
    if d: "d \<in> set (drainers (w_loops w' l))" for l d
  proof -
    have "ev_loop (w_sink w) = Some l \<and> d_events d = ev_callback (w_sink w)"
    proof (cases "d \<in> set (drainers (w_loops w l))")
      case True
      with assms(2) show ?thesis by (auto simp: loops_ok_alt)
    next
      case False
      with d exec_drainers [OF assms(1)] obtain t ok where "a = L_Advance t ok" by blast
      with assms(1) obtain c where c: "w_calls w t = Some c"
        "w_loops w' = w_loops (hand_over ok c (record_push t c (record_report t c w)))"
        by (auto simp: exec_advance_Some)
      with d False drainers_hand_over [of ok c "record_push t c (record_report t c w)" l]
      have "call_handle c = Some (l, d)" by auto
      with assms(3) c(1) call_ok_handle show ?thesis unfolding calls_ok_def by blast
    qed
    with exec_callback [OF assms(1)] exec_loop [OF assms(1)] show ?thesis by simp
  qed
  thus ?thesis by (simp add: loops_ok_alt)
qed

subsection \<open>Nothing lost, nothing twice\<close>

text \<open>The events a drainer has taken and not yet called back for.\<close>

definition batch :: "py_world \<Rightarrow> QueuedEvent list" where
  "batch w =
     (case ev_loop (w_sink w) of
        None \<Rightarrow> []
      | Some l \<Rightarrow> (case lp_draining (w_loops w l) of None \<Rightarrow> [] | Some (_, evs) \<Rightarrow> evs))"

definition in_transit :: "py_world \<Rightarrow> QueuedEvent list" where
  "in_transit w = batch w @ eq_pending (ev_queue (w_sink w))"

definition conserved :: "py_world \<Rightarrow> bool" where
  "conserved w \<longleftrightarrow> map fst (w_handled w) @ in_transit w = map snd (w_pushed w)"

lemma loops_okD:
  "loops_ok w \<Longrightarrow> d \<in> set (drainers (w_loops w l)) \<Longrightarrow>
     ev_loop (w_sink w) = Some l \<and> d_events d = ev_callback (w_sink w)"
  by (auto simp: loops_ok_alt)

lemma draining_loop:
  "loops_ok w \<Longrightarrow> lp_draining (w_loops w l) = Some (d, evs) \<Longrightarrow>
     ev_loop (w_sink w) = Some l \<and> d_events d = ev_callback (w_sink w)"
  using loops_okD [of w d l] by (simp add: set_drainers)

lemma ready_loop:
  "loops_ok w \<Longrightarrow> k < length (lp_ready (w_loops w l)) \<Longrightarrow>
     ev_loop (w_sink w) = Some l \<and> d_events (lp_ready (w_loops w l) ! k) = ev_callback (w_sink w)"
  using loops_okD [of w "lp_ready (w_loops w l) ! k" l] by (simp add: set_drainers)

lemma conserved_exec:
  assumes "exec a w = Some w'" "loops_ok w" "conserved w"
  shows "conserved w'"
proof (cases a)
  case (L_Advance t ok)
  with assms show ?thesis
    by (auto simp: exec_advance_Some conserved_def in_transit_def batch_def split: option.splits)
next
  case (L_Run l k)
  with assms ready_loop [of w k l] show ?thesis
    by (auto simp: exec_run_Some conserved_def in_transit_def batch_def)
next
  case (L_Deliver l ok)
  with assms draining_loop [of w l] show ?thesis
    by (auto simp: exec_defs conserved_def in_transit_def batch_def split: option.splits list.splits)
next
  case (L_Drained l)
  with assms draining_loop [of w l] show ?thesis
    by (auto simp: exec_defs conserved_def in_transit_def batch_def split: option.splits list.splits)
next
  case (L_Capture l)
  with assms show ?thesis
    by (cases "lp_draining (w_loops w l)")
      (auto simp: exec_defs conserved_def in_transit_def batch_def dest: draining_loop
         split: option.splits if_splits)
next
  case (L_Close l)
  with assms show ?thesis
    by (auto simp: exec_defs conserved_def in_transit_def batch_def split: option.splits if_splits)
qed (use assms in \<open>auto simp: exec_defs conserved_def in_transit_def batch_def
       split: option.splits if_splits\<close>)

text \<open>The session events one thread has queued, those it has reported, and the one on its way.\<close>

fun sessions_from :: "nat \<Rightarrow> (nat \<times> QueuedEvent) list \<Rightarrow> SessionEvent list" where
  "sessions_from t [] = []"
| "sessions_from t ((t', Q_Session ev) # ps) =
     (if t' = t then ev # sessions_from t ps else sessions_from t ps)"
| "sessions_from t ((t', Q_Progress i) # ps) = sessions_from t ps"

definition reported_by :: "nat \<Rightarrow> py_world \<Rightarrow> SessionEvent list" where
  "reported_by t w = map snd (filter (\<lambda>r. fst r = t) (w_reported w))"

definition unpushed :: "nat \<Rightarrow> py_world \<Rightarrow> SessionEvent list" where
  "unpushed t w = (case w_calls w t of Some (S_Push ev) \<Rightarrow> [ev] | _ \<Rightarrow> [])"

definition ordered :: "py_world \<Rightarrow> bool" where
  "ordered w \<longleftrightarrow> (\<forall>t. sessions_from t (w_pushed w) @ unpushed t w = reported_by t w)"

lemma sessions_from_append [simp]:
  "sessions_from t (ps @ qs) = sessions_from t ps @ sessions_from t qs"
  by (induction t ps rule: sessions_from.induct) simp_all

lemma notify_not_push [simp]: "notify ev \<noteq> S_Push e"
  by (cases ev) simp_all

lemma reported_by_record:
  "reported_by t (record_report t' c w) = reported_by t w @
     (case c of S_Start ev \<Rightarrow> if t' = t \<and> ev_callback (w_sink w) \<noteq> None then [ev] else [] | _ \<Rightarrow> [])"
  by (cases c) (auto simp: record_report_def reported_by_def)

lemma reported_by_eq: "w_reported v = w_reported w \<Longrightarrow> reported_by t v = reported_by t w"
  by (simp add: reported_by_def)

lemma advance_unpushed:
  "(case fst (advance ok c p) of Some (S_Push ev) \<Rightarrow> [ev] | _ \<Rightarrow> []) =
     (case c of S_Start ev \<Rightarrow> if ev_callback p \<noteq> None then [ev] else [] | _ \<Rightarrow> [])"
  by (cases c) (auto simp: case_prod_unfold Let_def split: option.splits)

lemma exec_histories:
  "exec a w = Some w' \<Longrightarrow> (\<And>t ok. a \<noteq> L_Advance t ok) \<Longrightarrow>
     w_pushed w' = w_pushed w \<and> w_reported w' = w_reported w"
  by (cases a) (auto simp: exec_defs exec_run_Some Let_def split: if_splits option.splits list.splits)

lemma exec_calls:
  "exec a w = Some w' \<Longrightarrow> (\<And>t ok. a \<noteq> L_Advance t ok) \<Longrightarrow>
     w_calls w' = w_calls w \<or> (\<exists>t ev. w_calls w t = None \<and> w_calls w' = (w_calls w)(t := Some (notify ev)))"
  by (cases a)
    (force simp: exec_notify_def split: if_splits,
     auto simp: exec_defs exec_run_Some Let_def split: if_splits option.splits list.splits)

lemma exec_calls_same:
  "exec a w = Some w' \<Longrightarrow> (\<And>t ok. a \<noteq> L_Advance t ok) \<Longrightarrow> (\<And>t ev. a \<noteq> L_Notify t ev) \<Longrightarrow>
     w_calls w' = w_calls w"
  by (cases a) (auto simp: exec_defs exec_run_Some Let_def split: if_splits option.splits list.splits)

lemma exec_unpushed:
  assumes "exec a w = Some w'" "\<And>t ok. a \<noteq> L_Advance t ok"
  shows "unpushed t w' = unpushed t w"
  using exec_calls [OF assms]
proof
  assume "\<exists>u ev. w_calls w u = None \<and> w_calls w' = (w_calls w)(u := Some (notify ev))"
  then obtain u ev where "w_calls w u = None" "w_calls w' = (w_calls w)(u := Some (notify ev))"
    by blast
  thus ?thesis by (auto simp: unpushed_def split: call.splits)
qed (simp add: unpushed_def)

lemma ordered_exec:
  assumes "exec a w = Some w'" "ordered w"
  shows "ordered w'"
proof (cases a)
  case (L_Advance t ok)
  with assms obtain c where c: "w_calls w t = Some c"
    "w_sink w' = snd (advance ok c (w_sink w))"
    "w_calls w' = (w_calls w)(t := fst (advance ok c (w_sink w)))"
    "w_pushed w' = w_pushed w @ (case call_push c of None \<Rightarrow> [] | Some ev \<Rightarrow> [(t, ev)])"
    "w_reported w' = w_reported (record_report t c w)"
    by (auto simp: exec_advance_Some)
  show ?thesis unfolding ordered_def
  proof
    fix t'
    have rep: "reported_by t' w' = reported_by t' (record_report t c w)"
      using c(5) by (rule reported_by_eq)
    from assms(2) have "sessions_from t' (w_pushed w) @ unpushed t' w = reported_by t' w"
      by (simp add: ordered_def)
    moreover have "unpushed t w' = (case c of
        S_Start ev \<Rightarrow> if ev_callback (w_sink w) \<noteq> None then [ev] else [] | _ \<Rightarrow> [])"
      by (simp add: unpushed_def c(3) advance_unpushed)
    moreover have "t' \<noteq> t \<Longrightarrow> unpushed t' w' = unpushed t' w"
      by (simp add: unpushed_def c(3))
    ultimately show "sessions_from t' (w_pushed w') @ unpushed t' w' = reported_by t' w'"
      using c(1) unfolding rep reported_by_record c(4)
      by (cases "t' = t"; cases c) (simp_all add: unpushed_def)
  qed
qed (use assms exec_histories [OF assms(1)] exec_unpushed [OF assms(1)] in
      \<open>auto simp: ordered_def reported_by_def\<close>)

subsection \<open>A raised flag has a signal behind it\<close>

text \<open>A call that has flipped the flag and not yet returned.\<close>

fun signals :: "call \<Rightarrow> bool" where
  "signals (S_Start ev) = False"
| "signals (S_Push ev) = False"
| "signals (P_Start i) = False"
| "signals (P_Callback i) = False"
| "signals (P_Loop i cb) = False"
| "signals (P_Push i cb l) = False"
| "signals c = True"

definition woken :: "py_world \<Rightarrow> bool" where
  "woken w \<longleftrightarrow>
     (eq_scheduled (ev_queue (w_sink w)) \<longrightarrow>
        (\<exists>t c. w_calls w t = Some c \<and> signals c) \<or>
        (\<exists>l. ev_loop (w_sink w) = Some l \<and> (lp_ready (w_loops w l) \<noteq> [] \<or> lp_closed (w_loops w l))))"

lemma advance_scheduled:
  "eq_scheduled (ev_queue (snd (advance ok c p))) \<Longrightarrow>
     (\<exists>c'. fst (advance ok c p) = Some c' \<and> signals c') \<or> (ok \<and> call_handle c \<noteq> None) \<or>
     (eq_scheduled (ev_queue p) \<and> \<not> signals c)"
  by (cases c) (auto simp: case_prod_unfold Let_def split: option.splits if_splits)

definition has_work :: "py_loop \<Rightarrow> bool" where
  "has_work lp \<longleftrightarrow> lp_ready lp \<noteq> [] \<or> lp_closed lp"

lemma woken_mono:
  assumes "woken w" "eq_scheduled (ev_queue (w_sink w')) \<Longrightarrow> eq_scheduled (ev_queue (w_sink w))"
    and "\<And>t c. w_calls w t = Some c \<Longrightarrow> w_calls w' t = Some c"
    and "\<And>l. ev_loop (w_sink w) = Some l \<Longrightarrow> ev_loop (w_sink w') = Some l"
    and "\<And>l. has_work (w_loops w l) \<Longrightarrow> has_work (w_loops w' l)"
  shows "woken w'"
  using assms unfolding woken_def has_work_def by meson

lemma exec_scheduled:
  "exec a w = Some w' \<Longrightarrow> (\<And>t ok. a \<noteq> L_Advance t ok) \<Longrightarrow>
     eq_scheduled (ev_queue (w_sink w')) \<Longrightarrow> eq_scheduled (ev_queue (w_sink w))"
  by (cases a) (auto simp: exec_defs exec_run_Some Let_def split: if_splits option.splits list.splits)

lemma exec_has_work:
  assumes "exec a w = Some w'" "\<And>t ok. a \<noteq> L_Advance t ok" "\<And>l k. a \<noteq> L_Run l k"
    and "has_work (w_loops w l)"
  shows "has_work (w_loops w' l)"
proof (cases a)
  case (L_Deliver l' ok)
  with assms show ?thesis by (auto simp: exec_defs has_work_def split: option.splits list.splits)
next
  case (L_Drained l')
  with assms show ?thesis by (auto simp: exec_defs has_work_def split: option.splits list.splits)
next
  case (L_Close l')
  with assms show ?thesis by (auto simp: exec_defs has_work_def split: if_splits)
qed (use assms in \<open>auto simp: exec_defs split: if_splits\<close>)

lemma exec_keeps_calls:
  "exec a w = Some w' \<Longrightarrow> (\<And>t ok. a \<noteq> L_Advance t ok) \<Longrightarrow> w_calls w t = Some c \<Longrightarrow>
     w_calls w' t = Some c"
  by (drule exec_calls) auto

lemma woken_exec:
  assumes "exec a w = Some w'" "woken w" "loops_ok w" "calls_ok w"
  shows "woken w'"
proof (cases a)
  case (L_Advance t ok)
  with assms(1) obtain c where c: "w_calls w t = Some c"
    "w_sink w' = snd (advance ok c (w_sink w))"
    "w_calls w' = (w_calls w)(t := fst (advance ok c (w_sink w)))"
    and loops: "w_loops w' = w_loops (hand_over ok c (record_push t c (record_report t c w)))"
    by (auto simp: exec_advance_Some)
  show ?thesis unfolding woken_def
  proof
    assume s: "eq_scheduled (ev_queue (w_sink w'))"
    from advance_scheduled [OF s [unfolded c(2)]]
    show "(\<exists>t c. w_calls w' t = Some c \<and> signals c) \<or> (\<exists>l. ev_loop (w_sink w') = Some l \<and>
        (lp_ready (w_loops w' l) \<noteq> [] \<or> lp_closed (w_loops w' l)))"
    proof (elim disjE exE conjE)
      fix c' assume "fst (advance ok c (w_sink w)) = Some c'" "signals c'"
      thus ?thesis by (intro disjI1 exI [of _ t] exI [of _ c']) (simp add: c(3))
    next
      assume "ok" "call_handle c \<noteq> None"
      then obtain l d where h: "call_handle c = Some (l, d)" by auto
      moreover have "ev_loop (w_sink w) = Some l"
        using assms(4) c(1) h call_ok_handle unfolding calls_ok_def by blast
      ultimately show ?thesis using \<open>ok\<close> by (simp add: c(2) loops hand_over_ready)
    next
      assume q: "eq_scheduled (ev_queue (w_sink w))" "\<not> signals c"
      with assms(2) consider t' c' where "w_calls w t' = Some c'" "signals c'"
        | l where "ev_loop (w_sink w) = Some l"
            "lp_ready (w_loops w l) \<noteq> [] \<or> lp_closed (w_loops w l)"
        unfolding woken_def by blast
      thus ?thesis
      proof cases
        case 1
        with c(1) q(2) have "t' \<noteq> t" by auto
        with 1 show ?thesis by (intro disjI1 exI [of _ t'] exI [of _ c']) (simp add: c(3))
      next
        case 2
        thus ?thesis by (auto simp: c(2) loops hand_over_ready)
      qed
    qed
  qed
next
  case (L_Run l k)
  with assms(1,2) show ?thesis by (auto simp: exec_run_Some woken_def)
qed (rule woken_mono [OF assms(2)];
      use exec_scheduled [OF assms(1)] exec_keeps_calls [OF assms(1)] exec_loop [OF assms(1)]
        exec_has_work [OF assms(1)] in simp)+

subsection \<open>A closed loop does nothing\<close>

definition closed_idle :: "py_world \<Rightarrow> bool" where
  "closed_idle w \<longleftrightarrow> (\<forall>l. lp_closed (w_loops w l) \<longrightarrow> drainers (w_loops w l) = [])"

lemma closed_exec:
  "exec a w = Some w' \<Longrightarrow> lp_closed (w_loops w l) \<Longrightarrow> lp_closed (w_loops w' l)"
  by (cases a) (auto simp: exec_defs exec_run_Some exec_advance_Some Let_def
    split: if_splits option.splits list.splits)

lemma closed_idle_exec:
  assumes "exec a w = Some w'" "closed_idle w"
  shows "closed_idle w'"
proof (cases a)
  case (L_Advance t ok)
  with assms show ?thesis
    by (fastforce simp: exec_advance_Some closed_idle_def drainers_empty hand_over_ready may_answer_def
          split: option.splits if_splits)
next
  case (L_Close l)
  with assms show ?thesis
    by (auto simp: exec_defs closed_idle_def drainers_empty split: if_splits)
next
  case (L_Run l k)
  with assms show ?thesis by (auto simp: exec_run_Some closed_idle_def drainers_empty)
next
  case (L_Deliver l ok)
  with assms show ?thesis
    by (auto simp: exec_defs closed_idle_def drainers_empty split: option.splits list.splits)
next
  case (L_Drained l)
  with assms show ?thesis
    by (auto simp: exec_defs closed_idle_def drainers_empty split: option.splits list.splits)
qed (use assms in \<open>auto simp: exec_defs closed_idle_def split: if_splits\<close>)

subsection \<open>Each event to its own callback\<close>

definition session_outcome_ok :: "py_obj option \<Rightarrow> QueuedEvent \<times> delivery \<Rightarrow> bool" where
  "session_outcome_ok cb r =
     (case r of (Q_Session ev, oc) \<Rightarrow> oc = Failed \<or> (\<exists>c. cb = Some c \<and> oc = Called c) | _ \<Rightarrow> True)"

definition sessions_wanted :: "py_world \<Rightarrow> bool" where
  "sessions_wanted w \<longleftrightarrow>
     (\<forall>t ev. (t, Q_Session ev) \<in> set (w_pushed w) \<longrightarrow> ev_callback (w_sink w) \<noteq> None)"

definition routed :: "py_world \<Rightarrow> bool" where
  "routed w \<longleftrightarrow> (\<forall>r \<in> set (w_handled w). session_outcome_ok (ev_callback (w_sink w)) r)"

lemma sessions_wanted_exec:
  assumes "exec a w = Some w'" "sessions_wanted w" "calls_ok w"
  shows "sessions_wanted w'"
proof (cases a)
  case (L_Advance t ok)
  with assms obtain c where c: "w_calls w t = Some c"
    "w_sink w' = snd (advance ok c (w_sink w))"
    "w_pushed w' = w_pushed w @ (case call_push c of None \<Rightarrow> [] | Some ev \<Rightarrow> [(t, ev)])"
    by (auto simp: exec_advance_Some)
  from assms(3) c(1) have "call_ok (w_sink w) c" by (simp add: calls_ok_def)
  moreover have "ev_callback (w_sink w') = ev_callback (w_sink w)" using c(2) by simp
  ultimately show ?thesis
    using assms(2) c(3) unfolding sessions_wanted_def by (cases c) (auto simp del: advance.simps)
qed (use assms exec_callback [OF assms(1)] exec_histories [OF assms(1)] in
      \<open>auto simp: sessions_wanted_def\<close>)

lemma deliver_session:
  "d_events d = Some cb \<Longrightarrow> session_outcome_ok (Some cb) (ev, deliver ok d ev)"
  by (cases ev) (auto simp: session_outcome_ok_def)

lemma session_outcome_ok_progress [simp]: "session_outcome_ok cb (Q_Progress i, oc)"
  by (simp add: session_outcome_ok_def)

lemma routed_exec:
  assumes "exec a w = Some w'" "routed w" "loops_ok w" "conserved w" "sessions_wanted w"
  shows "routed w'"
proof (cases "\<exists>l ok. a = L_Deliver l ok")
  case True
  then obtain l ok where "a = L_Deliver l ok" by blast
  with assms(1) obtain d ev evs where d: "lp_draining (w_loops w l) = Some (d, ev # evs)"
    "w_handled w' = w_handled w @ [(ev, deliver ok d ev)]" "w_sink w' = w_sink w"
    by (auto simp: exec_defs split: option.splits list.splits)
  from draining_loop [OF assms(3) d(1)] d(1) have "batch w = ev # evs" by (simp add: batch_def)
  with assms(4) have "ev \<in> set (map snd (w_pushed w))"
    by (auto simp: conserved_def in_transit_def simp flip: set_map)
      (metis UnCI list.set_intros(1) set_append)
  then obtain t where "(t, ev) \<in> set (w_pushed w)" by auto
  with assms(5) draining_loop [OF assms(3) d(1)]
  have "session_outcome_ok (ev_callback (w_sink w)) (ev, deliver ok d ev)"
    by (cases ev) (auto simp: sessions_wanted_def intro: deliver_session simp del: deliver.simps)
  with assms(2) d(2,3) show ?thesis by (simp add: routed_def)
next
  case False
  with assms(1) have "w_handled w' = w_handled w"
    by (cases a) (auto simp: exec_defs exec_run_Some exec_advance_Some Let_def
      split: if_splits option.splits list.splits)
  with assms(2) exec_callback [OF assms(1)] show ?thesis by (simp add: routed_def)
qed

subsection \<open>Reachable worlds\<close>

definition world_inv :: "py_world \<Rightarrow> bool" where
  "world_inv w \<longleftrightarrow> calls_ok w \<and> loops_ok w \<and> conserved w \<and> ordered w \<and> woken w \<and> closed_idle w \<and>
     sessions_wanted w \<and> routed w"

lemma world_inv_exec: "exec a w = Some w' \<Longrightarrow> world_inv w \<Longrightarrow> world_inv w'"
  unfolding world_inv_def
  by (elim conjE, intro conjI)
    (blast intro: calls_ok_exec loops_ok_exec conserved_exec ordered_exec woken_exec
       closed_idle_exec sessions_wanted_exec routed_exec)+

lemma world_inv_init: "world_inv (py_world_init cb)"
  by (simp add: world_inv_def py_world_init_def calls_ok_def loops_ok_alt conserved_def ordered_def
      woken_def closed_idle_def sessions_wanted_def routed_def PyEvents_new_def EventQueue_default_def
      in_transit_def batch_def reported_by_def unpushed_def)

lemma world_inv_run: "py_run w0 as w \<Longrightarrow> world_inv w0 \<Longrightarrow> world_inv w"
  by (induction rule: py_run.induct) (auto intro: world_inv_exec)

lemma callback_run: "py_run w0 as w \<Longrightarrow> ev_callback (w_sink w) = ev_callback (w_sink w0)"
  by (induction rule: py_run.induct) (simp_all add: exec_callback)

lemma world_reachable:
  assumes "py_run (py_world_init cb) as w"
  shows "world_inv w" "ev_callback (w_sink w) = cb"
  using world_inv_run [OF assms world_inv_init] callback_run [OF assms]
  by (simp_all add: py_world_init_def PyEvents_new_def)

subsection \<open>What the threads were asked to report\<close>

text \<open>The session events the core notifies from one thread, read off the history.\<close>

definition session_of :: "event \<Rightarrow> SessionEvent list" where
  "session_of ev = (case notify ev of S_Start e \<Rightarrow> [e] | _ \<Rightarrow> [])"

fun notified :: "nat \<Rightarrow> py_label list \<Rightarrow> SessionEvent list" where
  "notified t [] = []"
| "notified t (L_Notify t' ev # as) = (if t' = t then session_of ev else []) @ notified t as"
| "notified t (a # as) = notified t as"

text \<open>The one event of a thread on its way into the queue.\<close>

definition on_its_way :: "nat \<Rightarrow> py_world \<Rightarrow> SessionEvent list" where
  "on_its_way t w =
     (case w_calls w t of Some (S_Start ev) \<Rightarrow> [ev] | Some (S_Push ev) \<Rightarrow> [ev] | _ \<Rightarrow> [])"

definition starting :: "nat \<Rightarrow> py_world \<Rightarrow> SessionEvent list" where
  "starting t w = (case w_calls w t of Some (S_Start ev) \<Rightarrow> [ev] | _ \<Rightarrow> [])"

lemma on_its_way_split: "on_its_way t w = unpushed t w @ starting t w"
  by (simp add: on_its_way_def unpushed_def starting_def split: option.split call.split)

lemma notified_append [simp]: "notified t (as @ bs) = notified t as @ notified t bs"
  by (induction t as rule: notified.induct) simp_all

lemma starting_notify:
  "w_calls w t = None \<Longrightarrow> w_calls w' = (w_calls w)(t := Some (notify ev)) \<Longrightarrow>
     starting t' w' = starting t' w @ (if t = t' then session_of ev else [])"
  by (auto simp: starting_def session_of_def)

lemma advance_not_start: "fst (advance ok c p) \<noteq> Some (S_Start ev)"
  by (cases c) (auto simp: case_prod_unfold Let_def split: option.splits)

lemma reported_notified:
  assumes "py_run (py_world_init (Some cb)) as w"
  shows "reported_by t w @ starting t w = notified t as"
  using assms
proof (induction rule: py_run.induct)
  case py_run_start
  show ?case by (simp add: reported_by_def starting_def py_world_init_def)
next
  case (py_run_step as v a v')
  note IH = py_run_step.IH and step = py_run_step.hyps(2)
  have cb: "ev_callback (w_sink v) = Some cb" using world_reachable(2) [OF py_run_step.hyps(1)] .
  show ?case
  proof (cases "\<exists>u ok. a = L_Advance u ok")
    case True
    then obtain u ok where a: "a = L_Advance u ok" by blast
    with step obtain c where c: "w_calls v u = Some c"
      "w_calls v' = (w_calls v)(u := fst (advance ok c (w_sink v)))"
      "w_reported v' = w_reported (record_report u c v)"
      by (auto simp: exec_advance_Some)
    have "starting u v' = []"
      using advance_not_start [of ok c "w_sink v"]
      by (auto simp: starting_def c(2) split: option.split call.split)
    moreover have "t \<noteq> u \<Longrightarrow> starting t v' = starting t v" by (simp add: starting_def c(2))
    ultimately show ?thesis
      using IH cb c(1) reported_by_eq [OF c(3), of t] unfolding reported_by_record a
      by (cases "t = u"; cases c) (simp_all add: starting_def)
  next
    case False
    with exec_histories [OF step] have rep: "reported_by t v' = reported_by t v"
      by (simp add: reported_by_def)
    show ?thesis
    proof (cases "\<exists>u ev. a = L_Notify u ev")
      case True
      then obtain u ev where "a = L_Notify u ev" by blast
      with step IH rep starting_notify [of v u v' ev t] show ?thesis
        by (auto simp: exec_notify_def split: if_splits)
    next
      case no: False
      with False have "w_calls v' = w_calls v" using exec_calls_same [OF step] by blast
      moreover have "notified t [a] = []" using no by (cases a) auto
      ultimately show ?thesis using IH rep by (simp add: starting_def)
    qed
  qed
qed

subsection \<open>The properties\<close>

text \<open>
  C16: No session event is lost, delivered twice or reordered. However the reporting threads, the
  installation of callbacks and the event loops interleave, what has been handled on the loop
  thread, then what a drainer has taken, then what still waits in the queue, is exactly what was
  queued, in that order; and for each thread, the session events it queued and the one it is just
  about to queue are exactly those the core notified from it, converted, in the order of the
  notifications. Every handled session event was passed to the session's own event callback (or
  could not be made into a Python object).
\<close>

theorem session_events_delivered_once:
  assumes "py_run (py_world_init (Some cb)) as w"
  shows "map fst (w_handled w) @ in_transit w = map snd (w_pushed w) \<and>
    (\<forall>t. sessions_from t (w_pushed w) @ on_its_way t w = notified t as) \<and>
    (\<forall>ev oc. (Q_Session ev, oc) \<in> set (w_handled w) \<longrightarrow> oc = Called cb \<or> oc = Failed)"
proof (intro conjI allI)
  note inv = world_reachable [OF assms]
  show "map fst (w_handled w) @ in_transit w = map snd (w_pushed w)"
    using inv(1) by (simp add: world_inv_def conserved_def)
  show "(Q_Session ev, oc) \<in> set (w_handled w) \<longrightarrow> oc = Called cb \<or> oc = Failed" for ev oc
    using inv by (auto simp: world_inv_def routed_def session_outcome_ok_def)
  fix t
  have "sessions_from t (w_pushed w) @ unpushed t w = reported_by t w"
    using inv(1) by (simp add: world_inv_def ordered_def)
  with reported_notified [OF assms, of t]
  show "sessions_from t (w_pushed w) @ on_its_way t w = notified t as"
    unfolding on_its_way_split append_assoc [symmetric] by simp
qed

text \<open>Two threads report; the batch is delivered by one drainer.\<close>

definition demo_trace :: "py_label list" where
  "demo_trace =
     [L_SetProgress (Some 2), L_Capture 7, L_Notify 0 JobFinished, L_Advance 0 True,
      L_Advance 0 True, L_Notify 1 (CommandDone 5), L_Advance 1 True, L_Advance 1 True,
      L_Advance 1 True, L_Advance 1 True, L_Advance 0 True, L_Advance 0 True, L_Advance 0 True,
      L_Notify 1 (RawTx ''G0''), L_Advance 1 True, L_Advance 1 True,
      L_Run 7 0, L_Deliver 7 True, L_Deliver 7 True, L_Deliver 7 False, L_Drained 7]"

definition demo_world :: "py_world" where
  "demo_world = the (exec_all demo_trace (py_world_init (Some 1)))"

lemmas exec_run_simps = exec_defs exec_advance_def py_world_init_def PyEvents_new_def
  EventQueue_default_def fresh_loop_def may_answer_def record_report_def record_push_def
  hand_over_def upd_loop_def pe_push_def pe_unschedule_def EventQueue_push_def
  EventQueue_unschedule_def Let_def

lemma demo_run:
  "\<exists>w. exec_all demo_trace (py_world_init (Some 1)) = Some w \<and>
     w_handled w = [(Q_Session E_JobFinished, Called 1), (Q_Progress 5, Called 2),
       (Q_Session (E_RawTx ''G0''), Failed)] \<and>
     w_pushed w = [(0, Q_Session E_JobFinished), (1, Q_Progress 5), (1, Q_Session (E_RawTx ''G0''))] \<and>
     ev_loop (w_sink w) = Some 7 \<and> \<not> lp_closed (w_loops w 7) \<and> lp_draining (w_loops w 7) = None \<and>
     w_calls w = (\<lambda>t. None)"
  by (simp add: demo_trace_def exec_run_simps fun_eq_iff)

lemma demo_world_run: "py_run (py_world_init (Some 1)) demo_trace demo_world"
  using demo_run by (auto simp: demo_world_def py_run_exec_all)

lemma demo_world_facts:
  "w_handled demo_world = [(Q_Session E_JobFinished, Called 1), (Q_Progress 5, Called 2),
     (Q_Session (E_RawTx ''G0''), Failed)]"
  "w_pushed demo_world =
     [(0, Q_Session E_JobFinished), (1, Q_Progress 5), (1, Q_Session (E_RawTx ''G0''))]"
  "ev_loop (w_sink demo_world) = Some 7" "\<not> lp_closed (w_loops demo_world 7)"
  "lp_draining (w_loops demo_world 7) = None" "w_calls demo_world = (\<lambda>t. None)"
  using demo_run by (auto simp: demo_world_def)

theorem session_events_delivered_once_witness:
  "notified 1 demo_trace = [E_RawTx ''G0''] \<and> in_transit demo_world = [] \<and>
     map fst (w_handled demo_world) = map snd (w_pushed demo_world)"
proof -
  note once = session_events_delivered_once [OF demo_world_run]
  from once have "sessions_from 1 (w_pushed demo_world) @ on_its_way 1 demo_world = notified 1 demo_trace"
    by blast
  with once show ?thesis by (simp add: demo_world_facts on_its_way_def)
qed

text \<open>A drainer that has taken its batch can call back for all of it.\<close>

lemma drain_all:
  "lp_draining (w_loops w l) = Some (d, evs) \<Longrightarrow>
     \<exists>as w'. exec_all as w = Some w' \<and> w_sink w' = w_sink w \<and> w_calls w' = w_calls w \<and>
       w_pushed w' = w_pushed w \<and> lp_draining (w_loops w' l) = None"
proof (induction evs arbitrary: w)
  case Nil
  thus ?case by (intro exI [of _ "[L_Drained l]"]) (simp add: exec_drained_def)
next
  case (Cons ev evs)
  define w1 where "w1 = upd_loop l (\<lambda>lp. lp\<lparr>lp_draining := Some (d, evs)\<rparr>)
    (w\<lparr>w_handled := w_handled w @ [(ev, deliver True d ev)]\<rparr>)"
  have "exec (L_Deliver l True) w = Some w1"
    using Cons.prems by (simp add: exec_deliver_def w1_def)
  moreover have "lp_draining (w_loops w1 l) = Some (d, evs)" "w_sink w1 = w_sink w"
    "w_calls w1 = w_calls w" "w_pushed w1 = w_pushed w"
    by (simp_all add: w1_def)
  moreover from Cons.IH [OF this(1)] obtain as w' where "exec_all as w1 = Some w'"
    "w_sink w' = w_sink w1" "w_calls w' = w_calls w1" "w_pushed w' = w_pushed w1"
    "lp_draining (w_loops w' l) = None"
    by blast
  ultimately show ?case by (intro exI [of _ "L_Deliver l True # as"] exI [of _ w']) simp
qed

text \<open>A loop with a drainer to run can empty the queue.\<close>

lemma run_empties:
  assumes "lp_ready (w_loops w l) \<noteq> []" "lp_draining (w_loops w l) = None"
    "\<not> lp_closed (w_loops w l)" "ev_loop (w_sink w) = Some l"
  shows "\<exists>as w'. exec_all as w = Some w' \<and> in_transit w' = [] \<and> w_pushed w' = w_pushed w"
proof -
  from assms obtain w1 where w1: "exec (L_Run l 0) w = Some w1" by (simp add: exec_run_Some)
  with assms have "lp_draining (w_loops w1 l) = Some (lp_ready (w_loops w l) ! 0, eq_pending (ev_queue (w_sink w)))"
    "eq_pending (ev_queue (w_sink w1)) = []" "w_pushed w1 = w_pushed w" "ev_loop (w_sink w1) = Some l"
    by (auto simp: exec_run_Some)
  moreover from drain_all [OF this(1)] obtain as w' where "exec_all as w1 = Some w'"
    "w_sink w' = w_sink w1" "w_pushed w' = w_pushed w1" "lp_draining (w_loops w' l) = None"
    by blast
  ultimately show ?thesis
    by (intro exI [of _ "L_Run l 0 # as"] exI [of _ w']) (use w1 in \<open>simp add: in_transit_def batch_def\<close>)
qed

text \<open>A report to an idle session's sink leaves its event queued and a drainer on the loop.\<close>

lemma report_signals:
  assumes "w_calls w t = None" "notify ev = S_Start e" "ev_callback (w_sink w) = Some cb"
    and "ev_loop (w_sink w) = Some l" "\<not> lp_closed (w_loops w l)"
    and "eq_scheduled (ev_queue (w_sink w)) \<Longrightarrow> lp_ready (w_loops w l) \<noteq> []"
  shows "\<exists>as w'. exec_all as w = Some w' \<and> w_pushed w' = w_pushed w @ [(t, Q_Session e)] \<and>
    lp_ready (w_loops w' l) \<noteq> [] \<and> lp_draining (w_loops w' l) = lp_draining (w_loops w l) \<and>
    \<not> lp_closed (w_loops w' l) \<and> ev_loop (w_sink w') = Some l"
proof (cases "eq_scheduled (ev_queue (w_sink w))")
  case True
  with assms show ?thesis
    by (intro exI [of _ "[L_Notify t ev, L_Advance t True, L_Advance t True]"])
      (simp add: exec_run_simps)
next
  case False
  with assms show ?thesis
    by (intro exI [of _ "L_Notify t ev # replicate 5 (L_Advance t True)"])
      (simp add: exec_run_simps numeral_eq_Suc)
qed

text \<open>
  C17: The queue never wedges. In every reachable world whose captured loop is open and idle and
  where no reporting call is in flight, whatever failed before (a signal refused by the loop, a
  drainer that could not be created, events queued while no loop was known), the next session
  event any thread reports can be delivered, together with everything that was still queued.
\<close>

theorem next_report_flushes_queue:
  assumes "py_run (py_world_init (Some cb)) as w" "w_calls w = (\<lambda>t. None)"
    and "ev_loop (w_sink w) = Some l" "\<not> lp_closed (w_loops w l)" "lp_draining (w_loops w l) = None"
    and "notify ev = S_Start e"
  shows "\<exists>bs w'. py_run w bs w' \<and> in_transit w' = [] \<and>
    map fst (w_handled w') = map snd (w_pushed w) @ [Q_Session e]"
proof -
  note inv = world_reachable [OF assms(1)]
  have "eq_scheduled (ev_queue (w_sink w)) \<Longrightarrow> lp_ready (w_loops w l) \<noteq> []"
    using inv(1) assms(2-4) by (simp add: world_inv_def woken_def)
  with report_signals [of w t ev e cb l for t] assms(2-6) inv(2)
  obtain as1 w1 where w1: "exec_all as1 w = Some w1" "w_pushed w1 = w_pushed w @ [(0, Q_Session e)]"
    "lp_ready (w_loops w1 l) \<noteq> []" "lp_draining (w_loops w1 l) = None" "\<not> lp_closed (w_loops w1 l)"
    "ev_loop (w_sink w1) = Some l"
    by (metis (no_types, lifting))
  from run_empties [OF w1(3-6)] obtain as2 w2 where
    w2: "exec_all as2 w1 = Some w2" "in_transit w2 = []" "w_pushed w2 = w_pushed w1"
    by blast
  have run: "py_run w (as1 @ as2) w2" using w1(1) w2(1) by (simp add: py_run_exec_all exec_all_append)
  from world_inv_run [OF this inv(1)] w1(2) w2(2,3)
  have "map fst (w_handled w2) = map snd (w_pushed w) @ [Q_Session e]"
    by (simp add: world_inv_def conserved_def)
  with run w2(2) show ?thesis by blast
qed

theorem next_report_flushes_queue_witness:
  "\<exists>bs w'. py_run demo_world bs w' \<and> in_transit w' = [] \<and>
     map fst (w_handled w') = [Q_Session E_JobFinished, Q_Progress 5, Q_Session (E_RawTx ''G0''),
       Q_Session (E_ProbeStatusChanged ''ok'')]"
  using next_report_flushes_queue [OF demo_world_run, of 7 "ProbeStatus ''ok''" "E_ProbeStatusChanged ''ok''"]
  by (simp add: demo_world_facts)

text \<open>
  One signal per batch, whatever the volume of events. In any history of pushes and drains of
  a fresh queue, the batches and what still waits are the events pushed, in order, and the pushes
  that told their caller to signal the loop are exactly as many as the batches that held events,
  plus one if events still wait.
\<close>

theorem one_signal_per_batch:
  assumes "queue_run EventQueue_push EventQueue_take ops EventQueue_default = (evs, n, batches, q)"
  shows "concat batches @ eq_pending q = evs \<and>
    n = length (filter (\<lambda>b. b \<noteq> []) batches) + of_bool (eq_pending q \<noteq> [])"
  using event_queue.batches_conserve [OF assms] event_queue.one_wake_per_batch [OF assms]
  by (simp add: EventQueue_default_def)

theorem one_signal_per_batch_witness:
  "of_bool True + length (filter (\<lambda>b. b \<noteq> []) [[Q_Progress 1, Q_Progress 2], []]) = (2 :: nat) \<and>
   concat [[Q_Progress 1, Q_Progress 2], []] @ [Q_Progress 3] = [Q_Progress 1, Q_Progress 2, Q_Progress 3]"
  using one_signal_per_batch [of "[Put (Q_Progress 1), Put (Q_Progress 2), Drain, Drain, Put (Q_Progress 3)]"
      "[Q_Progress 1, Q_Progress 2, Q_Progress 3]" 2 "[[Q_Progress 1, Q_Progress 2], []]"
      "\<lparr>eq_pending = [Q_Progress 3], eq_scheduled = True\<rparr>"]
  by (simp add: EventQueue_push_def EventQueue_take_def EventQueue_default_def)

subsection \<open>A closed loop\<close>

lemma closed_loop_silent:
  assumes "exec a w = Some w'" "world_inv w" "ev_loop (w_sink w) = Some l" "lp_closed (w_loops w l)"
  shows "w_handled w' = w_handled w"
proof (cases "\<exists>l' ok. a = L_Deliver l' ok")
  case True
  then obtain l' ok where "a = L_Deliver l' ok" by blast
  with assms(1) obtain d evs where d: "lp_draining (w_loops w l') = Some (d, evs)"
    by (auto simp: exec_defs split: option.splits)
  with assms(2,3) draining_loop [OF _ d] have "l' = l" by (auto simp: world_inv_def)
  with assms(2,4) d show ?thesis by (auto simp: world_inv_def closed_idle_def drainers_empty)
next
  case False
  with assms(1) show ?thesis
    by (cases a) (auto simp: exec_defs exec_run_Some exec_advance_Some Let_def
      split: if_splits option.splits list.splits)
qed

text \<open>
  A session never outlives the event loop it first connected from. Once the captured loop is
  closed, nothing is ever delivered again, whatever is reported, however often
  \<^verbatim>\<open>connect\<close> is called from another running loop and whichever progress callback is
  installed; the reports are accepted and queued all the same.
\<close>

theorem nothing_delivered_after_close:
  assumes "py_run (py_world_init cb) as w" "ev_loop (w_sink w) = Some l" "lp_closed (w_loops w l)"
    and "py_run w bs w'"
  shows "w_handled w' = w_handled w"
  using assms(4)
proof (induction rule: py_run.induct)
  case (py_run_step as' v a v')
  from py_run_step.hyps(1) have "ev_loop (w_sink v) = Some l \<and> lp_closed (w_loops v l)"
    by (induction rule: py_run.induct) (use assms(2,3) exec_loop closed_exec in auto)
  moreover have "world_inv v"
    using world_inv_run [OF py_run_step.hyps(1)] world_reachable(1) [OF assms(1)] by blast
  ultimately show ?case using closed_loop_silent py_run_step by metis
qed simp

definition closed_world :: "py_world" where
  "closed_world = the (exec_all (demo_trace @ [L_Close 7]) (py_world_init (Some 1)))"

definition second_loop_trace :: "py_label list" where
  "second_loop_trace =
     [L_Capture 8, L_Notify 0 JobFinished, L_Advance 0 True, L_Advance 0 True, L_Advance 0 True,
      L_Advance 0 True, L_Advance 0 False, L_Advance 0 True]"

lemma closed_world_run:
  "py_run (py_world_init (Some 1)) (demo_trace @ [L_Close 7]) closed_world"
  "ev_loop (w_sink closed_world) = Some 7" "lp_closed (w_loops closed_world 7)"
  "w_handled closed_world = w_handled demo_world"
  by (simp_all add: py_run_exec_all closed_world_def demo_world_def demo_trace_def exec_run_simps)

theorem nothing_delivered_after_close_witness:
  "\<exists>w'. exec_all second_loop_trace closed_world = Some w' \<and>
     eq_pending (ev_queue (w_sink w')) = [Q_Session E_JobFinished] \<and>
     w_handled w' = w_handled demo_world"
proof -
  obtain w' where w': "exec_all second_loop_trace closed_world = Some w'"
    "eq_pending (ev_queue (w_sink w')) = [Q_Session E_JobFinished]"
    by (simp add: second_loop_trace_def closed_world_def demo_trace_def exec_run_simps)
  with nothing_delivered_after_close [OF closed_world_run(1-3), of second_loop_trace w']
  show ?thesis by (auto simp: py_run_exec_all closed_world_run(4))
qed

subsection \<open>Progress reports\<close>

text \<open>Every drainer and every progress call in flight carries the callback \<open>p\<close>.\<close>

fun call_progress :: "py_obj \<Rightarrow> call \<Rightarrow> bool" where
  "call_progress p (S_Call l d) = (d_progress d = Some p)"
| "call_progress p (P_Loop i cb) = (cb = p)"
| "call_progress p (P_Push i cb l) = (cb = p)"
| "call_progress p (P_Drainer cb l) = (cb = p)"
| "call_progress p (P_Call l d) = (d_progress d = Some p)"
| "call_progress p c = True"

definition progress_ok :: "py_obj \<Rightarrow> py_world \<Rightarrow> bool" where
  "progress_ok p w \<longleftrightarrow>
     ev_progress (w_sink w) = Some p \<and>
     (\<forall>t c. w_calls w t = Some c \<longrightarrow> call_progress p c) \<and>
     (\<forall>l. \<forall>d \<in> set (drainers (w_loops w l)). d_progress d = Some p) \<and>
     (\<forall>i oc. (Q_Progress i, oc) \<in> set (w_handled w) \<longrightarrow> oc = Called p)"

lemma call_progress_advance:
  "call_progress p c \<Longrightarrow> ev_progress s = Some p \<Longrightarrow> fst (advance ok c s) = Some c' \<Longrightarrow>
     call_progress p c'"
  by (cases c) (auto simp: case_prod_unfold Let_def split: option.splits if_splits)

lemma call_progress_notify [simp]: "call_progress p (notify ev)"
  by (cases ev) simp_all

lemma call_progress_handle:
  "call_progress p c \<Longrightarrow> call_handle c = Some (l, d) \<Longrightarrow> d_progress d = Some p"
  by (cases c) auto

lemma deliver_progress [simp]: "d_progress d = Some p \<Longrightarrow> deliver ok d (Q_Progress i) = Called p"
  by simp

lemma progress_ok_exec:
  assumes "exec a w = Some w'" "\<And>cb. a \<noteq> L_SetProgress cb" "progress_ok p w"
  shows "progress_ok p w'"
proof (cases "\<exists>t ok. a = L_Advance t ok")
  case True
  then obtain t ok where "a = L_Advance t ok" by blast
  with assms(1) obtain c where c: "w_calls w t = Some c"
    "w_sink w' = snd (advance ok c (w_sink w))"
    "w_calls w' = (w_calls w)(t := fst (advance ok c (w_sink w)))" "w_handled w' = w_handled w"
    and loops: "w_loops w' = w_loops (hand_over ok c (record_push t c (record_report t c w)))"
    by (auto simp: exec_advance_Some)
  have here: "call_progress p c" using assms(3) c(1) by (simp add: progress_ok_def)
  moreover have "call_progress p c'" if "fst (advance ok c (w_sink w)) = Some c'" for c'
    using call_progress_advance [OF here _ that] assms(3) by (simp add: progress_ok_def)
  moreover have "d_progress d = Some p" if "d \<in> set (drainers (w_loops w' l))" for l d
    using that drainers_hand_over [of ok c "record_push t c (record_report t c w)" l]
      assms(3) call_progress_handle [OF here] unfolding loops progress_ok_def by fastforce
  ultimately show ?thesis
    using assms(3) c by (auto simp: progress_ok_def)
next
  case False
  have sink: "ev_progress (w_sink w') = ev_progress (w_sink w)"
    using assms(1,2) False
    by (cases a) (auto simp: exec_defs exec_run_Some Let_def split: if_splits option.splits list.splits)
  have calls: "call_progress p c" if "w_calls w' t = Some c" for t c
    using exec_calls [OF assms(1)] False that assms(3)
    by (auto simp: progress_ok_def split: if_splits)
  have handled: "oc = Called p" if "(Q_Progress i, oc) \<in> set (w_handled w')" for i oc
  proof (cases "\<exists>l ok. a = L_Deliver l ok")
    case True
    then obtain l ok where "a = L_Deliver l ok" by blast
    with assms(1) obtain d ev evs where d: "lp_draining (w_loops w l) = Some (d, ev # evs)"
      "w_handled w' = w_handled w @ [(ev, deliver ok d ev)]"
      by (auto simp: exec_defs split: option.splits list.splits)
    have "d \<in> set (drainers (w_loops w l))" using d(1) by (simp add: set_drainers)
    with assms(3) d(2) that show ?thesis by (auto simp: progress_ok_def simp del: deliver.simps(2))
  next
    case no: False
    with assms(1) have "w_handled w' = w_handled w"
      by (cases a) (auto simp: exec_defs exec_run_Some exec_advance_Some Let_def
        split: if_splits option.splits list.splits)
    with assms(3) that show ?thesis by (simp add: progress_ok_def)
  qed
  have "d_progress d = Some p" if "d \<in> set (drainers (w_loops w' l))" for l d
    using that exec_drainers [OF assms(1), of l] False assms(3) unfolding progress_ok_def by blast
  with assms(3) sink calls handled show ?thesis unfolding progress_ok_def by metis
qed

text \<open>
  When the progress callback is installed before anything is reported and not replaced, every
  progress report that is handled reaches it, whichever report's drainer carries it.
\<close>

theorem progress_reaches_its_callback:
  assumes "py_run (py_world_init cb) (L_SetProgress (Some p) # as) w"
    and "\<forall>q. L_SetProgress q \<notin> set as" and "(Q_Progress i, oc) \<in> set (w_handled w)"
  shows "oc = Called p"
proof -
  define w0 where "w0 = py_world_init cb\<lparr>w_sink := (PyEvents_new cb)\<lparr>ev_progress := Some p\<rparr>\<rparr>"
  have "progress_ok p w0"
    by (simp add: w0_def progress_ok_def py_world_init_def PyEvents_new_def)
  moreover from assms(1) have "py_run w0 as w"
    by (simp add: py_run_exec_all w0_def set_progress_callback_def py_world_init_def)
  ultimately have "progress_ok p w" using assms(2)
  proof (induction as arbitrary: w rule: rev_induct)
    case Nil
    thus ?case by (simp add: py_run_exec_all)
  next
    case (snoc a as)
    then obtain v where "exec_all as w0 = Some v" "exec a v = Some w"
      by (auto simp: py_run_exec_all exec_all_append split: bind_splits)
    with snoc show ?case by (auto simp: py_run_exec_all intro: progress_ok_exec [of a v])
  qed
  with assms(3) show ?thesis by (simp add: progress_ok_def)
qed

theorem progress_reaches_its_callback_witness:
  "snd (w_handled demo_world ! 1) = Called 2"
proof (rule progress_reaches_its_callback)
  show "py_run (py_world_init (Some 1)) (L_SetProgress (Some 2) # tl demo_trace) demo_world"
    using demo_world_run by (simp add: demo_trace_def)
  show "\<forall>q. L_SetProgress q \<notin> set (tl demo_trace)" by (simp add: demo_trace_def)
  show "(Q_Progress 5, snd (w_handled demo_world ! 1)) \<in> set (w_handled demo_world)"
    by (simp add: demo_world_facts)
qed

text \<open>
  A batch drained for an earlier report loses later progress. When a session event has
  signalled a drainer before the run installs its progress callback, a progress report made after
  the installation, while the callback stays in place, is taken by that drainer, which carries no
  progress callback, and is dropped; the queue is empty and the report is gone.
\<close>

theorem progress_report_lost:
  "\<exists>w. py_run (py_world_init (Some cb))
     ([L_Capture l, L_Notify 0 JobFinished] @ replicate 5 (L_Advance 0 True) @
      [L_SetProgress (Some p), L_Notify 1 (CommandDone i)] @ replicate 4 (L_Advance 1 True) @
      [L_Run l 0, L_Deliver l True, L_Deliver l True, L_Drained l]) w \<and>
     ev_progress (w_sink w) = Some p \<and> in_transit w = [] \<and>
     w_handled w = [(Q_Session E_JobFinished, Called cb), (Q_Progress i, Skipped)]"
  by (simp add: py_run_exec_all exec_run_simps numeral_eq_Suc in_transit_def batch_def)

end
