(* ===== verification/Py_Session_Props.thy ===== *)
theory Py_Session_Props
  imports Py_Sessions Py_Config_Props Py_Events_Props
begin

text \<open>
  What a Python caller of a session sees: how the futures settle, what a panic of a task does to
  them, and how the events of the core reach the callback.
\<close>

subsection \<open>Futures\<close>

fun py_message :: "PyErr \<Rightarrow> string" where
  "py_message (PyConnectionError m) = m"
| "py_message (PyTimeoutError m) = m"
| "py_message (PyRuntimeError m) = m"
| "py_message (PyRaised x) = []"

fun is_connection_error :: "PyErr \<Rightarrow> bool" where
  "is_connection_error (PyConnectionError m) = True"
| "is_connection_error e = False"

fun is_timeout_error :: "PyErr \<Rightarrow> bool" where
  "is_timeout_error (PyTimeoutError m) = True"
| "is_timeout_error e = False"

lemma spawn_awaiting_result:
  "spawn_future (Inr l) (Inr ()) True (awaiting_result f) s es =
     Inr (case f (py_core s) es of
            Ret (Inr v) c es' \<Rightarrow> (F_Result v, s\<lparr>py_core := c\<rparr>)
          | Ret (Inl e) c es' \<Rightarrow> (F_Exception (pyerr_of e), s\<lparr>py_core := c\<rparr>)
          | Blocked c \<Rightarrow> (F_Pending, s\<lparr>py_core := c\<rparr>)
          | Panicked c es' \<Rightarrow> (F_Pending, s\<lparr>py_core := c\<rparr>))"
  by (cases "f (py_core s) es")
    (auto simp: spawn_future_def awaiting_result_def on_core_def future_after_def complete_future_def
       split: sum.split)

text \<open>
  C35: The error of a core operation reaches the caller as an exception that says the same. The
  future of any method that forwards a core operation is settled when the operation returns: with
  its value, or with an exception whose text is the display text of the core's error, which is a
  \<^verbatim>\<open>ConnectionError\<close> exactly for a connection error or a buffer stall and a
  \<^verbatim>\<open>TimeoutError\<close> exactly for a time-out.
\<close>

theorem future_settles_with_core_result:
  assumes "f (py_core s) es = Ret r c es'"
  shows "spawn_future (Inr l) (Inr ()) True (awaiting_result f) s es =
      Inr (case r of Inr v \<Rightarrow> F_Result v | Inl e \<Rightarrow> F_Exception (pyerr_of e), s\<lparr>py_core := c\<rparr>) \<and>
    (\<forall>e. py_message (pyerr_of e) = session_error_msg e \<and>
      is_connection_error (pyerr_of e) = (\<exists>m. e = Err_Connection m \<or> e = Err_BufferStall m) \<and>
      is_timeout_error (pyerr_of e) = (e = Err_Timeout))"
proof (intro conjI allI)
  show "spawn_future (Inr l) (Inr ()) True (awaiting_result f) s es =
      Inr (case r of Inr v \<Rightarrow> F_Result v | Inl e \<Rightarrow> F_Exception (pyerr_of e), s\<lparr>py_core := c\<rparr>)"
    using assms by (simp add: spawn_awaiting_result split: sum.split)
  fix e
  show "py_message (pyerr_of e) = session_error_msg e"
    "is_connection_error (pyerr_of e) = (\<exists>m. e = Err_Connection m \<or> e = Err_BufferStall m)"
    "is_timeout_error (pyerr_of e) = (e = Err_Timeout)"
    by (cases e; simp)+
qed

definition demo_session :: "GrblCore PySession" where
  "demo_session = \<lparr>py_core = panic_world, py_sink = PyEvents_new (Some 1)\<rparr>"

lemma demo_no_queue:
  "\<exists>c. execute_command std_regex ''G0'' (py_core demo_session) [] =
     Ret (Inl (Err_Connection ''command queue unavailable'')) c []"
  by (simp add: execute_command_def demo_session_def panic_world_def GrblCore_new_def
        forget_cancel_def stream_reaped_def new_request_def)

theorem future_settles_with_core_result_witness:
  "\<exists>s'. spawn_future (Inr 7) (Inr ()) True (pyg_execute_command std_regex ''G0'') demo_session [] =
     Inr (F_Exception (PyConnectionError ''command queue unavailable''), s')"
  using demo_no_queue
    future_settles_with_core_result [of "execute_command std_regex ''G0''" demo_session "[]" _ _ "[]" 7]
  by (auto simp: pyg_execute_command_def)

subsection \<open>A panic\<close>

text \<open>
  A template that cannot be formatted hangs its caller. The dialect is accepted unchecked, and
  when its offset template cannot be formatted, \<^verbatim>\<open>set_wcs_offset\<close> on a valid slot panics
  its task: the asyncio future is never settled, whatever happens afterwards, and nothing is sent.
\<close>

theorem bad_offset_template_hangs_caller:
  assumes "gcode_to_p_number slot = Some p_num"
    and "format_wcs_offset (g_dialect (py_core s)) p_num x y z = None"
  shows "spawn_future (Inr l) (Inr ()) accepted (pyg_set_wcs_offset X slot x y z) s es =
    Inr (F_Pending, s)"
  using assms
  by (simp add: spawn_future_def pyg_set_wcs_offset_def awaiting_result_def on_core_def
        set_wcs_offset_def future_after_def)

definition bad_dialect :: "(string \<times> demo_val) list" where
  "bad_dialect = [(''set_wcs_offset'', DStr ''G10 L2 P{p}'')]"

definition bad_session :: "GrblCore PySession" where
  "bad_session = snd (pyg_update_dialect demo_pyo3 bad_dialect demo_session)"

lemma bad_dialect_accepted:
  "fst (pyg_update_dialect demo_pyo3 bad_dialect demo_session) = Inr ()"
  "g_dialect (py_core bad_session) = from_map [''set_wcs_offset'' \<mapsto> ''G10 L2 P{p}'']"
  by (simp_all add: bad_session_def pyg_update_dialect_def parse_dialect_def bad_dialect_def
        demo_pyo3_def update_dialect_def)

lemma bad_template:
  "format_wcs_offset (from_map [''set_wcs_offset'' \<mapsto> ''G10 L2 P{p}'']) 1 f64_zero f64_zero (Some f64_zero) = None"
  by code_simp

theorem bad_offset_template_hangs_caller_witness:
  "spawn_future (Inr 7) (Inr ()) True
     (pyg_set_wcs_offset std_regex ''G54'' f64_zero f64_zero (Some f64_zero)) bad_session [] =
   Inr (F_Pending, bad_session)"
  by (rule bad_offset_template_hangs_caller [where p_num = 1])
    (code_simp, simp add: bad_dialect_accepted bad_template)

text \<open>What the beginning of a job leaves of the session.\<close>

lemma start_job_facts:
  "g_config (start_job w) = g_config w" "\<not> g_is_cancelled (start_job w)"
  "g_job_exception (start_job w) = None" "g_job_running (start_job w)"
  "status (g_state (start_job w)) = Alarm \<longleftrightarrow> status (g_state w) = Alarm"
  "jobs_finished (g_events (start_job w)) = jobs_finished (g_events w)"
  by (simp_all add: start_job_def grbl_emit_def Let_def)

lemma abort_stream_task_facts:
  "g_config (abort_stream_task b w) = g_config w"
  "g_is_cancelled (abort_stream_task b w) = g_is_cancelled w"
  "g_job_exception (abort_stream_task b w) = g_job_exception w"
  "g_job_running (abort_stream_task b w) = g_job_running w"
  "g_state (abort_stream_task b w) = g_state w" "g_events (abort_stream_task b w) = g_events w"
  by (simp_all add: abort_stream_task_def split: option.split)

lemma stream_ended_facts:
  "g_job_running (stream_ended i w) = g_job_running w" "g_events (stream_ended i w) = g_events w"
  by (simp_all add: stream_ended_def Let_def)

text \<open>
  C40: Accepted stall limits that are out of order lose the job. When the first line of a program
  belongs to an operation with an estimate, the task of the job panics; the caller's future
  resolves as after a successful run, the session goes on showing a running job, and no job end is
  ever reported for it.
\<close>

theorem job_lost_on_unordered_limits:
  assumes "build_config P kind (Some d) = Inr (g_config (py_core s))"
    and "\<not> fle (given (\<lambda>v. v) (get_f64 P d ''stall_timeout_min'') (f64_lit 5 0))
                 (given (\<lambda>v. v) (get_f64 P d ''stall_timeout_max'') (f64_lit 120 0))"
    and "status (g_state (py_core s)) \<noteq> Alarm"
    and "lines gcode = raw_line # rest" "strip_gcode_comments X raw_line \<noteq> []"
    and "m 0 = Some oi" "as_usize oi < length ts"
  shows "\<exists>s'. spawn_future (Inr l) (Inr ()) True
      (pyg_run X join_msg gcode (Some m) (Some ts) cb) s es = Inr (F_Result (), s') \<and>
    pyg_job_running s' \<and>
    jobs_finished (g_events (py_core s')) = jobs_finished (g_events (py_core s))"
proof -
  let ?w = "abort_stream_task False (start_job (py_core s))"
  let ?i = "length (g_stream_done ?w)"
  let ?v = "?w\<lparr>g_stream_done := g_stream_done ?w @ [False], g_stream_task := Some ?i\<rparr>"
  have "stream_lines X (Some m) (Some ts) 0 (raw_line # rest) ?v es = Panicked ?v es"
    using assms stall_limits_panic [of P kind d "g_config (py_core s)" ?v X raw_line m 0 oi ts rest es]
    by (simp add: stop_streaming_def start_job_facts abort_stream_task_facts)
  hence "run X join_msg gcode m ts (py_core s) es = Ret () (stream_ended ?i ?v) es"
    using assms(4) by (simp add: run_def run_streaming_job_def stream_gcode_def stream_gcode_inner_def Let_def)
  thus ?thesis
    by (simp add: spawn_future_def pyg_run_def awaiting_def on_core_def install_progress_def
          future_after_def complete_future_def pyg_job_running_def is_job_running_def
          stream_ended_facts abort_stream_task_facts start_job_facts)
qed

theorem job_lost_on_unordered_limits_witness:
  "\<exists>s'. spawn_future (Inr 7) (Inr ()) True
      (pyg_run std_regex [] ''G0'' (Some (\<lambda>i. Some 0)) (Some [f64_lit 1 0]) None) demo_session [] =
        Inr (F_Result (), s') \<and>
    pyg_job_running s' \<and> jobs_finished (g_events (py_core s')) = 0"
proof -
  have core: "py_core demo_session = panic_world" by (simp add: demo_session_def)
  have "lines ''G0'' = [''G0'']" by code_simp
  moreover have "strip_gcode_comments std_regex ''G0'' \<noteq> []" by code_simp
  moreover have "jobs_finished (g_events panic_world) = 0"
    by (simp add: panic_world_def GrblCore_new_def)
  ultimately show ?thesis
    using job_lost_on_unordered_limits [of demo_pyo3 "Telnet ''laser'' 23" demo_config demo_session
        "''G0''" "''G0''" "[]" std_regex "\<lambda>i. Some 0" 0 "[f64_lit 1 0]" 7 "[]" None "[]"]
      demo_build panic_limits panic_world_facts
    by (simp add: core as_usize_def)
qed

subsection \<open>The core's events in Python\<close>

text \<open>The core's notifications in the history of a sink.\<close>

fun notifications :: "py_label list \<Rightarrow> event list" where
  "notifications [] = []"
| "notifications (L_Notify t ev # as) = ev # notifications as"
| "notifications (a # as) = notifications as"

definition handled_sessions :: "py_world \<Rightarrow> SessionEvent list" where
  "handled_sessions w = List.map_filter (\<lambda>(q, oc). case q of Q_Session e \<Rightarrow> Some e | _ \<Rightarrow> None) (w_handled w)"

lemma sessions_from_one:
  "(\<forall>p \<in> set ps. fst p = t) \<Longrightarrow>
     sessions_from t ps = List.map_filter (\<lambda>q. case q of Q_Session e \<Rightarrow> Some e | _ \<Rightarrow> None) (map snd ps)"
  by (induction t ps rule: sessions_from.induct) (auto simp: map_filter_simps)

lemma handled_sessions_map:
  "handled_sessions w = List.map_filter (\<lambda>q. case q of Q_Session e \<Rightarrow> Some e | _ \<Rightarrow> None)
     (map fst (w_handled w))"
  by (simp add: handled_sessions_def map_filter_def comp_def case_prod_unfold filter_map)

lemma notified_one:
  "(\<forall>u ev. L_Notify u ev \<in> set as \<longrightarrow> u = t) \<Longrightarrow>
     notified t as = concat (map session_of (notifications as))"
  by (induction t as rule: notified.induct) auto

lemma pushed_by_notifier:
  "py_run (py_world_init cb) as w \<Longrightarrow> (\<forall>u ev. L_Notify u ev \<in> set as \<longrightarrow> u = t) \<Longrightarrow>
     (\<forall>u. w_calls w u \<noteq> None \<longrightarrow> u = t) \<and> (\<forall>p \<in> set (w_pushed w). fst p = t)"
proof (induction rule: py_run.induct)
  case py_run_start
  show ?case by (simp add: py_world_init_def)
next
  case (py_run_step as v a v')
  hence IH: "\<forall>u. w_calls v u \<noteq> None \<longrightarrow> u = t" "\<forall>p \<in> set (w_pushed v). fst p = t" by auto
  show ?case
  proof (cases "\<exists>u ok. a = L_Advance u ok")
    case True
    then obtain u ok where "a = L_Advance u ok" by blast
    with py_run_step.hyps(2) obtain c where c: "w_calls v u = Some c"
      "w_calls v' = (w_calls v)(u := fst (advance ok c (w_sink v)))"
      "w_pushed v' = w_pushed v @ (case call_push c of None \<Rightarrow> [] | Some ev \<Rightarrow> [(u, ev)])"
      by (auto simp: exec_advance_Some)
    with IH(1) have "u = t" by simp
    with c IH show ?thesis by (cases "call_push c") simp_all
  next
    case False
    with exec_histories [OF py_run_step.hyps(2)] IH(2) have "\<forall>p \<in> set (w_pushed v'). fst p = t"
      by simp
    moreover have "\<forall>u. w_calls v' u \<noteq> None \<longrightarrow> u = t"
    proof (cases "\<exists>u ev. a = L_Notify u ev")
      case True
      then obtain u ev where a: "a = L_Notify u ev" by blast
      from py_run_step.prems have "L_Notify u ev \<in> set (as @ [a]) \<longrightarrow> u = t" by blast
      hence "u = t" by (simp add: a)
      moreover have "w_calls v' = (w_calls v)(u := Some (notify ev))"
        using py_run_step.hyps(2) by (auto simp: a exec_notify_def split: if_splits)
      ultimately show ?thesis using IH(1) by simp
    next
      case no: False
      with False have "w_calls v' = w_calls v"
        using exec_calls_same [OF py_run_step.hyps(2)] by blast
      with IH(1) show ?thesis by simp
    qed
    ultimately show ?thesis by blast
  qed
qed

definition job_ends :: "SessionEvent list \<Rightarrow> nat" where
  "job_ends es = length (filter (\<lambda>e. e = E_JobFinished) es)"

lemma job_ends_sessions: "job_ends (concat (map session_of evs)) = jobs_finished evs"
proof (induction evs)
  case (Cons ev evs)
  moreover have "job_ends (session_of ev) = (if ev = JobFinished then 1 else 0)"
    by (cases ev) (simp_all add: session_of_def job_ends_def)
  ultimately show ?case by (simp add: job_ends_def jobs_finished_def)
qed (simp add: job_ends_def)

text \<open>
  C18: Python sees the core's event log. When one worker thread reports the log \<open>evs\<close> of a core to
  the sink of a session with an event callback, and the queue has been drained, the session events
  handled on the loop thread are exactly the log's events, converted one by one and in the log's
  order, and so \<^verbatim>\<open>JobFinished\<close> is handled exactly as often as the core reported it.
\<close>

theorem python_sees_core_events:
  assumes "py_run (py_world_init (Some cb)) as w" "notifications as = evs"
    and "\<forall>u ev. L_Notify u ev \<in> set as \<longrightarrow> u = t"
    and "w_calls w = (\<lambda>u. None)" "in_transit w = []"
  shows "handled_sessions w = concat (map session_of evs) \<and>
    job_ends (handled_sessions w) = jobs_finished evs"
proof -
  note inv = world_reachable(1) [OF assms(1)]
  have "map fst (w_handled w) = map snd (w_pushed w)"
    using inv assms(5) by (simp add: world_inv_def conserved_def)
  hence "handled_sessions w = sessions_from t (w_pushed w)"
    using pushed_by_notifier [OF assms(1,3)] by (simp add: handled_sessions_map sessions_from_one)
  moreover have "sessions_from t (w_pushed w) = reported_by t w"
    using inv assms(4) by (simp add: world_inv_def ordered_def unpushed_def)
  moreover have "reported_by t w = notified t as"
    using reported_notified [OF assms(1), of t] assms(4) by (simp add: starting_def)
  ultimately have "handled_sessions w = concat (map session_of evs)"
    using notified_one [OF assms(3)] assms(2) by simp
  thus ?thesis by (simp add: job_ends_sessions)
qed

definition report_trace :: "py_label list" where
  "report_trace =
     [L_Capture 7, L_Notify 3 JobFinished] @ replicate 5 (L_Advance 3 True) @
     [L_Run 7 0, L_Deliver 7 True, L_Drained 7]"

theorem python_sees_core_events_witness:
  "\<exists>w. py_run (py_world_init (Some 1)) report_trace w \<and> handled_sessions w = [E_JobFinished] \<and>
     job_ends (handled_sessions w) = jobs_finished [JobFinished]"
proof -
  obtain w where w: "py_run (py_world_init (Some 1)) report_trace w" "w_calls w = (\<lambda>u. None)"
    "in_transit w = []"
    by (simp add: report_trace_def py_run_exec_all exec_run_simps numeral_eq_Suc in_transit_def
          batch_def fun_eq_iff)
  have "\<forall>u ev. L_Notify u ev \<in> set report_trace \<longrightarrow> u = 3" "notifications report_trace = [JobFinished]"
    by (simp_all add: report_trace_def numeral_eq_Suc)
  with python_sees_core_events [OF w(1) _ _ w(2,3), of "[JobFinished]" 3] w(1)
  show ?thesis by (auto simp: session_of_def)
qed

end
