(* ===== verification/End_To_End.thy ===== *)
theory End_To_End
  imports Grbl_Live Py_Session_Props "HOL-Library.Multiset"
begin

text \<open>
  The path of a job from Python to the device and back. Three components meet: the Python class
  (\<^verbatim>\<open>src/python/grbl/session.rs\<close>) forwards \<^verbatim>\<open>run\<close> to the core, the core
  (\<^verbatim>\<open>src/grbl/session.rs\<close>) streams and reports, and the sink
  (\<^verbatim>\<open>src/python/events.rs\<close>) carries the reports of any number of threads to the event loop.
\<close>

section \<open>Reports of many threads\<close>

text \<open>A list whose elements belong to threads, counted thread by thread.\<close>

lemma sum_if_thread: "finite T \<Longrightarrow> t \<in> T \<Longrightarrow> (\<Sum>u\<in>T. if t = u then f else (0::nat)) = f"
  by simp

lemma count_sessions_from:
  assumes "finite T" "fst ` set ps \<subseteq> T"
  shows "count_list (List.map_filter (\<lambda>q. case q of Q_Session e \<Rightarrow> Some e | _ \<Rightarrow> None) (map snd ps)) e =
    (\<Sum>t\<in>T. count_list (sessions_from t ps) e)"
  using assms(2)
proof (induction ps)
  case (Cons p ps)
  obtain t q where p: "p = (t, q)" by (cases p)
  show ?case
  proof (cases q)
    case (Q_Session ev)
    have "(\<Sum>u\<in>T. count_list (sessions_from u (p # ps)) e) =
        (\<Sum>u\<in>T. (if t = u then (if ev = e then 1 else 0) else 0) + count_list (sessions_from u ps) e)"
      by (rule sum.cong) (simp_all add: p Q_Session)
    also have "\<dots> = (if ev = e then 1 else 0) + (\<Sum>u\<in>T. count_list (sessions_from u ps) e)"
      using Cons.prems assms(1) by (simp add: p sum.distrib)
    finally show ?thesis using Cons by (simp add: p Q_Session map_filter_simps)
  next
    case (Q_Progress i)
    then show ?thesis using Cons by (simp add: p map_filter_simps)
  qed
qed (simp add: map_filter_simps)

fun notifiers :: "py_label list \<Rightarrow> nat set" where
  "notifiers [] = {}"
| "notifiers (L_Notify t ev # as) = insert t (notifiers as)"
| "notifiers (a # as) = notifiers as"

lemma finite_notifiers [simp]: "finite (notifiers as)"
  by (induction as rule: notifiers.induct) simp_all

lemma count_notified:
  assumes "finite T" "notifiers as \<subseteq> T"
  shows "count_list (concat (map session_of (notifications as))) e = (\<Sum>t\<in>T. count_list (notified t as) e)"
  using assms(2)
proof (induction as rule: notifiers.induct)
  case (2 t ev as)
  have "(\<Sum>u\<in>T. count_list (notified u (L_Notify t ev # as)) e) =
      (\<Sum>u\<in>T. (if t = u then count_list (session_of ev) e else 0) + count_list (notified u as) e)"
    by (rule sum.cong) simp_all
  also have "\<dots> = count_list (session_of ev) e + (\<Sum>u\<in>T. count_list (notified u as) e)"
    using 2(2) assms(1) by (simp add: sum.distrib)
  finally show ?case using 2 by simp
qed simp_all

text \<open>
  When no thread is inside the sink and the queue is drained, the loop has handled what was reported, as
  often as it was reported, by whichever threads.
\<close>

lemma handled_as_reported:
  assumes "py_run (py_world_init (Some cb)) as w" "w_calls w = (\<lambda>u. None)" "in_transit w = []"
  shows "mset (handled_sessions w) = mset (concat (map session_of (notifications as)))"
proof -
  note inv = world_reachable(1) [OF assms(1)]
  let ?T = "notifiers as \<union> fst ` set (w_pushed w)"
  have "map fst (w_handled w) = map snd (w_pushed w)"
    using inv assms(3) by (simp add: world_inv_def conserved_def)
  moreover have "sessions_from t (w_pushed w) = notified t as" for t
    using inv assms(2) reported_notified [OF assms(1), of t]
    by (simp add: world_inv_def ordered_def unpushed_def starting_def)
  ultimately have "count_list (handled_sessions w) e = count_list (concat (map session_of (notifications as))) e" for e
    using count_sessions_from [of ?T "w_pushed w" e] count_notified [of ?T as e]
    by (simp add: handled_sessions_map)
  then show ?thesis by (intro multiset_eqI) (simp add: count_mset)
qed

lemma job_ends_count: "job_ends es = count_list es E_JobFinished"
  by (induction es) (simp_all add: job_ends_def)

lemma job_ends_mset: "mset es = mset fs \<Longrightarrow> job_ends es = job_ends fs"
  by (simp add: job_ends_count flip: count_mset)

lemma jobs_finished_mset: "mset es = mset fs \<Longrightarrow> jobs_finished es = jobs_finished fs"
  unfolding jobs_finished_def by (metis mset_filter size_mset)

section \<open>A job run from Python\<close>

text \<open>
  C3: A job run from Python is executed and its end is learned in Python exactly once. On a link that is up
  with a device whose acknowledgements keep up, the future of \<^verbatim>\<open>run\<close> settles with no exception, the session
  shows no job running, the lines of the job are on the wire once each and in order. And once the sink has
  been told the core's log, by any threads in any interleaving and in any order, and its queue is
  drained, the event callback has been handed one more \<^verbatim>\<open>JobFinished\<close> than the log had before the job.
\<close>

theorem python_job_completes:
  assumes "regex_ok X" and "w = py_core s" "tr_sound (g_transport w)" "g_cmd_lock w = Free" "status (g_state w) \<noteq> Alarm"
    "status_buffer (g_flow w) = []" "\<not> acked_since_flush (g_flow w)" "\<not> drained_since_flush (g_flow w)"
    and limits: "fle (cfg_stall_timeout_min (g_config w)) (cfg_stall_timeout_max (g_config w))"
    and acks: "list_all (list_all ok_line) dss"
    and device: "keeps_up (rx_buffer_size (g_flow w)) [] (map line_size (job_lines X (lines gcode))) (map length dss)"
  shows "\<exists>s'. spawn_future (Inr l) (Inr ()) True (pyg_run X join_msg gcode op_map estimates cb) s (ack_script dss) =
      Inr (F_Result (), s') \<and> \<not> pyg_job_running s' \<and>
    job_wire (py_core s') = job_wire w @ map with_newline (job_lines X (lines gcode)) \<and>
    (\<forall>as v. py_run (py_world_init (Some f)) as v \<longrightarrow> mset (notifications as) = mset (g_events (py_core s')) \<longrightarrow>
       w_calls v = (\<lambda>t. None) \<longrightarrow> in_transit v = [] \<longrightarrow>
       job_ends (handled_sessions v) = Suc (jobs_finished (g_events w)))"
proof -
  from job_runs_to_end [OF assms(1,3-11)] obtain w' where
    w': "run X join_msg gcode (case op_map of Some m \<Rightarrow> m | None \<Rightarrow> Map.empty)
        (case estimates of Some ts \<Rightarrow> ts | None \<Rightarrow> []) (py_core s) (ack_script dss) = Ret () w' []"
      "job_wire w' = job_wire w @ map with_newline (job_lines X (lines gcode))" "\<not> g_job_running w'"
      "jobs_finished (g_events w') = Suc (jobs_finished (g_events w))"
    unfolding assms(2) by blast
  have "job_ends (handled_sessions v) = Suc (jobs_finished (g_events w))"
    if "py_run (py_world_init (Some f)) as v" "mset (notifications as) = mset (g_events w')"
      "w_calls v = (\<lambda>t. None)" "in_transit v = []" for as v
    using job_ends_mset [OF handled_as_reported [OF that(1,3,4)]] jobs_finished_mset [OF that(2)] w'(4)
    by (simp add: job_ends_sessions)
  with w'(1-3) show ?thesis
    by (simp add: spawn_future_def pyg_run_def awaiting_def on_core_def install_progress_def
        future_after_def complete_future_def pyg_job_running_def is_job_running_def)
qed

text \<open>Every log can be reported and delivered: here one thread reports and the loop drains after each event.\<close>

definition at_rest :: "py_obj \<Rightarrow> py_obj \<Rightarrow> py_world \<Rightarrow> bool" where
  "at_rest f l v \<longleftrightarrow>
     w_calls v = (\<lambda>t. None) \<and> ev_queue (w_sink v) = \<lparr>eq_pending = [], eq_scheduled = False\<rparr> \<and>
     ev_callback (w_sink v) = Some f \<and> ev_progress (w_sink v) = None \<and> ev_loop (w_sink v) = Some l \<and>
     w_loops v l = fresh_loop"

lemma report_one:
  assumes "at_rest f l v"
  shows "\<exists>as v'. exec_all as v = Some v' \<and> notifications as = [ev] \<and> at_rest f l v'"
proof (cases "\<exists>e. notify ev = S_Start e")
  case True
  then show ?thesis
    using assms
    by (intro exI [of _ "L_Notify 0 ev # replicate 5 (L_Advance 0 True) @ [L_Run l 0, L_Deliver l True, L_Drained l]"])
      (auto simp: exec_run_simps at_rest_def numeral_eq_Suc fun_eq_iff fresh_loop_def)
next
  case False
  then obtain i where "notify ev = P_Start i" by (cases ev) auto
  with assms show ?thesis
    by (intro exI [of _ "[L_Notify 0 ev, L_Advance 0 True]"]) (auto simp: exec_run_simps at_rest_def fun_eq_iff)
qed

lemma notifications_append [simp]: "notifications (as @ bs) = notifications as @ notifications bs"
  by (induction as rule: notifications.induct) simp_all

lemma report_all:
  "at_rest f l v \<Longrightarrow> \<exists>as v'. exec_all as v = Some v' \<and> notifications as = evs \<and> at_rest f l v'"
proof (induction evs arbitrary: v)
  case Nil
  then show ?case by (intro exI [of _ "[]"]) simp
next
  case (Cons ev evs)
  from report_one [OF Cons.prems] obtain as v1 where
    1: "exec_all as v = Some v1" "notifications as = [ev]" "at_rest f l v1" by blast
  from Cons.IH [OF 1(3)] obtain bs v2 where
    "exec_all bs v1 = Some v2" "notifications bs = evs" "at_rest f l v2" by blast
  with 1 show ?case by (intro exI [of _ "as @ bs"]) (simp add: exec_all_append)
qed

lemma log_reported:
  "\<exists>as v. py_run (py_world_init (Some f)) as v \<and> notifications as = evs \<and> w_calls v = (\<lambda>t. None) \<and> in_transit v = []"
proof -
  have "\<exists>v. exec_all [L_Capture 7] (py_world_init (Some f)) = Some v \<and> at_rest f 7 v"
    by (simp add: exec_run_simps at_rest_def capture_loop_def)
  then obtain v where v: "exec_all [L_Capture 7] (py_world_init (Some f)) = Some v" "at_rest f 7 v" by blast
  from report_all [OF v(2)] obtain as v' where
    "exec_all as v = Some v'" "notifications as = evs" "at_rest f 7 v'" by blast
  moreover from this v(1) have "exec_all ([L_Capture 7] @ as) (py_world_init (Some f)) = Some v'"
    unfolding exec_all_append by simp
  ultimately show ?thesis
    by (intro exI [of _ "[L_Capture 7] @ as"] exI [of _ v'])
      (simp add: py_run_exec_all at_rest_def in_transit_def batch_def fresh_loop_def del: exec_all.simps)
qed

definition demo_py :: "GrblCore PySession" where
  "demo_py = \<lparr>py_core = demo, py_sink = PyEvents_new (Some 1)\<rparr>"

theorem python_job_completes_witness:
  "\<exists>s' as v. spawn_future (Inr 7) (Inr ()) True (pyg_run std_regex [] demo_gcode None None None) demo_py
      (ack_script demo_acks) = Inr (F_Result (), s') \<and>
    job_wire (py_core s') = map with_newline [''G0 X1'', ''M5''] \<and>
    py_run (py_world_init (Some 1)) as v \<and> notifications as = g_events (py_core s') \<and>
    job_ends (handled_sessions v) = 1"
proof -
  have "demo = py_core demo_py" by (simp add: demo_py_def)
  from python_job_completes [OF regex_ok_std this demo_job(1-9), of 7 "[]" None None None 1] obtain s' where
    s': "spawn_future (Inr 7) (Inr ()) True (pyg_run std_regex [] demo_gcode None None None) demo_py
       (ack_script demo_acks) = Inr (F_Result (), s')"
     "job_wire (py_core s') = map with_newline [''G0 X1'', ''M5'']"
     "\<And>as v. py_run (py_world_init (Some 1)) as v \<Longrightarrow> mset (notifications as) = mset (g_events (py_core s')) \<Longrightarrow>
       w_calls v = (\<lambda>t. None) \<Longrightarrow> in_transit v = [] \<Longrightarrow> job_ends (handled_sessions v) = 1"
    unfolding demo_job_lines demo_job(10,11) by auto
  obtain as v where v: "py_run (py_world_init (Some 1)) as v" "notifications as = g_events (py_core s')"
    "w_calls v = (\<lambda>t. None)" "in_transit v = []"
    using log_reported [of 1 "g_events (py_core s')"] by blast
  with s'(3) [OF v(1) _ v(3,4)] s'(1,2) show ?thesis by metis
qed

end
