(* ===== verification/Marlin_Parser_Props.thy ===== *)
theory Marlin_Parser_Props
  imports Marlin_Parser Grbl_Parser_Props
begin

text \<open>Position reports of Marlin are read back as they were printed.\<close>

text \<open>A decimal number as Marlin prints it.\<close>

definition dec_text :: "bool \<times> string \<times> string \<Rightarrow> string" where
  "dec_text d = (case d of (neg, ip, fp) \<Rightarrow> (if neg then ''-'' else []) @ ip @ ''.'' @ fp)"

definition decimal_ok :: "bool \<times> string \<times> string \<Rightarrow> bool" where
  "decimal_ok d = (case d of (neg, ip, fp) \<Rightarrow> ip \<noteq> [] \<and> list_all is_digit ip \<and> list_all is_digit fp)"

definition show_m114 :: "bool \<times> string \<times> string \<Rightarrow> bool \<times> string \<times> string \<Rightarrow> bool \<times> string \<times> string \<Rightarrow> string \<Rightarrow> string" where
  "show_m114 x y z rest =
     ''X:'' @ dec_text x @ '' Y:'' @ dec_text y @ '' Z:'' @ dec_text z @ rest"

lemma ascii_decimal: "decimal_ok d \<Longrightarrow> all_ascii (dec_text d)"
  by (cases d) (auto simp: decimal_ok_def dec_text_def all_ascii_def list_all_iff ascii_digit ascii_val)

lemma digit_no_sign: "is_digit c \<Longrightarrow> \<not> (c = CHR ''+'' \<or> c = CHR ''-'')" "is_digit c \<Longrightarrow> c \<noteq> CHR ''.''"
  by (auto simp: is_digit_def byte_def)

lemma first_decimal:
  assumes "decimal_ok d" "case t of [] \<Rightarrow> True | c # _ \<Rightarrow> \<not> is_digit c"
  shows "\<exists>p'. first_match (Group k SNUM_RE) (p, dec_text d @ t, cs) = Some (p', t, (k, dec_text d) # cs)"
proof -
  obtain neg ip fp where d: "d = (neg, ip, fp)" by (cases d)
  have ok: "ip \<noteq> []" "list_all is_digit ip" "list_all is_digit fp" using assms(1) by (simp_all add: decimal_ok_def d)
  then obtain i is' where ip: "ip = i # is'" "is_digit i" by (cases ip) auto
  have dot: "\<not> is_digit CHR ''.''" by (simp add: is_digit_def byte_def)
  have "\<exists>p1. first_match (Opt (Cls (\<lambda>c. c = CHR ''+'' \<or> c = CHR ''-''))) (p, dec_text d @ t, cs) =
      Some (p1, ip @ CHR ''.'' # fp @ t, cs)"
  proof (cases neg)
    case True
    then show ?thesis by (auto simp: d dec_text_def Opt_def intro!: first_Alt_left first_Cls)
  next
    case False
    with ip digit_no_sign(1) [OF ip(2)] show ?thesis
      by (auto simp: d dec_text_def Opt_def first_Alt_right first_Eps)
  qed
  then obtain p1 where 1: "first_match (Opt (Cls (\<lambda>c. c = CHR ''+'' \<or> c = CHR ''-''))) (p, dec_text d @ t, cs) =
      Some (p1, ip @ CHR ''.'' # fp @ t, cs)" ..
  obtain p2 where 2: "first_match (Plus D_RE) (p1, ip @ CHR ''.'' # fp @ t, cs) = Some (p2, CHR ''.'' # fp @ t, cs)"
    using first_Plus_Cls [OF ok(1,2), of "CHR ''.'' # fp @ t" p1 cs] dot by (auto simp: D_RE_def)
  have 3: "first_match (Opt (Lit CHR ''.'')) (p2, CHR ''.'' # fp @ t, cs) = Some (Some CHR ''.'', fp @ t, cs)"
    by (simp add: Opt_def first_Alt_left first_Lit)
  obtain p4 where 4: "first_match (Star D_RE) (Some CHR ''.'', fp @ t, cs) = Some (p4, t, cs)"
    using first_Star_Cls [OF ok(3) assms(2), of "Some CHR ''.''" cs] by (auto simp: D_RE_def)
  have "first_match SNUM_RE (p, dec_text d @ t, cs) = Some (p4, t, cs)"
    unfolding SNUM_RE_def Seqs.simps by (intro first_Seq [OF 1] first_Seq [OF 2] first_Seq [OF 3] first_Seq [OF 4] first_Eps)
  from first_Group [OF this, of k] show ?thesis by auto
qed

lemma first_space: "t = [] \<or> hd t \<noteq> CHR '' '' \<and> \<not> (9 \<le> byte (hd t) \<and> byte (hd t) \<le> 13) \<Longrightarrow>
   \<exists>p'. first_match (Plus SPACE_RE) (p, CHR '' '' # t, cs) = Some (p', t, cs)"
  using first_Plus_Cls [of "'' ''" "\<lambda>c. c = CHR 0x20 \<or> (9 \<le> byte c \<and> byte c \<le> 13)" t p cs]
  by (cases t) (simp_all add: SPACE_RE_def)

lemma m114_match:
  assumes "decimal_ok x" "decimal_ok y" "decimal_ok z" "case rest of [] \<Rightarrow> True | c # _ \<Rightarrow> \<not> is_digit c"
  shows "\<exists>e. rx_exec M114_POS_RE (show_m114 x y z rest) =
    Some \<lparr>m_start = 0, m_end = e, m_group = [(3, dec_text z), (2, dec_text y), (1, dec_text x)]\<rparr>"
proof -
  define t1 t2 where "t1 = dec_text y @ '' Z:'' @ dec_text z @ rest" and "t2 = dec_text z @ rest"
  have sp: "\<not> is_digit CHR '' ''" by (simp add: is_digit_def byte_def)
  have yz: "\<exists>p'. first_match (Plus SPACE_RE) (p, CHR '' '' # CHR ''Y'' # t, cs) = Some (p', CHR ''Y'' # t, cs)"
    "\<exists>p'. first_match (Plus SPACE_RE) (p, CHR '' '' # CHR ''Z'' # t, cs) = Some (p', CHR ''Z'' # t, cs)" for p t cs
    by (rule first_space; simp add: byte_def)+
  obtain p1 where 1: "first_match (Lits ''X:'') (None, ''X:'' @ dec_text x @ '' Y:'' @ t1, []) =
      Some (p1, dec_text x @ '' Y:'' @ t1, [])" using first_Lits by blast
  obtain p2 where 2: "first_match (Group 1 SNUM_RE) (p1, dec_text x @ '' Y:'' @ t1, []) =
      Some (p2, '' Y:'' @ t1, [(1, dec_text x)])" using first_decimal [OF assms(1), of "'' Y:'' @ t1" 1 p1 "[]"] sp by auto
  let ?x = "[(1 :: nat, dec_text x)]"
  obtain p3 where 3: "first_match (Plus SPACE_RE) (p2, '' Y:'' @ t1, ?x) = Some (p3, ''Y:'' @ t1, ?x)"
    using yz(1) by fastforce
  obtain p4 where 4: "first_match (Lits ''Y:'') (p3, ''Y:'' @ t1, ?x) = Some (p4, t1, ?x)" using first_Lits by blast
  let ?y = "(2, dec_text y) # ?x"
  obtain p5 where 5: "first_match (Group 2 SNUM_RE) (p4, t1, ?x) = Some (p5, '' Z:'' @ t2, ?y)"
    using first_decimal [OF assms(2), of "'' Z:'' @ t2" 2 p4 ?x] sp by (auto simp: t1_def t2_def)
  obtain p6 where 6: "first_match (Plus SPACE_RE) (p5, '' Z:'' @ t2, ?y) = Some (p6, ''Z:'' @ t2, ?y)"
    using yz(2) by fastforce
  obtain p7 where 7: "first_match (Lits ''Z:'') (p6, ''Z:'' @ t2, ?y) = Some (p7, t2, ?y)" using first_Lits by blast
  obtain p8 where 8: "first_match (Group 3 SNUM_RE) (p7, t2, ?y) = Some (p8, rest, (3, dec_text z) # ?y)"
    using first_decimal [OF assms(3,4), of 3 p7 ?y] by (auto simp: t2_def)
  have line: "show_m114 x y z rest = ''X:'' @ dec_text x @ '' Y:'' @ t1" by (simp add: show_m114_def t1_def)
  have "first_match M114_POS_RE (None, show_m114 x y z rest, []) = Some (p8, rest, (3, dec_text z) # ?y)"
    unfolding M114_POS_RE_def Seqs.simps line
    by (intro first_Seq [OF 1] first_Seq [OF 2] first_Seq [OF 3] first_Seq [OF 4] first_Seq [OF 5] first_Seq [OF 6]
        first_Seq [OF 7] first_Seq [OF 8] first_Eps)
  from rx_exec_first [OF this] show ?thesis by simp
qed

text \<open>The number a decimal text stands for, rounded to the nearest.\<close>

definition dec_val :: "bool \<times> string \<times> string \<Rightarrow> f64" where
  "dec_val d = (case d of (neg, ip, fp) \<Rightarrow> scale10 neg (digits_val 0 (ip @ fp)) (- int (length fp)))"

lemma parse_decimal_unsigned:
  assumes "ip \<noteq> []" "list_all is_digit ip" "list_all is_digit fp"
  shows "parse_unsigned_f64 s (ip @ CHR ''.'' # fp) = Some (scale10 s (digits_val 0 (ip @ fp)) (- int (length fp)))"
proof -
  have "\<not> (is_digit c \<and> is_exp_char c)" for c by (auto simp: is_digit_def is_exp_char_def byte_def)
  then have no_exp: "position is_exp_char (ip @ CHR ''.'' # fp) = None"
    using assms by (auto simp: position_None_iff list_all_iff is_exp_char_def)
  obtain i r where ip: "ip = i # r" "is_digit i" using assms(1,2) by (cases ip) auto
  have low: "to_ascii_lowercase (ip @ CHR ''.'' # fp) = i # to_ascii_lowercase (r @ CHR ''.'' # fp)"
    using ip(2) by (simp add: ip(1) to_ascii_lowercase_def is_digit_def)
  have "i \<noteq> CHR ''i''" "i \<noteq> CHR ''n''" using ip(2) by (auto simp: is_digit_def byte_def)
  moreover have "split_once CHR ''.'' (ip @ CHR ''.'' # fp) = Some (ip, fp)"
    using assms(2) by (intro split_once_hit) (auto simp: list_all_iff dest: digit_no_sign(2))
  ultimately show ?thesis
    using assms by (simp add: parse_unsigned_f64_def Let_def low no_exp parse_mantissa_def)
qed

lemma parse_decimal:
  assumes "decimal_ok d"
  shows "parse_f64 (dec_text d) = Some (dec_val d)"
proof -
  obtain neg ip fp where d: "d = (neg, ip, fp)" by (cases d)
  with assms have ok: "ip \<noteq> []" "list_all is_digit ip" "list_all is_digit fp" by (simp_all add: decimal_ok_def)
  then obtain i r where ip: "ip = i # r" "is_digit i" by (cases ip) auto
  from parse_decimal_unsigned [OF ok] digit_no_sign(1) [OF ip(2)] show ?thesis
    by (cases neg) (simp_all add: d dec_text_def dec_val_def parse_f64_def ip(1))
qed

lemma m114_line_start: "\<exists>r. trim (show_m114 x y z rest) = CHR ''X'' # r"
  using trim_keeps_prefix [of "CHR ''X''" "[]"] by (simp add: show_m114_def ws_seqs_def strip_any_None_iff)

text \<open>
  C33: A position report of Marlin, three signed decimal numbers with their axis letters and whatever
  follows them, is recognised as one, is neither an acknowledgement nor an error, and is read as the
  numbers that were printed, each rounded to the nearest representable one.
\<close>

theorem m114_round_trip:
  assumes "text_ok L" "decimal_ok x" "decimal_ok y" "decimal_ok z"
    and "all_ascii rest" "case rest of [] \<Rightarrow> True | c # _ \<Rightarrow> \<not> is_digit c"
  shows "is_m114_position L (show_m114 x y z rest) \<and>
    parse_m114_line L (show_m114 x y z rest) = Some (dec_val x, dec_val y, dec_val z) \<and>
    \<not> is_ok L (show_m114 x y z rest) \<and> \<not> is_error (show_m114 x y z rest)"
proof -
  have "all_ascii (show_m114 x y z rest)"
    using assms(2-5) ascii_decimal by (simp add: show_m114_def) (simp add: is_ascii_def byte_def)
  with assms(1) m114_match [OF assms(2-4,6)] obtain e where
    "rx_str (tx_regex L) M114_POS_RE (show_m114 x y z rest) =
       Some \<lparr>m_start = 0, m_end = e, m_group = [(3, dec_text z), (2, dec_text y), (1, dec_text x)]\<rparr>"
    by (auto simp: text_ok_def regex_ok_def)
  moreover obtain r where "trim (show_m114 x y z rest) = CHR ''X'' # r" using m114_line_start by blast
  ultimately show ?thesis
    by (simp add: is_m114_position_def parse_m114_line_def cap_def group_of_def parse_decimal assms(2-4) is_ok_def is_error_def
        starts_with_def)
qed

theorem m114_round_trip_witness:
  "parse_m114_line std_text ''X:10.50 Y:-5.00 Z:0.00 E:0.00'' =
     Some (dec_val (False, ''10'', ''50''), dec_val (True, ''5'', ''00''), dec_val (False, ''0'', ''00''))"
proof -
  have h: "decimal_ok (False, ''10'', ''50'')" "decimal_ok (True, ''5'', ''00'')" "decimal_ok (False, ''0'', ''00'')"
    "all_ascii '' E:0.00''" by code_simp+
  have r: "case '' E:0.00'' of [] \<Rightarrow> True | c # _ \<Rightarrow> \<not> is_digit c" by (simp add: is_digit_def byte_def)
  from m114_round_trip [OF text_ok_std h r] show ?thesis by (simp add: show_m114_def dec_text_def)
qed

end
