(* ===== verification/Latch.thy ===== *)
theory Latch
  imports Core_Session
begin

text \<open>
  How a task waits for a latch (\<^verbatim>\<open>AsyncEvent::wait\<close> of \<^verbatim>\<open>src/core/session.rs\<close>) and
  how \<^verbatim>\<open>abort_and_wait\<close> of \<^verbatim>\<open>src/grbl/session.rs\<close> waits for a streaming task, at the
  level of single reads and writes: any number of waiting and setting tasks, interleaved in any way between
  any two of their steps. \<^verbatim>\<open>tokio::sync::Notify\<close> is a parameter with its documented laws.
  What follows is the licence for the rest of the development to treat a wait as a test of
  the flag: no wake-up is lost.
\<close>

section \<open>Notify\<close>

text \<open>
  A future made by \<^verbatim>\<open>notified()\<close> is named by a number. It is live until it has completed or is
  dropped, and ready once a wake-up has been delivered to it.
\<close>

record 'n notify_crate =
  nc_notified :: "'n \<Rightarrow> nat \<times> 'n"
  nc_poll :: "nat \<Rightarrow> 'n \<Rightarrow> bool \<times> 'n"
  nc_drop :: "nat \<Rightarrow> 'n \<Rightarrow> 'n"
  nc_notify_waiters :: "'n \<Rightarrow> 'n"
  nc_notify_one :: "'n \<Rightarrow> 'n"
  nc_live :: "nat \<Rightarrow> 'n \<Rightarrow> bool"
  nc_ready :: "nat \<Rightarrow> 'n \<Rightarrow> bool"

text \<open>
  The documented behaviour relied on: a future receives the wake-ups of \<^verbatim>\<open>notify_waiters\<close> as
  soon as it is made, even before it is polled; a delivered wake-up is not taken away by anything that
  happens to other futures; a future with a wake-up completes when it is polled. Nothing is assumed of the permit that
  \<^verbatim>\<open>notify_one\<close> may store.
\<close>

definition keeps_futures :: "'n notify_crate \<Rightarrow> (nat \<Rightarrow> bool) \<Rightarrow> 'n \<Rightarrow> 'n \<Rightarrow> bool" where
  "keeps_futures C others n n' \<longleftrightarrow>
     (\<forall>f. others f \<longrightarrow> nc_live C f n \<longrightarrow> nc_live C f n' \<and> (nc_ready C f n \<longrightarrow> nc_ready C f n'))"

definition notify_laws :: "'n notify_crate \<Rightarrow> bool" where
  "notify_laws C \<longleftrightarrow>
     (\<forall>n. \<not> nc_live C (fst (nc_notified C n)) n \<and> nc_live C (fst (nc_notified C n)) (snd (nc_notified C n)) \<and>
          keeps_futures C (\<lambda>_. True) n (snd (nc_notified C n))) \<and>
     (\<forall>n f. nc_live C f n \<longrightarrow> nc_ready C f n \<longrightarrow> fst (nc_poll C f n)) \<and>
     (\<forall>n f. nc_live C f n \<longrightarrow> \<not> fst (nc_poll C f n) \<longrightarrow> nc_live C f (snd (nc_poll C f n))) \<and>
     (\<forall>n f. keeps_futures C (\<lambda>g. g \<noteq> f) n (snd (nc_poll C f n))) \<and>
     (\<forall>n f. keeps_futures C (\<lambda>g. g \<noteq> f) n (nc_drop C f n)) \<and>
     (\<forall>n. keeps_futures C (\<lambda>_. True) n (nc_notify_one C n)) \<and>
     (\<forall>n f. nc_live C f n \<longrightarrow> nc_live C f (nc_notify_waiters C n) \<and> nc_ready C f (nc_notify_waiters C n))"

lemma keeps_futures_refl [simp]: "keeps_futures C P n n"
  by (simp add: keeps_futures_def)

lemma notify_lawsD:
  assumes "notify_laws C"
  shows "\<not> nc_live C (fst (nc_notified C n)) n" "nc_live C (fst (nc_notified C n)) (snd (nc_notified C n))"
    "keeps_futures C (\<lambda>_. True) n (snd (nc_notified C n))"
    "nc_live C f n \<Longrightarrow> nc_ready C f n \<Longrightarrow> fst (nc_poll C f n)"
    "nc_live C f n \<Longrightarrow> \<not> fst (nc_poll C f n) \<Longrightarrow> nc_live C f (snd (nc_poll C f n))"
    "keeps_futures C (\<lambda>g. g \<noteq> f) n (snd (nc_poll C f n))" "keeps_futures C (\<lambda>g. g \<noteq> f) n (nc_drop C f n)"
    "keeps_futures C (\<lambda>_. True) n (nc_notify_one C n)"
    "nc_live C f n \<Longrightarrow> nc_live C f (nc_notify_waiters C n) \<and> nc_ready C f (nc_notify_waiters C n)"
  using assms by (simp_all add: notify_laws_def)

section \<open>The tasks\<close>

text \<open>
  Where a waiting task stands. The first two are those of \<^verbatim>\<open>abort_and_wait\<close> before its loop; the
  loop is the same in both: test, make the future, test again, await it.
\<close>

datatype wait_pc = W_Enter | W_Abort | W_Test | W_Make | W_Retest nat | W_Await nat | W_Done

text \<open>Where a setting task stands: it stores the flag, then notifies twice.\<close>

datatype set_pc = S_Store | S_Waiters | S_One | S_End

record 'n latch =
  la_flag :: bool
  la_notify :: 'n
  la_abort :: bool      \<comment> \<open>the streaming task has been asked to abort\<close>

text \<open>The two constructors; the notifier of the library is fresh.\<close>

definition fresh_event :: "'n \<Rightarrow> 'n latch" where
  "fresh_event n = \<lparr>la_flag = False, la_notify = n, la_abort = False\<rparr>"

definition StreamDone_new :: "'n \<Rightarrow> 'n latch" where
  "StreamDone_new n = \<lparr>la_flag = False, la_notify = n, la_abort = False\<rparr>"

text \<open>One read or write of a waiting task and of a setting task.\<close>

definition AsyncEvent_wait_step :: "'n notify_crate \<Rightarrow> wait_pc \<Rightarrow> 'n latch \<Rightarrow> wait_pc \<times> 'n latch" where
  "AsyncEvent_wait_step C pc l =
     (case pc of
        W_Test \<Rightarrow> (if la_flag l then W_Done else W_Make, l)
      | W_Make \<Rightarrow> (case nc_notified C (la_notify l) of (f, n) \<Rightarrow> (W_Retest f, l\<lparr>la_notify := n\<rparr>))
      | W_Retest f \<Rightarrow>
          if la_flag l then (W_Done, l\<lparr>la_notify := nc_drop C f (la_notify l)\<rparr>) else (W_Await f, l)
      | W_Await f \<Rightarrow>
          (case nc_poll C f (la_notify l) of (done, n) \<Rightarrow> (if done then W_Test else W_Await f, l\<lparr>la_notify := n\<rparr>))
      | _ \<Rightarrow> (pc, l))"

definition AsyncEvent_set_step :: "'n notify_crate \<Rightarrow> set_pc \<Rightarrow> 'n latch \<Rightarrow> set_pc \<times> 'n latch" where
  "AsyncEvent_set_step C pc l =
     (case pc of
        S_Store \<Rightarrow> (S_Waiters, l\<lparr>la_flag := True\<rparr>)
      | S_Waiters \<Rightarrow> (S_One, l\<lparr>la_notify := nc_notify_waiters C (la_notify l)\<rparr>)
      | S_One \<Rightarrow> (S_End, l\<lparr>la_notify := nc_notify_one C (la_notify l)\<rparr>)
      | S_End \<Rightarrow> (S_End, l))"

definition abort_and_wait_step :: "'n notify_crate \<Rightarrow> wait_pc \<Rightarrow> 'n latch \<Rightarrow> wait_pc \<times> 'n latch" where
  "abort_and_wait_step C pc l =
     (case pc of
        W_Enter \<Rightarrow> (if la_flag l then W_Done else W_Abort, l)
      | W_Abort \<Rightarrow> (W_Test, l\<lparr>la_abort := True\<rparr>)
      | W_Test \<Rightarrow> (if la_flag l then W_Done else W_Make, l)
      | W_Make \<Rightarrow> (case nc_notified C (la_notify l) of (f, n) \<Rightarrow> (W_Retest f, l\<lparr>la_notify := n\<rparr>))
      | W_Retest f \<Rightarrow>
          if la_flag l then (W_Done, l\<lparr>la_notify := nc_drop C f (la_notify l)\<rparr>) else (W_Await f, l)
      | W_Await f \<Rightarrow>
          (case nc_poll C f (la_notify l) of (done, n) \<Rightarrow> (if done then W_Test else W_Await f, l\<lparr>la_notify := n\<rparr>))
      | W_Done \<Rightarrow> (W_Done, l))"

text \<open>The guard of the streaming task is dropped when the task ends, also when it is aborted.\<close>

definition StreamGuard_drop_step :: "'n notify_crate \<Rightarrow> set_pc \<Rightarrow> 'n latch \<Rightarrow> set_pc \<times> 'n latch" where
  "StreamGuard_drop_step C pc l =
     (case pc of
        S_Store \<Rightarrow> (S_Waiters, l\<lparr>la_flag := True\<rparr>)
      | S_Waiters \<Rightarrow> (S_One, l\<lparr>la_notify := nc_notify_waiters C (la_notify l)\<rparr>)
      | S_One \<Rightarrow> (S_End, l\<lparr>la_notify := nc_notify_one C (la_notify l)\<rparr>)
      | S_End \<Rightarrow> (S_End, l))"

section \<open>Interleavings\<close>

datatype turn = Turn_Wait nat | Turn_Set nat

type_synonym 'n tasks = "'n latch \<times> wait_pc list \<times> set_pc list"

definition take_turn ::
  "(wait_pc \<Rightarrow> 'n latch \<Rightarrow> wait_pc \<times> 'n latch) \<Rightarrow> (set_pc \<Rightarrow> 'n latch \<Rightarrow> set_pc \<times> 'n latch) \<Rightarrow>
   turn \<Rightarrow> 'n tasks \<Rightarrow> 'n tasks" where
  "take_turn wait notify t w =
     (case w of (l, ws, ss) \<Rightarrow>
        (case t of
           Turn_Wait i \<Rightarrow>
             if i < length ws then (case wait (ws ! i) l of (pc, l') \<Rightarrow> (l', ws[i := pc], ss)) else w
         | Turn_Set j \<Rightarrow>
             if j < length ss then (case notify (ss ! j) l of (pc, l') \<Rightarrow> (l', ws, ss[j := pc])) else w))"

definition take_turns ::
  "(wait_pc \<Rightarrow> 'n latch \<Rightarrow> wait_pc \<times> 'n latch) \<Rightarrow> (set_pc \<Rightarrow> 'n latch \<Rightarrow> set_pc \<times> 'n latch) \<Rightarrow>
   turn list \<Rightarrow> 'n tasks \<Rightarrow> 'n tasks" where
  "take_turns wait notify ts w = fold (take_turn wait notify) ts w"

text \<open>The future a task holds.\<close>

fun held :: "wait_pc \<Rightarrow> nat option" where
  "held (W_Retest f) = Some f"
| "held (W_Await f) = Some f"
| "held _ = None"

text \<open>
  What holds between any two steps: futures belong to one task each and are live; a task past its store has set
  the flag; nobody has returned without the flag; and once a setter has notified the
  waiters, every parked task has its wake-up.
\<close>

definition latch_inv :: "'n notify_crate \<Rightarrow> 'n tasks \<Rightarrow> bool" where
  "latch_inv C w \<longleftrightarrow>
     (case w of (l, ws, ss) \<Rightarrow>
        (\<forall>i < length ws. \<forall>f. held (ws ! i) = Some f \<longrightarrow> nc_live C f (la_notify l)) \<and>
        (\<forall>i < length ws. \<forall>j < length ws. \<forall>f. held (ws ! i) = Some f \<longrightarrow> held (ws ! j) = Some f \<longrightarrow> i = j) \<and>
        (W_Done \<in> set ws \<or> (\<exists>p \<in> set ss. p \<noteq> S_Store) \<longrightarrow> la_flag l) \<and>
        (S_One \<in> set ss \<or> S_End \<in> set ss \<longrightarrow> (\<forall>f. W_Await f \<in> set ws \<longrightarrow> nc_ready C f (la_notify l))))"

lemma latch_inv_waiter:
  assumes "latch_inv C (l, ws, ss)" "i < length ws" "la_flag l' = la_flag l"
    and K: "keeps_futures C (\<lambda>f. held (ws ! i) \<noteq> Some f) (la_notify l) (la_notify l')"
    and H: "\<And>f. held pc = Some f \<Longrightarrow>
      nc_live C f (la_notify l') \<and> (held (ws ! i) = Some f \<or> \<not> nc_live C f (la_notify l))"
    and D: "pc = W_Done \<Longrightarrow> la_flag l"
    and A: "\<And>f. pc = W_Await f \<Longrightarrow> la_flag l \<Longrightarrow> ws ! i = W_Await f \<and> \<not> nc_ready C f (la_notify l)"
  shows "latch_inv C (l', ws[i := pc], ss)"
proof -
  note I = assms(1) [unfolded latch_inv_def prod.case]
  have other: "held (ws ! i) \<noteq> Some f" if "j < length ws" "j \<noteq> i" "held (ws ! j) = Some f" for j f
    using I that assms(2) by blast
  have live: "nc_live C f (la_notify l') \<and> (nc_ready C f (la_notify l) \<longrightarrow> nc_ready C f (la_notify l'))"
    if "j < length ws" "j \<noteq> i" "held (ws ! j) = Some f" for j f
    using K [unfolded keeps_futures_def] other [OF that] I that by blast
  have p1: "nc_live C f (la_notify l')" if "j < length ws" "held (ws[i := pc] ! j) = Some f" for j f
    using that H live by (cases "j = i") auto
  have p2: "j = k" if "j < length ws" "k < length ws" "held (ws[i := pc] ! j) = Some f" "held (ws[i := pc] ! k) = Some f" for j k f
  proof (rule ccontr)
    assume "j \<noteq> k"
    then consider "j \<noteq> i" "k \<noteq> i" | "j = i" "k \<noteq> i" | "j \<noteq> i" "k = i" by blast
    then show False
    proof cases
      case 1
      with that I \<open>j \<noteq> k\<close> show False by simp
    next
      case 2
      with that H [of f] other [of k f] I show False by simp
    next
      case 3
      with that H [of f] other [of j f] I show False by simp
    qed
  qed
  have p4: "nc_ready C f (la_notify l')" if "S_One \<in> set ss \<or> S_End \<in> set ss" "W_Await f \<in> set (ws[i := pc])" for f
  proof -
    from that(2) obtain j where j: "j < length ws" "ws[i := pc] ! j = W_Await f" by (auto simp: in_set_conv_nth)
    have ready: "nc_ready C g (la_notify l)" if "k < length ws" "ws ! k = W_Await g" for k g
      using I \<open>S_One \<in> set ss \<or> S_End \<in> set ss\<close> that by (metis nth_mem)
    have flag: "la_flag l" using I that(1) by (metis set_pc.distinct(3) set_pc.distinct(5))
    show ?thesis
    proof (cases "j = i")
      case True
      with j A flag ready [OF assms(2)] show ?thesis by simp
    next
      case False
      with j have wj: "ws ! j = W_Await f" by simp
      with live [OF j(1) False, of f] ready [OF j(1) wj] show ?thesis by simp
    qed
  qed
  have p3: "la_flag l'" if "W_Done \<in> set (ws[i := pc]) \<or> (\<exists>p \<in> set ss. p \<noteq> S_Store)"
    using that I D assms(3) set_update_subset_insert [of ws i pc] by auto
  show ?thesis unfolding latch_inv_def using p1 p2 p3 p4 by auto
qed

lemma latch_inv_setter:
  assumes "latch_inv C (l, ws, ss)" "j < length ss" "la_flag l'"
    and K: "keeps_futures C (\<lambda>_. True) (la_notify l) (la_notify l')"
    and R: "pc = S_One \<or> pc = S_End \<Longrightarrow> ss ! j = S_One \<or> ss ! j = S_End \<or>
      (\<forall>f. nc_live C f (la_notify l) \<longrightarrow> nc_ready C f (la_notify l'))"
  shows "latch_inv C (l', ws, ss[j := pc])"
proof -
  note I = assms(1) [unfolded latch_inv_def prod.case]
  have ready: "nc_ready C f (la_notify l')"
    if "S_One \<in> set (ss[j := pc]) \<or> S_End \<in> set (ss[j := pc])" "W_Await f \<in> set ws" for f
  proof -
    from that(2) have live: "nc_live C f (la_notify l)" using I by (auto simp: in_set_conv_nth)
    show ?thesis
    proof (cases "S_One \<in> set ss \<or> S_End \<in> set ss")
      case True
      with I that(2) K live show ?thesis by (auto simp: keeps_futures_def)
    next
      case False
      with that(1) have "pc = S_One \<or> pc = S_End" using set_update_subset_insert [of ss j pc] by auto
      with R False live assms(2) show ?thesis by (metis nth_mem)
    qed
  qed
  show ?thesis unfolding latch_inv_def prod.case
    using I K assms(3) ready by (auto simp: keeps_futures_def)
qed

text \<open>
  The contract of the two programs: how a waiting task passes through its loop and what a setting task
  does. \<open>urgency\<close> bounds the turns a task needs once the flag is set and its wake-up is there.
\<close>

fun urgency :: "wait_pc \<Rightarrow> nat" where
  "urgency W_Done = 0"
| "urgency W_Enter = 1"
| "urgency W_Test = 1"
| "urgency (W_Retest f) = 1"
| "urgency _ = 2"

locale latch_protocol =
  fixes C :: "'n notify_crate"
    and wait :: "wait_pc \<Rightarrow> 'n latch \<Rightarrow> wait_pc \<times> 'n latch"
    and set_latch :: "set_pc \<Rightarrow> 'n latch \<Rightarrow> set_pc \<times> 'n latch"
    and started :: "wait_pc \<Rightarrow> bool"
  assumes wait_cases: "started pc \<Longrightarrow> wait pc l = (pc', l') \<Longrightarrow> started pc' \<and> la_flag l' = la_flag l \<and>
      (case pc of
         W_Retest f \<Rightarrow> if la_flag l then pc' = W_Done \<and> la_notify l' = nc_drop C f (la_notify l)
                       else pc' = W_Await f \<and> la_notify l' = la_notify l
       | W_Await f \<Rightarrow> (if fst (nc_poll C f (la_notify l)) then pc' = W_Test else pc' = pc) \<and>
                      la_notify l' = snd (nc_poll C f (la_notify l))
       | W_Make \<Rightarrow> pc' = W_Retest (fst (nc_notified C (la_notify l))) \<and> la_notify l' = snd (nc_notified C (la_notify l))
       | W_Done \<Rightarrow> pc' = W_Done \<and> la_notify l' = la_notify l
       | _ \<Rightarrow> held pc' = None \<and> la_notify l' = la_notify l \<and> (pc' = W_Done \<longrightarrow> la_flag l) \<and>
              (la_flag l \<longrightarrow> urgency pc' < urgency pc))"
    and set_cases: "set_latch sp l = (sp', l') \<Longrightarrow>
      (case sp of
         S_Store \<Rightarrow> sp' = S_Waiters \<and> la_flag l' \<and> la_notify l' = la_notify l
       | S_Waiters \<Rightarrow> sp' = S_One \<and> la_flag l' = la_flag l \<and> la_notify l' = nc_notify_waiters C (la_notify l)
       | S_One \<Rightarrow> sp' = S_End \<and> la_flag l' = la_flag l \<and> la_notify l' = nc_notify_one C (la_notify l)
       | S_End \<Rightarrow> sp' = S_End \<and> l' = l)"
begin

definition all_started :: "'n tasks \<Rightarrow> bool" where
  "all_started w \<longleftrightarrow> (\<forall>pc \<in> set (fst (snd w)). started pc)"

lemma wait_turn:
  assumes laws: "notify_laws C" and I: "latch_inv C (l, ws, ss)" and S: "all_started (l, ws, ss)" and i: "i < length ws"
    and step: "wait (ws ! i) l = (pc, l')"
  shows "latch_inv C (l', ws[i := pc], ss)" "all_started (l', ws[i := pc], ss)" "la_flag l' = la_flag l"
proof -
  note L = notify_lawsD [OF laws]
  have "started (ws ! i)" using S i by (simp add: all_started_def)
  note c = wait_cases [OF this step]
  show "la_flag l' = la_flag l" using c by simp
  show "all_started (l', ws[i := pc], ss)"
    using c S set_update_subset_insert [of ws i pc] by (auto simp: all_started_def)
  have live: "held (ws ! i) = Some f \<Longrightarrow> nc_live C f (la_notify l)" for f
    using I i by (auto simp: latch_inv_def)
  have ended: "ws ! i = W_Done \<Longrightarrow> la_flag l" using I nth_mem [OF i] by (auto simp: latch_inv_def)
  show "latch_inv C (l', ws[i := pc], ss)"
  proof (rule latch_inv_waiter [OF I i])
    show "la_flag l' = la_flag l" using c by simp
    show "keeps_futures C (\<lambda>f. held (ws ! i) \<noteq> Some f) (la_notify l) (la_notify l')"
      using c L(3,6,7) by (auto simp: keeps_futures_def split: wait_pc.splits if_splits)
    show "pc = W_Done \<Longrightarrow> la_flag l" using c ended by (auto split: wait_pc.splits if_splits)
    show "nc_live C f (la_notify l') \<and> (held (ws ! i) = Some f \<or> \<not> nc_live C f (la_notify l))" if "held pc = Some f" for f
      using that c L(1,2,5) live by (auto split: wait_pc.splits if_splits)
    show "ws ! i = W_Await f \<and> \<not> nc_ready C f (la_notify l)" if "pc = W_Await f" "la_flag l" for f
      using that c L(4) live by (auto split: wait_pc.splits if_splits)
  qed
qed

lemma set_turn:
  assumes laws: "notify_laws C" and I: "latch_inv C (l, ws, ss)" and j: "j < length ss"
    and step: "set_latch (ss ! j) l = (pc, l')"
  shows "latch_inv C (l', ws, ss[j := pc])" "la_flag l'" "pc \<noteq> S_Store"
proof -
  note L = notify_lawsD [OF laws] and c = set_cases [OF step]
  have "ss ! j \<noteq> S_Store \<Longrightarrow> la_flag l" using I nth_mem [OF j] by (auto simp: latch_inv_def)
  with c show flag: "la_flag l'" by (auto split: set_pc.splits)
  show "pc \<noteq> S_Store" using c by (auto split: set_pc.splits)
  show "latch_inv C (l', ws, ss[j := pc])"
  proof (rule latch_inv_setter [OF I j flag])
    show "keeps_futures C (\<lambda>_. True) (la_notify l) (la_notify l')"
      using c L(8,9) by (auto simp: keeps_futures_def split: set_pc.splits)
    show "ss ! j = S_One \<or> ss ! j = S_End \<or> (\<forall>f. nc_live C f (la_notify l) \<longrightarrow> nc_ready C f (la_notify l'))"
      if "pc = S_One \<or> pc = S_End"
      using that c L(9) by (auto split: set_pc.splits)
  qed
qed

text \<open>One turn of any task; once a wake-up is out, a turn of a waiting task brings it nearer to its end.\<close>

lemma turn_inv:
  assumes "notify_laws C" "latch_inv C w" "all_started w"
  shows "latch_inv C (take_turn wait set_latch t w) \<and> all_started (take_turn wait set_latch t w) \<and>
    length (fst (snd (take_turn wait set_latch t w))) = length (fst (snd w))"
proof (cases w)
  case (fields l ws ss)
  note I = assms(2,3) [unfolded fields]
  show ?thesis
  proof (cases t)
    case (Turn_Wait i)
    obtain pc l' where "wait (ws ! i) l = (pc, l')" by fastforce
    with I wait_turn [OF assms(1) I, of i pc l'] show ?thesis by (simp add: fields Turn_Wait take_turn_def)
  next
    case (Turn_Set j)
    obtain sp l' where "set_latch (ss ! j) l = (sp, l')" by fastforce
    with I set_turn [OF assms(1) I(1), of j sp l'] show ?thesis
      by (simp add: fields Turn_Set take_turn_def all_started_def)
  qed
qed

lemma turns_inv:
  assumes "notify_laws C"
  shows "latch_inv C w \<Longrightarrow> all_started w \<Longrightarrow>
    latch_inv C (take_turns wait set_latch ts w) \<and> all_started (take_turns wait set_latch ts w) \<and>
    length (fst (snd (take_turns wait set_latch ts w))) = length (fst (snd w))"
  by (induction ts arbitrary: w) (simp_all add: take_turns_def turn_inv [OF assms])

definition woken :: "'n tasks \<Rightarrow> bool" where
  "woken w \<longleftrightarrow> S_One \<in> set (snd (snd w)) \<or> S_End \<in> set (snd (snd w))"

lemma turn_woken:
  assumes "notify_laws C" "latch_inv C w" "woken w"
  shows "woken (take_turn wait set_latch t w)"
proof (cases w)
  case (fields l ws ss)
  show ?thesis
  proof (cases t)
    case (Turn_Set j)
    show ?thesis
    proof (cases "j < length ss")
      case True
      obtain sp l' where step: "set_latch (ss ! j) l = (sp, l')" by fastforce
      from assms(3) obtain k where k: "k < length ss" "ss ! k = S_One \<or> ss ! k = S_End"
        by (auto simp: woken_def fields in_set_conv_nth)
      have "ss[j := sp] ! k = S_One \<or> ss[j := sp] ! k = S_End"
        using set_cases [OF step] k by (cases "k = j") (auto split: set_pc.splits)
      then have "S_One \<in> set (ss[j := sp]) \<or> S_End \<in> set (ss[j := sp])"
        using k(1) by (metis length_list_update nth_mem)
      then show ?thesis by (simp add: fields Turn_Set True take_turn_def step woken_def)
    next
      case False
      with assms(3) show ?thesis by (simp add: fields Turn_Set take_turn_def)
    qed
  next
    case (Turn_Wait i)
    with assms(3) show ?thesis by (auto simp: fields take_turn_def woken_def split: prod.split)
  qed
qed

lemma turn_urgency:
  assumes laws: "notify_laws C" and I: "latch_inv C w" and S: "all_started w" and W: "woken w"
    and i: "i < length (fst (snd w))"
  shows "urgency (fst (snd (take_turn wait set_latch t w)) ! i) \<le>
    (if t = Turn_Wait i then urgency (fst (snd w) ! i) - 1 else urgency (fst (snd w) ! i))"
proof (cases w)
  case (fields l ws ss)
  show ?thesis
  proof (cases "t = Turn_Wait i")
    case True
    obtain pc l' where step: "wait (ws ! i) l = (pc, l')" by fastforce
    have "started (ws ! i)" using S i by (simp add: all_started_def fields)
    note c = wait_cases [OF this step]
    have flag: "la_flag l" using I W by (auto simp: latch_inv_def woken_def fields)
    have ready: "ws ! i = W_Await f \<Longrightarrow> nc_live C f (la_notify l) \<and> nc_ready C f (la_notify l)" for f
      using I W i nth_mem [of i ws] by (auto simp: latch_inv_def woken_def fields)
    have "urgency pc \<le> urgency (ws ! i) - 1"
      using c flag ready notify_lawsD(4) [OF laws] by (cases "ws ! i") auto
    with True i show ?thesis by (simp add: fields take_turn_def step)
  next
    case False
    then show ?thesis using i by (cases t) (auto simp: fields take_turn_def split: prod.split)
  qed
qed

text \<open>Once a wake-up is out, two turns are enough for each waiting task.\<close>

lemma turns_finish:
  assumes laws: "notify_laws C"
  shows "latch_inv C w \<Longrightarrow> all_started w \<Longrightarrow> woken w \<Longrightarrow> i < length (fst (snd w)) \<Longrightarrow>
    urgency (fst (snd w) ! i) \<le> count_list ts (Turn_Wait i) \<Longrightarrow>
    fst (snd (take_turns wait set_latch ts w)) ! i = W_Done"
proof (induction ts arbitrary: w)
  case Nil
  then show ?case by (cases "fst (snd w) ! i") (simp_all add: take_turns_def)
next
  case (Cons t ts)
  let ?v = "take_turn wait set_latch t w"
  have v: "latch_inv C ?v" "all_started ?v" "i < length (fst (snd ?v))" "woken ?v"
    using turn_inv [OF laws Cons.prems(1,2), of t] turn_woken [OF laws Cons.prems(1,3), of t] Cons.prems(4) by auto
  have "urgency (fst (snd ?v) ! i) \<le> count_list ts (Turn_Wait i)"
    using turn_urgency [OF laws Cons.prems(1-4), of t] Cons.prems(5) by (auto split: if_splits)
  from Cons.IH [OF v(1,2,4,3) this] show ?case by (simp add: take_turns_def)
qed

lemma no_lost_wakeup:
  assumes "notify_laws C" and ws: "\<forall>pc \<in> set ws. started pc \<and> held pc = None \<and> pc \<noteq> W_Done"
    and ss: "\<forall>p \<in> set ss. p = S_Store" and w: "w = take_turns wait set_latch ts (l, ws, ss)"
  shows "(W_Done \<in> set (fst (snd w)) \<longrightarrow> la_flag (fst w)) \<and>
    (S_End \<in> set (snd (snd w)) \<longrightarrow> i < length ws \<longrightarrow> 2 \<le> count_list us (Turn_Wait i) \<longrightarrow>
       fst (snd (take_turns wait set_latch us w)) ! i = W_Done)"
proof -
  have "latch_inv C (l, ws, ss)"
  proof -
    have "held (ws ! i) = None \<and> ws ! i \<noteq> W_Done" if "i < length ws" for i using ws that by auto
    moreover have "W_Await f \<notin> set ws" for f using ws by auto
    ultimately show ?thesis using ws ss by (auto simp: latch_inv_def)
  qed
  moreover have "all_started (l, ws, ss)" using ws by (simp add: all_started_def)
  ultimately have v: "latch_inv C w" "all_started w" "length (fst (snd w)) = length ws"
    using turns_inv [OF assms(1), of "(l, ws, ss)" ts] w by auto
  have "urgency pc \<le> 2" for pc by (cases pc) simp_all
  with turns_finish [OF assms(1) v(1,2), of i us] v show ?thesis
    by (auto simp: latch_inv_def woken_def intro: order_trans split: prod.splits)
qed

end

interpretation async_event: latch_protocol C "AsyncEvent_wait_step C" "AsyncEvent_set_step C"
    "\<lambda>pc. pc \<noteq> W_Enter \<and> pc \<noteq> W_Abort" for C
  by unfold_locales
    (auto simp: AsyncEvent_wait_step_def AsyncEvent_set_step_def split: wait_pc.splits set_pc.splits prod.splits if_splits)

interpretation stream_done: latch_protocol C "abort_and_wait_step C" "StreamGuard_drop_step C" "\<lambda>_. True" for C
  by unfold_locales
    (auto simp: abort_and_wait_step_def StreamGuard_drop_step_def split: wait_pc.splits set_pc.splits prod.splits if_splits)

section \<open>No wake-up is lost\<close>

text \<open>
  C14: No wake-up of a latch is lost. Any number of tasks wait for an \<^verbatim>\<open>AsyncEvent\<close> and any number
  set it, interleaved in any way between two reads or writes, and nobody clears it. A wait returns only if the event
  has been set; and once one set has returned, every waiting task returns after two more turns of its own,
  wherever it was suspended, whatever the others do meanwhile.
\<close>

theorem AsyncEvent_no_lost_wakeup:
  assumes "notify_laws C"
    and "w = take_turns (AsyncEvent_wait_step C) (AsyncEvent_set_step C) ts (l, replicate k W_Test, replicate m S_Store)"
  shows "(W_Done \<in> set (fst (snd w)) \<longrightarrow> la_flag (fst w)) \<and>
    (S_End \<in> set (snd (snd w)) \<longrightarrow> i < k \<longrightarrow> 2 \<le> count_list us (Turn_Wait i) \<longrightarrow>
       fst (snd (take_turns (AsyncEvent_wait_step C) (AsyncEvent_set_step C) us w)) ! i = W_Done)"
  using async_event.no_lost_wakeup [OF assms(1) _ _ assms(2), of i us] by simp

text \<open>A notifier with the documented behaviour: the live futures, those with a wake-up, the permit.\<close>

definition std_notify :: "(nat list \<times> nat list \<times> bool) notify_crate" where
  "std_notify =
     \<lparr>nc_notified = \<lambda>(ls, rs, p). (Suc (sum_list ls), (Suc (sum_list ls) # ls, rs, p)),
      nc_poll = \<lambda>f (ls, rs, p).
        if f \<in> set rs then (True, (removeAll f ls, removeAll f rs, p))
        else if p then (True, (removeAll f ls, rs, False)) else (False, (ls, rs, p)),
      nc_drop = \<lambda>f (ls, rs, p). (removeAll f ls, removeAll f rs, p),
      nc_notify_waiters = \<lambda>(ls, rs, p). (ls, ls, p),
      nc_notify_one = \<lambda>(ls, rs, p).
        (case filter (\<lambda>f. f \<notin> set rs) ls of [] \<Rightarrow> (ls, rs, True) | f # _ \<Rightarrow> (ls, f # rs, p)),
      nc_live = \<lambda>f (ls, rs, p). f \<in> set ls,
      nc_ready = \<lambda>f (ls, rs, p). f \<in> set rs\<rparr>"

lemma std_notify_laws: "notify_laws std_notify"
proof -
  have fresh: "Suc (sum_list ls) \<notin> set ls" for ls :: "nat list"
    using member_le_sum_list [of "Suc (sum_list ls)" ls] by auto
  show ?thesis
    unfolding notify_laws_def keeps_futures_def
    by (intro conjI) (auto simp: std_notify_def fresh split: list.splits if_splits)
qed

theorem AsyncEvent_no_lost_wakeup_witness:
  "fst (snd (take_turns (AsyncEvent_wait_step std_notify) (AsyncEvent_set_step std_notify)
     (map Turn_Wait [0, 0, 0, 0] @ map Turn_Set [0, 0, 0] @ [Turn_Wait 0, Turn_Wait 0])
     (fresh_event ([], [], False), [W_Test, W_Test], [S_Store]))) ! 0 = W_Done"
proof -
  let ?l = "fresh_event ([], [], False)"
  let ?go = "take_turns (AsyncEvent_wait_step std_notify) (AsyncEvent_set_step std_notify)"
  let ?w = "?go (map Turn_Wait [0, 0, 0, 0] @ map Turn_Set [0, 0, 0]) (?l, replicate 2 W_Test, replicate 1 S_Store)"
  have "S_End \<in> set (snd (snd ?w))" by code_simp
  with AsyncEvent_no_lost_wakeup [OF std_notify_laws refl,
      of "map Turn_Wait [0, 0, 0, 0] @ map Turn_Set [0, 0, 0]" ?l 2 1 0 "[Turn_Wait 0, Turn_Wait 0]"]
  have "fst (snd (?go [Turn_Wait 0, Turn_Wait 0] ?w)) ! 0 = W_Done" by simp
  then show ?thesis by (simp add: take_turns_def numeral_2_eq_2)
qed

text \<open>
  A task that aborts the streaming job and waits for it returns once the guard of that job has been
  dropped, however the steps of the two are interleaved, and not before.
\<close>

theorem abort_and_wait_returns:
  assumes "notify_laws C"
    and "w = take_turns (abort_and_wait_step C) (StreamGuard_drop_step C) ts
      (StreamDone_new n, replicate k W_Enter, [S_Store])"
  shows "(W_Done \<in> set (fst (snd w)) \<longrightarrow> la_flag (fst w)) \<and>
    (S_End \<in> set (snd (snd w)) \<longrightarrow> i < k \<longrightarrow> 2 \<le> count_list us (Turn_Wait i) \<longrightarrow>
       fst (snd (take_turns (abort_and_wait_step C) (StreamGuard_drop_step C) us w)) ! i = W_Done)"
  using stream_done.no_lost_wakeup [OF assms(1) _ _ assms(2), of i us] by simp

end
