(* ===== verification/Py_Parsers.thy ===== *)
theory Py_Parsers
  imports Py_Sessions Grbl_Parser Grbl_Errors Marlin_Parser
begin

text \<open>
  The parser functions the extension module exports, \<^verbatim>\<open>src/python/grbl/parser.rs\<close> and
  \<^verbatim>\<open>src/python/marlin/parser.rs\<close>, and the mock transport of
  \<^verbatim>\<open>src/python/core/mock.rs\<close>. Most forward to the parser of the core; the others supply
  a default, wrap a device error or name a unit system.
\<close>

subsection \<open>GRBL\<close>

definition pygp_parse_state ::
  "regex_crate \<Rightarrow> string \<Rightarrow> PyDeviceState option \<Rightarrow> bool option \<Rightarrow> PyDeviceState" where
  "pygp_parse_state X state_str base report_in_inches =
     PyDeviceState_new
       (parse_state X state_str (case base of Some d \<Rightarrow> ps_inner d | None \<Rightarrow> DeviceState_default)
          (case report_in_inches of Some b \<Rightarrow> b | None \<Rightarrow> False))"

definition pygp_parse_version :: "string list \<Rightarrow> string option" where
  "pygp_parse_version response_lines = parse_version response_lines"

definition pygp_parse_ver :: "string \<Rightarrow> (string \<times> string option) option" where
  "pygp_parse_ver line = parse_ver line"

definition pygp_parse_opt_info :: "regex_crate \<Rightarrow> string \<Rightarrow> int option" where
  "pygp_parse_opt_info X line = parse_opt_info X line"

definition pygp_parse_opt_flags :: "regex_crate \<Rightarrow> string \<Rightarrow> string option" where
  "pygp_parse_opt_flags X line = parse_opt_flags X line"

definition pygp_parse_msg :: "string \<Rightarrow> (string \<times> string) option" where
  "pygp_parse_msg line = parse_msg line"

definition pygp_extract_device_name :: "string list \<Rightarrow> string" where
  "pygp_extract_device_name build_info = extract_device_name build_info"

definition pygp_extract_device_name_from_output :: "bytes \<Rightarrow> string option" where
  "pygp_extract_device_name_from_output data = extract_device_name_from_output data"

definition pygp_is_grbl_output :: "regex_crate \<Rightarrow> bytes \<Rightarrow> bool" where
  "pygp_is_grbl_output X data = is_grbl_output X data"

definition pygp_strip_gcode_comments :: "regex_crate \<Rightarrow> string \<Rightarrow> string" where
  "pygp_strip_gcode_comments X line = strip_gcode_comments X line"

definition pygp_split_realtime_commands :: "string list \<Rightarrow> string list \<times> string list" where
  "pygp_split_realtime_commands ls = split_realtime_commands ls"

definition pygp_gcode_to_p_number :: "string \<Rightarrow> int option" where
  "pygp_gcode_to_p_number wcs_slot = gcode_to_p_number wcs_slot"

definition pygp_parse_grbl_settings :: "regex_crate \<Rightarrow> string list \<Rightarrow> (string \<rightharpoonup> f64)" where
  "pygp_parse_grbl_settings X ls = parse_grbl_settings X ls"

definition pygp_parse_setting_pairs :: "regex_crate \<Rightarrow> string list \<Rightarrow> (string \<times> string) list" where
  "pygp_parse_setting_pairs X ls = parse_setting_pairs X ls"

definition pygp_parse_wcs_line :: "regex_crate \<Rightarrow> string \<Rightarrow> (string \<times> f64 \<times> f64 \<times> f64) option" where
  "pygp_parse_wcs_line X line = parse_wcs_line X line"

definition pygp_parse_probe_line :: "regex_crate \<Rightarrow> string \<Rightarrow> ((f64 \<times> f64 \<times> f64) \<times> bool) option" where
  "pygp_parse_probe_line X line = parse_probe_line X line"

definition pygp_parse_grbl_parser_state :: "regex_crate \<Rightarrow> string list \<Rightarrow> string option" where
  "pygp_parse_grbl_parser_state X response_lines = parse_grbl_parser_state X response_lines"

definition pygp_is_report_in_inches :: "regex_crate \<Rightarrow> string list \<Rightarrow> bool" where
  "pygp_is_report_in_inches X settings_lines = is_report_in_inches X settings_lines"

definition pygp_version_supports_single_axis_homing :: "f64 \<Rightarrow> string option \<Rightarrow> bool" where
  "pygp_version_supports_single_axis_homing version_num version_letter =
     version_supports_single_axis_homing version_num (case version_letter of Some l \<Rightarrow> l | None \<Rightarrow> [])"

definition pygp_detect_unit_system_from_settings :: "regex_crate \<Rightarrow> string list \<Rightarrow> string option" where
  "pygp_detect_unit_system_from_settings X settings_lines =
     (case detect_unit_system_from_settings X settings_lines of
        Some Metric \<Rightarrow> Some ''metric''
      | Some Imperial \<Rightarrow> Some ''imperial''
      | None \<Rightarrow> None)"

definition pygp_error_code_to_device_error :: "string \<Rightarrow> PyDeviceError" where
  "pygp_error_code_to_device_error code = PyDeviceError_new (error_code_to_device_error code)"

definition pygp_alarm_code_to_device_error :: "string \<Rightarrow> PyDeviceError" where
  "pygp_alarm_code_to_device_error code = PyDeviceError_new (alarm_code_to_device_error code)"

subsection \<open>Marlin\<close>

text \<open>Collecting pairs into a dictionary: the last pair of a key stays.\<close>

definition collect_map :: "('k \<times> 'v) list \<Rightarrow> ('k \<rightharpoonup> 'v)" where
  "collect_map kvs = foldl (\<lambda>m (k, v). m(k \<mapsto> v)) Map.empty kvs"

lemma collect_map_last: "collect_map (kvs @ [(k, v)]) = (collect_map kvs)(k \<mapsto> v)"
  by (simp add: collect_map_def)

definition pymp_is_ok_response :: "text_lib \<Rightarrow> string \<Rightarrow> bool" where
  "pymp_is_ok_response X line = is_ok X line"

definition pymp_is_error_response :: "string \<Rightarrow> bool" where
  "pymp_is_error_response line = is_error line"

definition pymp_is_boot_message :: "string \<Rightarrow> bool" where
  "pymp_is_boot_message line = is_boot_message line"

definition pymp_is_marlin_output :: "bytes \<Rightarrow> bool" where
  "pymp_is_marlin_output data = is_marlin_output data"

definition pymp_extract_marlin_banner_from_output :: "text_lib \<Rightarrow> bytes \<Rightarrow> string option" where
  "pymp_extract_marlin_banner_from_output X data = extract_marlin_banner_from_output X data"

definition pymp_parse_m114_position :: "text_lib \<Rightarrow> string list \<Rightarrow> (f64 \<times> f64 \<times> f64) option" where
  "pymp_parse_m114_position X ls = parse_m114_position X ls"

definition pymp_parse_m114_line :: "text_lib \<Rightarrow> string \<Rightarrow> (f64 \<times> f64 \<times> f64) option" where
  "pymp_parse_m114_line X line = parse_m114_line X line"

definition pymp_is_m114_position :: "text_lib \<Rightarrow> string \<Rightarrow> bool" where
  "pymp_is_m114_position X line = is_m114_position X line"

definition pymp_parse_marlin_version :: "text_lib \<Rightarrow> string \<Rightarrow> string option" where
  "pymp_parse_marlin_version X line = parse_marlin_version X line"

definition pymp_parse_error_message :: "text_lib \<Rightarrow> string \<Rightarrow> string" where
  "pymp_parse_error_message X line = parse_error_message X line"

definition pymp_parse_m211_endstops :: "text_lib \<Rightarrow> string list \<Rightarrow> (f64 \<times> f64) option" where
  "pymp_parse_m211_endstops X ls = parse_m211_endstops X ls"

definition pymp_parse_m115_firmware_info :: "text_lib \<Rightarrow> string list \<Rightarrow> (string \<rightharpoonup> string)" where
  "pymp_parse_m115_firmware_info X ls = collect_map (parse_m115_firmware_info X ls)"

definition pymp_parse_m503_settings :: "text_lib \<Rightarrow> string list \<Rightarrow> (string \<rightharpoonup> f64)" where
  "pymp_parse_m503_settings X ls = collect_map (parse_m503_settings X ls)"

definition pymp_extract_marlin_device_name :: "text_lib \<Rightarrow> string list \<Rightarrow> string list option \<Rightarrow> string" where
  "pymp_extract_marlin_device_name X m115_lines boot_lines =
     extract_marlin_device_name X m115_lines (case boot_lines of Some l \<Rightarrow> l | None \<Rightarrow> [])"

definition pymp_detect_unit_system_from_m149 :: "text_lib \<Rightarrow> string list \<Rightarrow> string option" where
  "pymp_detect_unit_system_from_m149 X ls =
     (case detect_unit_system_from_m149 X ls of
        Some Metric \<Rightarrow> Some ''metric''
      | Some Imperial \<Rightarrow> Some ''imperial''
      | None \<Rightarrow> None)"

subsection \<open>The mock transport\<close>

definition pymock_new :: MockInner where
  "pymock_new = mock_new"

definition pymock_push :: "bytes \<Rightarrow> MockInner \<Rightarrow> MockInner" where
  "pymock_push data m = mock_push data m"

definition pymock_sent :: "MockInner \<Rightarrow> bytes list" where
  "pymock_sent m = mk_sent m"

text \<open>A cursor past the end of the log panics (\<open>None\<close>), as in the core.\<close>

definition pymock_take_new_sent :: "MockInner \<Rightarrow> (bytes list \<times> MockInner) option" where
  "pymock_take_new_sent m = mock_take_new_sent m"

definition pymock_clear_sent :: "MockInner \<Rightarrow> MockInner" where
  "pymock_clear_sent m = mock_clear_sent m"

definition pymock_set_connected :: "bool \<Rightarrow> MockInner \<Rightarrow> MockInner" where
  "pymock_set_connected connected m = mock_set_open connected m"

definition pymock_is_connected :: "MockInner \<Rightarrow> bool" where
  "pymock_is_connected m = mk_open m"

definition pymock_set_write_error :: "string option option \<Rightarrow> MockInner \<Rightarrow> MockInner" where
  "pymock_set_write_error message m = mock_set_write_error (Option.bind message (\<lambda>e. e)) m"

definition pymock_repr :: string where
  "pymock_repr = ''MockTransport()''"

end
