(* ===== verification/Py_Log.thy ===== *)
theory Py_Log
  imports F64 "HOL-Library.Signed_Division"
begin

text \<open>
  The time stamps and the logger of \<^verbatim>\<open>src/python/mod.rs\<close>. The stamp is computed from
  the seconds since the epoch without a calendar library; the reference it is compared with is the
  Gregorian calendar, counted one day at a time from 1 January 1970. The log filter is a crate and
  a parameter of the logger; opening the log file is an answer of the environment.
\<close>

section \<open>Time stamps\<close>

text \<open>Year, month and day of a day number since the epoch (\<^verbatim>\<open>i64\<close>, far from its limits).\<close>

definition civil_from_days :: "int \<Rightarrow> int \<times> int \<times> int" where
  "civil_from_days days =
     (let z = days + 719468;
          era = (if 0 \<le> z then z else z - 146096) sdiv 146097;
          doe = z - era * 146097;
          yoe = (doe - doe div 1460 + doe div 36524 - doe div 146096) div 365;
          y = yoe + era * 400;
          doy = doe - (365 * yoe + yoe div 4 - yoe div 100);
          mp = (5 * doy + 2) div 153;
          d = doy - (153 * mp + 2) div 5 + 1;
          m = (if mp < 10 then mp + 3 else mp - 9)
      in (y + (if m \<le> 2 then 1 else 0), m, d))"

definition show_padded :: "nat \<Rightarrow> int \<Rightarrow> string" where
  "show_padded n i = pad_left n (show_pos i)"

text \<open>
  \<open>now\<close> is the time since the epoch in seconds and milliseconds, \<open>None\<close> for a clock before it.
\<close>

definition utc_timestamp :: "(nat \<times> nat) option \<Rightarrow> string" where
  "utc_timestamp now =
     (let (secs, millis) = (case now of Some t \<Rightarrow> t | None \<Rightarrow> (0, 0));
          days = int (secs div 86400);
          rem = int (secs mod 86400);
          (y, m, d) = civil_from_days days
      in show_padded 4 y @ ''-'' @ show_padded 2 m @ ''-'' @ show_padded 2 d @ ''T'' @
         show_padded 2 (rem div 3600) @ '':'' @ show_padded 2 (rem mod 3600 div 60) @ '':'' @
         show_padded 2 (rem mod 60) @ ''.'' @ show_padded 3 (int millis) @ ''Z'')"

subsection \<open>The calendar\<close>

definition leap_year :: "int \<Rightarrow> bool" where
  "leap_year y \<longleftrightarrow> y mod 4 = 0 \<and> (y mod 100 \<noteq> 0 \<or> y mod 400 = 0)"

definition month_length :: "int \<Rightarrow> int \<Rightarrow> int" where
  "month_length y m =
     (if m = 2 then (if leap_year y then 29 else 28)
      else if m = 4 \<or> m = 6 \<or> m = 9 \<or> m = 11 then 30 else 31)"

fun next_day :: "int \<times> int \<times> int \<Rightarrow> int \<times> int \<times> int" where
  "next_day (y, m, d) =
     (if d < month_length y m then (y, m, d + 1)
      else if m < 12 then (y, m + 1, 1) else (y + 1, 1, 1))"

subsection \<open>The year\<close>

text \<open>
  Days before 1 March of the year \<open>y\<close>, counted from 1 March of the year 0: years that begin in
  March end with their leap day.
\<close>

definition march_start :: "int \<Rightarrow> int" where
  "march_start y = 365 * y + y div 4 - y div 100 + y div 400"

lemma div_Suc_int:
  assumes "0 < (k :: int)"
  shows "(y + 1) div k = y div k + (if (y + 1) mod k = 0 then 1 else 0)"
proof (cases "y mod k = k - 1")
  case True
  have "y + 1 = k * (y div k) + k" using True mult_div_mod_eq [of k y] by linarith
  hence "y + 1 = k * (y div k + 1)" by (simp add: distrib_left)
  with assms show ?thesis by simp
next
  case False
  have "y + 1 = k * (y div k) + (y mod k + 1)" using mult_div_mod_eq [of k y] by linarith
  moreover have "0 \<le> y mod k + 1" "y mod k + 1 < k" "y mod k + 1 \<noteq> 0"
    using assms False pos_mod_bound [of k y] pos_mod_sign [of k y] by linarith+
  ultimately show ?thesis
    using int_div_pos_eq [of "y + 1" k "y div k" "y mod k + 1"]
      int_mod_pos_eq [of "y + 1" k "y div k" "y mod k + 1"] by simp
qed

lemma count_multiples:
  assumes "a' = a + (if A then 1 else 0)" "b' = b + (if B then 1 else 0)" "c' = c + (if C then 1 else 0)"
    and "C \<Longrightarrow> B" "B \<Longrightarrow> A"
  shows "365 * (y + 1) + a' - b' + c' =
    (365 * y + a - b + c) + (if A \<and> (\<not> B \<or> C) then 366 else 365 :: int)"
  using assms by auto

lemma march_start_Suc: "march_start (y + 1) = march_start y + (if leap_year (y + 1) then 366 else 365)"
proof -
  have dvd: "400 dvd x \<Longrightarrow> 100 dvd x" "100 dvd x \<Longrightarrow> 4 dvd x" for x :: int
    by (rule dvd_trans [rotated], assumption, simp)+
  have "(y + 1) mod 400 = 0 \<Longrightarrow> (y + 1) mod 100 = 0" "(y + 1) mod 100 = 0 \<Longrightarrow> (y + 1) mod 4 = 0"
    using dvd [of "y + 1"] by (simp_all only: mod_eq_0_iff_dvd)
  thus ?thesis
    unfolding march_start_def leap_year_def
    by (rule count_multiples [OF div_Suc_int div_Suc_int div_Suc_int, OF
          zero_less_numeral zero_less_numeral zero_less_numeral])
qed

lemma march_start_mono: "x \<le> y \<Longrightarrow> march_start x \<le> march_start y"
proof (induction y rule: int_ge_induct)
  case (step y)
  thus ?case by (simp add: march_start_Suc)
qed simp

lemma march_year_unique:
  assumes "march_start x \<le> z" "z < march_start (x + 1)" "march_start y \<le> z" "z < march_start (y + 1)"
  shows "x = y"
proof (rule ccontr)
  assume "x \<noteq> y"
  hence "x + 1 \<le> y \<or> y + 1 \<le> x" by linarith
  with march_start_mono assms show False by fastforce
qed

text \<open>
  The era, century, four-year cycle and year the computation finds. Dividing by 1460 instead of
  1461 counts one day too many exactly when the last cycle of 1460 days is complete.
\<close>

lemma yoe_cycle:
  fixes c b f :: int
  assumes "0 \<le> c" "c \<le> 3" "0 \<le> b" "b \<le> 24" "0 \<le> f" "f \<le> 1460" "b < 24 \<or> f \<le> 1459"
  defines "doe \<equiv> 36524 * c + 1461 * b + f"
  shows "(doe - doe div 1460 + doe div 36524 - doe div 146096) div 365 =
      100 * c + 4 * b + (if f = 1460 then 3 else f div 365)"
proof -
  let ?k = "24 * c + b + f"
  define \<delta> :: int where "\<delta> = (if 1460 \<le> ?k then 1 else 0)"
  have "doe = 1460 * (25 * c + b + \<delta>) + (?k - 1460 * \<delta>)" by (simp add: doe_def)
  moreover have "0 \<le> ?k - 1460 * \<delta>" "?k - 1460 * \<delta> < 1460" using assms by (auto simp: \<delta>_def)
  ultimately have q1: "doe div 1460 = 25 * c + b + \<delta>" using int_div_pos_eq by metis
  have "doe = 36524 * c + (1461 * b + f)" "0 \<le> 1461 * b + f" "1461 * b + f < 36524"
    using assms by (auto simp: doe_def)
  hence q2: "doe div 36524 = c" using int_div_pos_eq by metis
  have "0 \<le> doe" "doe < 146096" using assms \<open>1461 * b + f < 36524\<close> by (auto simp: doe_def)
  hence q3: "doe div 146096 = 0" by simp
  let ?a = "if f = 1460 then 3 else f div 365"
  have "doe - doe div 1460 + doe div 36524 - doe div 146096 = 365 * (100 * c + 4 * b + ?a) + (f - \<delta> - 365 * ?a)"
    by (simp add: q1 q2 q3) (simp add: doe_def)
  moreover have "0 \<le> f - \<delta> - 365 * ?a \<and> f - \<delta> - 365 * ?a < 365"
  proof (cases "f = 1460")
    case True
    with assms show ?thesis by (auto simp: \<delta>_def)
  next
    case False
    have "\<delta> = 1 \<Longrightarrow> 1364 \<le> f" using assms by (auto simp: \<delta>_def split: if_splits)
    hence "\<delta> \<le> f mod 365" using False assms(5,6) unfolding \<delta>_def by (cases "1460 \<le> ?k"; simp; presburger)
    moreover have "f mod 365 = f - 365 * (f div 365)" by (simp add: minus_mult_div_eq_mod)
    moreover have "f mod 365 < 365" "0 \<le> \<delta>" by (simp_all add: \<delta>_def)
    ultimately show ?thesis using False by simp
  qed
  ultimately show ?thesis using int_div_pos_eq by (metis (no_types, lifting))
qed

text \<open>Every day of an era but the last lies in such a cycle.\<close>

lemma doe_cycle:
  fixes doe :: int
  assumes "0 \<le> doe" "doe < 146096"
  obtains c b f where "0 \<le> c" "c \<le> 3" "0 \<le> b" "b \<le> 24" "0 \<le> f" "f \<le> 1460"
    "b < 24 \<or> f \<le> 1459" "doe = 36524 * c + 1461 * b + f"
proof -
  define e where "e = doe mod 36524"
  have c: "0 \<le> doe div 36524" "doe div 36524 \<le> 3" using assms by linarith+
  have e: "0 \<le> e" "e < 36524" by (simp_all add: e_def)
  have doe: "doe = 36524 * (doe div 36524) + e" by (simp add: e_def)
  have b: "0 \<le> e div 1461" "e div 1461 \<le> 24" using e by linarith+
  have f: "0 \<le> e mod 1461" "e mod 1461 \<le> 1460" "e = 1461 * (e div 1461) + e mod 1461" by simp_all
  have "e div 1461 < 24 \<or> e mod 1461 \<le> 1459" using e f(3) b(2) by linarith
  with that [of "doe div 36524" "e div 1461" "e mod 1461"] c b f doe show ?thesis by linarith
qed

text \<open>The March-based year and the day in it.\<close>

definition year_of_era :: "int \<Rightarrow> int" where
  "year_of_era doe = (doe - doe div 1460 + doe div 36524 - doe div 146096) div 365"

definition day_of_year :: "int \<Rightarrow> int" where
  "day_of_year doe =
     (let yoe = year_of_era doe in doe - (365 * yoe + yoe div 4 - yoe div 100))"

lemma year_of_era_correct:
  assumes "0 \<le> doe" "doe < 146097"
  shows "0 \<le> year_of_era doe \<and> year_of_era doe < 400 \<and> 0 \<le> day_of_year doe \<and>
    (day_of_year doe < 365 \<or> day_of_year doe = 365 \<and> leap_year (year_of_era doe + 1 + 400 * era))"
proof (cases "doe = 146096")
  case True
  hence "year_of_era doe = 399" by (simp add: year_of_era_def)
  moreover have "leap_year (400 + 400 * era)" by (simp add: leap_year_def)
  ultimately show ?thesis using True by (simp add: day_of_year_def)
next
  case False
  with assms have "0 \<le> doe" "doe < 146096" by simp_all
  then obtain c b f where d: "0 \<le> c" "c \<le> 3" "0 \<le> b" "b \<le> 24" "0 \<le> f" "f \<le> 1460"
    "b < 24 \<or> f \<le> 1459" "doe = 36524 * c + 1461 * b + f"
    by (rule doe_cycle)
  define a where "a = (if f = 1460 then 3 else f div 365)"
  have "0 \<le> f div 365" using d(5) by linarith
  moreover have "f div 365 \<le> 3" if "f \<noteq> 1460" using d(6) that by linarith
  ultimately have a: "0 \<le> a" "a \<le> 3" by (simp_all add: a_def)
  have y: "year_of_era doe = 100 * c + 4 * b + a"
    unfolding year_of_era_def d(8) a_def by (rule yoe_cycle [OF d(1-7)])
  have "year_of_era doe div 4 = 25 * c + b" using a by (intro int_div_pos_eq [of _ _ _ a]) (simp_all add: y)
  moreover have "year_of_era doe div 100 = c"
    using a d(3,4) by (intro int_div_pos_eq [of _ _ _ "4 * b + a"]) (simp_all add: y)
  ultimately have g: "day_of_year doe = f - 365 * a"
    unfolding day_of_year_def Let_def by (simp only: y) (simp add: d(8))
  have "0 \<le> f - 365 * a \<and> (f - 365 * a < 365 \<or> f = 1460)"
  proof (cases "f = 1460")
    case False
    have "f - 365 * (f div 365) = f mod 365" by (simp add: minus_mult_div_eq_mod)
    with False show ?thesis by (simp add: a_def)
  qed (simp add: a_def)
  moreover have "leap_year (year_of_era doe + 1 + 400 * era)" if "f = 1460"
  proof -
    have b: "b \<le> 23" using d(7) that by simp
    have eq: "year_of_era doe + 1 + 400 * era = 100 * (c + 4 * era) + 4 * (b + 1)"
      using that by (simp add: y a_def)
    have "(100 * (c + 4 * era) + 4 * (b + 1)) mod 100 = 4 * (b + 1)"
      using d(3) b by (intro int_mod_pos_eq [of _ _ "c + 4 * era"]) simp_all
    moreover have "4 * (b + 1) \<noteq> 0" using d(3) by simp
    ultimately have "(100 * (c + 4 * era) + 4 * (b + 1)) mod 100 \<noteq> 0" by (simp only: not_False_eq_True)
    moreover have "(100 * (c + 4 * era) + 4 * (b + 1)) mod 4 = 0" by presburger
    ultimately show ?thesis unfolding leap_year_def eq by blast
  qed
  moreover have "f = 1460 \<Longrightarrow> f - 365 * a = 365" by (simp add: a_def)
  ultimately show ?thesis using a d(1-4) unfolding g y by auto
qed

text \<open>The start of the March year, by era.\<close>

lemma march_start_era:
  assumes "0 \<le> y" "y < 400"
  shows "march_start (y + 400 * era) = 146097 * era + (365 * y + y div 4 - y div 100)"
proof -
  have "(y + 400 * era) div 4 = y div 4 + 100 * era" "(y + 400 * era) div 100 = y div 100 + 4 * era"
    "(y + 400 * era) div 400 = era"
    using assms div_mult_self2 [of 4 y "100 * era"] div_mult_self2 [of 100 y "4 * era"]
    by (simp_all add: mult.assoc [symmetric])
  thus ?thesis by (simp add: march_start_def)
qed

subsection \<open>The day of the year\<close>

text \<open>Month and day of a day of the March year, with 1 for the months of the next calendar year.\<close>

definition march_date :: "int \<Rightarrow> int \<times> int \<times> int" where
  "march_date doy =
     (let mp = (5 * doy + 2) div 153;
          m = (if mp < 10 then mp + 3 else mp - 9)
      in (if m \<le> 2 then 1 else 0, m, doy - (153 * mp + 2) div 5 + 1))"

text \<open>The next day, for a February of 28 days or, with \<open>l\<close>, 29.\<close>

definition next_date :: "bool \<Rightarrow> int \<times> int \<times> int \<Rightarrow> int \<times> int \<times> int" where
  "next_date l t =
     (case t of (y, m, d) \<Rightarrow>
        let len = (if m = 2 then (if l then 29 else 28)
                   else if m = 4 \<or> m = 6 \<or> m = 9 \<or> m = 11 then 30 else 31)
        in if d < len then (y, m, d + 1)
           else if m < 12 then (y, m + 1, 1) else (y + 1, 1, 1))"

definition shift_year :: "int \<Rightarrow> int \<times> int \<times> int \<Rightarrow> int \<times> int \<times> int" where
  "shift_year y t = (case t of (y', m, d) \<Rightarrow> (y + y', m, d))"

lemma next_day_shift:
  "next_day (shift_year y t) = shift_year y (next_date (leap_year (y + fst t)) t)"
  by (cases t) (simp add: shift_year_def next_date_def month_length_def)

text \<open>All the days of a year that are followed by a day of the same March year.\<close>

definition dates_follow :: "int list \<Rightarrow> bool" where
  "dates_follow ds =
     list_all (\<lambda>d. list_all (\<lambda>l. next_date l (march_date d) = march_date (d + 1)) [False, True]) ds"

lemma dates_follow_all: "dates_follow [0..363]"
  by code_simp

lemma march_date_follow:
  assumes "0 \<le> d" "d < 364"
  shows "next_date l (march_date d) = march_date (d + 1)"
proof -
  have "d \<in> set [0..363]" using assms by simp
  with dates_follow_all show ?thesis
    unfolding dates_follow_def list_all_iff by (cases l) auto
qed

lemma march_date_ends:
  "march_date 364 = (1, 2, 28)" "march_date 365 = (1, 2, 29)" "march_date 0 = (0, 3, 1)"
  by (simp_all add: march_date_def)

subsection \<open>The computation is the calendar\<close>

text \<open>What the computation finds: the March year of the day, and the date in it.\<close>

lemma civil_unfold:
  assumes "0 \<le> z" "z = days + 719468"
  shows "civil_from_days days =
    (let era = z div 146097; doe = z - era * 146097
     in shift_year (year_of_era doe + era * 400) (march_date (day_of_year doe)))"
proof -
  have "z sdiv 146097 = z div 146097"
    using assms(1) by (cases "z = 0") (simp_all add: signed_divide_int_def)
  hence era: "(if 0 \<le> z then z else z - 146096) sdiv 146097 = z div 146097"
    using assms(1) by (simp only: if_True)
  show ?thesis
    unfolding civil_from_days_def march_date_def shift_year_def day_of_year_def year_of_era_def
      Let_def assms(2) [symmetric] era prod.case ..
qed

lemma civil_march:
  assumes "0 \<le> z" "z = days + 719468"
  obtains y where "march_start y \<le> z" "z < march_start (y + 1)"
    "civil_from_days days = shift_year y (march_date (z - march_start y))"
proof -
  define era where "era = z div 146097"
  define doe where "doe = z - era * 146097"
  have doe: "0 \<le> doe" "doe < 146097"
    using pos_mod_sign [of 146097 z] pos_mod_bound [of 146097 z]
    by (simp_all add: doe_def era_def minus_div_mult_eq_mod)
  define y where "y = year_of_era doe + era * 400"
  have Y: "0 \<le> year_of_era doe" "year_of_era doe < 400" "0 \<le> day_of_year doe"
    "day_of_year doe < 365 \<or> day_of_year doe = 365 \<and> leap_year (y + 1)"
    using year_of_era_correct [OF doe, of era] by (simp_all add: y_def algebra_simps)
  have start: "march_start y = 146097 * era + (365 * year_of_era doe + year_of_era doe div 4 - year_of_era doe div 100)"
    unfolding y_def using march_start_era [OF Y(1,2), of era] by (simp only: mult.commute [of era])
  hence doy: "z - march_start y = day_of_year doe"
    by (simp add: day_of_year_def Let_def doe_def)
  have "civil_from_days days = shift_year y (march_date (day_of_year doe))"
    unfolding civil_unfold [OF assms] Let_def y_def doe_def era_def ..
  moreover have "march_start y \<le> z" "z < march_start (y + 1)"
    using doy Y(3,4) by (auto simp: march_start_Suc)
  ultimately show ?thesis using that doy by simp
qed

lemma civil_next_day:
  assumes "0 \<le> days"
  shows "civil_from_days (days + 1) = next_day (civil_from_days days)"
proof -
  define z where "z = days + 719468"
  have z: "0 \<le> z" "z = days + 719468" "0 \<le> z + 1" "z + 1 = (days + 1) + 719468"
    using assms by (simp_all add: z_def)
  from z(1,2) obtain y where y: "march_start y \<le> z" "z < march_start (y + 1)"
    "civil_from_days days = shift_year y (march_date (z - march_start y))"
    by (rule civil_march)
  from z(3,4) obtain y' where y': "march_start y' \<le> z + 1" "z + 1 < march_start (y' + 1)"
    "civil_from_days (days + 1) = shift_year y' (march_date (z + 1 - march_start y'))"
    by (rule civil_march)
  let ?d = "z - march_start y"
  have here: "next_day (civil_from_days days) =
      shift_year y (next_date (leap_year (y + fst (march_date ?d))) (march_date ?d))"
    unfolding y(3) by (rule next_day_shift)
  show ?thesis
  proof (cases "z + 1 < march_start (y + 1)")
    case True
    with y(1) y' have eq: "y' = y" by (intro march_year_unique [of y' "z + 1" y]) simp_all
    have "?d < 364 \<or> ?d = 364 \<and> leap_year (y + 1)"
      using True march_start_Suc [of y] by (auto split: if_splits)
    thus ?thesis
    proof
      assume "?d < 364"
      with y(1) have "next_date l (march_date ?d) = march_date (?d + 1)" for l
        by (intro march_date_follow) simp_all
      moreover have "?d + 1 = z + 1 - march_start y" by simp
      ultimately show ?thesis unfolding here y'(3) eq by metis
    next
      assume d: "?d = 364 \<and> leap_year (y + 1)"
      hence e: "z + 1 - march_start y = 365" "?d = 364" by simp_all
      from d show ?thesis unfolding here y'(3) eq e by (simp add: march_date_ends next_date_def)
    qed
  next
    case False
    with y(2) have start: "z + 1 = march_start (y + 1)" by simp
    have "march_start (y + 1) < march_start (y + 1 + 1)" using march_start_Suc [of "y + 1"] by (simp split: if_splits)
    with start y' have eq: "y' = y + 1" by (intro march_year_unique [of y' "z + 1" "y + 1"]) simp_all
    have "?d = (if leap_year (y + 1) then 365 else 364)"
      using start march_start_Suc [of y] by (cases "leap_year (y + 1)") simp_all
    moreover have "z + 1 - march_start (y + 1) = 0" using start by simp
    ultimately show ?thesis
      unfolding here y'(3) eq
      by (cases "leap_year (y + 1)") (simp_all add: march_date_ends next_date_def shift_year_def)
  qed
qed

text \<open>
  C39: The time stamp's date is the calendar's. For every day number since the epoch, the year,
  month and day the closed computation gives are those reached by counting days from 1 January
  1970 in the Gregorian calendar, with its month lengths and leap years.
\<close>

theorem civil_from_days_is_calendar:
  "civil_from_days (int n) = (next_day ^^ n) (1970, 1, 1)"
proof (induction n)
  case 0
  have "civil_from_days 0 = (1970, 1, 1)" by code_simp
  thus ?case by simp
next
  case (Suc n)
  have "civil_from_days (int (Suc n)) = civil_from_days (int n + 1)" by (simp add: add.commute)
  also have "\<dots> = next_day (civil_from_days (int n))" by (rule civil_next_day) simp
  finally show ?case by (simp only: Suc.IH funpow.simps o_apply)
qed

section \<open>The logger\<close>

record log_record =
  lr_level :: string
  lr_target :: string
  lr_args :: string

text \<open>The filter crate: parsing a specification, and the two tests the logger asks.\<close>

record 'f filter_crate =
  fc_parse :: "string \<Rightarrow> 'f"
  fc_enabled :: "'f \<Rightarrow> log_record \<Rightarrow> bool"
  fc_matches :: "'f \<Rightarrow> log_record \<Rightarrow> bool"

record 'f LoggerState =
  ls_filter :: 'f
  ls_file :: "string option"

text \<open>The logger's shared state, and what it has written: a file name or the error stream, and a line.\<close>

record 'f log_world =
  lw_logger :: "'f LoggerState option"
  lw_written :: "(string option \<times> string) list"

definition pad_right :: "nat \<Rightarrow> string \<Rightarrow> string" where
  "pad_right n s = s @ replicate (n - length s) CHR '' ''"

definition logger_enabled :: "'f filter_crate \<Rightarrow> log_record \<Rightarrow> 'f log_world \<Rightarrow> bool" where
  "logger_enabled F r w = (case lw_logger w of None \<Rightarrow> False | Some s \<Rightarrow> fc_enabled F (ls_filter s) r)"

definition log_line :: "(nat \<times> nat) option \<Rightarrow> log_record \<Rightarrow> string" where
  "log_line now r =
     ''['' @ utc_timestamp now @ '' '' @ pad_right 5 (lr_level r) @ '' '' @ lr_target r @ ''] '' @
     lr_args r @ [LF]"

definition logger_log ::
  "'f filter_crate \<Rightarrow> (nat \<times> nat) option \<Rightarrow> log_record \<Rightarrow> 'f log_world \<Rightarrow> 'f log_world" where
  "logger_log F now r w =
     (case lw_logger w of
        None \<Rightarrow> w
      | Some s \<Rightarrow>
          if \<not> fc_matches F (ls_filter s) r then w
          else w\<lparr>lw_written := lw_written w @ [(ls_file s, log_line now r)]\<rparr>)"

text \<open>
  \<open>rust_log\<close> is the environment variable, \<open>opens\<close> whether a file can be opened for appending;
  a file that cannot be opened leaves the logger on the error stream.
\<close>

definition log_spec :: "string option \<Rightarrow> string option \<Rightarrow> string" where
  "log_spec rust_log spec =
     (case rust_log of Some s \<Rightarrow> s | None \<Rightarrow> (case spec of Some s \<Rightarrow> s | None \<Rightarrow> ''warn''))"

definition init_logging ::
  "'f filter_crate \<Rightarrow> string option \<Rightarrow> (string \<Rightarrow> bool) \<Rightarrow> string option \<Rightarrow> string option \<Rightarrow>
   'f log_world \<Rightarrow> 'f log_world" where
  "init_logging F rust_log opens spec path w =
     w\<lparr>lw_logger := Some
        \<lparr>ls_filter = fc_parse F (log_spec rust_log spec),
         ls_file = Option.bind path (\<lambda>p. if opens p then Some p else None)\<rparr>\<rparr>"

text \<open>Initialising again replaces filter and target; what was written stays.\<close>

lemma init_logging_again:
  "init_logging F e2 o2 s2 p2 (init_logging F e1 o1 s1 p1 w) = init_logging F e2 o2 s2 p2 w"
  by (simp add: init_logging_def)

lemma init_logging_env_wins:
  "init_logging F (Some e) opn (Some s) p w = init_logging F (Some e) opn None p w"
  by (simp add: init_logging_def log_spec_def)

end
