(* ===== verification/Py_Modules.thy ===== *)
theory Py_Modules
  imports Py_Config
begin

text \<open>
  What \<^verbatim>\<open>import raydriver\<close> finds: the registration functions of \<^verbatim>\<open>src/python/\<close>, which
  build the tree of Python modules. PyO3's module object is a parameter: an abstract type with the operations the
  code calls, each of which may raise. A registration function receives a module and gives it back with
  the names it has added.
\<close>

section \<open>Modules\<close>

datatype 'm py_attr =
    PA_Text string
  | PA_Names "string list"
  | PA_Class string
  | PA_Function string
  | PA_Module 'm

record 'm module_lib =
  ml_new :: "string \<Rightarrow> (PyErr, 'm) result"                          \<comment> \<open>\<^verbatim>\<open>PyModule::new\<close>\<close>
  ml_setattr :: "string \<Rightarrow> 'm py_attr \<Rightarrow> 'm \<Rightarrow> (PyErr, 'm) result"
  ml_add :: "string \<Rightarrow> 'm py_attr \<Rightarrow> 'm \<Rightarrow> (PyErr, 'm) result"
  ml_add_class :: "string \<Rightarrow> 'm \<Rightarrow> (PyErr, 'm) result"
  ml_add_function :: "string \<Rightarrow> 'm \<Rightarrow> (PyErr, 'm) result"
  ml_add_submodule :: "'m \<Rightarrow> 'm \<Rightarrow> (PyErr, 'm) result"
  ml_name :: "'m \<Rightarrow> string"
  ml_attr :: "'m \<Rightarrow> string \<Rightarrow> 'm py_attr option"                    \<comment> \<open>\<^verbatim>\<open>getattr\<close> in Python\<close>
  ml_import :: "string \<Rightarrow> (PyErr, unit) result"
  ml_call_register :: "string \<Rightarrow> (PyErr, unit) result"              \<comment> \<open>\<^verbatim>\<open>atexit.register\<close>\<close>

text \<open>
  The documented behaviour relied on. A new module has its name and otherwise only names the interpreter gives
  it, which start with two underscores. Setting an attribute sets that attribute. Adding one sets it
  too, and may list its name in \<^verbatim>\<open>__all__\<close>.
\<close>

definition dunder :: "string \<Rightarrow> bool" where
  "dunder k \<longleftrightarrow> take 2 k = ''__''"

definition adds :: "'m module_lib \<Rightarrow> string \<Rightarrow> 'm py_attr \<Rightarrow> 'm \<Rightarrow> 'm \<Rightarrow> bool" where
  "adds L k v m m' \<longleftrightarrow>
     ml_name L m' = ml_name L m \<and> ml_attr L m' k = Some v \<and>
     (\<forall>j. j \<noteq> k \<longrightarrow> j \<noteq> ''__all__'' \<longrightarrow> ml_attr L m' j = ml_attr L m j) \<and>
     (\<forall>ns. k \<noteq> ''__all__'' \<longrightarrow> ml_attr L m ''__all__'' = Some (PA_Names ns) \<longrightarrow>
        ml_attr L m' ''__all__'' \<in> {Some (PA_Names ns), Some (PA_Names (ns @ [k]))})"

definition module_laws :: "'m module_lib \<Rightarrow> bool" where
  "module_laws L \<longleftrightarrow>
     (\<forall>n m. ml_new L n = Inr m \<longrightarrow> ml_name L m = n \<and> (\<forall>k. \<not> dunder k \<longrightarrow> ml_attr L m k = None)) \<and>
     (\<forall>k v m m'. ml_setattr L k v m = Inr m' \<longrightarrow> k \<noteq> ''__name__'' \<longrightarrow>
        ml_name L m' = ml_name L m \<and> ml_attr L m' k = Some v \<and> (\<forall>j. j \<noteq> k \<longrightarrow> ml_attr L m' j = ml_attr L m j)) \<and>
     (\<forall>k v m m'. ml_add L k v m = Inr m' \<longrightarrow> k \<noteq> ''__name__'' \<longrightarrow> adds L k v m m') \<and>
     (\<forall>c m m'. ml_add_class L c m = Inr m' \<longrightarrow> adds L c (PA_Class c) m m') \<and>
     (\<forall>f m m'. ml_add_function L f m = Inr m' \<longrightarrow> adds L f (PA_Function f) m m') \<and>
     (\<forall>s m m'. ml_add_submodule L s m = Inr m' \<longrightarrow> adds L (ml_name L s) (PA_Module s) m m')"

section \<open>Registration\<close>

text \<open>The calls of \<^verbatim>\<open>m.add_function(...)?\<close> and \<^verbatim>\<open>m.add_class::<C>()?\<close> one after the other.\<close>

primrec add_functions :: "'m module_lib \<Rightarrow> string list \<Rightarrow> 'm \<Rightarrow> (PyErr, 'm) result" where
  "add_functions L [] m = Inr m"
| "add_functions L (f # fs) m = tryR (ml_add_function L f m) (add_functions L fs)"

primrec add_classes :: "'m module_lib \<Rightarrow> string list \<Rightarrow> 'm \<Rightarrow> (PyErr, 'm) result" where
  "add_classes L [] m = Inr m"
| "add_classes L (c # cs) m = tryR (ml_add_class L c m) (add_classes L cs)"

definition core_doc :: string where
  "core_doc =
     ''Shared device primitives: transports, value types and session events. The protocol '' @
     ''namespaces (raydriver.grbl, raydriver.smoothie, raydriver.marlin) build on these.'' @
     [LF]"

definition types_doc :: string where
  "types_doc =
     ''Shared device value types: DeviceState, DeviceStatus and DeviceError. These mirror '' @
     ''the identically-named types in Rayforge so the Python shell can convert losslessly.'' @
     [LF]"

definition grbl_doc :: string where
  "grbl_doc =
     ''GRBL device drivers implemented in Rust.'' @
     [LF] @
     [LF] @
     ''The central type is GrblSession: it owns the connection lifecycle (handshake, status '' @
     ''polling, reconnect), interactive commands, and job streaming with character-counting '' @
     ''flow control, stall detection and deadlock recovery. GrblSimpleSession '' @
     ''(raydriver.grbl.simple) is the minimal alternative: strict ping-pong, for hardware '' @
     ''where the full driver misbehaves. Dialects remain data owned by Rayforge: resolved '' @
     ''command templates are passed into the session.'' @
     [LF]"

definition simple_doc :: string where
  "simple_doc =
     ''The minimal ping-pong GRBL session: one line at a time, waiting for each ok/error '' @
     ''acknowledgement. For hardware where the full driver misbehaves.'' @
     [LF]"

definition grbl_parser_doc :: string where
  "grbl_parser_doc =
     ''Pure parsers for GRBL response data: status reports, build info, settings, WCS '' @
     ''offsets, probe results and raw-output classification. All functions are side-effect '' @
     ''free.'' @
     [LF]"

definition marlin_doc :: string where
  "marlin_doc =
     ''Marlin device session: strict ping-pong commands, M114 position polling. Dialects '' @
     ''remain data owned by Rayforge: resolved command templates are passed into the '' @
     ''session.'' @
     [LF]"

definition marlin_parser_doc :: string where
  "marlin_parser_doc =
     ''Pure parsers for Marlin response data: ok/error classification, boot banners, M114 '' @
     ''positions, M115 firmware info and M149 units. All functions are side-effect free.'' @
     [LF]"

definition smoothie_doc :: string where
  "smoothie_doc =
     ''Smoothieware device session: strict ping-pong commands, Grbl-style status reports. '' @
     ''Dialects remain data owned by Rayforge: resolved command templates are passed into '' @
     ''the session.'' @
     [LF]"

definition register_types :: "'m module_lib \<Rightarrow> 'm \<Rightarrow> (PyErr, 'm) result" where
  "register_types L m =
     tryR (ml_setattr L ''__doc__'' (PA_Text types_doc) m) (\<lambda>m.
     tryR (ml_add L ''__all__'' (PA_Names [''DeviceState'', ''DeviceStatus'', ''DeviceError'']) m)
     (add_classes L [''DeviceStatus'', ''DeviceError'', ''DeviceState'']))"

definition register_core :: "'m module_lib \<Rightarrow> 'm \<Rightarrow> (PyErr, 'm) result" where
  "register_core L m =
     tryR (ml_new L ''core'') (\<lambda>core_mod.
     tryR (ml_setattr L ''__doc__'' (PA_Text core_doc) core_mod) (\<lambda>core_mod.
     tryR (ml_add L ''__all__'' (PA_Names [''SessionEvent'', ''types'', ''transport'']) core_mod) (\<lambda>core_mod.
     tryR (ml_add_class L ''SessionEvent'' core_mod) (\<lambda>core_mod.
     tryR (ml_new L ''transport'') (\<lambda>transport_mod.
     tryR (ml_setattr L ''__doc__'' (PA_Text ''Byte transports to devices: the mock transport for tests.'') transport_mod)
       (\<lambda>transport_mod.
     tryR (ml_add L ''__all__'' (PA_Names [''MockTransport'']) transport_mod) (\<lambda>transport_mod.
     tryR (ml_add_class L ''MockTransport'' transport_mod) (\<lambda>transport_mod.
     tryR (ml_add_submodule L transport_mod core_mod) (\<lambda>core_mod.
     tryR (ml_new L ''types'') (\<lambda>types_mod.
     tryR (register_types L types_mod) (\<lambda>types_mod.
     tryR (ml_add_submodule L types_mod core_mod) (\<lambda>core_mod.
     ml_add_submodule L core_mod m))))))))))))"

definition register_simple :: "'m module_lib \<Rightarrow> 'm \<Rightarrow> (PyErr, 'm) result" where
  "register_simple L m =
     tryR (ml_setattr L ''__doc__'' (PA_Text simple_doc) m) (\<lambda>m.
     tryR (ml_add L ''__all__'' (PA_Names [''GrblSimpleSession'']) m)
     (ml_add_class L ''GrblSimpleSession''))"

definition register_grbl_parser :: "'m module_lib \<Rightarrow> 'm \<Rightarrow> (PyErr, 'm) result" where
  "register_grbl_parser L m =
     tryR (ml_setattr L ''__doc__'' (PA_Text grbl_parser_doc) m) (\<lambda>m.
     tryR (ml_add L ''__all__'' (PA_Names
       [''parse_state'', ''parse_version'', ''parse_ver'', ''parse_opt_info'', ''parse_opt_flags'',
        ''parse_msg'', ''extract_device_name'', ''extract_device_name_from_output'',
        ''is_grbl_output'', ''strip_gcode_comments'', ''split_realtime_commands'',
        ''gcode_to_p_number'', ''version_supports_single_axis_homing'', ''parse_grbl_settings'',
        ''parse_setting_pairs'', ''parse_wcs_line'', ''parse_probe_line'',
        ''parse_grbl_parser_state'', ''detect_unit_system_from_settings'', ''is_report_in_inches'',
        ''error_code_to_device_error'', ''alarm_code_to_device_error'']) m)
     (add_functions L
       [''parse_state'', ''parse_version'', ''parse_ver'', ''parse_opt_info'', ''parse_opt_flags'',
        ''parse_msg'', ''extract_device_name'', ''extract_device_name_from_output'',
        ''is_grbl_output'', ''strip_gcode_comments'', ''split_realtime_commands'',
        ''gcode_to_p_number'', ''version_supports_single_axis_homing'', ''parse_grbl_settings'',
        ''parse_setting_pairs'', ''parse_wcs_line'', ''parse_probe_line'',
        ''parse_grbl_parser_state'', ''detect_unit_system_from_settings'', ''is_report_in_inches'',
        ''error_code_to_device_error'', ''alarm_code_to_device_error'']))"

definition register_grbl :: "'m module_lib \<Rightarrow> 'm \<Rightarrow> (PyErr, 'm) result" where
  "register_grbl L m =
     tryR (ml_new L ''grbl'') (\<lambda>grbl_mod.
     tryR (ml_setattr L ''__doc__'' (PA_Text grbl_doc) grbl_mod) (\<lambda>grbl_mod.
     tryR (ml_add L ''__all__'' (PA_Names [''GrblSession'', ''parser'']) grbl_mod) (\<lambda>grbl_mod.
     tryR (ml_add_class L ''GrblSession'' grbl_mod) (\<lambda>grbl_mod.
     tryR (ml_new L ''simple'') (\<lambda>simple_mod.
     tryR (register_simple L simple_mod) (\<lambda>simple_mod.
     tryR (ml_add_submodule L simple_mod grbl_mod) (\<lambda>grbl_mod.
     tryR (ml_new L ''parser'') (\<lambda>parser_mod.
     tryR (register_grbl_parser L parser_mod) (\<lambda>parser_mod.
     tryR (ml_add_submodule L parser_mod grbl_mod) (\<lambda>grbl_mod.
     ml_add_submodule L grbl_mod m))))))))))"

definition register_marlin_parser :: "'m module_lib \<Rightarrow> 'm \<Rightarrow> (PyErr, 'm) result" where
  "register_marlin_parser L m =
     tryR (ml_setattr L ''__doc__'' (PA_Text marlin_parser_doc) m) (\<lambda>m.
     tryR (ml_add L ''__all__'' (PA_Names
       [''is_ok_response'', ''is_error_response'', ''is_boot_message'', ''is_marlin_output'',
        ''extract_marlin_banner_from_output'', ''parse_m114_position'', ''parse_m114_line'',
        ''is_m114_position'', ''parse_marlin_version'', ''parse_error_message'',
        ''parse_m115_firmware_info'', ''parse_m211_endstops'', ''parse_m503_settings'',
        ''extract_marlin_device_name'', ''detect_unit_system_from_m149'']) m)
     (add_functions L
       [''is_ok_response'', ''is_error_response'', ''is_boot_message'', ''is_marlin_output'',
        ''extract_marlin_banner_from_output'', ''parse_m114_position'', ''parse_m114_line'',
        ''is_m114_position'', ''parse_marlin_version'', ''parse_error_message'',
        ''parse_m115_firmware_info'', ''parse_m211_endstops'', ''parse_m503_settings'',
        ''extract_marlin_device_name'', ''detect_unit_system_from_m149'']))"

definition register_marlin :: "'m module_lib \<Rightarrow> 'm \<Rightarrow> (PyErr, 'm) result" where
  "register_marlin L m =
     tryR (ml_new L ''marlin'') (\<lambda>marlin_mod.
     tryR (ml_setattr L ''__doc__'' (PA_Text marlin_doc) marlin_mod) (\<lambda>marlin_mod.
     tryR (ml_add L ''__all__'' (PA_Names [''MarlinSession'', ''parser'']) marlin_mod) (\<lambda>marlin_mod.
     tryR (ml_add_class L ''MarlinSession'' marlin_mod) (\<lambda>marlin_mod.
     tryR (ml_new L ''parser'') (\<lambda>parser_mod.
     tryR (register_marlin_parser L parser_mod) (\<lambda>parser_mod.
     tryR (ml_add_submodule L parser_mod marlin_mod) (\<lambda>marlin_mod.
     ml_add_submodule L marlin_mod m)))))))"

definition register_smoothie :: "'m module_lib \<Rightarrow> 'm \<Rightarrow> (PyErr, 'm) result" where
  "register_smoothie L m =
     tryR (ml_new L ''smoothie'') (\<lambda>smoothie_mod.
     tryR (ml_setattr L ''__doc__'' (PA_Text smoothie_doc) smoothie_mod) (\<lambda>smoothie_mod.
     tryR (ml_add L ''__all__'' (PA_Names [''SmoothieSession'']) smoothie_mod) (\<lambda>smoothie_mod.
     tryR (ml_add_class L ''SmoothieSession'' smoothie_mod) (\<lambda>smoothie_mod.
     ml_add_submodule L smoothie_mod m))))"

text \<open>The hooks handed to \<^verbatim>\<open>atexit\<close> are returned beside the module, which is not changed.\<close>

definition register_atexit_hook :: "'m module_lib \<Rightarrow> 'm \<Rightarrow> (PyErr, 'm \<times> string list) result" where
  "register_atexit_hook L m =
     tryR (ml_import L ''atexit'') (\<lambda>_.
     tryR (ml_call_register L ''_shutdown_runtime'') (\<lambda>_. Inr (m, [''_shutdown_runtime''])))"

definition register_raydriver :: "'m module_lib \<Rightarrow> 'm \<Rightarrow> (PyErr, 'm \<times> string list) result" where
  "register_raydriver L m =
     tryR (ml_add_function L ''init_logging'' m) (\<lambda>m.
     tryR (register_core L m) (\<lambda>m.
     tryR (register_grbl L m) (\<lambda>m.
     tryR (register_marlin L m) (\<lambda>m.
     tryR (register_smoothie L m) (\<lambda>m.
     register_atexit_hook L m)))))"

section \<open>The tree that results\<close>

lemma module_lawsD:
  assumes "module_laws L"
  shows "ml_new L n = Inr m \<Longrightarrow> ml_name L m = n \<and> (\<forall>k. \<not> dunder k \<longrightarrow> ml_attr L m k = None)"
    "ml_setattr L k v m = Inr m' \<Longrightarrow> k \<noteq> ''__name__'' \<Longrightarrow>
       ml_name L m' = ml_name L m \<and> ml_attr L m' k = Some v \<and> (\<forall>j. j \<noteq> k \<longrightarrow> ml_attr L m' j = ml_attr L m j)"
    "ml_add L k v m = Inr m' \<Longrightarrow> k \<noteq> ''__name__'' \<Longrightarrow> adds L k v m m'"
    "ml_add_class L k m = Inr m' \<Longrightarrow> adds L k (PA_Class k) m m'"
    "ml_add_function L k m = Inr m' \<Longrightarrow> adds L k (PA_Function k) m m'"
    "ml_add_submodule L s m = Inr m' \<Longrightarrow> adds L (ml_name L s) (PA_Module s) m m'"
  using assms by (simp_all add: module_laws_def)

text \<open>
  A module under construction: \<open>E\<close> are the names added so far, latest first; \<open>listed\<close> says that
  \<^verbatim>\<open>__all__\<close> holds the names it was set to, and besides only added ones.
\<close>

definition has_names :: "'m module_lib \<Rightarrow> (string \<times> 'm py_attr) list \<Rightarrow> 'm \<Rightarrow> bool" where
  "has_names L E m \<longleftrightarrow> (\<forall>k. \<not> dunder k \<longrightarrow> ml_attr L m k = map_of E k)"

definition listed :: "'m module_lib \<Rightarrow> string list \<Rightarrow> string list \<Rightarrow> 'm \<Rightarrow> bool" where
  "listed L ns ks m \<longleftrightarrow>
     (\<exists>ns'. ml_attr L m ''__all__'' = Some (PA_Names ns') \<and> set ns \<subseteq> set ns' \<and> set ns' \<subseteq> set ns \<union> set ks)"

definition built :: "'m module_lib \<Rightarrow> string \<Rightarrow> string list \<Rightarrow> (string \<times> 'm py_attr) list \<Rightarrow> 'm \<Rightarrow> bool" where
  "built L n ns E m \<longleftrightarrow> ml_name L m = n \<and> has_names L E m \<and> listed L ns (map fst E) m"

lemma dunder_names [simp]: "dunder ''__all__''" "dunder ''__doc__''" "dunder ''__name__''"
  by (simp_all add: dunder_def)

lemma not_dunder: "\<not> dunder k \<Longrightarrow> k \<noteq> ''__all__'' \<and> k \<noteq> ''__doc__''"
  by (metis dunder_names(1,2))

lemma has_names_added:
  assumes "adds L k v m m'" "has_names L E m"
  shows "has_names L ((k, v) # E) m'"
  unfolding has_names_def
proof (intro allI impI)
  fix j
  assume j: "\<not> dunder j"
  with assms(1) not_dunder [OF j] have "ml_attr L m' j = (if j = k then Some v else ml_attr L m j)"
    by (simp add: adds_def)
  with assms(2) j show "ml_attr L m' j = map_of ((k, v) # E) j" by (simp add: has_names_def)
qed

lemma built_added:
  assumes "adds L k v m m'" "built L n ns E m" "\<not> dunder k"
  shows "built L n ns ((k, v) # E) m'"
proof -
  have k: "k \<noteq> ''__all__''" using not_dunder [OF assms(3)] by simp
  from assms(2) obtain ns' where "ml_attr L m ''__all__'' = Some (PA_Names ns')" "set ns \<subseteq> set ns'"
    "set ns' \<subseteq> set ns \<union> set (map fst E)" unfolding built_def listed_def by blast
  moreover from this(1) assms(1) k
  have "ml_attr L m' ''__all__'' \<in> {Some (PA_Names ns'), Some (PA_Names (ns' @ [k]))}" by (simp add: adds_def)
  ultimately have "listed L ns (map fst ((k, v) # E)) m'" unfolding listed_def by auto
  with assms(1,2) has_names_added [OF assms(1)] show ?thesis by (simp add: built_def adds_def)
qed

lemma built_functions:
  "module_laws L \<Longrightarrow> add_functions L fs m = Inr m' \<Longrightarrow> built L n ns E m \<Longrightarrow> list_all (\<lambda>f. \<not> dunder f) fs \<Longrightarrow>
     built L n ns (rev (map (\<lambda>f. (f, PA_Function f)) fs) @ E) m'"
proof (induction fs arbitrary: m E)
  case (Cons f fs)
  then show ?case by (fastforce simp: tryR_Inr dest: module_lawsD(5) built_added)
qed simp

lemma built_classes:
  "module_laws L \<Longrightarrow> add_classes L cs m = Inr m' \<Longrightarrow> built L n ns E m \<Longrightarrow> list_all (\<lambda>c. \<not> dunder c) cs \<Longrightarrow>
     built L n ns (rev (map (\<lambda>c. (c, PA_Class c)) cs) @ E) m'"
proof (induction cs arbitrary: m E)
  case (Cons c cs)
  then show ?case by (fastforce simp: tryR_Inr dest: module_lawsD(4) built_added)
qed simp

text \<open>Every registration starts with the documentation and the list of names, on a fresh module.\<close>

lemma built_start:
  assumes "module_laws L" "ml_new L n = Inr m0" "ml_setattr L ''__doc__'' v m0 = Inr m1"
    "ml_add L ''__all__'' (PA_Names ns) m1 = Inr m2"
  shows "built L n ns [] m2"
proof -
  note laws = module_lawsD(1) [OF assms(1,2)] module_lawsD(2) [OF assms(1,3)] module_lawsD(3) [OF assms(1,4)]
  have "''__doc__'' \<noteq> ''__name__''" "''__all__'' \<noteq> ''__name__''" by simp_all
  with laws have n: "ml_name L m2 = n" "ml_attr L m2 ''__all__'' = Some (PA_Names ns)" by (simp_all add: adds_def)
  have "ml_attr L m2 k = None" if "\<not> dunder k" for k
    using laws that not_dunder [OF that] by (simp add: adds_def)
  with n show ?thesis by (simp add: built_def has_names_def listed_def)
qed

lemma built_class:
  "module_laws L \<Longrightarrow> ml_add_class L c m = Inr m' \<Longrightarrow> built L n ns E m \<Longrightarrow> \<not> dunder c \<Longrightarrow>
     built L n ns ((c, PA_Class c) # E) m'"
  by (blast intro: built_added module_lawsD(4))

lemma built_submodule:
  "module_laws L \<Longrightarrow> ml_add_submodule L s m = Inr m' \<Longrightarrow> built L n ns E m \<Longrightarrow> built L k ks F s \<Longrightarrow> \<not> dunder k \<Longrightarrow>
     built L n ns ((k, PA_Module s) # E) m'"
  by (metis built_added module_lawsD(6) built_def)

text \<open>What each registration function builds.\<close>

definition grbl_parser_names :: "string list" where
  "grbl_parser_names =
       [''parse_state'', ''parse_version'', ''parse_ver'', ''parse_opt_info'', ''parse_opt_flags'',
        ''parse_msg'', ''extract_device_name'', ''extract_device_name_from_output'',
        ''is_grbl_output'', ''strip_gcode_comments'', ''split_realtime_commands'',
        ''gcode_to_p_number'', ''version_supports_single_axis_homing'', ''parse_grbl_settings'',
        ''parse_setting_pairs'', ''parse_wcs_line'', ''parse_probe_line'',
        ''parse_grbl_parser_state'', ''detect_unit_system_from_settings'', ''is_report_in_inches'',
        ''error_code_to_device_error'', ''alarm_code_to_device_error'']"

definition marlin_parser_names :: "string list" where
  "marlin_parser_names =
       [''is_ok_response'', ''is_error_response'', ''is_boot_message'', ''is_marlin_output'',
        ''extract_marlin_banner_from_output'', ''parse_m114_position'', ''parse_m114_line'',
        ''is_m114_position'', ''parse_marlin_version'', ''parse_error_message'',
        ''parse_m115_firmware_info'', ''parse_m211_endstops'', ''parse_m503_settings'',
        ''extract_marlin_device_name'', ''detect_unit_system_from_m149'']"

definition as_functions :: "string list \<Rightarrow> (string \<times> 'm py_attr) list" where
  "as_functions fs = rev (map (\<lambda>f. (f, PA_Function f)) fs)"

lemma grbl_parser_built:
  assumes "module_laws L" "ml_new L ''parser'' = Inr m" "register_grbl_parser L m = Inr m'"
  shows "built L ''parser'' grbl_parser_names (as_functions grbl_parser_names) m'"
proof -
  from assms(3) obtain m1 m2 where m: "ml_setattr L ''__doc__'' (PA_Text grbl_parser_doc) m = Inr m1"
    "ml_add L ''__all__'' (PA_Names grbl_parser_names) m1 = Inr m2" "add_functions L grbl_parser_names m2 = Inr m'"
    unfolding register_grbl_parser_def grbl_parser_names_def [symmetric] by (auto simp only: tryR_Inr)
  have "list_all (\<lambda>f. \<not> dunder f) grbl_parser_names" by code_simp
  with built_functions [OF assms(1) m(3) built_start [OF assms(1,2) m(1,2)]] show ?thesis by (simp add: as_functions_def)
qed

lemma marlin_parser_built:
  assumes "module_laws L" "ml_new L ''parser'' = Inr m" "register_marlin_parser L m = Inr m'"
  shows "built L ''parser'' marlin_parser_names (as_functions marlin_parser_names) m'"
proof -
  from assms(3) obtain m1 m2 where m: "ml_setattr L ''__doc__'' (PA_Text marlin_parser_doc) m = Inr m1"
    "ml_add L ''__all__'' (PA_Names marlin_parser_names) m1 = Inr m2" "add_functions L marlin_parser_names m2 = Inr m'"
    unfolding register_marlin_parser_def marlin_parser_names_def [symmetric] by (auto simp only: tryR_Inr)
  have "list_all (\<lambda>f. \<not> dunder f) marlin_parser_names" by code_simp
  with built_functions [OF assms(1) m(3) built_start [OF assms(1,2) m(1,2)]] show ?thesis by (simp add: as_functions_def)
qed

lemma types_built:
  assumes "module_laws L" "ml_new L ''types'' = Inr m" "register_types L m = Inr m'"
  shows "built L ''types'' [''DeviceState'', ''DeviceStatus'', ''DeviceError'']
    (map (\<lambda>c. (c, PA_Class c)) [''DeviceState'', ''DeviceError'', ''DeviceStatus'']) m'"
proof -
  from assms(3) obtain m1 m2 where m: "ml_setattr L ''__doc__'' (PA_Text types_doc) m = Inr m1"
    "ml_add L ''__all__'' (PA_Names [''DeviceState'', ''DeviceStatus'', ''DeviceError'']) m1 = Inr m2"
    "add_classes L [''DeviceStatus'', ''DeviceError'', ''DeviceState''] m2 = Inr m'"
    unfolding register_types_def by (auto simp only: tryR_Inr)
  with built_classes [OF assms(1) m(3) built_start [OF assms(1,2) m(1,2)]] show ?thesis by (simp add: dunder_def)
qed

lemma simple_built:
  assumes "module_laws L" "ml_new L ''simple'' = Inr m" "register_simple L m = Inr m'"
  shows "built L ''simple'' [''GrblSimpleSession''] [(''GrblSimpleSession'', PA_Class ''GrblSimpleSession'')] m'"
proof -
  from assms(3) obtain m1 m2 where m: "ml_setattr L ''__doc__'' (PA_Text simple_doc) m = Inr m1"
    "ml_add L ''__all__'' (PA_Names [''GrblSimpleSession'']) m1 = Inr m2" "ml_add_class L ''GrblSimpleSession'' m2 = Inr m'"
    unfolding register_simple_def by (auto simp only: tryR_Inr)
  from built_class [OF assms(1) m(3) built_start [OF assms(1,2) m(1,2)]] show ?thesis by (simp add: dunder_def)
qed

text \<open>The modules of the tree, each with the names added to it.\<close>

definition core_tree :: "'m module_lib \<Rightarrow> 'm \<Rightarrow> 'm \<Rightarrow> 'm \<Rightarrow> bool" where
  "core_tree L c t y \<longleftrightarrow>
     built L ''core'' [''SessionEvent'', ''types'', ''transport'']
       [(''types'', PA_Module y), (''transport'', PA_Module t), (''SessionEvent'', PA_Class ''SessionEvent'')] c \<and>
     built L ''transport'' [''MockTransport''] [(''MockTransport'', PA_Class ''MockTransport'')] t \<and>
     built L ''types'' [''DeviceState'', ''DeviceStatus'', ''DeviceError'']
       (map (\<lambda>c. (c, PA_Class c)) [''DeviceState'', ''DeviceError'', ''DeviceStatus'']) y"

definition grbl_tree :: "'m module_lib \<Rightarrow> 'm \<Rightarrow> 'm \<Rightarrow> 'm \<Rightarrow> bool" where
  "grbl_tree L g s p \<longleftrightarrow>
     built L ''grbl'' [''GrblSession'', ''parser'']
       [(''parser'', PA_Module p), (''simple'', PA_Module s), (''GrblSession'', PA_Class ''GrblSession'')] g \<and>
     built L ''simple'' [''GrblSimpleSession''] [(''GrblSimpleSession'', PA_Class ''GrblSimpleSession'')] s \<and>
     built L ''parser'' grbl_parser_names (as_functions grbl_parser_names) p"

definition marlin_tree :: "'m module_lib \<Rightarrow> 'm \<Rightarrow> 'm \<Rightarrow> bool" where
  "marlin_tree L g p \<longleftrightarrow>
     built L ''marlin'' [''MarlinSession'', ''parser'']
       [(''parser'', PA_Module p), (''MarlinSession'', PA_Class ''MarlinSession'')] g \<and>
     built L ''parser'' marlin_parser_names (as_functions marlin_parser_names) p"

definition smoothie_tree :: "'m module_lib \<Rightarrow> 'm \<Rightarrow> bool" where
  "smoothie_tree L g \<longleftrightarrow>
     built L ''smoothie'' [''SmoothieSession''] [(''SmoothieSession'', PA_Class ''SmoothieSession'')] g"

lemma core_built:
  assumes "module_laws L" "register_core L m = Inr m'"
  shows "\<exists>c t y. adds L ''core'' (PA_Module c) m m' \<and> core_tree L c t y"
proof -
  let ?ns = "[''SessionEvent'', ''types'', ''transport'']"
  from assms(2) obtain c0 c1 c2 c3 t0 t1 t2 t3 c4 y0 y1 c5 where
    c: "ml_new L ''core'' = Inr c0" "ml_setattr L ''__doc__'' (PA_Text core_doc) c0 = Inr c1"
      "ml_add L ''__all__'' (PA_Names ?ns) c1 = Inr c2" "ml_add_class L ''SessionEvent'' c2 = Inr c3" and
    t: "ml_new L ''transport'' = Inr t0"
      "ml_setattr L ''__doc__'' (PA_Text ''Byte transports to devices: the mock transport for tests.'') t0 = Inr t1"
      "ml_add L ''__all__'' (PA_Names [''MockTransport'']) t1 = Inr t2" "ml_add_class L ''MockTransport'' t2 = Inr t3" and
    s: "ml_add_submodule L t3 c3 = Inr c4" "ml_new L ''types'' = Inr y0" "register_types L y0 = Inr y1"
      "ml_add_submodule L y1 c4 = Inr c5" "ml_add_submodule L c5 m = Inr m'"
    unfolding register_core_def by (auto simp only: tryR_Inr)
  note L = assms(1)
  have d: "\<not> dunder ''SessionEvent''" "\<not> dunder ''MockTransport''" "\<not> dunder ''transport''" "\<not> dunder ''types''"
    by (simp_all add: dunder_def)
  note bt = built_class [OF L t(4) built_start [OF L t(1-3)] d(2)] and bty = types_built [OF L s(2,3)]
  note bc = built_submodule [OF L s(4) built_submodule [OF L s(1) built_class [OF L c(4) built_start [OF L c(1-3)] d(1)] bt d(3)] bty d(4)]
  have "ml_name L c5 = ''core''" using bc by (simp add: built_def)
  with module_lawsD(6) [OF L s(5)] have "adds L ''core'' (PA_Module c5) m m'" by simp
  with bt bty bc show ?thesis unfolding core_tree_def by blast
qed

lemma grbl_built:
  assumes "module_laws L" "register_grbl L m = Inr m'"
  shows "\<exists>g s p. adds L ''grbl'' (PA_Module g) m m' \<and> grbl_tree L g s p"
proof -
  from assms(2) obtain g0 g1 g2 g3 s0 s1 g4 p0 p1 g5 where
    g: "ml_new L ''grbl'' = Inr g0" "ml_setattr L ''__doc__'' (PA_Text grbl_doc) g0 = Inr g1"
      "ml_add L ''__all__'' (PA_Names [''GrblSession'', ''parser'']) g1 = Inr g2" "ml_add_class L ''GrblSession'' g2 = Inr g3" and
    s: "ml_new L ''simple'' = Inr s0" "register_simple L s0 = Inr s1" "ml_add_submodule L s1 g3 = Inr g4" and
    p: "ml_new L ''parser'' = Inr p0" "register_grbl_parser L p0 = Inr p1" "ml_add_submodule L p1 g4 = Inr g5"
      "ml_add_submodule L g5 m = Inr m'"
    unfolding register_grbl_def by (auto simp only: tryR_Inr)
  note L = assms(1)
  have d: "\<not> dunder ''GrblSession''" "\<not> dunder ''simple''" "\<not> dunder ''parser''" by (simp_all add: dunder_def)
  note bs = simple_built [OF L s(1,2)] and bp = grbl_parser_built [OF L p(1,2)]
  note bg = built_submodule [OF L p(3) built_submodule [OF L s(3) built_class [OF L g(4) built_start [OF L g(1-3)] d(1)] bs d(2)] bp d(3)]
  have "ml_name L g5 = ''grbl''" using bg by (simp add: built_def)
  with module_lawsD(6) [OF L p(4)] have "adds L ''grbl'' (PA_Module g5) m m'" by simp
  with bs bp bg show ?thesis unfolding grbl_tree_def by blast
qed

lemma marlin_built:
  assumes "module_laws L" "register_marlin L m = Inr m'"
  shows "\<exists>g p. adds L ''marlin'' (PA_Module g) m m' \<and> marlin_tree L g p"
proof -
  from assms(2) obtain g0 g1 g2 g3 p0 p1 g5 where
    g: "ml_new L ''marlin'' = Inr g0" "ml_setattr L ''__doc__'' (PA_Text marlin_doc) g0 = Inr g1"
      "ml_add L ''__all__'' (PA_Names [''MarlinSession'', ''parser'']) g1 = Inr g2" "ml_add_class L ''MarlinSession'' g2 = Inr g3" and
    p: "ml_new L ''parser'' = Inr p0" "register_marlin_parser L p0 = Inr p1" "ml_add_submodule L p1 g3 = Inr g5"
      "ml_add_submodule L g5 m = Inr m'"
    unfolding register_marlin_def by (auto simp only: tryR_Inr)
  note L = assms(1)
  have d: "\<not> dunder ''MarlinSession''" "\<not> dunder ''parser''" by (simp_all add: dunder_def)
  note bp = marlin_parser_built [OF L p(1,2)]
  note bg = built_submodule [OF L p(3) built_class [OF L g(4) built_start [OF L g(1-3)] d(1)] bp d(2)]
  have "ml_name L g5 = ''marlin''" using bg by (simp add: built_def)
  with module_lawsD(6) [OF L p(4)] have "adds L ''marlin'' (PA_Module g5) m m'" by simp
  with bp bg show ?thesis unfolding marlin_tree_def by blast
qed

lemma smoothie_built:
  assumes "module_laws L" "register_smoothie L m = Inr m'"
  shows "\<exists>g. adds L ''smoothie'' (PA_Module g) m m' \<and> smoothie_tree L g"
proof -
  from assms(2) obtain g0 g1 g2 g3 where
    g: "ml_new L ''smoothie'' = Inr g0" "ml_setattr L ''__doc__'' (PA_Text smoothie_doc) g0 = Inr g1"
      "ml_add L ''__all__'' (PA_Names [''SmoothieSession'']) g1 = Inr g2" "ml_add_class L ''SmoothieSession'' g2 = Inr g3"
      "ml_add_submodule L g3 m = Inr m'"
    unfolding register_smoothie_def by (auto simp only: tryR_Inr)
  note L = assms(1)
  have "\<not> dunder ''SmoothieSession''" by (simp add: dunder_def)
  note bg = built_class [OF L g(4) built_start [OF L g(1-3)] this]
  have "ml_name L g3 = ''smoothie''" using bg by (simp add: built_def)
  with module_lawsD(6) [OF L g(5)] have "adds L ''smoothie'' (PA_Module g3) m m'" by simp
  with bg show ?thesis unfolding smoothie_tree_def by blast
qed

text \<open>The root module, with the names registration has added.\<close>

definition root_tree :: "'m module_lib \<Rightarrow> 'm \<Rightarrow> 'm \<Rightarrow> 'm \<Rightarrow> 'm \<Rightarrow> 'm \<Rightarrow> bool" where
  "root_tree L m c g a z \<longleftrightarrow>
     has_names L
       [(''smoothie'', PA_Module z), (''marlin'', PA_Module a), (''grbl'', PA_Module g), (''core'', PA_Module c),
        (''init_logging'', PA_Function ''init_logging'')] m"

lemma raydriver_built:
  assumes "module_laws L" "ml_new L ''raydriver'' = Inr m" "register_raydriver L m = Inr (m', hooks)"
  shows "\<exists>c t y g s p a q z. root_tree L m' c g a z \<and> core_tree L c t y \<and> grbl_tree L g s p \<and>
    marlin_tree L a q \<and> smoothie_tree L z \<and> hooks = [''_shutdown_runtime'']"
proof -
  from assms(3) obtain m1 m2 m3 m4 where
    r: "ml_add_function L ''init_logging'' m = Inr m1" "register_core L m1 = Inr m2" "register_grbl L m2 = Inr m3"
      "register_marlin L m3 = Inr m4" "register_smoothie L m4 = Inr m'" "hooks = [''_shutdown_runtime'']"
    unfolding register_raydriver_def register_atexit_hook_def by (auto simp only: tryR_Inr prod.inject sum.inject)
  note L = assms(1)
  have "has_names L [] m" using module_lawsD(1) [OF L assms(2)] by (simp add: has_names_def)
  note n1 = has_names_added [OF module_lawsD(5) [OF L r(1)] this]
  from core_built [OF L r(2)] obtain c t y where c: "adds L ''core'' (PA_Module c) m1 m2" "core_tree L c t y" by blast
  from grbl_built [OF L r(3)] obtain g s p where g: "adds L ''grbl'' (PA_Module g) m2 m3" "grbl_tree L g s p" by blast
  from marlin_built [OF L r(4)] obtain a q where a: "adds L ''marlin'' (PA_Module a) m3 m4" "marlin_tree L a q" by blast
  from smoothie_built [OF L r(5)] obtain z where z: "adds L ''smoothie'' (PA_Module z) m4 m'" "smoothie_tree L z" by blast
  note has_names_added [OF z(1) has_names_added [OF a(1) has_names_added [OF g(1) has_names_added [OF c(1) n1]]]]
  then have "root_tree L m' c g a z" by (simp only: root_tree_def)
  with c(2) g(2) a(2) z(2) r(6) show ?thesis by blast
qed

section \<open>What Python code can import\<close>

fun module_at :: "'m module_lib \<Rightarrow> 'm \<Rightarrow> string list \<Rightarrow> 'm option" where
  "module_at L m [] = Some m"
| "module_at L m (n # ns) =
     (case ml_attr L m n of Some (PA_Module s) \<Rightarrow> module_at L s ns | _ \<Rightarrow> None)"

text \<open>
  A module offers classes and functions: each is found under its name, \<^verbatim>\<open>__all__\<close> lists
  them, and every name it lists exists (\<^verbatim>\<open>from m import *\<close> does not fail).
\<close>

definition offers :: "'m module_lib \<Rightarrow> 'm \<Rightarrow> string list \<Rightarrow> string list \<Rightarrow> bool" where
  "offers L s cs fs \<longleftrightarrow>
     list_all (\<lambda>c. ml_attr L s c = Some (PA_Class c)) cs \<and> list_all (\<lambda>f. ml_attr L s f = Some (PA_Function f)) fs \<and>
     (\<exists>ns. ml_attr L s ''__all__'' = Some (PA_Names ns) \<and> set (cs @ fs) \<subseteq> set ns \<and>
        list_all (\<lambda>n. ml_attr L s n \<noteq> None) ns)"

lemma built_offers:
  assumes "built L n ns E s" "list_all (\<lambda>k. \<not> dunder k) (map fst E)"
    "list_all (\<lambda>c. map_of E c = Some (PA_Class c)) cs" "list_all (\<lambda>f. map_of E f = Some (PA_Function f)) fs"
    "set (cs @ fs) \<subseteq> set ns" "set ns \<subseteq> set (map fst E)"
  shows "offers L s cs fs"
proof -
  have at: "ml_attr L s k = map_of E k" if "k \<in> set (map fst E)" for k
    using assms(1,2) that by (auto simp: built_def has_names_def list_all_iff)
  have key: "k \<in> set (map fst E)" if "map_of E k = Some v" for k v
    using map_of_SomeD [OF that] by force
  from assms(1) obtain ns' where ns': "ml_attr L s ''__all__'' = Some (PA_Names ns')" "set ns \<subseteq> set ns'"
    "set ns' \<subseteq> set ns \<union> set (map fst E)" unfolding built_def listed_def by blast
  have "ml_attr L s k \<noteq> None" if "k \<in> set ns'" for k
  proof -
    have "k \<in> set (map fst E)" using that ns'(3) assms(6) by blast
    with at show ?thesis by (simp add: map_of_eq_None_iff)
  qed
  moreover have "ml_attr L s c = Some (PA_Class c)" if "c \<in> set cs" for c
    using that assms(3) at [OF key, of c] by (simp add: list_all_iff)
  moreover have "ml_attr L s f = Some (PA_Function f)" if "f \<in> set fs" for f
    using that assms(4) at [OF key, of f] by (simp add: list_all_iff)
  ultimately show ?thesis using ns'(1,2) assms(5) unfolding offers_def by (auto simp: list_all_iff)
qed

lemma map_of_as_functions:
  assumes "f \<in> set fs"
  shows "(map_of (as_functions fs) f :: 'm py_attr option) = Some (PA_Function f)"
proof (cases "map_of (as_functions fs) f :: 'm py_attr option")
  case None
  with assms show ?thesis by (force simp: map_of_eq_None_iff as_functions_def)
next
  case (Some v)
  then have "(f, v) \<in> set (as_functions fs)" by (rule map_of_SomeD)
  with Some show ?thesis by (auto simp: as_functions_def)
qed

lemma keys_as_functions: "set (map fst (as_functions fs)) = set fs"
  by (induction fs) (simp_all add: as_functions_def)

lemma as_functions_offer:
  assumes "built L n fs (as_functions fs) s" "list_all (\<lambda>f. \<not> dunder f) fs"
  shows "offers L s [] fs"
proof (rule built_offers [OF assms(1)])
  show "list_all (\<lambda>k. \<not> dunder k) (map fst (as_functions fs))" "set fs \<subseteq> set (map fst (as_functions fs))"
    using assms(2) by (simp_all only: list_all_iff order_refl keys_as_functions)
qed (simp_all add: map_of_as_functions list_all_iff)

definition public_api :: "(string list \<times> string list \<times> string list) list" where
  "public_api =
     [([''core''], [''SessionEvent''], []), ([''core'', ''transport''], [''MockTransport''], []),
      ([''core'', ''types''], [''DeviceState'', ''DeviceStatus'', ''DeviceError''], []),
      ([''grbl''], [''GrblSession''], []), ([''grbl'', ''simple''], [''GrblSimpleSession''], []),
      ([''grbl'', ''parser''], [], grbl_parser_names), ([''marlin''], [''MarlinSession''], []),
      ([''marlin'', ''parser''], [], marlin_parser_names), ([''smoothie''], [''SmoothieSession''], [])]"


text \<open>A library with the documented behaviour: a module is its name and its attributes.\<close>

datatype std_module = Std_Module string "(string \<times> std_module py_attr) list"

fun std_attrs :: "std_module \<Rightarrow> (string \<times> std_module py_attr) list" where
  "std_attrs (Std_Module n E) = E"

fun std_name :: "std_module \<Rightarrow> string" where
  "std_name (Std_Module n E) = n"

definition std_set :: "string \<Rightarrow> std_module py_attr \<Rightarrow> std_module \<Rightarrow> std_module" where
  "std_set k v m = Std_Module (std_name m) ((k, v) # std_attrs m)"

definition std_index :: "std_module \<Rightarrow> string list" where
  "std_index m = (case map_of (std_attrs m) ''__all__'' of Some (PA_Names ns) \<Rightarrow> ns | _ \<Rightarrow> [])"

definition std_add :: "string \<Rightarrow> std_module py_attr \<Rightarrow> std_module \<Rightarrow> std_module" where
  "std_add k v m = std_set k v (std_set ''__all__'' (PA_Names (std_index m @ [k])) m)"

definition std_modules :: "std_module module_lib" where
  "std_modules =
     \<lparr>ml_new = \<lambda>n. Inr (Std_Module n [(''__name__'', PA_Text n)]),
      ml_setattr = \<lambda>k v m. Inr (std_set k v m), ml_add = \<lambda>k v m. Inr (std_add k v m),
      ml_add_class = \<lambda>c m. Inr (std_add c (PA_Class c) m), ml_add_function = \<lambda>f m. Inr (std_add f (PA_Function f) m),
      ml_add_submodule = \<lambda>s m. Inr (std_add (std_name s) (PA_Module s) m),
      ml_name = std_name, ml_attr = \<lambda>m k. map_of (std_attrs m) k,
      ml_import = \<lambda>_. Inr (), ml_call_register = \<lambda>_. Inr ()\<rparr>"

lemma std_add_adds: "adds std_modules k v m (std_add k v m)"
  by (simp add: adds_def std_modules_def std_add_def std_set_def std_index_def split: option.split py_attr.split)

lemma std_modules_laws: "module_laws std_modules"
proof -
  have "\<forall>k v m m'. ml_add std_modules k v m = Inr m' \<longrightarrow> adds std_modules k v m m'"
    "\<forall>c m m'. ml_add_class std_modules c m = Inr m' \<longrightarrow> adds std_modules c (PA_Class c) m m'"
    "\<forall>f m m'. ml_add_function std_modules f m = Inr m' \<longrightarrow> adds std_modules f (PA_Function f) m m'"
    "\<forall>s m m'. ml_add_submodule std_modules s m = Inr m' \<longrightarrow> adds std_modules (ml_name std_modules s) (PA_Module s) m m'"
    using std_add_adds by (simp_all add: std_modules_def)
  moreover have "\<forall>n m. ml_new std_modules n = Inr m \<longrightarrow> ml_name std_modules m = n \<and> (\<forall>k. \<not> dunder k \<longrightarrow> ml_attr std_modules m k = None)"
    by (auto simp: std_modules_def)
  ultimately show ?thesis unfolding module_laws_def by (auto simp: std_modules_def std_set_def)
qed


text \<open>
  The Python package \<^verbatim>\<open>raydriver.grbl.types\<close> looks its names up in the module at
  \<^verbatim>\<open>grbl.types\<close>, and the build imports \<^verbatim>\<open>DeviceState\<close> from it. No such module is
  registered: the types are only at \<^verbatim>\<open>core.types\<close>.
\<close>

theorem grbl_types_not_registered:
  assumes "module_laws L" "ml_new L ''raydriver'' = Inr m" "register_raydriver L m = Inr (m', hooks)"
  shows "module_at L m' [''grbl''] \<noteq> None \<and> module_at L m' [''grbl'', ''types''] = None"
proof -
  from raydriver_built [OF assms] obtain c g s p a z where
    "root_tree L m' c g a z" "grbl_tree L g s p" by blast
  then show ?thesis by (simp add: grbl_tree_def built_def has_names_def root_tree_def dunder_def)
qed

end
