(* ===== verification/Spec2Isabelle.thy ===== *)
theory Spec2Isabelle
  imports Grbl_Order Grbl_Replies Grbl_Size Grbl_Ops Grbl_Parser_Props Dialect Mute_Link Cancel_Link
    Simple_Live Smoothie_Live Marlin_Live End_To_End Marlin_Parser_Props Latch
    Py_Session_Props Py_Parsers Py_Log Py_Modules
begin

text \<open>
  \<^bold>\<open>The program.\<close> raydriver drives laser cutters and engravers over serial, telnet or a mock
  transport. A session owns the link to one controller: it shakes hands, polls the status, runs jobs
  (streams G-code lines), executes single commands and reports to its observer. There are four sessions:
  the full GRBL session with character-counting flow control, the minimal GRBL session, the Smoothieware
  session and the Marlin session; the last three send a line and wait for its acknowledgement. They share value types, command
  templates (dialects), session primitives and transports. The Python module on top builds sessions from
  dictionaries, turns calls into asyncio futures and carries the sessions' events to callbacks on the
  caller's event loop.

  \<^bold>\<open>Foundations.\<close>
  \<^item> \<open>Prelude\<close>, \<open>Rust_Str\<close>, \<open>F64\<close>: results, list lemmas, the operations of
    \<^verbatim>\<open>str\<close> (UTF-8 bytes as characters; trimming, splitting, integer parsing at their width) and
    binary64 numbers (reading, printing, arithmetic with rounding to nearest).
  \<^item> \<open>Regex\<close>: the \<^verbatim>\<open>regex\<close> crate is third-party code, so every parser takes it as an argument
    \<open>X :: regex_crate\<close>; \<open>regex_ok X\<close> says that on ASCII text it returns the leftmost-first match,
    and \<open>std_regex\<close> is a backtracking matcher that satisfies it. \<open>Marlin_Parser\<close> adds
    \<open>text_lib\<close> for the Unicode tables behind \<^verbatim>\<open>is_alphanumeric\<close> and \<^verbatim>\<open>to_lowercase\<close>, with
    \<open>text_ok\<close> and \<open>std_text\<close>; upper-casing is an argument \<open>uc\<close> of the operations that use it.
  \<^item> \<open>Async\<close>: a task runs undisturbed between two suspension points; what happens at a suspension point
    is a script of events (received chunks, the passing of the deadline in progress, cancel, loss of the link,
    a helper task, other callers taking and dropping the command lock). A task is a function from
    a session and a script to \<open>Ret\<close>, \<open>Blocked\<close> (the script ended while it waits, or it was aborted) or
    \<open>Panicked\<close>. A theorem for all scripts is a theorem for all interleavings at suspension points. No statement depends
    on the length of a time-out.
  \<^item> \<open>Connection\<close>: the loops of the connection tasks as locales (\<open>handshake_polling\<close>, \<open>polling\<close>,
    \<open>reconnecting\<close>).

  \<^bold>\<open>Components.\<close> A struct is a record with the fields of the source, a method a definition of
  the same name (with the prefix \<open>simple_\<close>, \<open>smoothie_\<close> or \<open>marlin_\<close> in the ping-pong sessions); objects
  shared by several tasks (\<^verbatim>\<open>Arc\<close>) live in a store and are named by their index; the observer's
  notifications are a log of \<open>event\<close>s; a transport keeps the log of what was written.
  \<^item> \<open>Core_Types\<close>, \<open>Core_Session\<close>, \<open>Dialect\<close>, \<open>Transport\<close>:
    \<^verbatim>\<open>src/core/types.rs\<close>, \<^verbatim>\<open>session.rs\<close>, \<^verbatim>\<open>dialect.rs\<close>, \<^verbatim>\<open>transport/\<close>. The transports
    are instances of one contract (\<open>transport_iface\<close>), what the operating system answers is a list of answers.
  \<^item> \<open>Latch\<close>: \<^verbatim>\<open>AsyncEvent\<close> and \<^verbatim>\<open>StreamHandle::abort_and_wait\<close> read by read and
    write by write, with \<^verbatim>\<open>tokio::sync::Notify\<close> as the parameter \<open>notify_crate\<close> (its documented laws are
    \<open>notify_laws\<close>; \<open>std_notify\<close> satisfies them). The sessions use the coarser reading of \<open>Core_Session\<close>, in
    which a wait is a test of the flag.
  \<^item> \<open>Grbl_Errors\<close>, \<open>Grbl_Parser\<close>: \<^verbatim>\<open>src/grbl/errors.rs\<close>, \<^verbatim>\<open>parser.rs\<close>.
  \<^item> \<open>Flow\<close>, \<open>Flow_Wait\<close>: \<^verbatim>\<open>src/grbl/flow.rs\<close>, extraction of acknowledgements from the
    byte stream, accounting, the two waits.
  \<^item> \<open>Grbl_Session\<close>, \<open>Grbl_Job\<close>, \<open>Grbl_Ops\<close>: \<^verbatim>\<open>src/grbl/session.rs\<close>, reply handlers and the
    command task; streaming with stalls, deadlock recovery, cancel, hold; connection and device operations.
  \<^item> \<open>Line_Rx\<close>: what the ping-pong sessions share (\<^verbatim>\<open>PendingCmd\<close>, the loop of
    \<^verbatim>\<open>handle_rx\<close>); \<open>Simple\<close>: \<^verbatim>\<open>src/grbl/simple.rs\<close>; \<open>Smoothie\<close>:
    \<^verbatim>\<open>src/smoothie/session.rs\<close>; \<open>Marlin_Parser\<close>, \<open>Marlin\<close>: \<^verbatim>\<open>src/marlin/\<close>.
    Their records have fields that are not state of the session but of the tasks around it:
    the commands other callers will send, and in Marlin the poll in flight and the other caller's exchange.

  \<^item> The Python module, \<^verbatim>\<open>src/python/\<close>. \<open>Py_Types\<close> (\<^verbatim>\<open>core/types.rs\<close>): the values Python
    sees. \<open>Py_Queue\<close>: the contract of a queue with one wake-up per batch, as a locale that
    the event queue interprets. \<open>Py_Events\<close> (\<^verbatim>\<open>events.rs\<close>): the queue, the two schedule functions as programs whose
    critical sections (\<open>advance\<close>) other threads interleave, the drainer, and worlds of threads and event loops
    with labelled steps (\<open>exec\<close>, \<open>py_run\<close>). \<open>Py_Config\<close>: configuration, transport and dialect from
    dictionaries, with PyO3 as the parameter \<open>pyo3\<close>. \<open>Py_Sessions\<close>: futures, the runtime and the
    methods of the four session classes (prefixes \<open>pyg_\<close>, \<open>pys_\<close>, \<open>pyo_\<close>, \<open>pym_\<close> for GRBL, simple, Smoothie,
    Marlin). \<open>Py_Parsers\<close>: the exported parsers (\<open>pygp_\<close>, \<open>pymp_\<close>) and the mock transport. \<open>Py_Log\<close>
    (\<^verbatim>\<open>mod.rs\<close>): time stamps and the logger, with the filter crate as a parameter. \<open>Py_Modules\<close>
    (\<^verbatim>\<open>register\<close> of every \<^verbatim>\<open>mod.rs\<close>): the tree of Python modules, over the module objects of PyO3 as
    the parameter \<open>module_lib\<close>.

  \<^bold>\<open>What is shown.\<close>
  \<^item> Flow control (\<open>Flow\<close>, \<open>Flow_Safety\<close>, \<open>Flow_Stream\<close>): parsing a chunk refines a scan followed by
    charging the replies to the queue; on well-formed streams any division into chunks gives what a line
    reader gives; the outstanding bytes never exceed the receive buffer; which damaged
    acknowledgements are recognised.
  \<^item> The full GRBL session (\<open>Grbl_Inv\<close>, \<open>Grbl_Props\<close>, \<open>Grbl_Report\<close>, \<open>Grbl_Order\<close>): jobs put their
    lines on the wire once and in order; the byte accounting holds at every suspension point; a parked sender is woken;
    cancel, the end of a job, progress, error latching and the shown status.
  \<^item> Jobs come to their end (\<open>Ping_Pong_Live\<close>, \<open>Simple_Live\<close>, \<open>Smoothie_Live\<close>,
    \<open>Marlin_Live\<close>, \<open>Grbl_Live\<close>): on a link that is up, with a device that answers (its script is
    \<open>job_script\<close>, or \<open>ack_script\<close> with \<open>keeps_up\<close> for character counting), a job returns
    after exactly that script with every line on the wire and its end reported once. \<open>Grbl_Replies\<close>: a single command
    returns the lines of its reply, however they arrive. \<open>Latch\<close>: no wake-up is lost.
  \<^item> \<open>Grbl_Size\<close>: a configured buffer size is final, and a line longer than it is never sent.
    \<open>Cancel_Link\<close>: cancelling a job of a ping-pong session without a link reports no end. \<open>Mute_Link\<close>: a silent device is
    never reported as connected (the minimal session reports the open port).
  \<^item> Parsers and templates (\<open>Grbl_Parser_Props\<close>, \<open>Marlin_Parser_Props\<close>, \<open>Dialect\<close>): comment stripping equals a
    reference, positions of a status report are consistent, printed settings, offsets and positions are read back,
    codes keep their width, templates are formatted piece by piece.
  \<^item> The ping-pong sessions (\<open>Ping_Pong\<close> states the contracts as locales; \<open>Simple_Props\<close>,
    \<open>Smoothie_Props\<close>, \<open>Marlin_Props\<close> interpret them; \<open>Simple_Jobs\<close>, \<open>Smoothie_Jobs\<close>, \<open>Marlin_Jobs\<close> state the results): the order of a job
    on the wire, at most one unacknowledged line, the reply of an exchange, the end of a job, and runs in which the code does
    not do what its comments say. \<open>Links\<close>: the connection tasks.
  \<^item> The Python module. \<open>Py_Events_Props\<close>: an invariant of the reachable worlds, from which no event is lost,
    doubled or reordered and the queue never wedges while the loop is open; one signal per batch; runs in which a
    progress report is dropped, and that nothing is delivered after the loop is closed. \<open>Py_Config_Props\<close>: the configuration equals
    the dictionary or its defaults field by field and is well typed; which numbers wrap. \<open>Py_Session_Props\<close>: how
    futures settle, what a panic does to them, and that Python sees the event log of the core in order.
    \<open>Py_Log\<close>: the computed date is the one counted in the Gregorian calendar. \<open>Py_Modules\<close>: everything the package
    exports can be imported, and what one Python package looks for is nowhere registered.
  \<^item> \<open>End_To_End\<close>: a job run from Python settles its future, is on the wire, and its end is
    handled once more in Python, whichever threads report and however they are interleaved.
  \<^item> This theory: received bytes mean the same however they are divided into chunks, for the three line receivers.

  \<^bold>\<open>Bounds.\<close> The loops of the model end with the script of the environment, which is finite: their
  measure is its length. Only the connection loops take a bound on the number of attempts, one more than the
  events of the script; \<open>connection_bounds_suffice\<close> shows that it is never what ends them. The shortest-decimal
  printer of \<open>F64\<close> tries at most 17 digits, which identify every binary64 number.

  \<^bold>\<open>Not modelled.\<close> The crate root and the stub generator have no logic of their own. Log output of the drivers is left out, as are the watchdog that prints a heartbeat and
  the Python representations that quote text with the escapes of the standard library's Unicode tables.
  asyncio, PyO3 and the runtime appear only through what the code relies on: a closed loop runs nothing and accepts
  no handle, a loop runs one handle at a time, a task that panics runs no further. The bodies of the
  operating system's serial and socket calls are answers of the environment. Time-outs of the configuration are taken
  to be representable (\<^verbatim>\<open>Duration::from_secs_f64\<close> panics from 2^64 seconds on). Data races inside a synchronous section
  cannot occur in the model; in the source such sections are guarded by mutexes that are not held across a suspension point.
\<close>

section \<open>Line receivers\<close>

text \<open>
  C19: For the three sessions that read lines, only the bytes received matter, not how they were divided
  into chunks: handing over the chunks one by one leaves exactly the session that one call with all bytes leaves.
\<close>

theorem line_receivers_chunk_free:
  assumes "chunks \<noteq> []"
  shows "fold (simple_handle_rx X) chunks w = simple_handle_rx X (concat chunks) w \<and>
    fold (smoothie_handle_rx X) chunks v = smoothie_handle_rx X (concat chunks) v \<and>
    fold (marlin_handle_rx L) chunks u = marlin_handle_rx L (concat chunks) u"
  using assms by (simp add: simple_rx.rx_chunks smoothie_rx.rx_chunks marlin_rx.rx_chunks)

theorem line_receivers_chunk_free_witness:
  "fold (simple_handle_rx std_regex) [''o'', ''k'', [LF]] simple_demo =
   simple_handle_rx std_regex (''ok'' @ [LF]) simple_demo"
  using line_receivers_chunk_free [of "[''o'', ''k'', [LF]]", THEN conjunct1] by simp

end
